(* ===== verification/Prelude.thy ===== *)
theory Prelude
  imports Main "HOL-Library.Word"
begin

text \<open>
  Shared vocabulary of the development: the machine integer types of the C++ code, the
  little-endian views that \<^verbatim>\<open>std::memcpy\<close> gives of byte buffers, runs of a
  component over a list of inputs, and the contract that every source of frame rates has
  to keep.  The collections \<open>width_simps\<close> and \<open>bytes_simps\<close> carry the
  arithmetic and the buffer lemmas that component proofs use.
\<close>

named_theorems width_simps \<open>word comparisons and differences read as natural numbers\<close>
named_theorems bytes_simps \<open>little-endian encoding and decoding of byte buffers\<close>

section \<open>Types of the code\<close>

type_synonym u8 = "8 word"
type_synonym u16 = "16 word"
type_synonym u32 = "32 word"
type_synonym u64 = "64 word"
type_synonym bytes = "u8 list"
type_synonym process_id = int

section \<open>Byte buffers\<close>

text \<open>\<open>sub_bytes off n bs\<close> is the \<open>n\<close> bytes at offset \<open>off\<close> of a buffer.\<close>

definition sub_bytes :: "nat \<Rightarrow> nat \<Rightarrow> 'a list \<Rightarrow> 'a list" where
  "sub_bytes off n bs = take n (drop off bs)"

fun from_le :: "bytes \<Rightarrow> nat" where
  "from_le [] = 0"
| "from_le (b # bs) = unat b + 256 * from_le bs"

fun to_le :: "nat \<Rightarrow> nat \<Rightarrow> bytes" where
  "to_le 0 v = []"
| "to_le (Suc n) v = of_nat (v mod 256) # to_le n (v div 256)"

text \<open>The reads \<^verbatim>\<open>memcpy(&x, bytes + off, sizeof x)\<close> of the code.\<close>

definition get_u16 :: "nat \<Rightarrow> bytes \<Rightarrow> u16" where
  "get_u16 off bs = of_nat (from_le (sub_bytes off 2 bs))"

definition get_u32 :: "nat \<Rightarrow> bytes \<Rightarrow> u32" where
  "get_u32 off bs = of_nat (from_le (sub_bytes off 4 bs))"

definition get_u64 :: "nat \<Rightarrow> bytes \<Rightarrow> u64" where
  "get_u64 off bs = of_nat (from_le (sub_bytes off 8 bs))"

definition get_i32 :: "nat \<Rightarrow> bytes \<Rightarrow> int" where
  "get_i32 off bs = sint (get_u32 off bs)"

text \<open>The \<open>n\<close> bytes of an address space at address \<open>a\<close>.\<close>

definition read_mem :: "(u64 \<Rightarrow> u8) \<Rightarrow> u64 \<Rightarrow> nat \<Rightarrow> bytes" where
  "read_mem m a n = map (\<lambda>i. m (a + of_nat i)) [0..<n]"

section \<open>Runs\<close>

text \<open>The outputs of a component that is stepped over a list of inputs, and its last state.\<close>

fun run_outputs :: "('i \<Rightarrow> 's \<Rightarrow> 'o \<times> 's) \<Rightarrow> 's \<Rightarrow> 'i list \<Rightarrow> 'o list" where
  "run_outputs f s [] = []"
| "run_outputs f s (i # is) = fst (f i s) # run_outputs f (snd (f i s)) is"

fun run_state_of :: "('i \<Rightarrow> 's \<Rightarrow> 'o \<times> 's) \<Rightarrow> 's \<Rightarrow> 'i list \<Rightarrow> 's" where
  "run_state_of f s [] = s"
| "run_state_of f s (i # is) = run_state_of f (snd (f i s)) is"

lemma run_outputs_snoc: "run_outputs f s (is @ [i]) = run_outputs f s is @ [fst (f i (run_state_of f s is))]"
  by (induction "is" arbitrary: s) auto

lemma run_state_of_snoc: "run_state_of f s (is @ [i]) = snd (f i (run_state_of f s is))"
  by (induction "is" arbitrary: s) auto

section \<open>Lemmas on words and buffers\<close>

lemmas [width_simps] = word_le_nat_alt word_less_nat_alt

lemma unat_diff_le [width_simps]: "b \<le> a \<Longrightarrow> unat (a - b) = unat a - unat (b :: 'a::len word)"
  by (simp add: unat_sub)

lemma unat_add_fits [width_simps]:
  "unat a + unat b < 2 ^ LENGTH('a) \<Longrightarrow> unat (a + b) = unat a + unat (b :: 'a::len word)"
  by (rule unat_add_lem [THEN iffD1])

lemma unat_mult_fits [width_simps]:
  "unat a * unat b < 2 ^ LENGTH('a) \<Longrightarrow> unat (a * b) = unat a * unat (b :: 'a::len word)"
  by (rule unat_mult_lem [THEN iffD1])

lemma unat_u8: "unat (b :: u8) < 256"
  using unsigned_less [of b, where 'a = nat] by simp

lemma unat_u32: "unat (w :: u32) < 4294967296"
  using unsigned_less [of w, where 'a = nat] by simp

lemma unat_u64: "unat (w :: u64) < 18446744073709551616"
  using unsigned_less [of w, where 'a = nat] by simp

lemma length_to_le [simp, bytes_simps]: "length (to_le n v) = n"
  by (induction n v rule: to_le.induct) auto

lemma to_le_numeral:
  "to_le (numeral n) v = of_nat (v mod 256) # to_le (pred_numeral n) (v div 256)"
  by (simp only: numeral_eq_Suc to_le.simps)

lemma from_le_to_le [simp, bytes_simps]: "from_le (to_le n v) = v mod 256 ^ n"
proof (induction n v rule: to_le.induct)
  case (2 n v)
  have "unat (of_nat (v mod 256) :: u8) = v mod 256"
    by (simp add: unat_of_nat)
  with 2 show ?case
    by (simp add: mod_mult2_eq)
qed simp

lemma from_le_bound: "from_le bs < 256 ^ length bs"
proof (induction bs)
  case (Cons b bs)
  have "unat b < 256" by (rule unat_u8)
  with Cons show ?case by simp
qed simp

lemma to_le_from_le [simp, bytes_simps]: "length bs = n \<Longrightarrow> to_le n (from_le bs) = bs"
proof (induction bs arbitrary: n)
  case (Cons b bs)
  have b: "unat b < 256" by (rule unat_u8)
  then have "(unat b + 256 * from_le bs) mod 256 = unat b"
    and "(unat b + 256 * from_le bs) div 256 = from_le bs" by simp_all
  with Cons show ?case by auto
qed simp

lemma sub_bytes_append_skip [bytes_simps]:
  "length xs \<le> off \<Longrightarrow> sub_bytes off n (xs @ ys) = sub_bytes (off - length xs) n ys"
  by (simp add: sub_bytes_def)

lemma sub_bytes_append_take [bytes_simps]:
  "length xs = n \<Longrightarrow> sub_bytes 0 n (xs @ ys) = xs"
  by (simp add: sub_bytes_def)

lemma sub_bytes_all [bytes_simps]: "length xs = n \<Longrightarrow> sub_bytes 0 n xs = xs"
  by (simp add: sub_bytes_def)

section \<open>Contract of a source of frame rates\<close>

text \<open>
  The VideoOut sampler, the DCE counter sampler and the display filter all answer a poll with
  an optional integer rate.  What the rest of the program relies on is that a rate is a
  displayable one, whatever the history of polls.
\<close>

locale rate_source =
  fixes init :: 's
    and step :: "'i \<Rightarrow> 's \<Rightarrow> int option \<times> 's"
    and inv :: "'s \<Rightarrow> bool"
  assumes inv_init: "inv init"
    and inv_step: "inv s \<Longrightarrow> inv (snd (step i s))"
    and step_range: "inv s \<Longrightarrow> fst (step i s) = Some r \<Longrightarrow> 0 \<le> r \<and> r \<le> 120"
begin

lemma inv_run: "inv s \<Longrightarrow> inv (run_state_of step s is)"
  by (induction "is" arbitrary: s) (auto intro: inv_step)

lemma range_run: "inv s \<Longrightarrow> Some r \<in> set (run_outputs step s is) \<Longrightarrow> 0 \<le> r \<and> r \<le> 120"
  by (induction "is" arbitrary: s) (auto intro: inv_step dest: step_range [OF _ sym])

lemma reachable_inv: "inv (run_state_of step init is)"
  by (rule inv_run [OF inv_init])

lemma reachable_range: "Some r \<in> set (run_outputs step init is) \<Longrightarrow> 0 \<le> r \<and> r \<le> 120"
  by (rule range_run [OF inv_init])

lemma reachable_outputs: "set (run_outputs step init is) \<subseteq> insert None (Some ` {0..120})"
proof
  fix x
  assume x: "x \<in> set (run_outputs step init is)"
  show "x \<in> insert None (Some ` {0..120})"
  proof (cases x)
    case (Some r)
    with x reachable_range [of r "is"] show ?thesis by simp
  qed simp
qed

end

end
