(* ===== verification/Floats.thy ===== *)
theory Floats
  imports Complex_Main "HOL-Library.Log_Nat" Prelude
begin

text \<open>
  The IEEE 754 arithmetic that the C++ \<^verbatim>\<open>float\<close> and \<^verbatim>\<open>double\<close> of the code
  use on the x86-64 target: every operation is the exact rational result rounded once, to
  nearest with ties to even.  A value is NaN, a signed infinity or a sign with a rational
  magnitude, so that signed zeros are kept apart.  The operations are executable.  The locale
  \<open>rounding\<close> states what the numeric components rely on; it is interpreted on the two
  formats of the code.
\<close>

section \<open>Values\<close>

datatype fl = NaN | Infinity bool | Fin bool rat

fun fl_value :: "fl \<Rightarrow> rat" where
  "fl_value (Fin s m) = (if s then - m else m)"
| "fl_value _ = 0"

fun isfinite :: "fl \<Rightarrow> bool" where
  "isfinite (Fin s m) = True"
| "isfinite _ = False"

section \<open>Rounding\<close>

text \<open>Round to the nearest integer, ties to even.\<close>

definition round_half_even :: "rat \<Rightarrow> int" where
  "round_half_even x =
     (let f = \<lfloor>x\<rfloor>; d = x - of_int f
      in if d < 1 / 2 then f else if d > 1 / 2 then f + 1 else if even f then f else f + 1)"

text \<open>The exponent of the leading binary digit of a positive rational.\<close>

definition floor_log2 :: "rat \<Rightarrow> int" where
  "floor_log2 q =
     (let (a, b) = quotient_of q; e = bitlen a - bitlen b
      in if 2 powi e \<le> q then e else e - 1)"

text \<open>
  A format is its precision \<open>p\<close>, its least normal exponent \<open>emin\<close> and its
  greatest exponent \<open>emax\<close>.
\<close>

definition ulp :: "nat \<Rightarrow> int \<Rightarrow> rat \<Rightarrow> rat" where
  "ulp p emin q = 2 powi (max (floor_log2 q) emin - int p + 1)"

definition round_mag :: "nat \<Rightarrow> int \<Rightarrow> rat \<Rightarrow> rat" where
  "round_mag p emin q =
     (if q \<le> 0 then 0 else of_int (round_half_even (q / ulp p emin q)) * ulp p emin q)"

definition round_to :: "nat \<Rightarrow> int \<Rightarrow> int \<Rightarrow> bool \<Rightarrow> rat \<Rightarrow> fl" where
  "round_to p emin emax s q =
     (let m = round_mag p emin q in if m = 0 \<or> floor_log2 m \<le> emax then Fin s m else Infinity s)"

definition round32 :: "bool \<Rightarrow> rat \<Rightarrow> fl" where
  "round32 = round_to 24 (-126) 127"

definition round64 :: "bool \<Rightarrow> rat \<Rightarrow> fl" where
  "round64 = round_to 53 (-1022) 1023"

section \<open>Operations, with the rounding of a format as the first argument\<close>

type_synonym rounder = "bool \<Rightarrow> rat \<Rightarrow> fl"

definition fl_of_rat :: "rounder \<Rightarrow> rat \<Rightarrow> fl" where
  "fl_of_rat r q = r (q < 0) \<bar>q\<bar>"

definition fl_of_int :: "rounder \<Rightarrow> int \<Rightarrow> fl" where
  "fl_of_int r i = fl_of_rat r (of_int i)"

fun fl_mul :: "rounder \<Rightarrow> fl \<Rightarrow> fl \<Rightarrow> fl" where
  "fl_mul r (Fin s a) (Fin t b) = r (s \<noteq> t) (a * b)"
| "fl_mul r (Infinity s) (Infinity t) = Infinity (s \<noteq> t)"
| "fl_mul r (Infinity s) (Fin t b) = (if b = 0 then NaN else Infinity (s \<noteq> t))"
| "fl_mul r (Fin s a) (Infinity t) = (if a = 0 then NaN else Infinity (s \<noteq> t))"
| "fl_mul r NaN y = NaN"
| "fl_mul r x NaN = NaN"

fun fl_div :: "rounder \<Rightarrow> fl \<Rightarrow> fl \<Rightarrow> fl" where
  "fl_div r (Fin s a) (Fin t b) =
     (if b = 0 then (if a = 0 then NaN else Infinity (s \<noteq> t)) else r (s \<noteq> t) (a / b))"
| "fl_div r (Infinity s) (Infinity t) = NaN"
| "fl_div r (Infinity s) (Fin t b) = Infinity (s \<noteq> t)"
| "fl_div r (Fin s a) (Infinity t) = Fin (s \<noteq> t) 0"
| "fl_div r NaN y = NaN"
| "fl_div r x NaN = NaN"

fun fl_add :: "rounder \<Rightarrow> fl \<Rightarrow> fl \<Rightarrow> fl" where
  "fl_add r (Fin s a) (Fin t b) =
     (let v = fl_value (Fin s a) + fl_value (Fin t b)
      in if v = 0 then Fin (s \<and> t) 0 else r (v < 0) \<bar>v\<bar>)"
| "fl_add r (Infinity s) (Infinity t) = (if s = t then Infinity s else NaN)"
| "fl_add r (Infinity s) (Fin t b) = Infinity s"
| "fl_add r (Fin s a) (Infinity t) = Infinity t"
| "fl_add r NaN y = NaN"
| "fl_add r x NaN = NaN"

fun fl_neg :: "fl \<Rightarrow> fl" where
  "fl_neg NaN = NaN"
| "fl_neg (Infinity s) = Infinity (\<not> s)"
| "fl_neg (Fin s m) = Fin (\<not> s) m"

definition fl_sub :: "rounder \<Rightarrow> fl \<Rightarrow> fl \<Rightarrow> fl" where
  "fl_sub r x y = fl_add r x (fl_neg y)"

text \<open>Comparisons are false on NaN; the two zeros are equal.\<close>

fun fl_less :: "fl \<Rightarrow> fl \<Rightarrow> bool" where
  "fl_less (Fin s a) (Fin t b) \<longleftrightarrow> fl_value (Fin s a) < fl_value (Fin t b)"
| "fl_less (Infinity s) (Infinity t) \<longleftrightarrow> s \<and> \<not> t"
| "fl_less (Infinity s) (Fin t b) \<longleftrightarrow> s"
| "fl_less (Fin s a) (Infinity t) \<longleftrightarrow> \<not> t"
| "fl_less NaN y \<longleftrightarrow> False"
| "fl_less x NaN \<longleftrightarrow> False"

fun fl_eq :: "fl \<Rightarrow> fl \<Rightarrow> bool" where
  "fl_eq (Fin s a) (Fin t b) \<longleftrightarrow> fl_value (Fin s a) = fl_value (Fin t b)"
| "fl_eq (Infinity s) (Infinity t) \<longleftrightarrow> s = t"
| "fl_eq x y \<longleftrightarrow> False"

text \<open>\<^verbatim>\<open>std::min\<close>, \<^verbatim>\<open>std::max\<close> and \<^verbatim>\<open>std::clamp\<close> return one of their arguments.\<close>

definition fl_min :: "fl \<Rightarrow> fl \<Rightarrow> fl" where
  "fl_min a b = (if fl_less b a then b else a)"

definition fl_max :: "fl \<Rightarrow> fl \<Rightarrow> fl" where
  "fl_max a b = (if fl_less a b then b else a)"

definition fl_clamp :: "fl \<Rightarrow> fl \<Rightarrow> fl \<Rightarrow> fl" where
  "fl_clamp v lo hi = (if fl_less v lo then lo else if fl_less hi v then hi else v)"

text \<open>
  Conversions to integers: \<^verbatim>\<open>static_cast<int>\<close> truncates, \<^verbatim>\<open>std::lround\<close> rounds
  halves away from zero.  \<open>None\<close> marks the arguments on which the conversion is undefined
  or unspecified in C++.
\<close>

fun fl_to_int :: "fl \<Rightarrow> int option" where
  "fl_to_int (Fin s m) =
     (let i = (if s then - \<lfloor>m\<rfloor> else \<lfloor>m\<rfloor>)
      in if - 2147483648 \<le> i \<and> i \<le> 2147483647 then Some i else None)"
| "fl_to_int _ = None"

fun fl_lround :: "fl \<Rightarrow> int option" where
  "fl_lround (Fin s m) = Some (if s then - \<lfloor>m + 1 / 2\<rfloor> else \<lfloor>m + 1 / 2\<rfloor>)"
| "fl_lround _ = None"

section \<open>Rounding to integers\<close>

lemma round_half_even_int [simp]: "round_half_even (of_int i) = i"
  by (simp add: round_half_even_def Let_def)

lemma round_half_even_error: "\<bar>of_int (round_half_even x) - x\<bar> \<le> 1 / 2"
  using floor_correct [of x] by (auto simp: round_half_even_def Let_def)

lemma round_half_even_mono: "x \<le> y \<Longrightarrow> round_half_even x \<le> round_half_even y"
proof -
  assume le: "x \<le> y"
  show ?thesis
  proof (cases "\<lfloor>x\<rfloor> = \<lfloor>y\<rfloor>")
    case True
    with le show ?thesis by (auto simp: round_half_even_def Let_def)
  next
    case False
    with le have "\<lfloor>x\<rfloor> + 1 \<le> \<lfloor>y\<rfloor>"
      using floor_mono [OF le] by linarith
    then show ?thesis by (auto simp: round_half_even_def Let_def)
  qed
qed

section \<open>The leading exponent\<close>

lemma floor_log2_bounds:
  assumes "0 < q"
  shows "2 powi floor_log2 q \<le> q \<and> q < 2 powi (floor_log2 q + 1)"
proof -
  obtain a b where ab: "quotient_of q = (a, b)" by (cases "quotient_of q")
  have b: "0 < b" using quotient_of_denom_pos [OF ab] .
  have q: "q = of_int a / of_int b" by (rule quotient_of_div [OF ab])
  with assms b have a: "0 < a" by (simp add: zero_less_divide_iff)
  define e where "e = bitlen a - bitlen b"
  have bit: "2 powi (bitlen x - 1) \<le> (of_int x :: rat) \<and> (of_int x :: rat) < 2 powi (bitlen x)"
    if "0 < x" for x :: int
  proof -
    have len: "1 \<le> bitlen x" using that bitlen_bounds [of x]
      by (metis bitlen_nonneg bitlen_eq_zero_iff int_one_le_iff_zero_less not_less order_le_less)
    have nonneg: "0 \<le> bitlen x" by (rule bitlen_nonneg)
    from bitlen_bounds [OF that]
    have lo: "2 ^ nat (bitlen x - 1) \<le> x" and hi: "x < 2 ^ nat (bitlen x)" by auto
    have "(of_int (2 ^ nat (bitlen x - 1)) :: rat) \<le> of_int x" using lo by (rule of_int_le_iff [THEN iffD2])
    moreover have "(of_int x :: rat) < of_int (2 ^ nat (bitlen x))" using hi by (rule of_int_less_iff [THEN iffD2])
    ultimately show ?thesis using len nonneg by (simp add: power_int_nonneg_exp)
  qed
  have lo: "2 powi (e - 1) < q"
  proof -
    have "2 powi (bitlen a - 1) * of_int b < of_int a * (2 powi (bitlen b) :: rat)"
      using bit [OF a] bit [OF b] b by (intro mult_le_less_imp_less) auto
    then have "2 powi (bitlen a - 1) / 2 powi (bitlen b) < q"
      using b by (simp add: q field_simps)
    then show ?thesis by (simp add: e_def algebra_simps flip: power_int_diff)
  qed
  have hi: "q < 2 powi (e + 1)"
  proof -
    have "of_int a * (2 powi (bitlen b - 1)) < 2 powi (bitlen a) * (of_int b :: rat)"
      using bit [OF a] bit [OF b] a b by (intro mult_less_le_imp_less) auto
    then have "q < 2 powi (bitlen a) / 2 powi (bitlen b - 1)"
      using b by (simp add: q field_simps)
    then show ?thesis by (simp add: e_def algebra_simps flip: power_int_diff)
  qed
  show ?thesis
    using lo hi by (simp add: floor_log2_def ab Let_def flip: e_def)
qed

lemma floor_log2_mono: "0 < x \<Longrightarrow> x \<le> y \<Longrightarrow> floor_log2 x \<le> floor_log2 y"
proof (rule ccontr)
  assume x: "0 < x" and le: "x \<le> y" and "\<not> floor_log2 x \<le> floor_log2 y"
  then have "(2 :: rat) powi (floor_log2 y + 1) \<le> 2 powi floor_log2 x"
    by (intro power_int_increasing) auto
  moreover have "y < 2 powi (floor_log2 y + 1)" "2 powi floor_log2 x \<le> x"
    using floor_log2_bounds [of y] floor_log2_bounds [of x] x le by auto
  ultimately show False using le by linarith
qed

lemma floor_log2_less: "0 < q \<Longrightarrow> q < 2 powi k \<Longrightarrow> floor_log2 q < k"
proof (rule ccontr)
  assume q: "0 < q" and lt: "q < 2 powi k" and "\<not> floor_log2 q < k"
  then have "(2 :: rat) powi k \<le> 2 powi floor_log2 q" by (intro power_int_increasing) auto
  with floor_log2_bounds [OF q] lt show False by linarith
qed

lemma pow2_le_pos: "2 powi k \<le> q \<Longrightarrow> 0 < (q :: rat)"
  using zero_less_power_int [of "2 :: rat" k] by (meson less_le_trans zero_less_numeral)

lemma floor_log2_ge: "2 powi k \<le> q \<Longrightarrow> k \<le> floor_log2 q"
proof (rule ccontr)
  assume le: "2 powi k \<le> q" and "\<not> k \<le> floor_log2 q"
  then have "(2 :: rat) powi (floor_log2 q + 1) \<le> 2 powi k" by (intro power_int_increasing) auto
  moreover have "0 < q" using le by (rule pow2_le_pos)
  ultimately show False using floor_log2_bounds [of q] le by linarith
qed

section \<open>Rounding to a format\<close>

lemma ulp_pos [simp]: "0 < ulp p emin q"
  by (simp add: ulp_def)

lemma ulp_nonzero [simp]: "ulp p emin q \<noteq> 0"
  by (simp add: ulp_def)

lemma round_mag_zero [simp]: "round_mag p emin 0 = 0"
  by (simp add: round_mag_def)

lemma pow2_ratio_int: "n \<le> m \<Longrightarrow> (2 :: rat) powi m / 2 powi n = of_int (2 ^ nat (m - n))"
  by (simp add: power_int_nonneg_exp flip: power_int_diff)

text \<open>A multiple of a power of two at or above the unit in the last place is kept.\<close>

lemma round_mag_exact:
  assumes "0 < r" and r: "r = of_int j * 2 powi n" and n: "max (floor_log2 r) emin - int p + 1 \<le> n"
  shows "round_mag p emin r = r"
proof -
  define k where "k = max (floor_log2 r) emin - int p + 1"
  have "r / ulp p emin r = of_int j * (2 powi n / 2 powi k)"
    by (subst r) (simp add: ulp_def k_def)
  also have "\<dots> = of_int (j * 2 ^ nat (n - k))"
    using n by (simp add: pow2_ratio_int k_def)
  finally have "of_int (round_half_even (r / ulp p emin r)) = r / ulp p emin r"
    by (simp only: round_half_even_int)
  then show ?thesis using assms(1) by (simp add: round_mag_def)
qed

lemma round_mag_pow2: "emin \<le> k \<Longrightarrow> 1 \<le> p \<Longrightarrow> round_mag p emin (2 powi k) = 2 powi k"
proof (rule round_mag_exact [of _ 1 k])
  assume "emin \<le> k" "1 \<le> p"
  moreover have "floor_log2 (2 powi k) < k + 1"
    by (rule floor_log2_less) (auto intro: power_int_strict_increasing)
  ultimately show "max (floor_log2 (2 powi k)) emin - int p + 1 \<le> k" by linarith
qed simp_all

lemma round_mag_nonneg [simp]: "0 \<le> round_mag p emin q"
proof -
  have "round_half_even 0 \<le> round_half_even (q / ulp p emin q)" if "0 < q"
    using that by (intro round_half_even_mono) (simp add: less_imp_le)
  then show ?thesis
    using round_half_even_int [of 0] by (auto simp: round_mag_def intro!: mult_nonneg_nonneg simp: less_imp_le)
qed

lemma round_mag_error: "0 < q \<Longrightarrow> \<bar>round_mag p emin q - q\<bar> \<le> ulp p emin q / 2"
proof -
  assume q: "0 < q"
  let ?u = "ulp p emin q"
  have u: "0 < ?u" by simp
  have "round_mag p emin q - q = (of_int (round_half_even (q / ?u)) - q / ?u) * ?u"
    using q u by (simp add: round_mag_def field_simps)
  then have "\<bar>round_mag p emin q - q\<bar> = \<bar>of_int (round_half_even (q / ?u)) - q / ?u\<bar> * ?u"
    by (simp add: abs_mult abs_of_pos)
  also have "\<dots> \<le> 1 / 2 * ?u"
    using round_half_even_error [of "q / ?u"] u by (intro mult_right_mono less_imp_le [OF u])
  finally show ?thesis by simp
qed

lemma round_mag_relative_error:
  assumes "2 powi emin \<le> q"
  shows "\<bar>round_mag p emin q - q\<bar> \<le> q * 2 powi (- int p)"
proof -
  have q: "0 < q" using assms by (rule pow2_le_pos)
  have "emin \<le> floor_log2 q" using assms by (rule floor_log2_ge)
  then have "ulp p emin q / 2 = 2 powi floor_log2 q * 2 powi (- int p)"
    by (simp add: ulp_def power_int_diff power_int_add power_int_minus field_simps)
  also have "\<dots> \<le> q * 2 powi (- int p)"
    using floor_log2_bounds [OF q] by (intro mult_right_mono) auto
  finally show ?thesis using round_mag_error [OF q, of p emin] by linarith
qed

lemma round_mag_same_ulp:
  assumes "0 < x" "x \<le> y" and "ulp p emin x = ulp p emin y"
  shows "round_mag p emin x \<le> round_mag p emin y"
proof -
  have "x / ulp p emin y \<le> y / ulp p emin y"
    using assms(2) by (simp add: divide_right_mono less_imp_le)
  from round_half_even_mono [OF this] show ?thesis
    using assms by (simp add: round_mag_def mult_right_mono less_imp_le)
qed

lemma round_mag_le_pow2:
  assumes "0 < q" and "1 \<le> p"
  shows "round_mag p emin q \<le> 2 powi (max (floor_log2 q) emin + 1)"
proof -
  let ?e = "max (floor_log2 q) emin" and ?u = "ulp p emin q"
  have "(2 :: rat) powi (floor_log2 q + 1) \<le> 2 powi (?e + 1)" by (intro power_int_increasing) auto
  with floor_log2_bounds [OF assms(1)] have "q \<le> 2 powi (?e + 1)" by linarith
  then have "q / ?u \<le> 2 powi (?e + 1) / ?u" by (simp add: divide_right_mono less_imp_le)
  also have "\<dots> = of_int (2 ^ nat (int p))"
    by (simp add: ulp_def pow2_ratio_int)
  finally have "round_half_even (q / ?u) \<le> 2 ^ nat (int p)"
    using round_half_even_mono round_half_even_int by metis
  then have "of_int (round_half_even (q / ?u)) \<le> (of_int (2 ^ nat (int p)) :: rat)"
    by (rule of_int_le_iff [THEN iffD2])
  then have "round_mag p emin q \<le> of_int (2 ^ nat (int p)) * ?u"
    using assms(1) by (simp only: round_mag_def if_False not_le [symmetric])
      (auto intro!: mult_right_mono simp: less_imp_le)
  also have "\<dots> = 2 powi (?e + 1)"
    by (simp add: ulp_def flip: power_int_of_nat power_int_add)
  finally show ?thesis .
qed

lemma round_mag_ge_pow2:
  assumes "2 powi k \<le> q" and k: "emin \<le> k" and p: "1 \<le> p"
    and e: "k = max (floor_log2 q) emin"
  shows "2 powi k \<le> round_mag p emin q"
proof -
  have q: "0 < q" using assms(1) by (rule pow2_le_pos)
  have "floor_log2 (2 powi k) < k + 1"
    by (rule floor_log2_less) (auto intro: power_int_strict_increasing)
  moreover have "k \<le> floor_log2 (2 powi k)" by (rule floor_log2_ge) simp
  ultimately have "max (floor_log2 (2 powi k)) emin = max (floor_log2 q) emin"
    using k by (subst e [symmetric]) auto
  then have "ulp p emin (2 powi k) = ulp p emin q" by (simp only: ulp_def)
  then have "round_mag p emin (2 powi k) \<le> round_mag p emin q"
    using assms(1) by (intro round_mag_same_ulp) auto
  then show ?thesis using round_mag_pow2 [OF k p] by simp
qed

lemma round_mag_mono:
  assumes "x \<le> y" and p: "1 \<le> p"
  shows "round_mag p emin x \<le> round_mag p emin y"
proof (cases "0 < x")
  case False
  then show ?thesis by (simp add: round_mag_def [of p emin x])
next
  case x: True
  let ?ex = "max (floor_log2 x) emin" and ?ey = "max (floor_log2 y) emin"
  have le: "?ex \<le> ?ey" using floor_log2_mono [OF x assms(1)] by simp
  show ?thesis
  proof (cases "?ex = ?ey")
    case True
    then have "ulp p emin x = ulp p emin y" by (simp add: ulp_def)
    with x assms(1) show ?thesis by (rule round_mag_same_ulp)
  next
    case False
    with le have lt: "?ex + 1 \<le> ?ey" and ey: "?ey = floor_log2 y" by auto
    have "round_mag p emin x \<le> 2 powi (?ex + 1)" by (rule round_mag_le_pow2 [OF x p])
    also have "(2 :: rat) powi (?ex + 1) \<le> 2 powi ?ey" using lt by (intro power_int_increasing) auto
    also have "2 powi ?ey \<le> round_mag p emin y"
      using floor_log2_bounds [of y] x assms(1) ey p
      by (intro round_mag_ge_pow2) auto
    finally show ?thesis .
  qed
qed

lemma round_mag_idem:
  assumes p: "1 \<le> p"
  shows "round_mag p emin (round_mag p emin q) = round_mag p emin q"
proof (cases "0 < round_mag p emin q")
  case False
  then have "round_mag p emin q = 0" using round_mag_nonneg [of p emin q] by linarith
  then show ?thesis by simp
next
  case r: True
  then have q: "0 < q" by (auto simp: round_mag_def split: if_splits)
  define e where "e = max (floor_log2 q) emin"
  have le: "round_mag p emin q \<le> 2 powi (e + 1)"
    unfolding e_def by (rule round_mag_le_pow2 [OF q p])
  show ?thesis
  proof (cases "round_mag p emin q = 2 powi (e + 1)")
    case True
    moreover have "emin \<le> e + 1" by (simp add: e_def)
    ultimately show ?thesis using round_mag_pow2 [OF _ p] by simp
  next
    case False
    with le have "floor_log2 (round_mag p emin q) < e + 1"
      by (intro floor_log2_less r) auto
    then have "max (floor_log2 (round_mag p emin q)) emin - int p + 1 \<le> e - int p + 1"
      by (simp add: e_def)
    moreover have "round_mag p emin q = of_int (round_half_even (q / ulp p emin q)) * 2 powi (e - int p + 1)"
      using q by (simp add: round_mag_def ulp_def e_def)
    ultimately show ?thesis by (intro round_mag_exact [OF r])
  qed
qed

lemma round_mag_nat:
  assumes "n \<le> 2 ^ p" and "emin \<le> 0" and p: "1 \<le> p"
  shows "round_mag p emin (of_nat n) = of_nat n"
proof (cases "n = 0 \<or> n = 2 ^ p")
  case True
  then show ?thesis
    using round_mag_pow2 [of emin "int p" p] assms by auto
next
  case False
  with assms have n: "0 < n" "n < 2 ^ p" by auto
  then have "(of_nat n :: rat) < of_nat (2 ^ p)" by (simp only: of_nat_less_iff)
  then have "floor_log2 (of_nat n) < int p" using n by (intro floor_log2_less) auto
  then show ?thesis
    using n assms by (intro round_mag_exact [of _ "int n" 0]) auto
qed

section \<open>What numeric code relies on\<close>

text \<open>
  A rounding that is monotone, keeps its own results and the small integers, and has a
  relative error bound: enough for every numeric argument of the components.
\<close>

locale rounding =
  fixes rnd :: "rat \<Rightarrow> rat" and eps :: rat
  assumes rnd_mono: "x \<le> y \<Longrightarrow> rnd x \<le> rnd y"
    and rnd_idem: "rnd (rnd x) = rnd x"
    and rnd_nat: "n \<le> 16777216 \<Longrightarrow> rnd (of_nat n) = of_nat n"
    and rnd_error: "1 / 1000000 \<le> x \<Longrightarrow> \<bar>rnd x - x\<bar> \<le> x * eps"
begin

lemma rnd_le_nat: "x \<le> of_nat n \<Longrightarrow> n \<le> 16777216 \<Longrightarrow> rnd x \<le> of_nat n"
  using rnd_mono [of x "of_nat n"] rnd_nat [of n] by simp

lemma rnd_ge_nat: "of_nat n \<le> x \<Longrightarrow> n \<le> 16777216 \<Longrightarrow> of_nat n \<le> rnd x"
  using rnd_mono [of "of_nat n" x] rnd_nat [of n] by simp

lemma rnd_nonneg: "0 \<le> x \<Longrightarrow> 0 \<le> rnd x"
  using rnd_ge_nat [of 0 x] by simp

lemma rnd_upper: "1 / 1000000 \<le> x \<Longrightarrow> rnd x \<le> x + x * eps"
  using rnd_error [of x] by linarith

lemma rnd_lower: "1 / 1000000 \<le> x \<Longrightarrow> x - x * eps \<le> rnd x"
  using rnd_error [of x] by linarith

lemma rnd_le_fixed: "x \<le> y \<Longrightarrow> rnd y = y \<Longrightarrow> rnd x \<le> y"
  using rnd_mono [of x y] by simp

end

interpretation f32: rounding "round_mag 24 (-126)" "1 / 16777216"
proof
  show "x \<le> y \<Longrightarrow> round_mag 24 (-126) x \<le> round_mag 24 (-126) y" for x y
    by (rule round_mag_mono) simp_all
  show "round_mag 24 (-126) (round_mag 24 (-126) x) = round_mag 24 (-126) x" for x
    by (rule round_mag_idem) simp
  show "n \<le> 16777216 \<Longrightarrow> round_mag 24 (-126) (of_nat n) = of_nat n" for n
    by (rule round_mag_nat) simp_all
  show "1 / 1000000 \<le> x \<Longrightarrow> \<bar>round_mag 24 (-126) x - x\<bar> \<le> x * (1 / 16777216)" for x
    using round_mag_relative_error [of "-126" x 24] by simp
qed

interpretation f64: rounding "round_mag 53 (-1022)" "1 / 9007199254740992"
proof
  show "x \<le> y \<Longrightarrow> round_mag 53 (-1022) x \<le> round_mag 53 (-1022) y" for x y
    by (rule round_mag_mono) simp_all
  show "round_mag 53 (-1022) (round_mag 53 (-1022) x) = round_mag 53 (-1022) x" for x
    by (rule round_mag_idem) simp
  show "n \<le> 16777216 \<Longrightarrow> round_mag 53 (-1022) (of_nat n) = of_nat n" for n
    by (rule round_mag_nat) simp_all
  show "1 / 1000000 \<le> x \<Longrightarrow> \<bar>round_mag 53 (-1022) x - x\<bar> \<le> x * (1 / 9007199254740992)" for x
    using round_mag_relative_error [of "-1022" x 53] by simp
qed

end
