(* ===== verification/Overlay_Config.thy ===== *)
theory Overlay_Config
  imports Floats
begin

text \<open>
  The overlay's data model (\<^verbatim>\<open>include/common_fps/types.hpp\<close>,
  \<^verbatim>\<open>constants.hpp\<close>) and \<^verbatim>\<open>src/core/overlay_config.cpp\<close>.  A C++ enum class holds any
  value of its underlying integer, which \<open>OtherCorner\<close> stands for, so that the defaulting
  branches of the code are branches of the model.
\<close>

unbundle bit_operations_syntax

section \<open>Constants\<close>

definition kLogicalWidth :: fl where "kLogicalWidth = Fin False 1920"
definition kLogicalHeight :: fl where "kLogicalHeight = Fin False 1080"
definition kDefaultFontSize :: int where "kDefaultFontSize = 22"
definition kDefaultMarginX :: fl where "kDefaultMarginX = Fin False 10"
definition kDefaultMarginY :: fl where "kDefaultMarginY = Fin False 4"
definition kMinFontSize :: int where "kMinFontSize = 14"
definition kMaxFontSize :: int where "kMaxFontSize = 64"
definition kMaxDisplayFps :: int where "kMaxDisplayFps = 120"
definition kMaxTenthsFps :: u32 where "kMaxTenthsFps = 1300"
definition kMinFpsWindowUs :: u64 where "kMinFpsWindowUs = 200000"
definition kMaxFpsWindowUs :: u64 where "kMaxFpsWindowUs = 3000000"
definition kWarmupDeltasToDiscard :: nat where "kWarmupDeltasToDiscard = 1"

lemmas overlay_constants =
  kLogicalWidth_def kLogicalHeight_def kDefaultFontSize_def kDefaultMarginX_def
  kDefaultMarginY_def kMinFontSize_def kMaxFontSize_def

section \<open>Types\<close>

datatype corner = TopLeft | TopRight | BottomLeft | BottomRight | OtherCorner int

record vec2 =
  vec_x :: fl
  vec_y :: fl

record overlay_config =
  corner :: corner
  font_size :: int
  margin_x :: fl
  margin_y :: fl
  show_label :: bool
  label_color :: u32
  value_color :: u32

record overlay_frame =
  frame_visible :: bool
  frame_loading :: bool
  frame_fps :: int
  frame_config :: overlay_config
  frame_anchor :: vec2

definition default_config :: overlay_config where
  "default_config =
     \<lparr>corner = BottomLeft, font_size = kDefaultFontSize, margin_x = kDefaultMarginX,
      margin_y = kDefaultMarginY, show_label = True, label_color = 0xB366FF,
      value_color = 0xFFFFFF\<rparr>"

definition default_vec2 :: vec2 where
  "default_vec2 = \<lparr>vec_x = Fin False 0, vec_y = Fin False 0\<rparr>"

definition default_frame :: overlay_frame where
  "default_frame =
     \<lparr>frame_visible = False, frame_loading = True, frame_fps = 0, frame_config = default_config,
      frame_anchor = default_vec2\<rparr>"

section \<open>Operations\<close>

definition int_clamp :: "int \<Rightarrow> int \<Rightarrow> int \<Rightarrow> int" where
  "int_clamp v lo hi = (if v < lo then lo else if hi < v then hi else v)"

definition sanitize_margin :: "fl \<Rightarrow> fl \<Rightarrow> fl" where
  "sanitize_margin dflt m =
     (if isfinite m then fl_clamp m (Fin False 0) (Fin False 240) else dflt)"

definition sanitize_config :: "overlay_config \<Rightarrow> overlay_config" where
  "sanitize_config cfg = cfg
     \<lparr>corner := (if corner cfg \<noteq> TopLeft \<and> corner cfg \<noteq> TopRight \<and>
                    corner cfg \<noteq> BottomLeft \<and> corner cfg \<noteq> BottomRight
                 then BottomLeft else corner cfg),
      font_size := int_clamp (font_size cfg) kMinFontSize kMaxFontSize,
      margin_x := sanitize_margin kDefaultMarginX (margin_x cfg),
      margin_y := sanitize_margin kDefaultMarginY (margin_y cfg),
      label_color := label_color cfg AND 0xFFFFFF,
      value_color := value_color cfg AND 0xFFFFFF\<rparr>"

definition same_config :: "overlay_config \<Rightarrow> overlay_config \<Rightarrow> bool" where
  "same_config a b \<longleftrightarrow>
     corner a = corner b \<and> font_size a = font_size b \<and>
     fl_eq (margin_x a) (margin_x b) \<and> fl_eq (margin_y a) (margin_y b) \<and>
     show_label a = show_label b \<and> label_color a = label_color b \<and>
     value_color a = value_color b"

section \<open>Well-formedness\<close>

text \<open>Every float of a running program has a non-negative magnitude beside its sign.\<close>

fun fl_wf :: "fl \<Rightarrow> bool" where
  "fl_wf (Fin s m) \<longleftrightarrow> 0 \<le> m"
| "fl_wf _ \<longleftrightarrow> True"

definition margin_ok :: "fl \<Rightarrow> bool" where
  "margin_ok m \<longleftrightarrow> isfinite m \<and> 0 \<le> fl_value m \<and> fl_value m \<le> 240"

definition config_ok :: "overlay_config \<Rightarrow> bool" where
  "config_ok cfg \<longleftrightarrow>
     corner cfg \<in> {TopLeft, TopRight, BottomLeft, BottomRight} \<and>
     14 \<le> font_size cfg \<and> font_size cfg \<le> 64 \<and>
     margin_ok (margin_x cfg) \<and> margin_ok (margin_y cfg) \<and>
     unat (label_color cfg) < 16777216 \<and> unat (value_color cfg) < 16777216"

section \<open>Lemmas\<close>

lemma int_clamp_range: "lo \<le> hi \<Longrightarrow> lo \<le> int_clamp v lo hi \<and> int_clamp v lo hi \<le> hi"
  by (simp add: int_clamp_def)

lemma int_clamp_id: "lo \<le> v \<Longrightarrow> v \<le> hi \<Longrightarrow> int_clamp v lo hi = v"
  by (simp add: int_clamp_def)

lemma color_mask_eq: "c AND 0xFFFFFF = take_bit 24 (c :: u32)"
  by (simp add: take_bit_eq_mask mask_eq_exp_minus_1)

lemma unat_color_mask: "unat (c AND 0xFFFFFF :: u32) = unat c mod 16777216"
proof -
  have "unat (take_bit 24 c) = take_bit 24 (unat c)"
    by (rule unsigned_take_bit_eq)
  also have "\<dots> = unat c mod 16777216"
    by (simp add: take_bit_eq_mod)
  finally show ?thesis
    by (simp only: color_mask_eq)
qed

lemma color_mask_bound: "unat (c AND 0xFFFFFF :: u32) < 16777216"
  by (simp only: unat_color_mask mod_less_divisor zero_less_numeral)

lemma color_mask_id: "unat (c :: u32) < 16777216 \<Longrightarrow> c AND 0xFFFFFF = c"
  by (rule word_unat_eq_iff [THEN iffD2]) (simp only: unat_color_mask mod_less)

lemma sanitize_margin_ok: "margin_ok dflt \<Longrightarrow> margin_ok (sanitize_margin dflt m)"
  by (cases m) (auto simp: sanitize_margin_def margin_ok_def fl_clamp_def)

lemma sanitize_margin_id: "margin_ok m \<Longrightarrow> sanitize_margin dflt m = m"
  by (cases m) (auto simp: sanitize_margin_def margin_ok_def fl_clamp_def)

lemma sanitize_margin_wf: "fl_wf dflt \<Longrightarrow> fl_wf m \<Longrightarrow> fl_wf (sanitize_margin dflt m)"
  by (cases m) (auto simp: sanitize_margin_def fl_clamp_def)

lemma default_margins_ok [simp]:
  "margin_ok kDefaultMarginX" "margin_ok kDefaultMarginY"
  "fl_wf kDefaultMarginX" "fl_wf kDefaultMarginY"
  by (simp_all add: margin_ok_def overlay_constants)

lemma config_ok_sanitize: "config_ok (sanitize_config cfg)"
  by (auto simp: config_ok_def sanitize_config_def color_mask_bound sanitize_margin_ok
      int_clamp_def kMinFontSize_def kMaxFontSize_def)

lemma sanitize_config_id: "config_ok cfg \<Longrightarrow> sanitize_config cfg = cfg"
  by (cases cfg)
    (auto simp: config_ok_def sanitize_config_def color_mask_id sanitize_margin_id
      int_clamp_def overlay_constants)

lemma default_config_ok: "config_ok default_config"
  by (simp add: config_ok_def default_config_def overlay_constants margin_ok_def)

text \<open>
  \<open>sanitize_config\<close> returns a configuration within the documented limits from any
  input, is idempotent, and changes nothing exactly when its input is already within them.
\<close>

theorem sanitize_config_correct:
  "config_ok (sanitize_config cfg)
   \<and> sanitize_config (sanitize_config cfg) = sanitize_config cfg
   \<and> (sanitize_config cfg = cfg \<longleftrightarrow> config_ok cfg)"
  using config_ok_sanitize [of cfg] sanitize_config_id by metis

end
