(* ===== verification/Layout.thy ===== *)
theory Layout
  imports Overlay_Config
begin

text \<open>
  \<^verbatim>\<open>src/core/layout.cpp\<close>: the anchor and the size of the overlay on a canvas, in the
  single precision arithmetic of the code.  The theorem bounds the overlay's box by the canvas
  for every configuration and every canvas size the renderer can report, NaN included.
\<close>

section \<open>Definitions\<close>

record overlay_layout =
  lay_anchor :: vec2
  lay_font_size :: int
  lay_label_advance :: fl
  lay_width :: fl
  lay_height :: fl

text \<open>A canvas dimension outside its range, or not a number, is replaced by the default.\<close>

definition scene_extent :: "fl \<Rightarrow> fl \<Rightarrow> fl \<Rightarrow> fl \<Rightarrow> fl" where
  "scene_extent lo hi dflt x =
     (if \<not> isfinite x \<or> fl_less x lo \<or> fl_less hi x then dflt else x)"

definition scene_width_of :: "fl \<Rightarrow> fl" where
  "scene_width_of = scene_extent (Fin False 640) (Fin False 7680) kLogicalWidth"

definition scene_height_of :: "fl \<Rightarrow> fl" where
  "scene_height_of = scene_extent (Fin False 360) (Fin False 4320) kLogicalHeight"

text \<open>\<^verbatim>\<open>static_cast<int>(std::lround(x))\<close>; 0 stands for the unspecified result on NaN.\<close>

definition lround_int :: "fl \<Rightarrow> int" where
  "lround_int x = (case fl_lround x of Some i \<Rightarrow> i | None \<Rightarrow> 0)"

definition fmul :: "fl \<Rightarrow> fl \<Rightarrow> fl" where "fmul = fl_mul round32"
definition fdiv :: "fl \<Rightarrow> fl \<Rightarrow> fl" where "fdiv = fl_div round32"
definition fadd :: "fl \<Rightarrow> fl \<Rightarrow> fl" where "fadd = fl_add round32"
definition fsub :: "fl \<Rightarrow> fl \<Rightarrow> fl" where "fsub = fl_sub round32"
definition f_of_int :: "int \<Rightarrow> fl" where "f_of_int = fl_of_int round32"
definition f_lit :: "rat \<Rightarrow> fl" where "f_lit = fl_of_rat round32"

definition layout_scale :: "fl \<Rightarrow> fl \<Rightarrow> fl" where
  "layout_scale w h = fl_min (fdiv w kLogicalWidth) (fdiv h kLogicalHeight)"

definition layout_font_size :: "int \<Rightarrow> fl \<Rightarrow> int" where
  "layout_font_size sz scale = max 1 (lround_int (fmul (f_of_int sz) scale))"

definition compute_layout :: "overlay_config \<Rightarrow> fl \<Rightarrow> fl \<Rightarrow> bool \<Rightarrow> overlay_layout" where
  "compute_layout input scene_width scene_height loading_text =
     (let cfg = sanitize_config input;
          w = scene_width_of scene_width;
          h = scene_height_of scene_height;
          scale = layout_scale w h;
          sz = layout_font_size (font_size cfg) scale;
          advance = (if show_label cfg then fmul (f_of_int sz) (f_lit (27 / 10)) else Fin False 0);
          width = fadd advance (fmul (f_of_int sz) (f_lit (if loading_text then 9 / 2 else 5 / 2)));
          height = fmul (f_of_int sz) (f_lit (145 / 100));
          left = fl_min (fmul (margin_x cfg) scale) (fsub w width);
          top = fl_min (fmul (margin_y cfg) scale) (fsub h height);
          right = fl_max (Fin False 0) (fsub (fsub w width) left);
          bottom = fl_max (Fin False 0) (fsub (fsub h height) top);
          anchor = (case corner cfg of
              TopLeft \<Rightarrow> \<lparr>vec_x = left, vec_y = top\<rparr>
            | TopRight \<Rightarrow> \<lparr>vec_x = right, vec_y = top\<rparr>
            | BottomRight \<Rightarrow> \<lparr>vec_x = right, vec_y = bottom\<rparr>
            | BottomLeft \<Rightarrow> \<lparr>vec_x = left, vec_y = bottom\<rparr>
            | OtherCorner _ \<Rightarrow> \<lparr>vec_x = left, vec_y = bottom\<rparr>)
      in \<lparr>lay_anchor = anchor, lay_font_size = sz, lay_label_advance = advance,
          lay_width = width, lay_height = height\<rparr>)"

definition compute_anchor :: "overlay_config \<Rightarrow> vec2" where
  "compute_anchor cfg = lay_anchor (compute_layout cfg kLogicalWidth kLogicalHeight False)"

text \<open>The box at the anchor lies in the canvas, up to a thousandth of a unit on each axis.\<close>

definition axis_inside :: "fl \<Rightarrow> fl \<Rightarrow> fl \<Rightarrow> bool" where
  "axis_inside pos sz extent \<longleftrightarrow>
     isfinite pos \<and> 0 \<le> fl_value pos \<and> fl_value pos + fl_value sz \<le> fl_value extent + 1 / 1000"

definition box_inside :: "overlay_layout \<Rightarrow> fl \<Rightarrow> fl \<Rightarrow> bool" where
  "box_inside lay w h \<longleftrightarrow>
     axis_inside (vec_x (lay_anchor lay)) (lay_width lay) w \<and>
     axis_inside (vec_y (lay_anchor lay)) (lay_height lay) h"

section \<open>Non-negative floats below 2^24\<close>

text \<open>All intermediate values of the layout are of this shape, so no operation overflows.\<close>

definition small :: "fl \<Rightarrow> rat \<Rightarrow> bool" where
  "small x b \<longleftrightarrow> (\<exists>s m. x = Fin s m \<and> 0 \<le> m \<and> (s \<longrightarrow> m = 0) \<and> m \<le> b)"

abbreviation r32 :: "rat \<Rightarrow> rat" where "r32 \<equiv> round_mag 24 (-126)"

lemma round32_fin: "q \<le> 16777216 \<Longrightarrow> round32 s q = Fin s (r32 q)"
proof -
  assume "q \<le> 16777216"
  then have "r32 q \<le> 16777216" using f32.rnd_le_nat [of q 16777216] by simp
  moreover have "floor_log2 (r32 q) < 25" if "0 < r32 q"
    using that calculation by (intro floor_log2_less) simp_all
  moreover have "0 \<le> r32 q" by simp
  ultimately have "r32 q = 0 \<or> floor_log2 (r32 q) < 25" by linarith
  then show ?thesis by (auto simp: round32_def round_to_def Let_def)
qed

lemma small_value: "small x b \<Longrightarrow> isfinite x \<and> 0 \<le> fl_value x \<and> fl_value x \<le> b"
  by (auto simp: small_def)

lemma small_value_nonneg: "small x b \<Longrightarrow> 0 \<le> fl_value x"
  by (drule small_value) simp

lemma small_mono: "small x b \<Longrightarrow> b \<le> c \<Longrightarrow> small x c"
  by (auto simp: small_def)

lemma small_zero: "0 \<le> b \<Longrightarrow> small (Fin s 0) b"
  by (auto simp: small_def)

lemma small_f_of_int: "0 \<le> i \<Longrightarrow> i \<le> 16777216 \<Longrightarrow> f_of_int i = Fin False (of_int i)"
  using f32.rnd_nat [of "nat i"] round32_fin [of "of_int i" False]
  by (simp add: f_of_int_def fl_of_int_def fl_of_rat_def)

lemma value_fmul:
  assumes "small x b" "small y c" "b * c \<le> 16777216" "0 \<le> b"
  shows "\<exists>s. fmul x y = Fin s (r32 (fl_value x * fl_value y)) \<and> (s \<longrightarrow> fl_value x * fl_value y = 0)
    \<and> fl_value x * fl_value y \<le> b * c"
proof -
  obtain s m t n where x: "x = Fin s m" "0 \<le> m" "s \<longrightarrow> m = 0" "m \<le> b"
    and y: "y = Fin t n" "0 \<le> n" "t \<longrightarrow> n = 0" "n \<le> c"
    using assms by (auto simp: small_def)
  have "m * n \<le> b * c" using x y assms by (intro mult_mono) auto
  with assms x y show ?thesis by (auto simp: fmul_def round32_fin)
qed

lemma small_r32: "q \<le> of_nat n \<Longrightarrow> n \<le> 16777216 \<Longrightarrow> r32 q \<le> of_nat n"
  by (rule f32.rnd_le_nat)

lemma small_fmul:
  assumes "small x b" "small y c" "0 \<le> b" "b * c \<le> of_nat n" "n \<le> 16777216"
  shows "small (fmul x y) (of_nat n)"
proof -
  have "(of_nat n :: rat) \<le> 16777216" using assms(5) by (simp flip: of_nat_le_iff)
  then have "b * c \<le> 16777216" using assms(4) by linarith
  from value_fmul [OF assms(1,2) this assms(3)] show ?thesis
    using assms(4,5) small_r32 [of "fl_value x * fl_value y" n]
    by (force simp: small_def)
qed

lemma fl_add_nonneg:
  assumes v: "v = fl_value (Fin s a) + fl_value (Fin t b)" and "0 \<le> v" "v \<le> 16777216"
  shows "fl_add round32 (Fin s a) (Fin t b) = Fin (v = 0 \<and> s \<and> t) (r32 v)"
proof (cases "v = 0")
  case True
  then show ?thesis using v by (simp add: Let_def)
next
  case False
  then have "\<not> v < 0" "\<bar>v\<bar> = v" using assms by auto
  with False show ?thesis
    using assms(3) round32_fin [of v False]
    by (simp only: fl_add.simps Let_def v [symmetric] if_False simp_thms)
qed

text \<open>A difference of two such values with a non-negative result.\<close>

lemma value_fsub:
  assumes "small x b" "small y c" "fl_value y \<le> fl_value x" "b \<le> 16777216"
  shows "\<exists>s. fsub x y = Fin s (r32 (fl_value x - fl_value y)) \<and> (s \<longrightarrow> r32 (fl_value x - fl_value y) = 0)"
proof -
  obtain s m t n where x: "x = Fin s m" "0 \<le> m" "s \<longrightarrow> m = 0" "m \<le> b"
    and y: "y = Fin t n" "0 \<le> n" "t \<longrightarrow> n = 0"
    using assms by (auto simp: small_def)
  have v: "fl_value x = m" "fl_value y = n" using x y by auto
  have v': "fl_value (Fin s m) = m" "fl_value (Fin (\<not> t) n) = - n" using x y by auto
  have "m - n \<le> 16777216" "0 \<le> m - n" using x y v assms by auto
  then show ?thesis
    unfolding v using fl_add_nonneg [of "m - n" s m "\<not> t" n] v'
    by (auto simp add: fsub_def fl_sub_def x(1) y(1) simp del: fl_value.simps fl_add.simps)
qed

lemma value_fadd:
  assumes "small x b" "small y c" "b + c \<le> 16777216"
  shows "\<exists>s. fadd x y = Fin s (r32 (fl_value x + fl_value y)) \<and> (s \<longrightarrow> r32 (fl_value x + fl_value y) = 0)"
proof -
  obtain s m t n where x: "x = Fin s m" "0 \<le> m" "s \<longrightarrow> m = 0" "m \<le> b"
    and y: "y = Fin t n" "0 \<le> n" "t \<longrightarrow> n = 0" "n \<le> c"
    using assms by (auto simp: small_def)
  have v: "fl_value x = m" "fl_value y = n" using x y by auto
  have v': "fl_value (Fin s m) = m" "fl_value (Fin t n) = n" using x y by auto
  have "m + n \<le> 16777216" "0 \<le> m + n" using x y assms by auto
  then show ?thesis
    unfolding v using fl_add_nonneg [of "m + n" s m t n] v'
    by (auto simp add: fadd_def x(1) y(1) simp del: fl_value.simps fl_add.simps)
qed

text \<open>Rounding a difference of canvas size moves it by less than a thousandth.\<close>

lemma r32_slack: "0 \<le> x \<Longrightarrow> x \<le> 7680 \<Longrightarrow> r32 x \<le> x + 1 / 1000"
proof (cases "1 / 1000000 \<le> x")
  case True
  assume "x \<le> 7680"
  with f32.rnd_upper [OF True] show ?thesis by linarith
next
  case False
  assume "0 \<le> x"
  have "r32 x \<le> r32 (1 / 1000000)" using False by (intro f32.rnd_mono) simp
  with f32.rnd_upper [of "1 / 1000000"] \<open>0 \<le> x\<close> show ?thesis by simp
qed

section \<open>One axis of the layout\<close>

definition near_edge :: "fl \<Rightarrow> fl \<Rightarrow> fl \<Rightarrow> fl" where
  "near_edge extent sz margin = fl_min margin (fsub extent sz)"

definition far_edge :: "fl \<Rightarrow> fl \<Rightarrow> fl \<Rightarrow> fl" where
  "far_edge extent sz near = fl_max (Fin False 0) (fsub (fsub extent sz) near)"

lemma fits:
  assumes "small x (r32 (fl_value e - fl_value s))" "fl_value s \<le> fl_value e" "fl_value e \<le> 7680"
    "0 \<le> fl_value s"
  shows "axis_inside x s e"
  unfolding axis_inside_def
  using small_value [OF assms(1)] r32_slack [of "fl_value e - fl_value s"] assms(2-4) by linarith

lemma near_edge_small:
  assumes e: "small e 7680" and s: "small s c" and m: "small m b" and le: "fl_value s \<le> fl_value e"
  shows "small (near_edge e s m) (r32 (fl_value e - fl_value s))"
proof -
  obtain t where d: "fsub e s = Fin t (r32 (fl_value e - fl_value s))"
      "t \<longrightarrow> r32 (fl_value e - fl_value s) = 0"
    using value_fsub [OF e s le] by auto
  obtain u n where n: "m = Fin u n" "0 \<le> n" "u \<longrightarrow> n = 0" using m by (auto simp: small_def)
  show ?thesis
    using d n by (auto simp: small_def near_edge_def fl_min_def not_less)
qed

lemma far_edge_small:
  assumes e: "small e 7680" and s: "small s c" and le: "fl_value s \<le> fl_value e"
    and near: "small n (r32 (fl_value e - fl_value s))"
  shows "small (far_edge e s n) (r32 (fl_value e - fl_value s))"
proof -
  let ?d = "r32 (fl_value e - fl_value s)"
  obtain t where d: "fsub e s = Fin t ?d" "t \<longrightarrow> ?d = 0"
    using value_fsub [OF e s le] by auto
  have "?d \<le> 7680"
    using f32.rnd_le_nat [of "fl_value e - fl_value s" 7680] small_value [OF e] small_value [OF s]
    by simp
  then have ds: "small (fsub e s) 7680" and dv: "fl_value (fsub e s) = ?d"
    using d by (auto simp: small_def)
  have nle: "fl_value n \<le> fl_value (fsub e s)" using small_value [OF near] dv by simp
  obtain u where f: "fsub (fsub e s) n = Fin u (r32 (?d - fl_value n))"
      "u \<longrightarrow> r32 (?d - fl_value n) = 0"
    using value_fsub [OF ds near nle] dv by auto
  have "r32 (?d - fl_value n) \<le> r32 ?d"
    using small_value [OF near] by (intro f32.rnd_mono) simp
  then have "r32 (?d - fl_value n) \<le> ?d" by (simp only: f32.rnd_idem)
  with f show ?thesis by (auto simp: small_def far_edge_def fl_max_def)
qed

lemma axis_small:
  assumes "small e 7680" "small s c" "fl_value s \<le> fl_value e" "small m b"
    and "x \<in> {near_edge e s m, far_edge e s (near_edge e s m)}"
  shows "small x (r32 (fl_value e - fl_value s))"
  using near_edge_small [OF assms(1,2,4,3)] far_edge_small [OF assms(1-3)] assms(5) by blast

section \<open>The size of the box\<close>

lemma scene_width_range: "fl_wf w \<Longrightarrow> small (scene_width_of w) 7680 \<and> 640 \<le> fl_value (scene_width_of w)"
  by (cases w) (auto simp: scene_width_of_def scene_extent_def kLogicalWidth_def small_def split: if_splits)

lemma scene_height_range: "fl_wf h \<Longrightarrow> small (scene_height_of h) 4320 \<and> 360 \<le> fl_value (scene_height_of h)"
  by (cases h) (auto simp: scene_height_of_def scene_extent_def kLogicalHeight_def small_def split: if_splits)

lemma fdiv_const:
  assumes x: "small x b" and b: "b \<le> 7680" and n: "1 \<le> n"
  shows "\<exists>s. fdiv x (Fin False n) = Fin s (r32 (fl_value x / n)) \<and> (s \<longrightarrow> fl_value x = 0)"
proof -
  obtain s m where x: "x = Fin s m" "0 \<le> m" "s \<longrightarrow> m = 0" "m \<le> b"
    using x by (auto simp: small_def)
  have "m / n \<le> m / 1" using x n by (intro divide_left_mono) auto
  then have "m / n \<le> 16777216" using x b by linarith
  then show ?thesis using x n by (auto simp: fdiv_def round32_fin)
qed

lemma layout_scale_small:
  assumes w: "small w 7680" "640 \<le> fl_value w" and h: "small h 4320" "360 \<le> fl_value h"
  shows "small (layout_scale w h) (min (r32 (fl_value w / 1920)) (r32 (fl_value h / 1080)))"
proof -
  obtain s t where "fdiv w kLogicalWidth = Fin s (r32 (fl_value w / 1920))" "\<not> s"
      "fdiv h kLogicalHeight = Fin t (r32 (fl_value h / 1080))" "\<not> t"
    using fdiv_const [OF w(1), of 1920] fdiv_const [OF h(1), of 1080] w(2) h(2)
    by (auto simp: kLogicalWidth_def kLogicalHeight_def)
  then show ?thesis by (auto simp: layout_scale_def fl_min_def small_def)
qed

lemma font_product_bound:
  assumes "0 \<le> fs" "fs \<le> 64" "0 \<le> v" "v \<le> r32 (e / d)" "1 \<le> d" "d \<le> 1920" "1 \<le> e" "64 * e \<le> 256 * d"
  shows "r32 (fs * v) \<le> 64 * e / d + 1 / 4"
proof -
  define q where "q = e / d"
  have q: "1 / 1920 \<le> q" "q \<le> 4"
    using assms(5-8) by (auto simp: q_def field_simps)
  have "v \<le> q + q * (1 / 16777216)"
    using assms(4) f32.rnd_upper [of q] q by (simp add: q_def)
  then have v: "v \<le> q + 1 / 4194304" using q by linarith
  have "fs * v \<le> 64 * v" using assms by (intro mult_right_mono)
  then have p: "fs * v \<le> 64 * q + 1 / 65536" using v by linarith
  then have "r32 (fs * v) \<le> r32 (64 * q + 1 / 65536)" by (rule f32.rnd_mono)
  also have "\<dots> \<le> 64 * q + 1 / 65536 + (64 * q + 1 / 65536) * (1 / 16777216)"
    using q by (intro f32.rnd_upper) linarith
  also have "\<dots> \<le> 64 * q + 1 / 4" using q by (simp add: field_simps)
  finally show ?thesis by (simp add: q_def)
qed

lemma lround_int_bound: "0 \<le> q \<Longrightarrow> of_int (lround_int (Fin s q)) \<le> q + 1 / 2"
  by (auto simp: lround_int_def) (use of_int_floor_le [of "q + 1 / 2"] in linarith)+

lemma font_extent:
  assumes scale: "small sc (r32 (e / d))" and fs: "0 \<le> fs" "fs \<le> 64"
    and "1 \<le> d" "d \<le> 1920" "1 \<le> e" "64 * e \<le> 256 * d"
  shows "of_int (layout_font_size fs sc) \<le> 64 * e / d + 1"
proof -
  have e: "r32 (e / d) \<le> 4"
    using f32.rnd_le_nat [of "e / d" 4] assms(4-7) by (simp add: field_simps)
  have f: "f_of_int fs = Fin False (of_int fs)" using fs by (intro small_f_of_int) auto
  have sf: "small (f_of_int fs) 64" using fs by (auto simp: f small_def)
  obtain s where p: "fmul (f_of_int fs) sc = Fin s (r32 (of_int fs * fl_value sc))"
    using value_fmul [OF sf small_mono [OF scale e]] by (auto simp: f)
  have "r32 (of_int fs * fl_value sc) \<le> 64 * e / d + 1 / 4"
    using small_value [OF scale] fs assms(4-7) by (intro font_product_bound) auto
  then have "of_int (lround_int (fmul (f_of_int fs) sc)) \<le> 64 * e / d + 1"
    using lround_int_bound [of "r32 (of_int fs * fl_value sc)" s] p by simp
  moreover have "0 \<le> e / d" using assms by simp
  ultimately show ?thesis by (simp add: layout_font_size_def)
qed

lemma scale_le_4: "small sc (min (r32 (v / 1920)) b) \<Longrightarrow> v \<le> 7680 \<Longrightarrow> small sc 4"
  using f32.rnd_le_nat [of "v / 1920" 4] by (auto elim!: small_mono)

lemma font_range:
  assumes "small sc (min (r32 (v / 1920)) b)" "v \<le> 7680" "0 \<le> fs" "fs \<le> 64"
  shows "1 \<le> layout_font_size fs sc \<and> layout_font_size fs sc \<le> 256"
proof -
  have f: "f_of_int fs = Fin False (of_int fs)" using assms by (intro small_f_of_int) auto
  then have "small (f_of_int fs) 64" using assms by (auto simp: small_def)
  then have "small (fmul (f_of_int fs) sc) (of_nat 256)"
    by (rule small_fmul [OF _ scale_le_4 [OF assms(1,2)]]) auto
  then obtain s m where m: "fmul (f_of_int fs) sc = Fin s m" "0 \<le> m" "m \<le> 256"
    by (auto simp: small_def)
  define i where "i = \<lfloor>m + 1 / 2\<rfloor>"
  have "i \<le> 256" "0 \<le> i" unfolding i_def using m by linarith+
  then show ?thesis
    using m by (cases s) (simp_all add: layout_font_size_def lround_int_def flip: i_def)
qed

lemma sanitized_margin_small:
  "fl_wf (margin_x cfg) \<Longrightarrow> small (margin_x (sanitize_config cfg)) 240"
  "fl_wf (margin_y cfg) \<Longrightarrow> small (margin_y (sanitize_config cfg)) 240"
proof -
  have "small m 240" if "margin_ok m" "fl_wf m" for m
    using that by (cases m) (auto simp: small_def margin_ok_def split: if_splits)
  then show "fl_wf (margin_x cfg) \<Longrightarrow> small (margin_x (sanitize_config cfg)) 240"
    "fl_wf (margin_y cfg) \<Longrightarrow> small (margin_y (sanitize_config cfg)) 240"
    by (auto simp: sanitize_config_def sanitize_margin_ok sanitize_margin_wf)
qed

lemma scaled_margin_small:
  "small sc (min (r32 (v / 1920)) b) \<Longrightarrow> v \<le> 7680 \<Longrightarrow> small m 240 \<Longrightarrow> small (fmul m sc) (of_nat 960)"
  by (rule small_fmul [OF _ scale_le_4]) auto

lemma f_lit_small: "0 \<le> q \<Longrightarrow> q \<le> of_nat n \<Longrightarrow> n \<le> 16777216 \<Longrightarrow> small (f_lit q) (of_nat n)"
proof -
  assume a: "0 \<le> q" "q \<le> of_nat n" "n \<le> 16777216"
  then have "(of_nat n :: rat) \<le> 16777216" by (simp flip: of_nat_le_iff)
  then have "f_lit q = Fin False (r32 q)"
    using a by (simp add: f_lit_def fl_of_rat_def round32_fin)
  then show ?thesis using small_r32 [OF a(2,3)] by (auto simp: small_def)
qed

lemma scaled_font_small:
  assumes "1 \<le> sz" "sz \<le> 256" and "0 \<le> q" "q \<le> of_nat n" "n \<le> 8"
  shows "small (fmul (f_of_int sz) (f_lit q)) (of_nat (nat sz * n))"
proof (rule small_fmul)
  show "small (f_of_int sz) (of_int sz)"
    using small_f_of_int [of sz] assms by (auto simp: small_def)
  show "small (f_lit q) (of_nat n)" using assms by (intro f_lit_small) auto
  show "of_int sz * of_nat n \<le> (of_nat (nat sz * n) :: rat)" using assms by simp
  show "nat sz * n \<le> 16777216"
    using mult_le_mono [of "nat sz" 256 n 8] assms by linarith
qed (use assms in simp)

definition box_width :: "bool \<Rightarrow> bool \<Rightarrow> int \<Rightarrow> fl" where
  "box_width label loading_text sz =
     fadd (if label then fmul (f_of_int sz) (f_lit (27 / 10)) else Fin False 0)
       (fmul (f_of_int sz) (f_lit (if loading_text then 9 / 2 else 5 / 2)))"

lemma box_width_small:
  assumes "1 \<le> sz" "sz \<le> 256"
  shows "small (box_width label loading_text sz) (of_nat (8 * nat sz))"
proof -
  let ?a = "if label then fmul (f_of_int sz) (f_lit (27 / 10)) else Fin False 0"
  let ?b = "fmul (f_of_int sz) (f_lit (if loading_text then 9 / 2 else 5 / 2))"
  have a: "small ?a (of_nat (nat sz * 3))"
    using scaled_font_small [OF assms, of "27 / 10" 3] small_zero by auto
  have b: "small ?b (of_nat (nat sz * 5))"
    using scaled_font_small [OF assms, of "if loading_text then 9 / 2 else 5 / 2" 5] by auto
  have le: "(of_nat (nat sz * 3) + of_nat (nat sz * 5) :: rat) \<le> 16777216"
    using assms by simp
  obtain s where s: "fadd ?a ?b = Fin s (r32 (fl_value ?a + fl_value ?b))"
      "s \<longrightarrow> r32 (fl_value ?a + fl_value ?b) = 0"
    using value_fadd [OF a b le] by blast
  have "fl_value ?a + fl_value ?b \<le> of_nat (8 * nat sz)"
    using small_value [OF a] small_value [OF b] by simp
  then have "r32 (fl_value ?a + fl_value ?b) \<le> of_nat (8 * nat sz)"
    using assms by (intro small_r32) auto
  with s show ?thesis unfolding box_width_def small_def by auto
qed

lemma compute_layout_axes:
  fixes cfg w h loading_text
  defines "c \<equiv> sanitize_config cfg" and "W \<equiv> scene_width_of w" and "H \<equiv> scene_height_of h"
  defines "sc \<equiv> layout_scale W H"
  defines "sz \<equiv> layout_font_size (font_size c) sc"
  defines "lay \<equiv> compute_layout cfg w h loading_text"
  defines "left \<equiv> near_edge W (lay_width lay) (fmul (margin_x c) sc)"
    and "upper \<equiv> near_edge H (lay_height lay) (fmul (margin_y c) sc)"
  shows "lay_font_size lay = sz"
    and "lay_width lay = box_width (show_label c) loading_text sz"
    and "lay_height lay = fmul (f_of_int sz) (f_lit (145 / 100))"
    and "vec_x (lay_anchor lay) \<in> {left, far_edge W (lay_width lay) left}"
    and "vec_y (lay_anchor lay) \<in> {upper, far_edge H (lay_height lay) upper}"
  unfolding assms compute_layout_def Let_def near_edge_def far_edge_def box_width_def
  by (simp_all split: corner.splits)

text \<open>
  (C37) For every configuration and every reported canvas size, out of range or NaN included,
  the overlay's box lies inside the effective canvas (up to a thousandth of a unit of single
  precision rounding), its anchor is never negative, and its font is between 1 and 256 units.
\<close>

theorem layout_inside_canvas:
  assumes "fl_wf w" "fl_wf h" "fl_wf (margin_x cfg)" "fl_wf (margin_y cfg)"
  shows "1 \<le> lay_font_size (compute_layout cfg w h loading_text)
    \<and> lay_font_size (compute_layout cfg w h loading_text) \<le> 256
    \<and> box_inside (compute_layout cfg w h loading_text) (scene_width_of w) (scene_height_of h)"
proof -
  define c where "c = sanitize_config cfg"
  define lay where "lay = compute_layout cfg w h loading_text"
  let ?W = "scene_width_of w" and ?H = "scene_height_of h"
  let ?sc = "layout_scale ?W ?H"
  let ?sz = "layout_font_size (font_size c) ?sc"
  note ax = compute_layout_axes [of cfg w h loading_text, folded c_def lay_def]
  have W: "small ?W 7680" "640 \<le> fl_value ?W" and H: "small ?H 4320" "360 \<le> fl_value ?H"
    using scene_width_range scene_height_range assms(1,2) by blast+
  note sc = layout_scale_small [OF W H]
  have W7680: "fl_value ?W \<le> 7680" and H4320: "fl_value ?H \<le> 4320"
    using small_value [OF W(1)] small_value [OF H(1)] by simp_all
  have fs: "0 \<le> font_size c" "font_size c \<le> 64"
    using config_ok_sanitize [of cfg] by (simp_all add: config_ok_def c_def)
  have szW: "of_int ?sz \<le> 64 * fl_value ?W / 1920 + 1"
    using W W7680 fs by (intro font_extent small_mono [OF sc]) auto
  have szH: "of_int ?sz \<le> 64 * fl_value ?H / 1080 + 1"
    using H H4320 fs by (intro font_extent small_mono [OF sc]) auto
  have sz: "1 \<le> ?sz" "?sz \<le> 256"
    using font_range [OF sc] fs W7680 by auto
  have ws: "small (lay_width lay) (of_nat (8 * nat ?sz))"
    unfolding ax(2) by (rule box_width_small [OF sz])
  have hs: "small (lay_height lay) (of_nat (nat ?sz * 2))"
    unfolding ax(3) by (rule scaled_font_small [OF sz]) auto
  have wle: "fl_value (lay_width lay) \<le> fl_value ?W"
    using small_value [OF ws] szW W(2) sz by simp
  have hle: "fl_value (lay_height lay) \<le> fl_value ?H"
    using small_value [OF hs] szH H(2) sz by simp
  have H7680: "small ?H 7680" by (rule small_mono [OF H(1)]) simp
  have mx: "small (fmul (margin_x c) ?sc) (of_nat 960)" and my: "small (fmul (margin_y c) ?sc) (of_nat 960)"
    using scaled_margin_small [OF sc W7680] sanitized_margin_small assms(3,4) by (auto simp: c_def)
  have "axis_inside (vec_x (lay_anchor lay)) (lay_width lay) ?W"
    by (rule fits [OF axis_small [OF W(1) ws wle mx ax(4)] wle W7680 small_value_nonneg [OF ws]])
  moreover have "axis_inside (vec_y (lay_anchor lay)) (lay_height lay) ?H"
    using H4320 by (intro fits [OF axis_small [OF H7680 hs hle my ax(5)] hle _ small_value_nonneg [OF hs]]) simp
  ultimately show ?thesis
    using sz ax(1) by (simp add: box_inside_def flip: lay_def)
qed


theorem layout_inside_canvas_witness:
  "box_inside (compute_layout default_config (Fin False 3840) NaN True) (Fin False 3840) (Fin False 1080)"
  using layout_inside_canvas [of "Fin False 3840" NaN default_config True]
  by (simp add: scene_width_of_def scene_height_of_def scene_extent_def kLogicalHeight_def default_config_def)

end
