(* ===== verification/Display_Filter.thy ===== *)
theory Display_Filter
  imports Overlay_Config "HOL-Library.Multiset"
begin

text \<open>
  \<^verbatim>\<open>include/common_fps/fps_display_filter.hpp\<close>: the presentation filter between the
  measured rates and the overlay.  The three ring buffers of the class are lists of length
  three with a cursor.  The lemmas show that the filter is a \<open>rate_source\<close>, that it is
  silent during the first five seconds of an epoch, that isolated spikes never reach the
  display while drops do at once, and that a steady higher rate is eventually shown.
\<close>

section \<open>Definitions\<close>

datatype fps_display_source = SrcNone | VideoOut | DceFixed | DceAdaptive | SharedHen

definition kWindow :: nat where "kWindow = 3"
definition kStartupUs :: u64 where "kStartupUs = 5000000"
definition kRiseUs :: u64 where "kRiseUs = 2000000"

record display_filter =
  df_have_epoch :: bool
  df_pid :: int
  df_source :: fps_display_source
  df_started_us :: u64
  df_previous_us :: u64
  df_elevated_since_us :: u64
  df_displayed :: "int option"
  df_recent :: "int list"
  df_accepted :: "int list"
  df_elevated :: "int list"
  df_recent_count :: nat
  df_recent_cursor :: nat
  df_accepted_cursor :: nat
  df_elevated_count :: nat
  df_elevated_cursor :: nat

definition df_init :: display_filter where
  "df_init =
     \<lparr>df_have_epoch = False, df_pid = -1, df_source = SrcNone, df_started_us = 0,
      df_previous_us = 0, df_elevated_since_us = 0, df_displayed = None,
      df_recent = [0, 0, 0], df_accepted = [0, 0, 0], df_elevated = [0, 0, 0],
      df_recent_count = 0, df_recent_cursor = 0, df_accepted_cursor = 0,
      df_elevated_count = 0, df_elevated_cursor = 0\<rparr>"

definition df_reset :: "display_filter \<Rightarrow> display_filter" where
  "df_reset s = df_init"

definition median3 :: "int list \<Rightarrow> int" where
  "median3 values = sort values ! (kWindow div 2)"

definition max_element :: "int list \<Rightarrow> int" where
  "max_element xs = fold max (tl xs) (hd xs)"

definition upward_threshold :: "int list \<Rightarrow> int" where
  "upward_threshold accepted =
     (let reference = max_element accepted in reference + max 8 (reference div 5))"

text \<open>The \<open>!displayed_\<close> branch: collect samples until the epoch is old enough.\<close>

definition df_settle :: "int \<Rightarrow> u64 \<Rightarrow> display_filter \<Rightarrow> int option \<times> display_filter" where
  "df_settle m now s0 =
     (let s = s0\<lparr>df_recent := (df_recent s0)[df_recent_cursor s0 := m],
                df_recent_cursor := (df_recent_cursor s0 + 1) mod kWindow,
                df_recent_count := min kWindow (df_recent_count s0 + 1)\<rparr>
      in if now - df_started_us s < kStartupUs \<or> df_recent_count s < kWindow then (None, s)
         else let d = median3 (df_recent s)
              in (Some d, s\<lparr>df_displayed := Some d, df_accepted := replicate kWindow d\<rparr>))"

text \<open>The elevated branch: a sample above the threshold waits for confirmation.\<close>

definition df_elevate :: "int \<Rightarrow> u64 \<Rightarrow> display_filter \<Rightarrow> display_filter" where
  "df_elevate m now s =
     s\<lparr>df_elevated_since_us := (if df_elevated_count s = 0 then now else df_elevated_since_us s),
       df_elevated := (df_elevated s)[df_elevated_cursor s := m],
       df_elevated_cursor := (df_elevated_cursor s + 1) mod kWindow,
       df_elevated_count := min kWindow (df_elevated_count s + 1)\<rparr>"

definition df_track :: "int \<Rightarrow> u64 \<Rightarrow> display_filter \<Rightarrow> int option \<times> display_filter" where
  "df_track m now s0 =
     (if upward_threshold (df_accepted s0) < m then
        let s = df_elevate m now s0
        in if df_elevated_count s < kWindow \<or> now - df_elevated_since_us s < kRiseUs
           then (df_displayed s, s)
           else let d = median3 (df_elevated s)
                in (Some d, s\<lparr>df_displayed := Some d, df_accepted := replicate kWindow d,
                              df_accepted_cursor := 0, df_elevated_count := 0,
                              df_elevated_cursor := 0\<rparr>)
      else
        (Some m, s0\<lparr>df_displayed := Some m,
                    df_accepted := (df_accepted s0)[df_accepted_cursor s0 := m],
                    df_accepted_cursor := (df_accepted_cursor s0 + 1) mod kWindow,
                    df_elevated_count := 0, df_elevated_cursor := 0\<rparr>))"

definition df_accept :: "int \<Rightarrow> u64 \<Rightarrow> display_filter \<Rightarrow> int option \<times> display_filter" where
  "df_accept m now s0 =
     (let s = s0\<lparr>df_previous_us := now\<rparr>
      in if df_displayed s = None then df_settle m now s else df_track m now s)"

definition df_begin_epoch :: "u64 \<Rightarrow> int \<Rightarrow> fps_display_source \<Rightarrow> display_filter" where
  "df_begin_epoch now pid src =
     df_init\<lparr>df_have_epoch := True, df_pid := pid, df_source := src,
             df_started_us := now, df_previous_us := now\<rparr>"

definition df_stale :: "u64 \<Rightarrow> int \<Rightarrow> fps_display_source \<Rightarrow> display_filter \<Rightarrow> bool" where
  "df_stale now pid src s \<longleftrightarrow>
     \<not> df_have_epoch s \<or> pid \<noteq> df_pid s \<or> src \<noteq> df_source s \<or>
     now < df_previous_us s \<or> kMaxFpsWindowUs < now - df_previous_us s"

definition df_sample ::
  "int option \<Rightarrow> u64 \<Rightarrow> int \<Rightarrow> fps_display_source \<Rightarrow> display_filter \<Rightarrow> int option \<times> display_filter" where
  "df_sample measured now pid src s =
     (case measured of
        None \<Rightarrow> (None, df_reset s)
      | Some m \<Rightarrow>
          if pid \<le> 0 \<or> src = SrcNone \<or> m < 0 \<or> kMaxDisplayFps < m then (None, df_reset s)
          else if df_stale now pid src s then df_accept m now (df_begin_epoch now pid src)
          else if now = df_previous_us s then (df_displayed s, s)
          else df_accept m now s)"

text \<open>One poll of the filter as a step on its inputs.\<close>

type_synonym df_input = "int option \<times> u64 \<times> int \<times> fps_display_source"

fun df_step :: "df_input \<Rightarrow> display_filter \<Rightarrow> int option \<times> display_filter" where
  "df_step (measured, now, pid, src) s = df_sample measured now pid src s"

text \<open>A poll in the \<open>d\<close> microseconds from \<open>t0\<close> on.\<close>

fun within_us :: "u64 \<Rightarrow> nat \<Rightarrow> df_input \<Rightarrow> bool" where
  "within_us t0 d (measured, now, pid, src) \<longleftrightarrow> unat t0 \<le> unat now \<and> unat now < unat t0 + d"

text \<open>Steady polling: the same rate at increasing times, no gap longer than the window.\<close>

definition steady :: "int \<Rightarrow> int \<Rightarrow> fps_display_source \<Rightarrow> u64 list \<Rightarrow> df_input list" where
  "steady r pid src ts = map (\<lambda>t. (Some r, t, pid, src)) ts"

fun spaced :: "u64 \<Rightarrow> u64 list \<Rightarrow> bool" where
  "spaced p [] \<longleftrightarrow> True"
| "spaced p (t # ts) \<longleftrightarrow> p < t \<and> t - p \<le> kMaxFpsWindowUs \<and> spaced t ts"

section \<open>Invariant\<close>

definition rates :: "int list \<Rightarrow> bool" where
  "rates xs \<longleftrightarrow> length xs = 3 \<and> (\<forall>x\<in>set xs. 0 \<le> x \<and> x \<le> 120)"

definition df_inv :: "display_filter \<Rightarrow> bool" where
  "df_inv s \<longleftrightarrow>
     rates (df_recent s) \<and> rates (df_accepted s) \<and> rates (df_elevated s) \<and>
     df_recent_cursor s < 3 \<and> df_accepted_cursor s < 3 \<and> df_elevated_cursor s < 3 \<and>
     df_recent_count s \<le> 3 \<and> df_elevated_count s \<le> 3 \<and>
     (df_elevated_count s < 3 \<longrightarrow> df_elevated_cursor s = df_elevated_count s) \<and>
     (df_displayed s = None \<longrightarrow> df_elevated_count s = 0) \<and>
     (\<forall>i<df_elevated_count s. upward_threshold (df_accepted s) < df_elevated s ! i) \<and>
     (case df_displayed s of None \<Rightarrow> True | Some d \<Rightarrow> 0 \<le> d \<and> d \<le> 120) \<and>
     df_started_us s \<le> df_previous_us s \<and>
     (0 < df_elevated_count s \<longrightarrow> df_elevated_since_us s \<le> df_previous_us s)"

text \<open>The filter is showing a rate of process \<open>pid\<close> measured by \<open>src\<close>.\<close>

definition df_showing :: "int \<Rightarrow> fps_display_source \<Rightarrow> display_filter \<Rightarrow> bool" where
  "df_showing pid src s \<longleftrightarrow>
     df_inv s \<and> df_have_epoch s \<and> df_pid s = pid \<and> df_source s = src \<and> 0 < pid \<and>
     src \<noteq> SrcNone \<and> df_displayed s \<noteq> None"

lemmas df_consts = kWindow_def kStartupUs_def kRiseUs_def kMaxDisplayFps_def kMaxFpsWindowUs_def

lemma rates_update: "rates xs \<Longrightarrow> 0 \<le> m \<Longrightarrow> m \<le> 120 \<Longrightarrow> rates (xs[i := m])"
  by (auto simp: rates_def dest: set_update_subset_insert [THEN subsetD])

lemma rates_replicate: "0 \<le> m \<Longrightarrow> m \<le> 120 \<Longrightarrow> rates (replicate 3 m)"
  by (simp add: rates_def)

lemma median3_mem: "length xs = 3 \<Longrightarrow> median3 xs \<in> set xs"
  using nth_mem [of 1 "sort xs"] by (simp add: median3_def kWindow_def)

lemma rates_median3: "rates xs \<Longrightarrow> 0 \<le> median3 xs \<and> median3 xs \<le> 120"
  using median3_mem [of xs] by (simp add: rates_def)

lemma median3_replicate [simp]: "median3 [r, r, r] = r"
  by (simp add: median3_def kWindow_def)

lemma max_element_3: "max_element [a, b, c] = max c (max b a)"
  by (simp add: max_element_def)

lemma length_3E:
  assumes "length xs = 3"
  obtains a b c where "xs = [a, b, c]"
  using assms by (auto simp: numeral_3_eq_3 length_Suc_conv)

lemma threshold_ge: "rates xs \<Longrightarrow> x \<in> set xs \<Longrightarrow> x \<le> upward_threshold xs"
  by (auto simp: rates_def upward_threshold_def max_element_3 Let_def elim!: length_3E)

lemma threshold_nonneg: "rates xs \<Longrightarrow> 0 \<le> upward_threshold xs"
  by (auto simp: rates_def upward_threshold_def max_element_3 Let_def elim!: length_3E)

lemma df_inv_init: "df_inv df_init"
  by (simp add: df_inv_def df_init_def rates_def)

lemma df_inv_begin: "df_inv (df_begin_epoch now pid src)"
  by (simp add: df_inv_def df_begin_epoch_def df_init_def rates_def)

lemma df_inv_settle:
  "df_inv s \<Longrightarrow> df_displayed s = None \<Longrightarrow> 0 \<le> m \<Longrightarrow> m \<le> 120 \<Longrightarrow> df_inv (snd (df_settle m now s))"
  using rates_median3 [OF rates_update, of "df_recent s" m "df_recent_cursor s"]
  by (simp add: df_settle_def df_inv_def Let_def kWindow_def rates_update rates_replicate)

lemma ring_extend:
  assumes "length xs = 3" "\<forall>i<n. P (xs ! i)" "n \<le> 3" "c < 3" "n < 3 \<longrightarrow> c = n" "P r"
  shows "\<forall>i<min 3 (n + 1). P (xs[c := r] ! i)"
  using assms by (auto simp: nth_list_update less_Suc_eq)

lemma df_inv_elevate:
  assumes "df_inv s" "0 \<le> m" "m \<le> 120" "df_previous_us s = now"
    and "df_displayed s \<noteq> None" and "upward_threshold (df_accepted s) < m"
  shows "df_inv (df_elevate m now s)"
proof -
  have "df_elevated_cursor s < 3" "df_elevated_count s \<le> 3"
    "df_elevated_count s < 3 \<longrightarrow> df_elevated_cursor s = df_elevated_count s"
    using assms(1) by (simp_all add: df_inv_def)
  then have "min 3 (df_elevated_count s + 1) < 3 \<longrightarrow>
      (df_elevated_cursor s + 1) mod 3 = min 3 (df_elevated_count s + 1)"
    by auto
  moreover have "\<forall>i<min 3 (df_elevated_count s + 1).
      upward_threshold (df_accepted s) < (df_elevated s)[df_elevated_cursor s := m] ! i"
    using assms(1,6) by (intro ring_extend) (auto simp: df_inv_def rates_def)
  ultimately show ?thesis
    using assms by (simp add: df_elevate_def df_inv_def kWindow_def rates_update)
qed

lemma df_inv_track:
  assumes "df_inv s" "0 \<le> m" "m \<le> 120" "df_previous_us s = now" "df_displayed s \<noteq> None"
  shows "df_inv (snd (df_track m now s))"
proof (cases "upward_threshold (df_accepted s) < m")
  case True
  have e: "df_inv (df_elevate m now s)" by (rule df_inv_elevate [OF assms True])
  then have "0 \<le> median3 (df_elevated (df_elevate m now s))" "median3 (df_elevated (df_elevate m now s)) \<le> 120"
    using rates_median3 by (auto simp: df_inv_def)
  with True e show ?thesis
    by (auto simp: df_track_def Let_def df_inv_def kWindow_def rates_replicate)
next
  case False
  with assms show ?thesis
    by (auto simp: df_track_def df_inv_def kWindow_def rates_update)
qed

lemma df_inv_previous: "df_inv s \<Longrightarrow> df_previous_us s \<le> now \<Longrightarrow> df_inv (s\<lparr>df_previous_us := now\<rparr>)"
  by (auto simp: df_inv_def)

lemma df_inv_accept:
  assumes "df_inv s" "0 \<le> m" "m \<le> 120" "df_previous_us s \<le> now"
  shows "df_inv (snd (df_accept m now s))"
  using df_inv_settle df_inv_track df_inv_previous [OF assms(1,4)] assms(2,3)
  by (simp add: df_accept_def Let_def)

lemma df_inv_sample: "df_inv s \<Longrightarrow> df_inv (snd (df_sample measured now pid src s))"
  by (auto simp: df_sample_def df_reset_def df_inv_init df_consts df_stale_def
      intro!: df_inv_accept df_inv_begin split: option.splits)
    (simp_all add: df_begin_epoch_def)

text \<open>The filter never changes what it answers behind the caller's back.\<close>

lemma df_settle_output: "fst (df_settle m now s) = Some d \<Longrightarrow> df_displayed (snd (df_settle m now s)) = Some d"
  by (auto simp: df_settle_def Let_def split: if_splits)

lemma df_track_output: "fst (df_track m now s) = df_displayed (snd (df_track m now s))"
  by (auto simp: df_track_def Let_def)

lemma df_accept_output: "fst (df_accept m now s) = Some d \<Longrightarrow> df_displayed (snd (df_accept m now s)) = Some d"
  by (auto simp: df_accept_def Let_def df_track_output dest: df_settle_output split: if_splits)

lemma df_sample_output:
  "fst (df_sample measured now pid src s) = Some d \<Longrightarrow>
   df_displayed (snd (df_sample measured now pid src s)) = Some d"
  by (auto simp: df_sample_def split: option.splits if_splits dest: df_accept_output)

interpretation filter_rates: rate_source df_init df_step df_inv
proof
  show "df_inv df_init" by (rule df_inv_init)
  show "df_inv s \<Longrightarrow> df_inv (snd (df_step i s))" for s i
    by (cases i) (simp add: df_inv_sample)
  show "0 \<le> r \<and> r \<le> 120" if "df_inv s" "fst (df_step i s) = Some r" for s i r
  proof -
    obtain measured now pid src where i: "i = (measured, now, pid, src)" by (cases i)
    have "df_displayed (snd (df_step i s)) = Some r"
      using that(2) df_sample_output by (simp add: i)
    moreover have "df_inv (snd (df_step i s))" using that(1) by (simp add: i df_inv_sample)
    ultimately show ?thesis by (simp add: df_inv_def)
  qed
qed

section \<open>A running display\<close>

lemma df_showing_sample:
  assumes "df_showing pid src s" "spaced (df_previous_us s) [t]" "0 \<le> m" "m \<le> 120"
  shows "df_sample (Some m) t pid src s = df_track m t (s\<lparr>df_previous_us := t\<rparr>)"
  using assms
  by (auto simp: df_showing_def df_sample_def df_stale_def df_consts df_accept_def not_less less_le)

lemma df_track_keeps:
  assumes "df_showing pid src s" "df_previous_us s \<le> t" "0 \<le> m" "m \<le> 120"
  shows "df_showing pid src (snd (df_track m t (s\<lparr>df_previous_us := t\<rparr>)))
    \<and> df_previous_us (snd (df_track m t (s\<lparr>df_previous_us := t\<rparr>))) = t"
proof -
  have "df_inv (snd (df_track m t (s\<lparr>df_previous_us := t\<rparr>)))"
    using assms by (intro df_inv_track df_inv_previous) (auto simp: df_showing_def)
  then show ?thesis
    using assms by (auto simp: df_showing_def df_track_def df_elevate_def Let_def)
qed

lemma df_track_elevated:
  assumes "upward_threshold (df_accepted s) < m" "df_elevated_count s < 2"
  shows "df_track m t s = (df_displayed s, df_elevate m t s)"
  using assms by (simp add: df_track_def Let_def df_elevate_def kWindow_def)

lemma df_track_normal:
  assumes "m \<le> upward_threshold (df_accepted s)"
  shows "fst (df_track m t s) = Some m \<and> df_elevated_count (snd (df_track m t s)) = 0"
  using assms by (simp add: df_track_def)

text \<open>Towards a steady rate: it is either shown or on the way to be confirmed.\<close>

definition df_shown :: "int \<Rightarrow> display_filter \<Rightarrow> bool" where
  "df_shown r s \<longleftrightarrow> r \<in> set (df_accepted s)"

definition df_pending :: "int \<Rightarrow> u64 \<Rightarrow> display_filter \<Rightarrow> bool" where
  "df_pending r t1 s \<longleftrightarrow>
     0 < df_elevated_count s \<and> df_elevated_since_us s = t1 \<and>
     upward_threshold (df_accepted s) < r \<and> (\<forall>i<df_elevated_count s. df_elevated s ! i = r)"

lemma shown_track:
  assumes "df_inv s" "df_shown r s"
  shows "fst (df_track r t s) = Some r \<and> df_shown r (snd (df_track r t s))"
proof -
  have "rates (df_accepted s)" "df_accepted_cursor s < 3" using assms(1) by (simp_all add: df_inv_def)
  then have le: "r \<le> upward_threshold (df_accepted s)" and "df_accepted_cursor s < length (df_accepted s)"
    using assms(2) by (auto simp: df_shown_def rates_def intro: threshold_ge)
  then show ?thesis by (simp add: df_track_def df_shown_def set_update_memI)
qed

lemma all_equal_3: "length xs = 3 \<Longrightarrow> \<forall>i<3. xs ! i = r \<Longrightarrow> xs = [r, r, r]"
  by (erule length_3E) (simp add: numeral_3_eq_3 All_less_Suc)

lemma pending_elevate:
  assumes "df_inv s" "df_pending r t1 s"
  shows "df_pending r t1 (df_elevate r t s) \<and>
    df_elevated_count (df_elevate r t s) = min 3 (df_elevated_count s + 1)"
  using ring_extend [of "df_elevated s" "df_elevated_count s" "\<lambda>x. x = r" "df_elevated_cursor s" r] assms
  by (auto simp: df_pending_def df_elevate_def kWindow_def df_inv_def rates_def)

lemma pending_track:
  assumes "df_inv s" "df_pending r t1 s" "0 \<le> r" "r \<le> 120" "df_previous_us s = t"
  defines "o' \<equiv> df_track r t s"
  shows "fst o' = Some r \<and> df_shown r (snd o')
    \<or> df_pending r t1 (snd o') \<and> df_elevated_count (snd o') = min 3 (df_elevated_count s + 1)
      \<and> (df_elevated_count s < 2 \<or> t - t1 < kRiseUs)"
proof -
  let ?e = "df_elevate r t s"
  have e: "df_pending r t1 ?e" "df_elevated_count ?e = min 3 (df_elevated_count s + 1)"
    using pending_elevate [OF assms(1,2)] by auto
  have thr: "upward_threshold (df_accepted s) < r" using assms(2) by (simp add: df_pending_def)
  have since: "df_elevated_since_us ?e = t1" using e(1) by (simp add: df_pending_def)
  have "df_displayed s \<noteq> None" using assms(1,2) by (auto simp: df_inv_def df_pending_def)
  then have len: "length (df_elevated ?e) = 3"
    using df_inv_elevate [OF assms(1,3,4,5) _ thr] by (simp add: df_inv_def rates_def)
  show ?thesis
  proof (cases "df_elevated_count ?e < 3 \<or> t - t1 < kRiseUs")
    case True
    then have "o' = (df_displayed ?e, ?e)"
      using thr since by (simp add: o'_def df_track_def Let_def kWindow_def)
    with True e show ?thesis by auto
  next
    case False
    then have "df_elevated ?e = [r, r, r]"
      using all_equal_3 [OF len] e(1) by (auto simp: df_pending_def)
    with False show ?thesis
      using thr since by (auto simp: o'_def df_track_def Let_def kWindow_def df_shown_def)
  qed
qed

lemma steady_confirmed:
  assumes "df_showing pid src s" "df_shown r s \<or> df_pending r t1 s" "0 \<le> r" "r \<le> 120"
    "spaced (df_previous_us s) ts" "ts \<noteq> []" "3 \<le> df_elevated_count s + length ts \<or> df_shown r s"
    "kRiseUs \<le> last ts - t1 \<or> df_shown r s"
  shows "last (run_outputs df_step s (steady r pid src ts)) = Some r"
  using assms
proof (induction ts arbitrary: s)
  case (Cons t ts)
  let ?s = "s\<lparr>df_previous_us := t\<rparr>"
  let ?o = "df_track r t ?s"
  have le: "df_previous_us s \<le> t" using Cons.prems(5) by (simp add: less_imp_le)
  have step: "df_sample (Some r) t pid src s = ?o"
    using df_showing_sample [OF Cons.prems(1)] Cons.prems by simp
  have keep: "df_showing pid src (snd ?o)" "df_previous_us (snd ?o) = t"
    using df_track_keeps [OF Cons.prems(1) le Cons.prems(3,4)] by auto
  have inv: "df_inv ?s" using Cons.prems(1) le by (simp add: df_showing_def df_inv_previous)
  have shown: "fst ?o = Some r \<and> df_shown r (snd ?o)" if "df_shown r s"
    using shown_track [OF inv] that by (simp add: df_shown_def)
  have next_phase: "df_shown r (snd ?o) \<and> fst ?o = Some r
     \<or> df_pending r t1 (snd ?o) \<and> df_elevated_count (snd ?o) = min 3 (df_elevated_count s + 1)
       \<and> \<not> df_shown r s \<and> (df_elevated_count s < 2 \<or> t - t1 < kRiseUs)"
    using Cons.prems(2) shown pending_track [OF inv _ Cons.prems(3,4), of t1 t]
    by (auto simp: df_pending_def)
  show ?case
  proof (cases "ts = []")
    case True
    with next_phase Cons.prems(7,8) step show ?thesis
      by (auto simp: steady_def df_pending_def)
  next
    case False
    have "last (run_outputs df_step (snd ?o) (steady r pid src ts)) = Some r"
      using next_phase Cons.prems False keep by (intro Cons.IH) auto
    with False step show ?thesis by (cases ts) (simp_all add: steady_def)
  qed
qed simp

lemma steady_first:
  assumes "df_inv s" "df_elevated_count s = 0" "0 \<le> r" "r \<le> 120"
  shows "df_shown r (snd (df_track r t s)) \<and> fst (df_track r t s) = Some r
    \<or> df_pending r t (snd (df_track r t s)) \<and> df_elevated_count (snd (df_track r t s)) = 1"
proof (cases "upward_threshold (df_accepted s) < r")
  case True
  have "length (df_elevated s) = 3" "df_elevated_cursor s = 0"
    using assms(1,2) by (auto simp: df_inv_def rates_def)
  with True assms(2) show ?thesis
    using df_track_elevated [OF True, of t] by (simp add: df_elevate_def df_pending_def kWindow_def)
next
  case False
  have "df_accepted_cursor s < length (df_accepted s)" using assms(1) by (simp add: df_inv_def rates_def)
  with False show ?thesis by (simp add: df_track_def df_shown_def set_update_memI)
qed

section \<open>What stands behind a rise\<close>

text \<open>
  A run of polls of one process and source; the samples are those that do not repeat the time
  of the one before.  A run is unbroken when no sample is at or below the threshold and none
  comes later than a window after the one before.
\<close>

definition measured_poll :: "int \<Rightarrow> fps_display_source \<Rightarrow> int \<times> u64 \<Rightarrow> df_input" where
  "measured_poll pid src = (\<lambda>(m, t). (Some m, t, pid, src))"

definition add_sample :: "int \<times> u64 \<Rightarrow> (int \<times> u64) list \<Rightarrow> (int \<times> u64) list" where
  "add_sample p fs = (if fs \<noteq> [] \<and> snd (last fs) = snd p then fs else fs @ [p])"

definition fresh_samples :: "(int \<times> u64) list \<Rightarrow> (int \<times> u64) list" where
  "fresh_samples ps = fold add_sample ps []"

definition unbroken :: "int \<Rightarrow> (int \<times> u64) list \<Rightarrow> bool" where
  "unbroken threshold fs \<longleftrightarrow> fs \<noteq> [] \<and> (\<forall>p\<in>set fs. threshold < fst p) \<and> spaced (snd (hd fs)) (map snd (tl fs))"

text \<open>A ring of three with the last values of a list, the next place being the length modulo three.\<close>

definition ring_of :: "int list \<Rightarrow> int list \<Rightarrow> bool" where
  "ring_of ring xs \<longleftrightarrow> length ring = 3 \<and> (\<forall>j<length xs. length xs \<le> j + 3 \<longrightarrow> ring ! (j mod 3) = xs ! j)"

lemma ring_snoc:
  assumes "ring_of ring xs" shows "ring_of (ring[length xs mod 3 := x]) (xs @ [x])"
proof -
  have "ring[length xs mod 3 := x] ! (j mod 3) = (xs @ [x]) ! j" if "j < Suc (length xs)" "length xs + 1 \<le> j + 3" for j
  proof (cases "j = length xs")
    case True
    then show ?thesis using assms by (simp add: ring_of_def)
  next
    case False
    then have "j < length xs" "length xs mod 3 \<noteq> j mod 3" using that by presburger+
    then show ?thesis using assms that by (simp add: ring_of_def nth_append)
  qed
  then show ?thesis using assms by (simp add: ring_of_def)
qed

lemma ring_median:
  assumes "ring_of ring xs" "3 \<le> length xs"
  shows "median3 ring = median3 (drop (length xs - 3) xs)"
proof -
  obtain a b c where abc: "drop (length xs - 3) xs = [a, b, c]"
    using length_3E [of "drop (length xs - 3) xs"] assms(2) by auto
  define n where "n = length xs - 3"
  have x: "xs ! (n + k) = [a, b, c] ! k" if "k < 3" for k
    using that assms(2) nth_drop [of n xs k] by (simp add: abc [folded n_def] n_def [symmetric]) (simp add: n_def)
  have r: "ring ! ((n + k) mod 3) = [a, b, c] ! k" if "k < 3" for k
    using assms that x [OF that] by (auto simp: ring_of_def n_def)
  obtain p q s where ring: "ring = [p, q, s]" using assms(1) length_3E [of ring] by (auto simp: ring_of_def)
  have "mset ring = mset [a, b, c]"
  proof -
    consider "n mod 3 = 0" | "n mod 3 = 1" | "n mod 3 = 2" by linarith
    then show ?thesis
    proof cases
      case 1
      then have "(n + 0) mod 3 = 0" "(n + 1) mod 3 = 1" "(n + 2) mod 3 = 2" by presburger+
      then show ?thesis using r [of 0] r [of 1] r [of 2] by (simp add: ring add_mset_commute)
    next
      case 2
      then have "(n + 0) mod 3 = 1" "(n + 1) mod 3 = 2" "(n + 2) mod 3 = 0" by presburger+
      then show ?thesis using r [of 0] r [of 1] r [of 2] by (simp add: ring add_mset_commute)
    next
      case 3
      then have "(n + 0) mod 3 = 2" "(n + 1) mod 3 = 0" "(n + 2) mod 3 = 1" by presburger+
      then show ?thesis using r [of 0] r [of 1] r [of 2] by (simp add: ring add_mset_commute)
    qed
  qed
  then show ?thesis
    using properties_for_sort [of "sort [a, b, c]" ring] by (simp add: median3_def abc)
qed

lemma spaced_snoc: "spaced p (ts @ [t]) \<longleftrightarrow> spaced p ts \<and> last (p # ts) < t \<and> t - last (p # ts) \<le> kMaxFpsWindowUs"
  by (induction ts arbitrary: p) auto

lemma spaced_last_ge: "spaced p ts \<Longrightarrow> p \<le> last (p # ts)"
  by (induction ts arbitrary: p) (auto dest: less_imp_le intro: order_trans)

text \<open>The state of a pending burst is that of the samples at the end of the history.\<close>

definition elevated_run :: "df_input list \<Rightarrow> display_filter \<Rightarrow> bool" where
  "elevated_run is s \<longleftrightarrow>
     (\<exists>pre burst. is = pre @ map (measured_poll (df_pid s) (df_source s)) burst \<and>
        unbroken (upward_threshold (df_accepted s)) (fresh_samples burst) \<and>
        df_elevated_count s = min 3 (length (fresh_samples burst)) \<and>
        df_elevated_cursor s = length (fresh_samples burst) mod 3 \<and>
        df_elevated_since_us s = snd (hd (fresh_samples burst)) \<and>
        df_previous_us s = snd (last (fresh_samples burst)) \<and>
        ring_of (df_elevated s) (map fst (fresh_samples burst)))"

definition burst_behind :: "df_input list \<Rightarrow> display_filter \<Rightarrow> bool" where
  "burst_behind is s \<longleftrightarrow> (df_elevated_count s \<noteq> 0 \<longrightarrow> elevated_run is s)"

lemma elevated_run_confirms:
  assumes "elevated_run is s" "kWindow \<le> df_elevated_count s" "kRiseUs \<le> df_previous_us s - df_elevated_since_us s"
  shows "\<exists>pre pid src burst. is = pre @ map (measured_poll pid src) burst \<and> 3 \<le> length (fresh_samples burst) \<and>
    unbroken (upward_threshold (df_accepted s)) (fresh_samples burst) \<and>
    2000000 \<le> unat (snd (last (fresh_samples burst))) - unat (snd (hd (fresh_samples burst))) \<and>
    median3 (df_elevated s) = median3 (map fst (drop (length (fresh_samples burst) - 3) (fresh_samples burst)))"
proof -
  obtain pre burst where b: "is = pre @ map (measured_poll (df_pid s) (df_source s)) burst"
      "unbroken (upward_threshold (df_accepted s)) (fresh_samples burst)" "df_elevated_count s = min 3 (length (fresh_samples burst))"
      "df_elevated_since_us s = snd (hd (fresh_samples burst))" "df_previous_us s = snd (last (fresh_samples burst))"
      "ring_of (df_elevated s) (map fst (fresh_samples burst))"
    using assms(1) by (auto simp: elevated_run_def)
  let ?fs = "fresh_samples burst"
  have n: "3 \<le> length ?fs" using assms(2) b(3) by (simp add: kWindow_def)
  have "last (snd (hd ?fs) # map snd (tl ?fs)) = snd (last ?fs)"
    using b(2) by (cases ?fs) (auto simp: unbroken_def last_map)
  then have "snd (hd ?fs) \<le> snd (last ?fs)" using b(2) spaced_last_ge [of "snd (hd ?fs)" "map snd (tl ?fs)"] by (simp add: unbroken_def)
  then have "2000000 \<le> unat (snd (last ?fs)) - unat (snd (hd ?fs))"
    using assms(3) by (simp add: b(4,5) kRiseUs_def word_le_nat_alt unat_diff_le)
  then show ?thesis using b(1,2) n ring_median [OF b(6)] by (auto simp: drop_map)
qed

lemma elevate_extends:
  assumes "df_inv s" "burst_behind is s" "\<not> df_stale now pid src s" "now \<noteq> df_previous_us s"
    and "upward_threshold (df_accepted s) < m"
  shows "elevated_run (is @ [(Some m, now, pid, src)]) (df_elevate m now (s\<lparr>df_previous_us := now\<rparr>))"
proof -
  have same: "pid = df_pid s" "src = df_source s" and gap: "df_previous_us s < now" "now - df_previous_us s \<le> kMaxFpsWindowUs"
    using assms(3,4) by (auto simp: df_stale_def)
  have ring3: "length (df_elevated s) = 3" using assms(1) by (simp add: df_inv_def rates_def)
  show ?thesis
  proof (cases "df_elevated_count s = 0")
    case True
    then have "df_elevated_cursor s = 0" using assms(1) by (simp add: df_inv_def)
    then show ?thesis using True assms(5) ring3 same unfolding elevated_run_def
      by (intro exI [of _ "is"] exI [of _ "[(m, now)]"])
        (simp add: df_elevate_def measured_poll_def fresh_samples_def add_sample_def unbroken_def kWindow_def ring_of_def)
  next
    case False
    then obtain pre burst where b: "is = pre @ map (measured_poll (df_pid s) (df_source s)) burst"
        "unbroken (upward_threshold (df_accepted s)) (fresh_samples burst)" "df_elevated_count s = min 3 (length (fresh_samples burst))"
        "df_elevated_cursor s = length (fresh_samples burst) mod 3" "df_elevated_since_us s = snd (hd (fresh_samples burst))"
        "df_previous_us s = snd (last (fresh_samples burst))" "ring_of (df_elevated s) (map fst (fresh_samples burst))"
      using assms(2) by (auto simp: burst_behind_def elevated_run_def)
    let ?fs = "fresh_samples burst"
    have ne: "?fs \<noteq> []" using b(2) by (simp add: unbroken_def)
    have new: "fresh_samples (burst @ [(m, now)]) = ?fs @ [(m, now)]"
      using assms(4) b(6) by (auto simp: fresh_samples_def add_sample_def)
    have "last (snd (hd ?fs) # map snd (tl ?fs)) = snd (last ?fs)" using ne by (cases ?fs) (auto simp: last_map)
    then have "unbroken (upward_threshold (df_accepted s)) (?fs @ [(m, now)])"
      using b(2,6) ne gap assms(5) by (auto simp: unbroken_def spaced_snoc)
    moreover have "ring_of ((df_elevated s)[df_elevated_cursor s := m]) (map fst (?fs @ [(m, now)]))"
      using ring_snoc [OF b(7), of m] b(4) by simp
    moreover have "Suc (length ?fs mod 3) mod 3 = Suc (length ?fs) mod 3" by (simp add: mod_Suc_eq)
    ultimately show ?thesis using False b ne new same unfolding elevated_run_def
      by (intro exI [of _ pre] exI [of _ "burst @ [(m, now)]"]) (auto simp: df_elevate_def measured_poll_def kWindow_def)
  qed
qed

lemma burst_behind_track:
  assumes "df_inv s" "burst_behind is s" "\<not> df_stale now pid src s" "now \<noteq> df_previous_us s"
  shows "burst_behind (is @ [(Some m, now, pid, src)]) (snd (df_track m now (s\<lparr>df_previous_us := now\<rparr>)))"
  using elevate_extends [OF assms, of m] by (auto simp: df_track_def Let_def burst_behind_def df_elevate_def)

lemma burst_behind_repeat:
  assumes "burst_behind is s" "\<not> df_stale now pid src s" "now = df_previous_us s"
  shows "burst_behind (is @ [(Some m, now, pid, src)]) s"
  unfolding burst_behind_def
proof
  assume "df_elevated_count s \<noteq> 0"
  then obtain pre burst where b: "is = pre @ map (measured_poll (df_pid s) (df_source s)) burst"
      "unbroken (upward_threshold (df_accepted s)) (fresh_samples burst)" "df_elevated_count s = min 3 (length (fresh_samples burst))"
      "df_elevated_cursor s = length (fresh_samples burst) mod 3" "df_elevated_since_us s = snd (hd (fresh_samples burst))"
      "df_previous_us s = snd (last (fresh_samples burst))" "ring_of (df_elevated s) (map fst (fresh_samples burst))"
    using assms(1) by (auto simp: burst_behind_def elevated_run_def)
  have "fresh_samples (burst @ [(m, now)]) = fresh_samples burst"
    using assms(3) b(2,6) by (auto simp: fresh_samples_def add_sample_def unbroken_def)
  moreover have "pid = df_pid s" "src = df_source s" using assms(2) by (auto simp: df_stale_def)
  ultimately show "elevated_run (is @ [(Some m, now, pid, src)]) s" using b unfolding elevated_run_def
    by (intro exI [of _ pre] exI [of _ "burst @ [(m, now)]"]) (simp add: measured_poll_def)
qed

lemma settle_no_burst: "df_elevated_count s = 0 \<Longrightarrow> df_elevated_count (snd (df_settle m now s)) = 0"
  by (simp add: df_settle_def Let_def)

lemma burst_behind_step:
  assumes "df_inv s" "burst_behind is s"
  shows "burst_behind (is @ [i]) (snd (df_step i s))"
proof -
  obtain measured now pid src where i: "i = (measured, now, pid, src)" by (cases i)
  have none: "burst_behind js df_init" for js by (simp add: burst_behind_def df_init_def)
  have fresh: "burst_behind js (snd (df_accept m now (df_begin_epoch now pid src)))" for js m
    by (simp add: df_accept_def burst_behind_def df_begin_epoch_def df_init_def settle_no_burst Let_def)
  have settle: "burst_behind js (snd (df_settle m now (s\<lparr>df_previous_us := now\<rparr>)))" if "df_displayed s = None" for js m
    using assms(1) that by (simp add: burst_behind_def settle_no_burst df_inv_def)
  show ?thesis
    using none fresh settle burst_behind_track [OF assms] burst_behind_repeat [OF assms(2)]
    by (cases measured) (auto simp: i df_sample_def df_reset_def df_accept_def Let_def)
qed

lemma burst_behind_run: "burst_behind is (run_state_of df_step df_init is)"
proof (induction "is" rule: rev_induct)
  case (snoc i "is")
  then show ?case using burst_behind_step filter_rates.reachable_inv by (simp add: run_state_of_snoc)
qed (simp add: burst_behind_def df_init_def)

text \<open>What a poll answers is what is displayed afterwards, and what was accepted was displayed.\<close>

lemma df_step_output: "fst (df_step i s) = df_displayed (snd (df_step i s))"
proof -
  obtain measured now pid src where i: "i = (measured, now, pid, src)" by (cases i)
  have "fst (df_settle m now t) = df_displayed (snd (df_settle m now t))" if "df_displayed t = None" for m t
    using that by (simp add: df_settle_def Let_def)
  then have "fst (df_accept m now t) = df_displayed (snd (df_accept m now t))" for m t
    by (simp add: df_accept_def df_track_output Let_def)
  then show ?thesis by (cases measured) (auto simp: i df_sample_def df_reset_def df_init_def)
qed

definition accepted_shown :: "int option list \<Rightarrow> display_filter \<Rightarrow> bool" where
  "accepted_shown os s \<longleftrightarrow> (df_displayed s \<noteq> None \<longrightarrow> (\<forall>x\<in>set (df_accepted s). Some x \<in> set os))"

lemma accepted_shown_step:
  assumes "accepted_shown os s"
  shows "accepted_shown (os @ [fst (df_step i s)]) (snd (df_step i s))"
proof -
  obtain measured now pid src where i: "i = (measured, now, pid, src)" by (cases i)
  have settle: "accepted_shown (os @ [fst (df_settle m now t)]) (snd (df_settle m now t))" if "df_displayed t = None" for m t
    using that by (simp add: accepted_shown_def df_settle_def Let_def kWindow_def)
  have track: "accepted_shown (os @ [fst (df_track m now t)]) (snd (df_track m now t))"
    if "accepted_shown os t" "df_displayed t \<noteq> None" for m t
    using that set_update_subset_insert [of "df_accepted t" "df_accepted_cursor t" m]
    by (auto simp: accepted_shown_def df_track_def df_elevate_def Let_def)
  have accept: "accepted_shown (os @ [fst (df_accept m now t)]) (snd (df_accept m now t))" if "accepted_shown os t" for m t
    using settle [of "t\<lparr>df_previous_us := now\<rparr>"] track [of "t\<lparr>df_previous_us := now\<rparr>"] that
    by (cases "df_displayed t") (auto simp: df_accept_def accepted_shown_def [of os] Let_def)
  have "accepted_shown os (df_begin_epoch now pid src)" by (simp add: accepted_shown_def df_begin_epoch_def df_init_def)
  then show ?thesis using accept assms
    by (cases measured) (auto simp: i df_sample_def df_reset_def accepted_shown_def [of _ df_init] df_init_def,
        auto simp: accepted_shown_def)
qed

lemma accepted_shown_run: "accepted_shown (run_outputs df_step df_init is) (run_state_of df_step df_init is)"
proof (induction "is" rule: rev_induct)
  case (snoc i "is")
  then show ?case using accepted_shown_step by (simp add: run_state_of_snoc run_outputs_snoc)
qed (simp add: accepted_shown_def df_init_def)

text \<open>The poll at which the display rises.\<close>

lemma df_rise_step:
  assumes "df_inv s" "burst_behind is s" "df_displayed s = Some d"
    and "fst (df_sample measured now pid src s) = Some v" "d \<noteq> v" "upward_threshold (df_accepted s) < v"
  shows "\<exists>m e. measured = Some m \<and> e = df_elevate m now (s\<lparr>df_previous_us := now\<rparr>) \<and>
    elevated_run (is @ [(measured, now, pid, src)]) e \<and> kWindow \<le> df_elevated_count e \<and>
    kRiseUs \<le> df_previous_us e - df_elevated_since_us e \<and> v = median3 (df_elevated e)"
proof -
  let ?s = "s\<lparr>df_previous_us := now\<rparr>"
  obtain m where m: "measured = Some m" using assms(4) by (cases measured) (simp_all add: df_sample_def)
  have quiet: "fst (df_accept m now (df_begin_epoch now pid src)) = None"
    by (simp add: df_accept_def df_settle_def df_begin_epoch_def df_init_def kStartupUs_def Let_def)
  have live: "\<not> df_stale now pid src s" "now \<noteq> df_previous_us s" and t: "fst (df_track m now ?s) = Some v"
    using assms(3-5) quiet by (auto simp: m df_sample_def df_accept_def split: if_splits)
  have "upward_threshold (df_accepted s) < m"
    using t assms(6) by (auto simp: df_track_def split: if_splits)
  then show ?thesis
    using t assms(3,5) elevate_extends [OF assms(1,2) live] m
    by (auto simp: df_track_def Let_def df_elevate_def kRiseUs_def kWindow_def split: if_splits)
qed

section \<open>The first seconds of an epoch\<close>

definition df_quiet :: "u64 \<Rightarrow> display_filter \<Rightarrow> bool" where
  "df_quiet t0 s \<longleftrightarrow> df_inv s \<and> df_displayed s = None \<and> (df_have_epoch s \<longrightarrow> t0 \<le> df_started_us s)"

lemma df_quiet_settle:
  assumes "df_quiet t0 s" "df_have_epoch s" "df_previous_us s = now" "within_us t0 5000000 (Some m, now, pid, src)"
    "0 \<le> m" "m \<le> 120"
  shows "fst (df_settle m now s) = None \<and> df_quiet t0 (snd (df_settle m now s))"
proof -
  have le: "df_started_us s \<le> now" using assms by (auto simp: df_quiet_def df_inv_def)
  have "unat (now - df_started_us s) < 5000000"
    using assms(1,2,4) unat_diff_le [OF le] by (auto simp: df_quiet_def word_le_nat_alt)
  then have "now - df_started_us s < kStartupUs"
    by (simp add: kStartupUs_def word_less_nat_alt)
  then show ?thesis
    using df_inv_settle [of s m now] assms
    by (auto simp: df_settle_def Let_def df_quiet_def)
qed

lemma df_quiet_accept:
  assumes "df_quiet t0 s" "df_have_epoch s" "df_previous_us s \<le> now"
    "within_us t0 5000000 (Some m, now, pid, src)" "0 \<le> m" "m \<le> 120"
  shows "fst (df_accept m now s) = None \<and> df_quiet t0 (snd (df_accept m now s))"
proof -
  have "df_quiet t0 (s\<lparr>df_previous_us := now\<rparr>)"
    using assms(1,3) by (simp add: df_quiet_def df_inv_previous)
  from df_quiet_settle [OF this _ _ assms(4-6)] show ?thesis
    using assms(1,2) by (simp add: df_accept_def df_quiet_def)
qed

lemma df_quiet_step:
  assumes "df_quiet t0 s" "within_us t0 5000000 i"
  shows "fst (df_step i s) = None \<and> df_quiet t0 (snd (df_step i s))"
proof -
  obtain measured now pid src where i: "i = (measured, now, pid, src)" by (cases i)
  have init: "df_quiet t0 df_init" by (simp add: df_quiet_def df_inv_init) (simp add: df_init_def)
  have fresh: "df_quiet t0 (df_begin_epoch now pid src)" "df_have_epoch (df_begin_epoch now pid src)"
    "df_previous_us (df_begin_epoch now pid src) = now"
    using assms(2) df_inv_begin [of now pid src]
    by (simp_all add: df_quiet_def i word_le_nat_alt df_begin_epoch_def df_init_def)
  have begins: "fst (df_accept m now (df_begin_epoch now pid src)) = None
      \<and> df_quiet t0 (snd (df_accept m now (df_begin_epoch now pid src)))"
    if "0 \<le> m" "m \<le> 120" for m
    using df_quiet_accept [OF fresh(1,2) _ _ that, of now pid src] assms(2) fresh(3) by (simp add: i)
  have continues: "fst (df_accept m now s) = None \<and> df_quiet t0 (snd (df_accept m now s))"
    if "0 \<le> m" "m \<le> 120" "\<not> df_stale now pid src s" for m
    using df_quiet_accept [OF assms(1) _ _ _ that(1,2), of now pid src] assms(2) that(3)
    by (simp add: i df_stale_def not_less)
  have none: "df_displayed s = None" using assms(1) by (simp add: df_quiet_def)
  show ?thesis
    unfolding i df_step.simps df_sample_def df_reset_def kMaxDisplayFps_def
    using init begins continues none assms(1) by (cases measured) (simp_all add: not_less)
qed

lemma df_quiet_run:
  "df_quiet t0 s \<Longrightarrow> list_all (within_us t0 5000000) is \<Longrightarrow> set (run_outputs df_step s is) \<subseteq> {None}"
  by (induction "is" arbitrary: s) (auto dest: df_quiet_step)

section \<open>Properties\<close>

text \<open>
  Whatever the sequence of measurements, times, processes and sources, every rate the
  filter returns is between 0 and 120, and the filter's ring buffers, cursors and time stamps
  stay well formed.
\<close>

theorem display_filter_range:
  "df_inv (run_state_of df_step df_init is)
   \<and> (\<forall>r. Some r \<in> set (run_outputs df_step df_init is) \<longrightarrow> 0 \<le> r \<and> r \<le> 120)"
  using filter_rates.reachable_inv filter_rates.reachable_range by blast

theorem display_filter_range_witness:
  "df_inv (run_state_of df_step df_init (steady 60 7 VideoOut [0, 1000000, 2000000, 3000000, 4000000, 5000000]))
   \<and> run_outputs df_step df_init (steady 60 7 VideoOut [0, 1000000, 2000000, 3000000, 4000000, 5000000])
     = [None, None, None, None, None, Some 60]"
proof
  show "df_inv (run_state_of df_step df_init (steady 60 7 VideoOut [0, 1000000, 2000000, 3000000, 4000000, 5000000]))"
    using display_filter_range by blast
  show "run_outputs df_step df_init (steady 60 7 VideoOut [0, 1000000, 2000000, 3000000, 4000000, 5000000])
     = [None, None, None, None, None, Some 60]"
    by code_simp
qed

text \<open>
  No rate is shown in the first five seconds: polls that all fall into one five second
  interval, in any order and whatever they measure, are all answered with nothing.
\<close>

theorem display_filter_quiet_startup:
  assumes "list_all (within_us t0 5000000) is"
  shows "set (run_outputs df_step df_init is) \<subseteq> {None}"
  by (rule df_quiet_run [OF _ assms])
    (simp add: df_quiet_def df_inv_init, simp add: df_init_def)

theorem display_filter_quiet_startup_witness:
  "set (run_outputs df_step df_init (steady 60 7 VideoOut [10, 2000010, 4000010, 5000009])) \<subseteq> {None}"
  by (rule display_filter_quiet_startup [of 10]) (simp add: steady_def)

text \<open>
  A burst of one or two samples above the confirmation threshold never reaches a
  running display, which keeps its rate, while a sample at or below the threshold (a drop in
  particular) is shown at once and forgets the burst.
\<close>

theorem display_filter_spikes_suppressed:
  assumes "df_showing pid src s" "df_displayed s = Some d" "df_elevated_count s = 0"
    and "spaced (df_previous_us s) [t1, t2, t3]"
    and "upward_threshold (df_accepted s) < m1" "m1 \<le> 120"
    and "upward_threshold (df_accepted s) < m2" "m2 \<le> 120"
    and "0 \<le> m3" "m3 \<le> upward_threshold (df_accepted s)" "m3 \<le> 120"
  shows "run_outputs df_step s [(Some m1, t1, pid, src), (Some m2, t2, pid, src), (Some m3, t3, pid, src)]
      = [Some d, Some d, Some m3]
    \<and> df_elevated_count (run_state_of df_step s
         [(Some m1, t1, pid, src), (Some m2, t2, pid, src), (Some m3, t3, pid, src)]) = 0"
proof -
  define s1 where "s1 = df_elevate m1 t1 (s\<lparr>df_previous_us := t1\<rparr>)"
  define s2 where "s2 = df_elevate m2 t2 (s1\<lparr>df_previous_us := t2\<rparr>)"
  have sp: "spaced (df_previous_us s) [t1]" "spaced t1 [t2]" "spaced t2 [t3]"
    and le: "df_previous_us s \<le> t1" "t1 \<le> t2"
    using assms(4) by auto
  have pos: "0 \<le> m1" "0 \<le> m2"
    using assms(1,5,7) threshold_nonneg [of "df_accepted s"] by (auto simp: df_showing_def df_inv_def)
  have c1: "df_track m1 t1 (s\<lparr>df_previous_us := t1\<rparr>) = (Some d, s1)"
    using df_track_elevated [of "s\<lparr>df_previous_us := t1\<rparr>" m1 t1] assms by (simp add: s1_def)
  have k1: "df_showing pid src s1" "df_previous_us s1 = t1"
    using df_track_keeps [OF assms(1) le(1) pos(1) assms(6)] c1 by auto
  have a1: "df_accepted s1 = df_accepted s" "df_displayed s1 = Some d" "df_elevated_count s1 = 1"
    using assms by (simp_all add: s1_def df_elevate_def kWindow_def)
  have c2: "df_track m2 t2 (s1\<lparr>df_previous_us := t2\<rparr>) = (Some d, s2)"
    using df_track_elevated [of "s1\<lparr>df_previous_us := t2\<rparr>" m2 t2] assms a1 by (simp add: s2_def)
  have k2: "df_showing pid src s2" "df_previous_us s2 = t2"
    using df_track_keeps [OF k1(1) _ pos(2) assms(8), of t2] c2 k1(2) le(2) by auto
  have a2: "df_accepted s2 = df_accepted s"
    using a1 by (simp add: s2_def df_elevate_def)
  have c3: "fst (df_track m3 t3 (s2\<lparr>df_previous_us := t3\<rparr>)) = Some m3"
    "df_elevated_count (snd (df_track m3 t3 (s2\<lparr>df_previous_us := t3\<rparr>))) = 0"
    using df_track_normal [of m3 "s2\<lparr>df_previous_us := t3\<rparr>" t3] assms a2 by auto
  have "df_sample (Some m1) t1 pid src s = (Some d, s1)"
    using df_showing_sample [OF assms(1) sp(1) pos(1) assms(6)] c1 by simp
  moreover have "df_sample (Some m2) t2 pid src s1 = (Some d, s2)"
    using df_showing_sample [OF k1(1) _ pos(2) assms(8), of t2] c2 k1(2) sp(2) by simp
  moreover have "df_sample (Some m3) t3 pid src s2 = df_track m3 t3 (s2\<lparr>df_previous_us := t3\<rparr>)"
    using df_showing_sample [OF k2(1) _ assms(9,11), of t3] k2(2) sp(3) by simp
  ultimately show ?thesis using c3 by simp
qed

text \<open>
  (C6) A rise is confirmed: whenever, after any history of polls, the display goes from one rate
  to another above the confirmation threshold of the rates accepted last (each of which was on
  display before), the history ends in an unbroken run of polls of one process and source with at
  least three samples, every one above that threshold, none further than a window from the next,
  the first at least two seconds before the last, and the new rate is the median of the last
  three.  A poll at the time of the one before is no sample.
\<close>

theorem display_filter_rise_confirmed:
  assumes "run_outputs df_step df_init (is @ [i]) = os @ [Some d, Some v]" "d \<noteq> v"
    and "upward_threshold (df_accepted (run_state_of df_step df_init is)) < v"
  shows "(\<exists>pre pid src burst. is @ [i] = pre @ map (measured_poll pid src) burst \<and> 3 \<le> length (fresh_samples burst) \<and>
      unbroken (upward_threshold (df_accepted (run_state_of df_step df_init is))) (fresh_samples burst) \<and>
      2000000 \<le> unat (snd (last (fresh_samples burst))) - unat (snd (hd (fresh_samples burst))) \<and>
      v = median3 (map fst (drop (length (fresh_samples burst) - 3) (fresh_samples burst))))
    \<and> (\<forall>x\<in>set (df_accepted (run_state_of df_step df_init is)). Some x \<in> set (os @ [Some d]))"
proof -
  let ?s = "run_state_of df_step df_init is"
  have out: "run_outputs df_step df_init is = os @ [Some d]" "fst (df_step i ?s) = Some v"
    using assms(1) by (simp_all add: run_outputs_snoc)
  then obtain js j where js: "is = js @ [j]" by (cases "is" rule: rev_cases) auto
  have shown: "df_displayed ?s = Some d"
    using out(1) df_step_output [of j "run_state_of df_step df_init js"] by (simp add: js run_outputs_snoc run_state_of_snoc)
  have inv: "df_inv ?s" by (rule filter_rates.reachable_inv)
  obtain measured now pid src where i: "i = (measured, now, pid, src)" by (cases i)
  obtain m e where rise: "measured = Some m" "e = df_elevate m now (?s\<lparr>df_previous_us := now\<rparr>)" "elevated_run (is @ [i]) e"
    "kWindow \<le> df_elevated_count e" "kRiseUs \<le> df_previous_us e - df_elevated_since_us e" "v = median3 (df_elevated e)"
    using df_rise_step [OF inv burst_behind_run [of "is"] shown out(2) [unfolded i df_step.simps] assms(2,3)] unfolding i by blast
  have "\<forall>x\<in>set (df_accepted ?s). Some x \<in> set (os @ [Some d])"
    using accepted_shown_run [of "is"] shown by (simp add: accepted_shown_def out(1))
  moreover have "df_accepted e = df_accepted ?s" by (simp add: rise(2) df_elevate_def)
  ultimately show ?thesis using elevated_run_confirms [OF rise(3-5)] rise(6) by simp
qed

text \<open>
  (C16) Every steady rate is eventually shown: from a running display with no pending burst, at
  least three polls of the same rate spread over two seconds or more end with that rate on the
  display, whether it is a drop, a small or a large increase.
\<close>

theorem display_filter_steady_rate_shown:
  assumes "df_showing pid src s" "df_elevated_count s = 0" "0 \<le> r" "r \<le> 120"
    and "spaced (df_previous_us s) ts" "3 \<le> length ts" "kRiseUs \<le> last ts - hd ts"
  shows "last (run_outputs df_step s (steady r pid src ts)) = Some r"
proof -
  obtain t ts' where ts: "ts = t # ts'" "ts' \<noteq> []"
    using assms(6) by (cases ts; cases "tl ts") auto
  let ?s = "s\<lparr>df_previous_us := t\<rparr>"
  let ?o = "df_track r t ?s"
  have le: "df_previous_us s \<le> t" using assms(5) by (simp add: ts less_imp_le)
  have inv: "df_inv ?s" using assms(1) le by (simp add: df_showing_def df_inv_previous)
  have step: "df_sample (Some r) t pid src s = ?o"
    using df_showing_sample [OF assms(1)] assms ts by simp
  have keep: "df_showing pid src (snd ?o)" "df_previous_us (snd ?o) = t"
    using df_track_keeps [OF assms(1) le assms(3,4)] by auto
  have "last (run_outputs df_step (snd ?o) (steady r pid src ts')) = Some r"
    using steady_first [OF inv _ assms(3,4), of t] assms keep ts
    by (intro steady_confirmed [where ?t1.0 = t]) auto
  with step ts show ?thesis by (cases ts') (simp_all add: steady_def)
qed

section \<open>Witnesses on a display that has settled at 60\<close>

definition settled_60 :: display_filter where
  "settled_60 =
     \<lparr>df_have_epoch = True, df_pid = 7, df_source = VideoOut, df_started_us = 0,
      df_previous_us = 5000000, df_elevated_since_us = 0, df_displayed = Some 60,
      df_recent = [60, 60, 60], df_accepted = [60, 60, 60], df_elevated = [0, 0, 0],
      df_recent_count = 3, df_recent_cursor = 0, df_accepted_cursor = 0,
      df_elevated_count = 0, df_elevated_cursor = 0\<rparr>"

lemma settled_60_reached:
  "run_state_of df_step df_init (steady 60 7 VideoOut [0, 1000000, 2000000, 3000000, 4000000, 5000000])
   = settled_60"
  by code_simp

lemma settled_60_showing: "df_showing 7 VideoOut settled_60"
  by code_simp

theorem display_filter_spikes_suppressed_witness:
  "run_outputs df_step settled_60
     [(Some 120, 6000000, 7, VideoOut), (Some 110, 7000000, 7, VideoOut), (Some 41, 8000000, 7, VideoOut)]
   = [Some 60, Some 60, Some 41]"
proof -
  have "df_displayed settled_60 = Some 60 \<and> df_elevated_count settled_60 = 0
      \<and> spaced (df_previous_us settled_60) [6000000, 7000000, 8000000]
      \<and> upward_threshold (df_accepted settled_60) = 72"
    by code_simp
  then show ?thesis
    using display_filter_spikes_suppressed
      [OF settled_60_showing, of 60 6000000 7000000 8000000 120 110 41] by simp
qed

text \<open>A run that rises from 60 to 120; the poll at eight seconds is repeated.\<close>

definition rising_polls :: "df_input list" where
  "rising_polls = steady 60 7 VideoOut [0, 1000000, 2000000, 3000000, 4000000, 5000000] @
     steady 120 7 VideoOut [6000000, 7000000, 7000000]"

theorem display_filter_rise_confirmed_witness:
  "\<exists>pre pid src burst. rising_polls @ [(Some 120, 8000000, 7, VideoOut)] = pre @ map (measured_poll pid src) burst \<and>
     3 \<le> length (fresh_samples burst) \<and> unbroken 72 (fresh_samples burst)"
proof -
  have run: "run_outputs df_step df_init (rising_polls @ [(Some 120, 8000000, 7, VideoOut)]) =
      [None, None, None, None, None, Some 60, Some 60, Some 60] @ [Some 60, Some 120]"
    by code_simp
  have thr: "upward_threshold (df_accepted (run_state_of df_step df_init rising_polls)) = 72" by code_simp
  show ?thesis using display_filter_rise_confirmed [OF run] by (simp add: thr) blast
qed

theorem display_filter_steady_rate_shown_witness:
  "last (run_outputs df_step settled_60 (steady 118 7 VideoOut [6000000, 7000000, 8000000])) = Some 118"
proof -
  have "df_elevated_count settled_60 = 0
      \<and> spaced (df_previous_us settled_60) [6000000, 7000000, 8000000]
      \<and> kRiseUs \<le> last [6000000, 7000000, 8000000] - hd [6000000, 7000000, 8000000]"
    by code_simp
  then show ?thesis
    using display_filter_steady_rate_shown
      [OF settled_60_showing, of 118 "[6000000, 7000000, 8000000]"] by simp
qed

end
