(* ===== verification/Dce_Counter.thy ===== *)
theory Dce_Counter
  imports Overlay_Config
begin

text \<open>
  \<^verbatim>\<open>src/core/dce_counter_sampler.cpp\<close> and \<^verbatim>\<open>include/common_fps/fps_rate.hpp\<close>:
  frame rates from the twelve 64-bit words of a display engine status block, in the double
  precision arithmetic of the code.  The lemmas show that the rounding never shows: inside the
  accepted windows the rate is exactly the nearest integer to the true quotient.
\<close>

section \<open>Definitions\<close>

definition double_of_u64 :: "u64 \<Rightarrow> fl" where
  "double_of_u64 w = fl_of_int round64 (uint w)"

definition validated_fps :: "fl \<Rightarrow> int option" where
  "validated_fps fps =
     (if \<not> isfinite fps \<or> fl_less fps (Fin False 1) \<or>
         fl_less (fl_div round64 (fl_of_int round64 (uint kMaxTenthsFps)) (Fin False 10)) fps
      then None
      else map_option (\<lambda>i. min i kMaxDisplayFps) (fl_to_int (fl_add round64 fps (Fin False (1 / 2)))))"

record dce_counter =
  dce_have_baseline :: bool
  dce_warmup :: nat
  dce_previous_words :: "u64 list"
  dce_previous_time_us :: u64
  dce_candidate_streak :: "u32 list"
  dce_candidate_last_fps :: "int list"
  dce_selected_word :: int
  dce_selected_invalid :: nat

definition dce_init :: dce_counter where
  "dce_init =
     \<lparr>dce_have_baseline = False, dce_warmup = kWarmupDeltasToDiscard,
      dce_previous_words = replicate 12 0, dce_previous_time_us = 0,
      dce_candidate_streak = replicate 12 0, dce_candidate_last_fps = replicate 12 0,
      dce_selected_word = -1, dce_selected_invalid = 0\<rparr>"

definition dce_reset :: "dce_counter \<Rightarrow> dce_counter" where
  "dce_reset s = dce_init"

definition fps_of_delta :: "u64 \<Rightarrow> u64 \<Rightarrow> fl" where
  "fps_of_delta delta elapsed =
     fl_div round64 (fl_mul round64 (double_of_u64 delta) (Fin False 1000000)) (double_of_u64 elapsed)"

definition fps_for_word :: "u64 list \<Rightarrow> u64 list \<Rightarrow> u64 \<Rightarrow> nat \<Rightarrow> int" where
  "fps_for_word previous current elapsed index =
     (if current ! index < previous ! index then 0
      else case validated_fps (fps_of_delta (current ! index - previous ! index) elapsed) of
             Some r \<Rightarrow> r | None \<Rightarrow> 0)"

text \<open>The known word first, then the word selected earlier, dropped at its third miss.\<close>

definition dce_choose :: "(nat \<Rightarrow> int) \<Rightarrow> dce_counter \<Rightarrow> int \<times> dce_counter" where
  "dce_choose rate s =
     (let fixed_fps = rate 1
      in if fixed_fps \<noteq> 0 then (fixed_fps, s\<lparr>dce_selected_word := 1, dce_selected_invalid := 0\<rparr>)
         else if 0 \<le> dce_selected_word s \<and> dce_selected_word s < 12 then
           let chosen = rate (nat (dce_selected_word s))
           in if chosen = 0 then
                (0, if 3 \<le> dce_selected_invalid s + 1
                    then s\<lparr>dce_selected_word := -1, dce_selected_invalid := 0\<rparr>
                    else s\<lparr>dce_selected_invalid := dce_selected_invalid s + 1\<rparr>)
              else (chosen, s\<lparr>dce_selected_invalid := 0\<rparr>)
         else (0, s))"

text \<open>
  The search over all words for a counter with two similar rates in two searches in a row.  The
  rates of earlier searches stay while a word is selected and nothing is searched.
\<close>

record dce_search =
  ds_streak :: "u32 list"
  ds_last :: "int list"
  ds_best_streak :: u32
  ds_best_word :: int
  ds_best_fps :: int

definition dce_search_word :: "(nat \<Rightarrow> int) \<Rightarrow> nat \<Rightarrow> dce_search \<Rightarrow> dce_search" where
  "dce_search_word rate i a =
     (let fps = rate i
      in if fps = 0 then a\<lparr>ds_streak := (ds_streak a)[i := 0], ds_last := (ds_last a)[i := 0]\<rparr>
         else
           let previous = ds_last a ! i;
               difference = (if previous > fps then previous - fps else fps - previous);
               streak = (if previous \<noteq> 0 \<and> difference \<le> 12 then ds_streak a ! i + 1 else 1);
               b = a\<lparr>ds_streak := (ds_streak a)[i := streak], ds_last := (ds_last a)[i := fps]\<rparr>
           in if 2 \<le> streak \<and> ds_best_streak b < streak
              then b\<lparr>ds_best_streak := streak, ds_best_word := int i, ds_best_fps := fps\<rparr>
              else b)"

definition dce_search_all :: "(nat \<Rightarrow> int) \<Rightarrow> dce_counter \<Rightarrow> dce_search" where
  "dce_search_all rate s =
     fold (dce_search_word rate) [0..<12]
       \<lparr>ds_streak = dce_candidate_streak s, ds_last = dce_candidate_last_fps s,
        ds_best_streak = 0, ds_best_word = -1, ds_best_fps = 0\<rparr>"

definition dce_discover :: "(nat \<Rightarrow> int) \<Rightarrow> dce_counter \<Rightarrow> int \<times> dce_counter" where
  "dce_discover rate s =
     (let a = dce_search_all rate s;
          s' = s\<lparr>dce_candidate_streak := ds_streak a, dce_candidate_last_fps := ds_last a\<rparr>
      in if 0 \<le> ds_best_word a then (ds_best_fps a, s'\<lparr>dce_selected_word := ds_best_word a\<rparr>)
         else (0, s'))"

definition dce_rebase :: "u64 list \<Rightarrow> u64 \<Rightarrow> dce_counter \<Rightarrow> dce_counter" where
  "dce_rebase current now s = s\<lparr>dce_previous_words := current, dce_previous_time_us := now\<rparr>"

definition dce_measure :: "u64 list \<Rightarrow> u64 \<Rightarrow> dce_counter \<Rightarrow> int option \<times> dce_counter" where
  "dce_measure current now s =
     (let rate = fps_for_word (dce_previous_words s) current (now - dce_previous_time_us s);
          (chosen, s1) = dce_choose rate s;
          (chosen, s2) = (if chosen = 0 \<and> dce_selected_word s1 < 0 then dce_discover rate s1
                          else (chosen, s1))
      in (if chosen = 0 then None else Some chosen, dce_rebase current now s2))"

definition dce_sample :: "u64 list \<Rightarrow> u64 \<Rightarrow> dce_counter \<Rightarrow> int option \<times> dce_counter" where
  "dce_sample current now s =
     (if \<not> dce_have_baseline s then
        (None, (dce_rebase current now s)\<lparr>dce_have_baseline := True\<rparr>)
      else if now \<le> dce_previous_time_us s \<or> kMaxFpsWindowUs < now - dce_previous_time_us s then
        (None, (dce_rebase current now (dce_reset s))\<lparr>dce_have_baseline := True\<rparr>)
      else if now - dce_previous_time_us s < kMinFpsWindowUs then (None, s)
      else if dce_warmup s \<noteq> 0 then
        (None, dce_rebase current now (s\<lparr>dce_warmup := dce_warmup s - 1\<rparr>))
      else dce_measure current now s)"

fun dce_step :: "u64 list \<times> u64 \<Rightarrow> dce_counter \<Rightarrow> int option \<times> dce_counter" where
  "dce_step (current, now) s = dce_sample current now s"

text \<open>What a rate should be: the exact quotient, rounded to the nearest integer, capped.\<close>

definition exact_rate :: "nat \<Rightarrow> nat \<Rightarrow> int" where
  "exact_rate delta elapsed =
     (let q = (of_nat delta * 1000000 :: rat) / of_nat elapsed
      in if q < 1 \<or> 130 < q then 0 else min 120 \<lfloor>q + 1 / 2\<rfloor>)"

text \<open>The rate of one word over a window, from the spec.\<close>

definition word_rate :: "u64 list \<Rightarrow> u64 list \<Rightarrow> nat \<Rightarrow> nat \<Rightarrow> int" where
  "word_rate previous current elapsed i =
     (if current ! i < previous ! i then 0
      else exact_rate (unat (current ! i) - unat (previous ! i)) elapsed)"

definition dce_inv :: "dce_counter \<Rightarrow> bool" where
  "dce_inv s \<longleftrightarrow>
     length (dce_candidate_streak s) = 12 \<and> length (dce_candidate_last_fps s) = 12 \<and>
     dce_warmup s \<le> 1 \<and> -1 \<le> dce_selected_word s \<and> dce_selected_word s < 12 \<and>
     dce_selected_invalid s < 3"

text \<open>The poll at \<open>now\<close> closes a measuring window.\<close>

definition dce_window :: "u64 \<Rightarrow> dce_counter \<Rightarrow> bool" where
  "dce_window now s \<longleftrightarrow>
     dce_have_baseline s \<and> dce_warmup s = 0 \<and> dce_previous_time_us s < now \<and>
     200000 \<le> unat now - unat (dce_previous_time_us s) \<and>
     unat now - unat (dce_previous_time_us s) \<le> 3000000"

section \<open>Double precision is exact enough\<close>

abbreviation r64 :: "rat \<Rightarrow> rat" where "r64 \<equiv> round_mag 53 (-1022)"

lemma r64_nat: "n \<le> 9007199254740992 \<Longrightarrow> r64 (of_nat n) = of_nat n"
  by (rule round_mag_nat) simp_all

lemma r64_le_nat: "x \<le> of_nat n \<Longrightarrow> n \<le> 9007199254740992 \<Longrightarrow> r64 x \<le> of_nat n"
  using f64.rnd_mono [of x "of_nat n"] r64_nat [of n] by simp

lemma r64_ge_nat: "of_nat n \<le> x \<Longrightarrow> n \<le> 9007199254740992 \<Longrightarrow> of_nat n \<le> r64 x"
  using f64.rnd_mono [of "of_nat n" x] r64_nat [of n] by simp

lemma r64_half:
  assumes "0 < k" "k \<le> 1000"
  shows "r64 (of_nat k / 2) = of_nat k / 2"
proof (rule round_mag_exact [of _ "int k" "-1"])
  show "0 < (of_nat k :: rat) / 2" using assms by simp
  have "floor_log2 (of_nat k / 2) < 10"
    using assms by (intro floor_log2_less) simp_all
  then show "max (floor_log2 (of_nat k / 2)) (- 1022) - int 53 + 1 \<le> - 1" by simp
qed simp

lemma round64_fin: "q \<le> 2 ^ 1000 \<Longrightarrow> round64 s q = Fin s (r64 q)"
proof -
  assume q: "q \<le> 2 ^ 1000"
  have "r64 q \<le> r64 (2 powi 1000)" using q by (intro f64.rnd_mono) simp
  also have "r64 (2 powi 1000) = 2 powi 1000" by (rule round_mag_pow2) simp_all
  finally have "r64 q \<le> 2 powi 1000" .
  also have "(2 :: rat) powi 1000 < 2 powi 1001" by (rule power_int_strict_increasing) simp_all
  finally have "floor_log2 (r64 q) < 1001" if "0 < r64 q"
    using that by (intro floor_log2_less)
  moreover have "0 \<le> r64 q" by simp
  ultimately have "r64 q = 0 \<or> floor_log2 (r64 q) < 1001" by linarith
  then show ?thesis by (auto simp: round64_def round_to_def Let_def)
qed

text \<open>
  Quotients by at most three million microseconds stay away from the integers and the halves
  by more than the rounding error.
\<close>

lemma quotient_gap_below:
  assumes "(of_nat a :: rat) / of_nat e < of_int n" "0 < e" "e \<le> 6000000"
  shows "(of_nat a :: rat) / of_nat e \<le> of_int n - 1 / 6000000"
proof -
  have "(of_nat a :: rat) < of_int n * of_nat e"
    using assms by (simp add: field_simps)
  then have "(of_int (int a) :: rat) < of_int (n * int e)" by simp
  then have "int a + 1 \<le> n * int e" by (simp only: of_int_less_iff)
  then have "(of_int (int a + 1) :: rat) \<le> of_int (n * int e)" by (simp only: of_int_le_iff)
  then have "(of_nat a :: rat) / of_nat e \<le> of_int n - 1 / of_nat e"
    using assms(2) by (simp add: field_simps)
  moreover have "(1 :: rat) / 6000000 \<le> 1 / of_nat e"
    using assms(2,3) by (intro divide_left_mono) simp_all
  ultimately show ?thesis by linarith
qed

lemma quotient_gap_above:
  assumes "of_int n < (of_nat a :: rat) / of_nat e" "0 < e" "e \<le> 6000000"
  shows "of_int n + 1 / 6000000 \<le> (of_nat a :: rat) / of_nat e"
proof -
  have "of_int n * of_nat e < (of_nat a :: rat)"
    using assms by (simp add: field_simps)
  then have "(of_int (n * int e) :: rat) < of_int (int a)" by simp
  then have "n * int e + 1 \<le> int a" by (simp only: of_int_less_iff)
  then have "(of_int (n * int e + 1) :: rat) \<le> of_int (int a)" by (simp only: of_int_le_iff)
  then have "of_int (n * int e + 1) / of_nat e \<le> (of_nat a :: rat) / of_nat e"
    by (intro divide_right_mono) simp_all
  then have "of_int n + 1 / of_nat e \<le> (of_nat a :: rat) / of_nat e"
    using assms(2) by (simp add: add_divide_distrib)
  moreover have "(1 :: rat) / 6000000 \<le> 1 / of_nat e"
    using assms(2,3) by (intro divide_left_mono) simp_all
  ultimately show ?thesis by linarith
qed

lemma r64_below_1: "q \<le> 1 - 1 / 6000000 \<Longrightarrow> r64 q < 1"
  using f64.rnd_mono [of q "1 - 1 / 6000000"] f64.rnd_upper [of "1 - 1 / 6000000"] by simp

lemma r64_above_130: "130 + 1 / 6000000 \<le> q \<Longrightarrow> 130 < r64 q"
  using f64.rnd_mono [of "130 + 1 / 6000000" q] f64.rnd_lower [of "130 + 1 / 6000000"] by simp

lemma r64_rounds:
  assumes "1 \<le> q" "q \<le> 130" and gap: "q + 1 / 2 \<le> of_int \<lfloor>q + 1 / 2\<rfloor> + 1 - 1 / 6000000"
  shows "\<lfloor>r64 (r64 q + 1 / 2)\<rfloor> = \<lfloor>q + 1 / 2\<rfloor>"
proof -
  define n where "n = \<lfloor>q + 1 / 2\<rfloor>"
  have n: "of_int n \<le> q + 1 / 2" "1 \<le> n" "n \<le> 130" using assms unfolding n_def by linarith+
  define k where "k = nat (2 * n - 1)"
  have k: "(of_nat k :: rat) / 2 = of_int n - 1 / 2" "0 < k" "k \<le> 1000" using n by (auto simp: k_def)
  have "of_nat k / 2 \<le> r64 q"
    using f64.rnd_mono [of "of_nat k / 2" q] r64_half [OF k(2,3)] n k(1) by simp
  then have "of_nat (nat n) \<le> r64 q + 1 / 2" using k(1) n by simp
  then have lower: "of_int n \<le> r64 (r64 q + 1 / 2)"
    using f64.rnd_ge_nat [of "nat n"] n by simp
  have up: "r64 q + 1 / 2 \<le> q + 1 / 2 + 131 / 9007199254740992"
    using f64.rnd_upper [of q] assms by simp
  define y where "y = q + 1 / 2 + 131 / 9007199254740992"
  have "r64 (r64 q + 1 / 2) \<le> r64 y" unfolding y_def by (rule f64.rnd_mono [OF up])
  also have "\<dots> \<le> y + y * (1 / 9007199254740992)"
    using assms by (intro f64.rnd_upper) (simp add: y_def)
  also have "\<dots> < of_int n + 1"
  proof -
    have "y \<le> of_int n + 1 - 1 / 6000000 + 131 / 9007199254740992" "y \<le> 131"
      using gap assms(2) unfolding n_def [symmetric] y_def by simp_all
    then show ?thesis by linarith
  qed
  finally have "r64 (r64 q + 1 / 2) < of_int n + 1" .
  with lower have "\<lfloor>r64 (r64 q + 1 / 2)\<rfloor> = n" by (simp add: floor_eq_iff)
  then show ?thesis by (simp add: n_def)
qed

lemma max_rate_double [simp]:
  "fl_div round64 (fl_of_int round64 (uint kMaxTenthsFps)) (Fin False 10) = Fin False 130"
  by code_simp

lemma validated_fps_fin:
  assumes "0 \<le> f"
  shows "validated_fps (Fin False f) =
    (if f < 1 \<or> 130 < f then None else Some (min \<lfloor>r64 (f + 1 / 2)\<rfloor> 120))"
proof -
  have "fl_add round64 (Fin False f) (Fin False (1 / 2)) = Fin False (r64 (f + 1 / 2))" if "f \<le> 130"
    using that assms round64_fin [of "f + 1 / 2" False] by (simp add: Let_def)
  moreover have "0 \<le> \<lfloor>r64 (f + 1 / 2)\<rfloor> \<and> \<lfloor>r64 (f + 1 / 2)\<rfloor> \<le> 131" if "f \<le> 130"
    using that assms f64.rnd_le_nat [of "f + 1 / 2" 131] by (simp add: floor_le_iff)
  ultimately show ?thesis
    using round_mag_nonneg [of 53 "-1022" "f + 1 / 2"]
    by (auto simp: validated_fps_def kMaxDisplayFps_def Let_def simp del: round_mag_nonneg fl_add.simps)
qed

lemma validated_fps_range: "fl_wf f \<Longrightarrow> validated_fps f = Some r \<Longrightarrow> 1 \<le> r \<and> r \<le> 120"
proof (cases f)
  case (Fin s m)
  assume f: "fl_wf f" "validated_fps f = Some r"
  have "\<not> s"
    using f Fin by (cases s) (auto simp: validated_fps_def split: if_splits)
  moreover have "1 \<le> r64 (m + 1 / 2)" if "1 \<le> m"
    using f64.rnd_ge_nat [of 1 "m + 1 / 2"] that by simp
  ultimately show ?thesis
    using f Fin validated_fps_fin [of m] by (auto split: if_splits)
qed (simp_all add: validated_fps_def)

lemma double_of_u64_fin: "double_of_u64 w = Fin False (r64 (of_nat (unat w)))"
proof -
  define n where "n = unat w"
  have u: "uint w = int n" by (simp add: n_def)
  have "(of_nat n :: rat) \<le> of_nat 18446744073709551616"
    using unat_u64 [of w] unfolding n_def by (simp only: of_nat_le_iff)
  also have "\<dots> \<le> 2 ^ 1000" by simp
  finally have "round64 False (of_nat n) = Fin False (r64 (of_nat n))" by (rule round64_fin)
  then show ?thesis
    by (simp add: double_of_u64_def fl_of_int_def fl_of_rat_def u flip: n_def)
qed

lemma fps_of_delta_fin:
  assumes e: "0 < unat elapsed" "unat elapsed \<le> 3000000"
  shows "fps_of_delta delta elapsed =
    Fin False (r64 (r64 (r64 (of_nat (unat delta)) * 1000000) / of_nat (unat elapsed)))"
proof -
  let ?d = "r64 (of_nat (unat delta))" and ?e = "of_nat (unat elapsed) :: rat"
  let ?x = "r64 (?d * 1000000)"
  have pow: "r64 (2 powi k) = 2 powi k" if "0 \<le> k" for k using that by (intro round_mag_pow2) simp_all
  have "(of_nat (unat delta) :: rat) \<le> of_nat 18446744073709551616"
    using unat_u64 [of delta] by (simp only: of_nat_le_iff)
  then have "?d \<le> r64 (2 powi 64)" by (intro f64.rnd_mono) simp
  then have d: "?d \<le> 2 powi 64" by (simp only: pow)
  then have "?x \<le> r64 (2 powi 84)" by (intro f64.rnd_mono) simp
  then have x: "?x \<le> 2 powi 84" by (simp only: pow)
  have x0: "0 \<le> ?x" by simp
  have e1: "1 \<le> ?e" using e(1) by (simp del: of_nat_unat)
  then have "?x / ?e \<le> ?x / 1" using x0 by (intro divide_left_mono) auto
  then have q: "?x / ?e \<le> 2 ^ 1000" using x by simp
  have "double_of_u64 elapsed = Fin False ?e"
    using e r64_nat [of "unat elapsed"] by (simp add: double_of_u64_fin del: of_nat_unat)
  moreover have "?d * 1000000 \<le> 2 ^ 1000" using d by simp
  ultimately show ?thesis
    using e1 q by (simp add: fps_of_delta_def double_of_u64_fin round64_fin del: of_nat_unat)
qed

text \<open>The numerator is exact up to 2^53, and far out of range beyond.\<close>

lemma numerator_exact: "n \<le> 9000000000 \<Longrightarrow> r64 (r64 (of_nat n) * 1000000) = of_nat (n * 1000000)"
  using r64_nat [of n] r64_nat [of "n * 1000000"] by simp

lemma numerator_large: "9000000000 \<le> n \<Longrightarrow> 9000000000000000 \<le> r64 (r64 (of_nat n) * 1000000)"
proof -
  assume "9000000000 \<le> n"
  then have "of_nat 9000000000 \<le> r64 (of_nat n)" by (intro r64_ge_nat) simp_all
  then have "of_nat 9000000000000000 \<le> r64 (of_nat n) * 1000000" by simp
  from r64_ge_nat [OF this] show ?thesis by simp
qed

lemma exact_rate_large:
  assumes "9000000000 \<le> n" "0 < e" "e \<le> 3000000"
  shows "exact_rate n e = 0" "130 < r64 (r64 (r64 (of_nat n) * 1000000) / of_nat e)"
proof -
  have big: "131 \<le> x / of_nat e" if "9000000000000000 \<le> x" for x :: rat
  proof -
    have "131 * (of_nat e :: rat) \<le> 131 * 3000000" using assms(3) by simp
    then have "131 * of_nat e \<le> x" using that by linarith
    then show ?thesis using assms(2) by (simp add: field_simps)
  qed
  have "(9000000000000000 :: rat) \<le> of_nat n * 1000000" using assms(1) by simp
  from big [OF this] show "exact_rate n e = 0" by (simp add: exact_rate_def Let_def)
  have "of_nat 131 \<le> r64 (r64 (r64 (of_nat n) * 1000000) / of_nat e)"
    using big [OF numerator_large [OF assms(1)]] by (intro r64_ge_nat) simp_all
  then show "130 < r64 (r64 (r64 (of_nat n) * 1000000) / of_nat e)" by simp
qed

theorem validated_rate_exact:
  assumes e: "0 < unat elapsed" "unat elapsed \<le> 3000000"
  shows "(case validated_fps (fps_of_delta delta elapsed) of Some r \<Rightarrow> r | None \<Rightarrow> 0)
    = exact_rate (unat delta) (unat elapsed)"
proof (cases "unat delta \<le> 9000000000")
  case False
  then show ?thesis
    using exact_rate_large [of "unat delta" "unat elapsed"] e
    by (simp add: fps_of_delta_fin validated_fps_fin)
next
  case True
  define a where "a = unat delta * 1000000"
  define n where "n = unat elapsed"
  define q where "q = (of_nat a :: rat) / of_nat n"
  have n: "0 < n" "n \<le> 3000000" using e by (auto simp: n_def)
  have f: "fps_of_delta delta elapsed = Fin False (r64 q)"
    by (simp only: fps_of_delta_fin [OF e] numerator_exact [OF True] q_def a_def n_def)
  have spec: "exact_rate (unat delta) (unat elapsed) = (if q < 1 \<or> 130 < q then 0 else min 120 \<lfloor>q + 1 / 2\<rfloor>)"
    by (simp add: exact_rate_def q_def a_def n_def Let_def)
  have low: "r64 q < 1" if "q < 1"
    using quotient_gap_below [of a n 1] that n by (intro r64_below_1) (simp add: q_def)
  have high: "130 < r64 q" if "130 < q"
    using quotient_gap_above [of 130 a n] that n by (intro r64_above_130) (simp add: q_def)
  have half: "q + 1 / 2 = of_nat (2 * a + n) / of_nat (2 * n)"
    using n by (simp add: q_def field_simps)
  have "q + 1 / 2 < of_int (\<lfloor>q + 1 / 2\<rfloor> + 1)" by linarith
  then have gap: "q + 1 / 2 \<le> of_int \<lfloor>q + 1 / 2\<rfloor> + 1 - 1 / 6000000"
    using quotient_gap_below [of "2 * a + n" "2 * n" "\<lfloor>q + 1 / 2\<rfloor> + 1", folded half] n by simp
  have mid: "1 \<le> r64 q" "r64 q \<le> 130" if "1 \<le> q" "q \<le> 130"
    using f64.rnd_ge_nat [of 1 q] f64.rnd_le_nat [of q 130] that by simp_all
  show ?thesis
    unfolding f spec using validated_fps_fin [of "r64 q"] low high mid r64_rounds [OF _ _ gap]
    by (auto simp: min.commute not_less)
qed

section \<open>Choosing a word\<close>

lemma exact_rate_range: "0 \<le> exact_rate d e \<and> exact_rate d e \<le> 120"
  by (auto simp: exact_rate_def Let_def not_less)

lemma word_rate_range: "0 \<le> word_rate p c e i \<and> word_rate p c e i \<le> 120"
  using exact_rate_range by (simp add: word_rate_def)

lemma fps_for_word_exact:
  assumes "0 < unat elapsed" "unat elapsed \<le> 3000000"
  shows "fps_for_word previous current elapsed i = word_rate previous current (unat elapsed) i"
  using validated_rate_exact [OF assms]
  by (cases "current ! i < previous ! i") (simp_all add: fps_for_word_def word_rate_def unat_diff_le [OF leI])

text \<open>What the search has found after the first \<open>k\<close> words.\<close>

definition similar :: "int \<Rightarrow> int \<Rightarrow> bool" where
  "similar previous r \<longleftrightarrow> previous \<noteq> 0 \<and> \<bar>previous - r\<bar> \<le> 12"

definition search_ok :: "(nat \<Rightarrow> int) \<Rightarrow> int list \<Rightarrow> nat \<Rightarrow> dce_search \<Rightarrow> bool" where
  "search_ok rate last0 k a \<longleftrightarrow>
     length (ds_streak a) = 12 \<and> length (ds_last a) = 12 \<and>
     (\<forall>j. k \<le> j \<and> j < 12 \<longrightarrow> ds_last a ! j = last0 ! j) \<and>
     (ds_best_word a = -1 \<or>
      (\<exists>i<k. ds_best_word a = int i \<and> ds_best_fps a = rate i \<and> rate i \<noteq> 0 \<and> similar (last0 ! i) (rate i)))"

lemma search_ok_step:
  assumes "search_ok rate last0 k a" "k < 12"
  shows "search_ok rate last0 (Suc k) (dce_search_word rate k a)"
proof -
  have "ds_last a ! k = last0 ! k" using assms by (simp add: search_ok_def)
  moreover have "\<not> (2 :: u32) \<le> 1" by code_simp
  ultimately show ?thesis
    using assms
    by (auto simp: search_ok_def dce_search_word_def Let_def similar_def nth_list_update less_Suc_eq)
qed

lemma search_ok_fold:
  "search_ok rate last0 0 a \<Longrightarrow> k \<le> 12 \<Longrightarrow> search_ok rate last0 k (fold (dce_search_word rate) [0..<k] a)"
  by (induction k) (auto intro: search_ok_step)

lemma search_all_ok:
  "dce_inv s \<Longrightarrow> search_ok rate (dce_candidate_last_fps s) 12 (dce_search_all rate s)"
  unfolding dce_search_all_def by (rule search_ok_fold) (simp_all add: search_ok_def dce_inv_def)

lemma dce_discover_result:
  assumes "dce_inv s" "dce_discover rate s = (r, s')" "r \<noteq> 0"
  shows "\<exists>i<12. r = rate i \<and> similar (dce_candidate_last_fps s ! i) r \<and> dce_selected_word s' = int i"
  using search_all_ok [OF assms(1), of rate] assms(2,3)
  by (auto simp: dce_discover_def Let_def search_ok_def split: if_splits)

lemma dce_discover_inv:
  assumes "dce_inv s"
  shows "dce_inv (snd (dce_discover rate s))"
  using search_all_ok [OF assms, of rate] assms
  by (auto simp: dce_discover_def Let_def search_ok_def dce_inv_def)

lemma dce_choose_result:
  assumes "dce_inv s" "dce_choose rate s = (r, s')" "r \<noteq> 0"
  shows "\<exists>i<12. r = rate i \<and> (i = 1 \<or> int i = dce_selected_word s) \<and> dce_selected_word s' = int i"
  using assms
  by (auto simp: dce_choose_def Let_def dce_inv_def split: if_splits)
    (use assms in \<open>auto simp: dce_inv_def intro: exI [of _ "nat (dce_selected_word s)"]\<close>)

lemma dce_choose_inv: "dce_inv s \<Longrightarrow> dce_inv (snd (dce_choose rate s))"
  by (auto simp: dce_choose_def Let_def dce_inv_def)

lemma dce_choose_last: "dce_candidate_last_fps (snd (dce_choose rate s)) = dce_candidate_last_fps s"
  by (simp add: dce_choose_def Let_def)

lemma dce_rebase_inv: "dce_inv (dce_rebase current now s) = dce_inv s"
  by (simp add: dce_inv_def dce_rebase_def)

lemma dce_measure_inv: "dce_inv s \<Longrightarrow> dce_inv (snd (dce_measure current now s))"
  by (simp add: dce_measure_def Let_def case_prod_beta dce_rebase_inv dce_choose_inv dce_discover_inv)

lemma dce_measure_result:
  assumes "dce_inv s" "fst (dce_measure current now s) = Some r"
  defines "rate \<equiv> fps_for_word (dce_previous_words s) current (now - dce_previous_time_us s)"
  shows "r \<noteq> 0 \<and> (\<exists>i<12. r = rate i
    \<and> (i = 1 \<or> int i = dce_selected_word s \<or> similar (dce_candidate_last_fps s ! i) r))"
proof -
  obtain c s1 where c: "dce_choose rate s = (c, s1)" by (cases "dce_choose rate s")
  have s1: "dce_inv s1" "dce_candidate_last_fps s1 = dce_candidate_last_fps s"
    using dce_choose_inv [OF assms(1), of rate] dce_choose_last [of rate s] c by auto
  obtain d s2 where d: "dce_discover rate s1 = (d, s2)" by (cases "dce_discover rate s1")
  show ?thesis
  proof (cases "c = 0 \<and> dce_selected_word s1 < 0")
    case True
    then have "r = d" "d \<noteq> 0"
      using assms(2) c d by (auto simp: dce_measure_def Let_def simp flip: rate_def split: if_splits)
    then show ?thesis using dce_discover_result [OF s1(1) d] s1(2) by auto
  next
    case False
    then have "r = c" "c \<noteq> 0"
      using assms(2) c by (auto simp: dce_measure_def Let_def simp flip: rate_def split: if_splits)
    then show ?thesis using dce_choose_result [OF assms(1) c] by auto
  qed
qed

lemma dce_window_elapsed:
  assumes "dce_window now s"
  shows "unat (now - dce_previous_time_us s) = unat now - unat (dce_previous_time_us s)"
    "0 < unat (now - dce_previous_time_us s)" "unat (now - dce_previous_time_us s) \<le> 3000000"
  using assms unat_diff_le [of "dce_previous_time_us s" now] by (auto simp: dce_window_def)

lemma dce_sample_window: "dce_window now s \<Longrightarrow> dce_sample current now s = dce_measure current now s"
  using unat_diff_le [of "dce_previous_time_us s" now]
  by (auto simp: dce_window_def dce_sample_def kMaxFpsWindowUs_def kMinFpsWindowUs_def word_less_nat_alt
      word_le_nat_alt)

lemma dce_sample_no_window: "\<not> dce_window now s \<Longrightarrow> fst (dce_sample current now s) = None"
  using unat_diff_le [of "dce_previous_time_us s" now]
  by (auto simp: dce_window_def dce_sample_def kMaxFpsWindowUs_def kMinFpsWindowUs_def word_less_nat_alt
      word_le_nat_alt)

lemma dce_init_inv: "dce_inv dce_init"
  by (simp add: dce_inv_def dce_init_def kWarmupDeltasToDiscard_def)

lemma dce_sample_inv: "dce_inv s \<Longrightarrow> dce_inv (snd (dce_sample current now s))"
  using dce_init_inv dce_measure_inv [of s current now]
  by (simp add: dce_sample_def dce_reset_def) (auto simp: dce_inv_def dce_rebase_def)

lemma dce_sample_result:
  assumes "dce_inv s" "fst (dce_sample current now s) = Some r"
  shows "dce_window now s \<and> 1 \<le> r \<and> r \<le> 120 \<and>
    (\<exists>i<12. r = word_rate (dce_previous_words s) current (unat now - unat (dce_previous_time_us s)) i
      \<and> (i = 1 \<or> int i = dce_selected_word s \<or> similar (dce_candidate_last_fps s ! i) r))"
proof -
  have w: "dce_window now s" using assms(2) dce_sample_no_window by fastforce
  note e = dce_window_elapsed [OF w]
  have "fst (dce_measure current now s) = Some r" using assms(2) dce_sample_window [OF w] by simp
  from dce_measure_result [OF assms(1) this]
  obtain i where i: "i < 12" "r \<noteq> 0"
      "r = word_rate (dce_previous_words s) current (unat now - unat (dce_previous_time_us s)) i"
      "i = 1 \<or> int i = dce_selected_word s \<or> similar (dce_candidate_last_fps s ! i) r"
    by (auto simp: fps_for_word_exact [OF e(2,3)] e(1))
  then have "1 \<le> r \<and> r \<le> 120"
    using word_rate_range [of "dce_previous_words s" current "unat now - unat (dce_previous_time_us s)" i]
    by linarith
  with w i show ?thesis by blast
qed

interpretation dce_rates: rate_source dce_init dce_step dce_inv
proof
  show "dce_inv dce_init" by (rule dce_init_inv)
  show "dce_inv s \<Longrightarrow> dce_inv (snd (dce_step i s))" for s i
    by (cases i) (simp add: dce_sample_inv)
  show "0 \<le> r \<and> r \<le> 120" if "dce_inv s" "fst (dce_step i s) = Some r" for s i r
    using dce_sample_result [OF that(1)] that(2) by (cases i) fastforce
qed

section \<open>Properties\<close>

text \<open>
  (C17) Floating point never shows: inside a measuring window, if the known counter word has a
  displayable rate, the sampler returns exactly that rate, the nearest integer to the true
  quotient of frames and seconds, capped at 120, and selects that word.
\<close>

theorem dce_known_word_exact:
  assumes "dce_window now s"
    and "word_rate (dce_previous_words s) current (unat now - unat (dce_previous_time_us s)) 1 \<noteq> 0"
  shows "dce_sample current now s =
    (Some (word_rate (dce_previous_words s) current (unat now - unat (dce_previous_time_us s)) 1),
     s\<lparr>dce_selected_word := 1, dce_selected_invalid := 0,
       dce_previous_words := current, dce_previous_time_us := now\<rparr>)"
  using assms dce_window_elapsed [OF assms(1)]
  by (simp add: dce_sample_window dce_measure_def dce_choose_def fps_for_word_exact dce_rebase_def)

definition dce_example :: dce_counter where
  "dce_example = dce_init\<lparr>dce_have_baseline := True, dce_warmup := 0,
     dce_previous_words := replicate 12 160, dce_previous_time_us := 2000000\<rparr>"

lemma dce_example_reached:
  "dce_example = run_state_of dce_step dce_init [(replicate 12 100, 1000000), (replicate 12 160, 2000000)]"
  by (simp add: dce_example_def dce_init_def dce_sample_def dce_rebase_def kMaxFpsWindowUs_def
      kMinFpsWindowUs_def kWarmupDeltasToDiscard_def)

lemma dce_example_rate:
  "word_rate (dce_previous_words dce_example) (replicate 12 220)
     (unat (3004000 :: u64) - unat (dce_previous_time_us dce_example)) 1 = 60"
  by (simp add: dce_example_def word_rate_def exact_rate_def Let_def floor_eq_iff)

theorem dce_known_word_exact_witness:
  "fst (dce_sample (replicate 12 220) 3004000 dce_example) = Some 60"
proof -
  have "dce_window 3004000 dce_example"
    by (simp add: dce_window_def dce_example_def)
  then show ?thesis
    using dce_known_word_exact [of 3004000 dce_example "replicate 12 220"] dce_example_rate by simp
qed

section \<open>Where a selected word comes from\<close>

type_synonym dce_input = "u64 list \<times> u64"

text \<open>
  A poll after a history: the rate of a word over the window it closes, whether it searches (no
  rate of the known word, and none of the selected word for the third time or no selected word),
  and whether it starts over.
\<close>

definition dce_after :: "dce_input list \<Rightarrow> dce_counter" where
  "dce_after is = run_state_of dce_step dce_init is"

definition poll_rate :: "dce_input list \<Rightarrow> dce_input \<Rightarrow> nat \<Rightarrow> int" where
  "poll_rate is p i = (let s = dce_after is in
     word_rate (dce_previous_words s) (fst p) (unat (snd p) - unat (dce_previous_time_us s)) i)"

definition poll_searches :: "dce_input list \<Rightarrow> dce_input \<Rightarrow> bool" where
  "poll_searches is p \<longleftrightarrow> (let s = dce_after is in
     dce_window (snd p) s \<and> poll_rate is p 1 = 0 \<and>
     (0 \<le> dce_selected_word s \<longrightarrow>
        poll_rate is p (nat (dce_selected_word s)) = 0 \<and> 3 \<le> dce_selected_invalid s + 1))"

definition poll_restarts :: "dce_input list \<Rightarrow> dce_input \<Rightarrow> bool" where
  "poll_restarts is p \<longleftrightarrow> (let s = dce_after is in
     dce_have_baseline s \<and> (snd p \<le> dce_previous_time_us s \<or> kMaxFpsWindowUs < snd p - dce_previous_time_us s))"

text \<open>No poll of the second list, after the first, searches or starts over.\<close>

fun undisturbed :: "dce_input list \<Rightarrow> dce_input list \<Rightarrow> bool" where
  "undisturbed pre [] \<longleftrightarrow> True"
| "undisturbed pre (p # ps) \<longleftrightarrow> \<not> poll_searches pre p \<and> \<not> poll_restarts pre p \<and> undisturbed (pre @ [p]) ps"

text \<open>Two searches that follow each other gave the word similar rates.\<close>

definition found_in :: "nat \<Rightarrow> dce_input list \<Rightarrow> bool" where
  "found_in i is \<longleftrightarrow>
     (\<exists>pre p mid q post. is = pre @ p # mid @ q # post \<and>
        poll_searches pre p \<and> undisturbed (pre @ [p]) mid \<and> poll_searches (pre @ p # mid) q \<and>
        poll_rate (pre @ p # mid) q i \<noteq> 0 \<and> similar (poll_rate pre p i) (poll_rate (pre @ p # mid) q i))"

text \<open>The rate a search has stored is that of the last search, if nothing has started over since.\<close>

definition searched_in :: "nat \<Rightarrow> int \<Rightarrow> dce_input list \<Rightarrow> bool" where
  "searched_in i r is \<longleftrightarrow>
     (\<exists>pre p mid. is = pre @ p # mid \<and> poll_searches pre p \<and> undisturbed (pre @ [p]) mid \<and> poll_rate pre p i = r)"

lemma undisturbed_snoc: "undisturbed pre (ps @ [p]) \<longleftrightarrow>
    undisturbed pre ps \<and> \<not> poll_searches (pre @ ps) p \<and> \<not> poll_restarts (pre @ ps) p"
  by (induction ps arbitrary: pre) auto

lemma found_in_snoc: "found_in i is \<Longrightarrow> found_in i (is @ [p])"
  unfolding found_in_def by (metis append.assoc append_Cons)

lemma searched_in_snoc:
  "searched_in i r is \<Longrightarrow> \<not> poll_searches is p \<Longrightarrow> \<not> poll_restarts is p \<Longrightarrow> searched_in i r (is @ [p])"
  unfolding searched_in_def by (metis append.assoc append_Cons append_Nil undisturbed_snoc)

lemma searched_in_now: "poll_searches is p \<Longrightarrow> searched_in i (poll_rate is p i) (is @ [p])"
  unfolding searched_in_def by (metis undisturbed.simps(1))

lemma found_in_now:
  "searched_in i r is \<Longrightarrow> poll_searches is p \<Longrightarrow> poll_rate is p i \<noteq> 0 \<Longrightarrow> similar r (poll_rate is p i) \<Longrightarrow>
   found_in i (is @ [p])"
  unfolding searched_in_def found_in_def by (metis append.assoc append_Cons)

text \<open>What one search stores.\<close>

lemma search_word_last: "ds_last (dce_search_word rate k b) = (ds_last b)[k := rate k]"
  by (simp add: dce_search_word_def Let_def)

lemma search_stores:
  "length (ds_last a) = 12 \<Longrightarrow> k \<le> 12 \<Longrightarrow>
   length (ds_last (fold (dce_search_word rate) [0..<k] a)) = 12 \<and>
   (\<forall>j<k. ds_last (fold (dce_search_word rate) [0..<k] a) ! j = rate j)"
  by (induction k) (auto simp: search_word_last nth_list_update less_Suc_eq)

lemma dce_discover_stores:
  "dce_inv s \<Longrightarrow> j < 12 \<Longrightarrow> dce_candidate_last_fps (snd (dce_discover rate s)) ! j = rate j"
  by (simp add: dce_discover_def dce_search_all_def search_stores dce_inv_def Let_def)

definition dce_explained :: "dce_input list \<Rightarrow> dce_counter \<Rightarrow> bool" where
  "dce_explained is s \<longleftrightarrow>
     (\<forall>j<12. dce_candidate_last_fps s ! j \<noteq> 0 \<longrightarrow> searched_in j (dce_candidate_last_fps s ! j) is) \<and>
     (\<forall>i. dce_selected_word s = int i \<longrightarrow> i = 1 \<or> found_in i is)"

text \<open>A poll that searches, and what it leaves.\<close>

lemma measure_searches:
  fixes current :: "u64 list"
  assumes "s = dce_after is" "dce_inv s" "dce_window now s"
  defines "rate \<equiv> fps_for_word (dce_previous_words s) current (now - dce_previous_time_us s)"
  shows "rate = poll_rate is (current, now)"
    and "poll_searches is (current, now) \<longleftrightarrow> fst (dce_choose rate s) = 0 \<and> dce_selected_word (snd (dce_choose rate s)) < 0"
proof -
  show r: "rate = poll_rate is (current, now)"
    using dce_window_elapsed [OF assms(3)]
    by (auto simp: rate_def poll_rate_def fps_for_word_exact assms(1) Let_def)
  show "poll_searches is (current, now) \<longleftrightarrow> fst (dce_choose rate s) = 0 \<and> dce_selected_word (snd (dce_choose rate s)) < 0"
    using assms(2,3) by (auto simp: poll_searches_def dce_choose_def dce_inv_def Let_def simp flip: assms(1) r)
qed

lemma measure_restarts: "dce_window now (dce_after is) \<Longrightarrow> \<not> poll_restarts is (current, now)"
  using unat_diff_le [of "dce_previous_time_us (dce_after is)" now]
  by (auto simp: poll_restarts_def dce_window_def kMaxFpsWindowUs_def word_less_nat_alt word_le_nat_alt Let_def)

lemma explained_measure:
  assumes s: "s = dce_after is" "dce_inv s" "dce_explained is s" and w: "dce_window now s"
    and run: "dce_measure current now s = (r, s')"
  shows "dce_explained (is @ [(current, now)]) s' \<and>
    (case r of None \<Rightarrow> True | Some v \<Rightarrow> \<exists>i<12. v = poll_rate is (current, now) i \<and> (i = 1 \<or> found_in i (is @ [(current, now)])))"
proof -
  define rate where "rate = fps_for_word (dce_previous_words s) current (now - dce_previous_time_us s)"
  note p = measure_searches [OF s(1,2) w, of current, folded rate_def]
  have nr: "\<not> poll_restarts is (current, now)" using measure_restarts w s(1) by simp
  obtain c s1 where c: "dce_choose rate s = (c, s1)" by (cases "dce_choose rate s")
  have s1: "dce_inv s1" "dce_candidate_last_fps s1 = dce_candidate_last_fps s"
    using dce_choose_inv [OF s(2), of rate] dce_choose_last [of rate s] c by auto
  obtain d s2 where d: "dce_discover rate s1 = (d, s2)" by (cases "dce_discover rate s1")
  show ?thesis
  proof (cases "poll_searches is (current, now)")
    case True
    then have m: "r = (if d = 0 then None else Some d)" "s' = dce_rebase current now s2"
      using run c d p(2) by (auto simp: dce_measure_def Let_def simp flip: rate_def)
    have stored: "dce_candidate_last_fps s' ! j = poll_rate is (current, now) j" if "j < 12" for j
      using dce_discover_stores [OF s1(1) that, of rate] d m(2) p(1) by (simp add: dce_rebase_def)
    have "searched_in j (dce_candidate_last_fps s' ! j) (is @ [(current, now)])" if "j < 12" for j
      using searched_in_now [OF True] stored [OF that] by simp
    moreover have found: "found_in i (is @ [(current, now)])" "d = poll_rate is (current, now) i" "i < 12"
      if nz: "d \<noteq> 0" and sel: "dce_selected_word s' = int i" for i
    proof -
      obtain k where k: "k < 12" "d = rate k" "similar (dce_candidate_last_fps s1 ! k) d" "dce_selected_word s2 = int k"
        using dce_discover_result [OF s1(1) d nz] by blast
      have "k = i" using k(4) sel m(2) by (simp add: dce_rebase_def)
      moreover have "searched_in k (dce_candidate_last_fps s ! k) is"
        using s(3) k(1,3) s1(2) by (auto simp: dce_explained_def similar_def)
      ultimately show "found_in i (is @ [(current, now)])" "d = poll_rate is (current, now) i" "i < 12"
        using found_in_now [OF _ True] nz k s1(2) p(1) by auto
    qed
    moreover have "\<exists>i<12. d = poll_rate is (current, now) i \<and> (i = 1 \<or> found_in i (is @ [(current, now)]))" if nz: "d \<noteq> 0"
    proof -
      obtain i where "dce_selected_word s' = int i"
        using dce_discover_result [OF s1(1) d nz] m(2) by (auto simp: dce_rebase_def)
      from found [OF nz this] show ?thesis by blast
    qed
    moreover have "dce_selected_word s' < 0" if "d = 0"
    proof -
      have "dce_selected_word s1 < 0" using True p(2) c by simp
      moreover have "\<not> 0 \<le> ds_best_word (dce_search_all rate s1)"
        using search_all_ok [OF s1(1), of rate] d that by (auto simp: dce_discover_def Let_def search_ok_def split: if_splits)
      ultimately show ?thesis using d m(2) by (auto simp: dce_discover_def Let_def dce_rebase_def)
    qed
    ultimately show ?thesis using m(1) unfolding dce_explained_def by (cases "d = 0") auto
  next
    case False
    then have m: "r = (if c = 0 then None else Some c)" "s' = dce_rebase current now s1"
      using run c p(2) by (auto simp: dce_measure_def Let_def simp flip: rate_def)
    have sel: "dce_selected_word s1 = int i \<Longrightarrow> i = 1 \<or> dce_selected_word s = int i" for i
      using c by (auto simp: dce_choose_def Let_def split: if_splits)
    have kept: "found_in i is \<Longrightarrow> found_in i (is @ [(current, now)])" for i by (rule found_in_snoc)
    have "dce_explained (is @ [(current, now)]) s'"
      using s(3) sel kept searched_in_snoc [OF _ False nr] s1(2) m(2)
      unfolding dce_explained_def by (auto simp: dce_rebase_def)
    moreover have "\<exists>i<12. c = poll_rate is (current, now) i \<and> (i = 1 \<or> found_in i (is @ [(current, now)]))" if nz: "c \<noteq> 0"
    proof -
      obtain i where i: "i < 12" "c = rate i" "i = 1 \<or> int i = dce_selected_word s"
        using dce_choose_result [OF s(2) c nz] by blast
      have "i = 1 \<or> found_in i is" using i(3) s(3) unfolding dce_explained_def by metis
      then show ?thesis using i(1,2) kept p(1) by blast
    qed
    ultimately show ?thesis using m(1) by auto
  qed
qed

lemma explained_step:
  assumes "s = dce_after is" "dce_inv s" "dce_explained is s"
  shows "dce_explained (is @ [(current, now)]) (snd (dce_sample current now s))"
proof (cases "dce_window now s")
  case True
  show ?thesis
    using explained_measure [OF assms True surjective_pairing [of "dce_measure current now s"]] dce_sample_window [OF True] by simp
next
  case False
  have ns: "\<not> poll_searches is (current, now)" using False assms(1) by (simp add: poll_searches_def Let_def)
  have init: "dce_explained js (dce_rebase current now dce_init\<lparr>dce_have_baseline := True\<rparr>)" for js
    by (simp add: dce_explained_def dce_rebase_def dce_init_def)
  have kept: "dce_explained (is @ [(current, now)]) t"
    if "\<not> poll_restarts is (current, now)" "dce_candidate_last_fps t = dce_candidate_last_fps s" "dce_selected_word t = dce_selected_word s" for t
    using assms(3) that searched_in_snoc [OF _ ns that(1)] found_in_snoc unfolding dce_explained_def by auto
  show ?thesis
    using False init kept assms(1) unat_diff_le [of "dce_previous_time_us s" now]
    by (auto simp: dce_sample_def dce_reset_def poll_restarts_def dce_rebase_def dce_window_def kMaxFpsWindowUs_def kMinFpsWindowUs_def
        word_less_nat_alt word_le_nat_alt Let_def)
qed

lemma dce_after_snoc: "dce_after (is @ [(current, now)]) = snd (dce_sample current now (dce_after is))"
  by (simp add: dce_after_def run_state_of_snoc)

lemma dce_after_inv: "dce_inv (dce_after is)"
  unfolding dce_after_def by (rule dce_rates.reachable_inv)

lemma explained_run: "dce_explained is (dce_after is)"
proof (induction "is" rule: rev_induct)
  case Nil
  then show ?case by (simp add: dce_explained_def dce_after_def dce_init_def)
next
  case (snoc p "is")
  then show ?case using explained_step [OF refl dce_after_inv snoc] by (cases p) (simp add: dce_after_snoc)
qed

text \<open>
  (C10) Every rate the sampler reports, after any history of polls, is the exact rate of one of
  the twelve words over the window the poll closes and lies between 1 and 120; and the word is
  the known one, or the history up to this poll holds two searches with no search and no restart
  between them in which the word had rates within 12 frames of each other.  A search is a poll at
  which the known word has no rate and no word is selected, or the selected one had none for the
  third time; polls while a word is selected are no searches, so the two may lie apart.
\<close>

theorem dce_rate_provenance:
  assumes "fst (dce_sample current now (run_state_of dce_step dce_init is)) = Some r"
  shows "1 \<le> r \<and> r \<le> 120 \<and>
    (\<exists>i<12. r = poll_rate is (current, now) i \<and> (i = 1 \<or> found_in i (is @ [(current, now)])))"
proof -
  let ?s = "dce_after is"
  have out: "fst (dce_sample current now ?s) = Some r" using assms by (simp add: dce_after_def)
  note p = dce_sample_result [OF dce_after_inv out]
  have w: "dce_window now ?s" using p by blast
  obtain s' where "dce_measure current now ?s = (Some r, s')"
    using out dce_sample_window [OF w] by (cases "dce_measure current now ?s") auto
  from explained_measure [OF refl dce_after_inv explained_run w this] show ?thesis using p by auto
qed

text \<open>
  An example: the second word stands still and the first counts sixty frames a second; two
  searches select it.
\<close>

definition adaptive_words :: "nat \<Rightarrow> u64 list" where
  "adaptive_words n = of_nat (60 * n) # replicate 11 0"

definition adaptive_polls :: "dce_input list" where
  "adaptive_polls = [(adaptive_words 1, 1000000), (adaptive_words 2, 2000000), (adaptive_words 3, 3000000)]"

theorem dce_rate_provenance_witness:
  "1 \<le> (60::int) \<and> (\<exists>i<12. 60 = poll_rate adaptive_polls (adaptive_words 4, 4000000) i
     \<and> (i = 1 \<or> found_in i (adaptive_polls @ [(adaptive_words 4, 4000000)])))"
proof -
  have "fst (dce_sample (adaptive_words 4) 4000000 (run_state_of dce_step dce_init adaptive_polls)) = Some 60"
    by code_simp
  from dce_rate_provenance [OF this] show ?thesis by blast
qed

end
