(* ===== verification/Platform.thy ===== *)
theory Platform
  imports Overlay_Config
begin

text \<open>
  The \<^verbatim>\<open>Platform\<close> interface (\<^verbatim>\<open>include/common_fps/platform.hpp\<close>).  An
  implementation is a record of operations over an environment type \<open>'e\<close>, which is
  threaded through every call: what a call observes and changes of the console is in the
  environment.  \<open>read_memory\<close> answers the bytes it copied, or \<open>None\<close> on failure.
\<close>

record module_info =
  mod_base :: u64
  mod_name :: string

record 'e platform =
  find_game_process :: "'e \<Rightarrow> process_id option \<times> 'e"
  process_alive :: "process_id \<Rightarrow> 'e \<Rightarrow> bool \<times> 'e"
  find_module :: "process_id \<Rightarrow> string \<Rightarrow> 'e \<Rightarrow> module_info option \<times> 'e"
  read_memory :: "process_id \<Rightarrow> u64 \<Rightarrow> nat \<Rightarrow> 'e \<Rightarrow> bytes option \<times> 'e"
  firmware_sdk_version :: "'e \<Rightarrow> u32 \<times> 'e"
  monotonic_us :: "'e \<Rightarrow> u64 \<times> 'e"
  sleep_ms :: "nat \<Rightarrow> 'e \<Rightarrow> 'e"

text \<open>Reads of one integer into a local variable.\<close>

definition read_u32 :: "'e platform \<Rightarrow> process_id \<Rightarrow> u64 \<Rightarrow> 'e \<Rightarrow> u32 option \<times> 'e" where
  "read_u32 pf pid address e =
     (case read_memory pf pid address 4 e of
        (None, e') \<Rightarrow> (None, e') | (Some bs, e') \<Rightarrow> (Some (get_u32 0 bs), e'))"

definition read_u64 :: "'e platform \<Rightarrow> process_id \<Rightarrow> u64 \<Rightarrow> 'e \<Rightarrow> u64 option \<times> 'e" where
  "read_u64 pf pid address e =
     (case read_memory pf pid address 8 e of
        (None, e') \<Rightarrow> (None, e') | (Some bs, e') \<Rightarrow> (Some (get_u64 0 bs), e'))"

text \<open>
  A small console for examples: one process, one module, a clock that advances by the time
  slept, and a memory image that depends on the clock.
\<close>

record example_console =
  sc_pid :: process_id
  sc_module :: "module_info option"
  sc_memory :: "u64 \<Rightarrow> u64 \<Rightarrow> nat \<Rightarrow> bytes option"
  sc_sdk :: u32
  sc_clock_us :: u64

definition example_platform :: "example_console platform" where
  "example_platform =
     \<lparr>find_game_process = (\<lambda>c. (Some (sc_pid c), c)),
      process_alive = (\<lambda>pid c. (pid = sc_pid c, c)),
      find_module = (\<lambda>pid name c. (if pid = sc_pid c then sc_module c else None, c)),
      read_memory = (\<lambda>pid a n c. (if pid = sc_pid c then sc_memory c (sc_clock_us c) a n else None, c)),
      firmware_sdk_version = (\<lambda>c. (sc_sdk c, c)),
      monotonic_us = (\<lambda>c. (sc_clock_us c, c)),
      sleep_ms = (\<lambda>ms c. c\<lparr>sc_clock_us := sc_clock_us c + of_nat ms * 1000\<rparr>)\<rparr>"

lemma example_ops:
  "process_alive example_platform pid c = (pid = sc_pid c, c)"
  "find_module example_platform pid name c = (if pid = sc_pid c then sc_module c else None, c)"
  "read_memory example_platform pid a n c =
     (if pid = sc_pid c then sc_memory c (sc_clock_us c) a n else None, c)"
  "firmware_sdk_version example_platform c = (sc_sdk c, c)"
  "monotonic_us example_platform c = (sc_clock_us c, c)"
  "sleep_ms example_platform ms c = c\<lparr>sc_clock_us := sc_clock_us c + of_nat ms * 1000\<rparr>"
  by (simp_all add: example_platform_def)

end
