(* ===== verification/Fps_Sampler.thy ===== *)
theory Fps_Sampler
  imports Platform
begin

text \<open>
  \<^verbatim>\<open>src/core/fps_sampler.cpp\<close>, console build: discovery of the VideoOut frame counter
  of a game and its conversion to a frame rate.  Log lines and the counters that only feed
  them are left out.  The lemmas show which counter discovery may pick, that the integer
  arithmetic of \<open>sample\<close> is the nearest integer to the true rate with no overflow, and
  that a failed discovery is not repeated for ten seconds.
\<close>

section \<open>Definitions\<close>

definition kVideoOutProbeTableOffset :: u64 where "kVideoOutProbeTableOffset = 0x34980"
definition kVideoOutProbeEntryCount :: nat where "kVideoOutProbeEntryCount = 7"
definition kVideoOutProbeEntrySize :: nat where "kVideoOutProbeEntrySize = 0x18"
definition kVideoOutCounterOffset :: u64 where "kVideoOutCounterOffset = 0x768"

definition plausible_user_pointer :: "u64 \<Rightarrow> bool" where
  "plausible_user_pointer value \<longleftrightarrow>
     0x10000 \<le> value \<and> value < 0x0000800000000000 \<and> value AND 7 = 0"

definition unsigned_distance :: "u32 \<Rightarrow> u32 \<Rightarrow> u32" where
  "unsigned_distance left right = (if right < left then left - right else right - left)"

record fps_sampler =
  fs_pid :: process_id
  fs_module_base :: u64
  fs_counter_address :: u64
  fs_have_baseline :: bool
  fs_warmup :: nat
  fs_previous_counter :: u32
  fs_previous_time_us :: u64
  fs_discovery_failed_pid :: process_id
  fs_discovery_retry_after_us :: u64

definition fs_init :: fps_sampler where
  "fs_init =
     \<lparr>fs_pid = -1, fs_module_base = 0, fs_counter_address = 0, fs_have_baseline = False,
      fs_warmup = kWarmupDeltasToDiscard, fs_previous_counter = 0, fs_previous_time_us = 0,
      fs_discovery_failed_pid = -1, fs_discovery_retry_after_us = 0\<rparr>"

definition fs_reset :: "fps_sampler \<Rightarrow> fps_sampler" where
  "fs_reset s = s
     \<lparr>fs_pid := -1, fs_module_base := 0, fs_counter_address := 0, fs_have_baseline := False,
      fs_warmup := kWarmupDeltasToDiscard, fs_previous_counter := 0, fs_previous_time_us := 0\<rparr>"

definition fs_attached :: "fps_sampler \<Rightarrow> bool" where
  "fs_attached s \<longleftrightarrow> 0 \<le> fs_pid s \<and> fs_counter_address s \<noteq> 0"

subsection \<open>The fixed table of firmware 9.60\<close>

definition kProvenFixedTableSdk :: u32 where "kProvenFixedTableSdk = 0x09600000"

fun fixed_table_probe ::
  "'e platform \<Rightarrow> process_id \<Rightarrow> bytes \<Rightarrow> nat list \<Rightarrow> 'e \<Rightarrow> u64 option \<times> 'e" where
  "fixed_table_probe pf pid table [] e = (None, e)"
| "fixed_table_probe pf pid table (i # is) e =
     (let entry = i * kVideoOutProbeEntrySize;
          enabled = get_u32 entry table;
          pointer = get_u64 (entry + 8) table
      in if enabled = 0 \<or> pointer = 0 then fixed_table_probe pf pid table is e
         else case read_u64 pf pid pointer e of
                (Some chain_root, e') \<Rightarrow>
                  if chain_root = 0 then fixed_table_probe pf pid table is e'
                  else (Some (chain_root + kVideoOutCounterOffset), e')
              | (None, e') \<Rightarrow> fixed_table_probe pf pid table is e')"

definition resolve_fixed_table :: "'e platform \<Rightarrow> process_id \<Rightarrow> u64 \<Rightarrow> 'e \<Rightarrow> u64 option \<times> 'e" where
  "resolve_fixed_table pf pid module_base e =
     (case firmware_sdk_version pf e of
        (sdk_version, e1) \<Rightarrow>
          if sdk_version AND 0xffff0000 = kProvenFixedTableSdk then
            case read_memory pf pid (module_base + kVideoOutProbeTableOffset)
                   (kVideoOutProbeEntryCount * kVideoOutProbeEntrySize) e1 of
              (Some table, e2) \<Rightarrow> fixed_table_probe pf pid table [0..<kVideoOutProbeEntryCount] e2
            | (None, e2) \<Rightarrow> (None, e2)
          else (None, e1))"

subsection \<open>The scan for indirect chains\<close>

definition kScanBegin :: nat where "kScanBegin = 0x10000"
definition kScanEnd :: nat where "kScanEnd = 0x200000"
definition kScanStep :: nat where "kScanStep = 0x2000"
definition kLayoutLookahead :: nat where "kLayoutLookahead = 0x20"
definition kScanReadSize :: nat where "kScanReadSize = kScanStep + kLayoutLookahead"
definition kMaxCandidates :: nat where "kMaxCandidates = 256"

record probe_layout =
  enabled_offset :: nat
  pointer_offset :: nat
  layout_name :: string

definition kLayouts :: "probe_layout list" where
  "kLayouts =
     [\<lparr>enabled_offset = 0, pointer_offset = 8, layout_name = ''e0-p8''\<rparr>,
      \<lparr>enabled_offset = 4, pointer_offset = 8, layout_name = ''e4-p8''\<rparr>,
      \<lparr>enabled_offset = 0, pointer_offset = 0x10, layout_name = ''e0-p10''\<rparr>,
      \<lparr>enabled_offset = 4, pointer_offset = 0x10, layout_name = ''e4-p10''\<rparr>]"

record candidate =
  cand_record :: u64
  cand_layout :: string
  cand_pointer :: u64
  cand_root :: u64
  cand_counter :: u64
  cand_chain_depth :: nat
  cand_first :: u32
  cand_second :: u32
  cand_third :: u32
  cand_second_ok :: bool
  cand_third_ok :: bool

text \<open>The candidates found so far and the flag that some did not fit.\<close>

type_synonym candidates = "candidate list \<times> bool"

definition add_candidate ::
  "'e platform \<Rightarrow> process_id \<Rightarrow> u64 \<Rightarrow> string \<Rightarrow> u64 \<Rightarrow> u64 \<Rightarrow> nat \<Rightarrow> candidates \<times> 'e \<Rightarrow> candidates \<times> 'e" where
  "add_candidate pf pid record_address name pointer chain_root chain_depth st =
     (case st of ((cs, truncated), e) \<Rightarrow>
        if \<not> plausible_user_pointer chain_root then st
        else let counter = chain_root + kVideoOutCounterOffset
             in if counter \<in> set (map cand_counter cs) then st
                else case read_u32 pf pid counter e of
                       (None, e') \<Rightarrow> ((cs, truncated), e')
                     | (Some first, e') \<Rightarrow>
                         if length cs = kMaxCandidates then ((cs, True), e')
                         else ((cs @ [\<lparr>cand_record = record_address, cand_layout = name,
                                       cand_pointer = pointer, cand_root = chain_root,
                                       cand_counter = counter, cand_chain_depth = chain_depth,
                                       cand_first = first, cand_second = 0, cand_third = 0,
                                       cand_second_ok = False, cand_third_ok = False\<rparr>],
                                truncated), e'))"

definition scan_layout ::
  "'e platform \<Rightarrow> process_id \<Rightarrow> u64 \<Rightarrow> bytes \<Rightarrow> nat \<Rightarrow> probe_layout \<Rightarrow> candidates \<times> 'e \<Rightarrow> candidates \<times> 'e" where
  "scan_layout pf pid address window local lay st =
     (let enabled = get_u32 (local + enabled_offset lay) window;
          pointer = get_u64 (local + pointer_offset lay) window
      in if enabled = 0 \<or> 8 < enabled \<or> \<not> plausible_user_pointer pointer then st
         else case read_u64 pf pid pointer (snd st) of
                (Some chain_root, e') \<Rightarrow>
                  if plausible_user_pointer chain_root
                  then add_candidate pf pid (address + of_nat local) (layout_name lay) pointer chain_root 2 (fst st, e')
                  else (fst st, e')
              | (None, e') \<Rightarrow> (fst st, e'))"

definition scan_offsets :: "nat list" where
  "scan_offsets = map (\<lambda>k. 8 * k) [0..<(kScanReadSize - kLayoutLookahead) div 8 + 1]"

definition scan_window ::
  "'e platform \<Rightarrow> process_id \<Rightarrow> u64 \<Rightarrow> nat \<Rightarrow> candidates \<times> 'e \<Rightarrow> candidates \<times> 'e" where
  "scan_window pf pid module_base offset st =
     (let address = module_base + of_nat offset
      in case read_memory pf pid address kScanReadSize (snd st) of
           (None, e') \<Rightarrow> (fst st, e')
         | (Some window, e') \<Rightarrow>
             fold (\<lambda>local. fold (scan_layout pf pid address window local) kLayouts)
               scan_offsets (fst st, e'))"

definition scan_bases :: "nat list" where
  "scan_bases = map (\<lambda>k. kScanBegin + kScanStep * k) [0..<(kScanEnd - kScanBegin) div kScanStep]"

definition scan_candidates :: "'e platform \<Rightarrow> process_id \<Rightarrow> u64 \<Rightarrow> 'e \<Rightarrow> candidates \<times> 'e" where
  "scan_candidates pf pid module_base e =
     fold (scan_window pf pid module_base) scan_bases (([], False), e)"

subsection \<open>Two observation windows and the choice\<close>

fun second_pass :: "'e platform \<Rightarrow> process_id \<Rightarrow> candidate list \<Rightarrow> 'e \<Rightarrow> candidate list \<times> 'e" where
  "second_pass pf pid [] e = ([], e)"
| "second_pass pf pid (c # cs) e =
     (case read_u32 pf pid (cand_counter c) e of
        (r, e1) \<Rightarrow>
          (case second_pass pf pid cs e1 of
             (cs', e2) \<Rightarrow>
               ((case r of None \<Rightarrow> c\<lparr>cand_second_ok := False\<rparr>
                         | Some v \<Rightarrow> c\<lparr>cand_second := v, cand_second_ok := True\<rparr>) # cs', e2)))"

fun third_pass :: "'e platform \<Rightarrow> process_id \<Rightarrow> candidate list \<Rightarrow> 'e \<Rightarrow> candidate list \<times> 'e" where
  "third_pass pf pid [] e = ([], e)"
| "third_pass pf pid (c # cs) e =
     (if \<not> cand_second_ok c then
        (case third_pass pf pid cs e of (cs', e2) \<Rightarrow> (c # cs', e2))
      else
        (case read_u32 pf pid (cand_counter c) e of
           (r, e1) \<Rightarrow>
             (case third_pass pf pid cs e1 of
                (cs', e2) \<Rightarrow>
                  ((case r of None \<Rightarrow> c\<lparr>cand_third_ok := False\<rparr>
                            | Some v \<Rightarrow> c\<lparr>cand_third := v, cand_third_ok := True\<rparr>) # cs', e2))))"

definition cand_delta1 :: "candidate \<Rightarrow> u32" where
  "cand_delta1 c = cand_second c - cand_first c"

definition cand_delta2 :: "candidate \<Rightarrow> u32" where
  "cand_delta2 c = cand_third c - cand_second c"

definition cand_eligible :: "candidate \<Rightarrow> bool" where
  "cand_eligible c \<longleftrightarrow>
     cand_second_ok c \<and> cand_third_ok c \<and>
     \<not> (cand_delta1 c = 0 \<or> 45 < cand_delta1 c \<or> cand_delta2 c = 0 \<or> 45 < cand_delta2 c) \<and>
     \<not> 4 < unsigned_distance (cand_delta1 c) (cand_delta2 c)"

definition cand_score :: "candidate \<Rightarrow> u32" where
  "cand_score c =
     (let jitter = unsigned_distance (cand_delta1 c) (cand_delta2 c);
          estimated_fps = (cand_delta1 c + cand_delta2 c) * 2;
          rate_distance = min (unsigned_distance estimated_fps 30)
            (min (unsigned_distance estimated_fps 60) (unsigned_distance estimated_fps 120))
      in jitter * 1000 + rate_distance * 10)"

definition select_step :: "candidate \<Rightarrow> candidate option \<times> u32 \<Rightarrow> candidate option \<times> u32" where
  "select_step c sel =
     (if cand_eligible c \<and> cand_score c < snd sel then (Some c, cand_score c) else sel)"

definition select_candidate :: "candidate list \<Rightarrow> candidate option" where
  "select_candidate cs = fst (fold select_step cs (None, 0xFFFFFFFF))"

definition discover_counter :: "'e platform \<Rightarrow> process_id \<Rightarrow> u64 \<Rightarrow> 'e \<Rightarrow> u64 option \<times> 'e" where
  "discover_counter pf pid module_base e =
     (case scan_candidates pf pid module_base e of
        ((cs, truncated), e1) \<Rightarrow>
          if cs = [] then (None, e1)
          else case second_pass pf pid cs (sleep_ms pf 250 e1) of
                 (cs2, e2) \<Rightarrow>
                   (case third_pass pf pid cs2 (sleep_ms pf 250 e2) of
                      (cs3, e3) \<Rightarrow> (map_option cand_counter (select_candidate cs3), e3)))"

definition resolve_counter_address :: "'e platform \<Rightarrow> process_id \<Rightarrow> u64 \<Rightarrow> 'e \<Rightarrow> u64 option \<times> 'e" where
  "resolve_counter_address pf pid module_base e =
     (case resolve_fixed_table pf pid module_base e of
        (Some counter, e1) \<Rightarrow> (Some counter, e1)
      | (None, e1) \<Rightarrow> discover_counter pf pid module_base e1)"

subsection \<open>Attach and sample\<close>

definition attach_now :: "'e platform \<Rightarrow> process_id \<Rightarrow> fps_sampler \<Rightarrow> 'e \<Rightarrow> bool \<times> fps_sampler \<times> 'e" where
  "attach_now pf pid s e =
     (case find_module pf pid ''libSceVideoOut.sprx'' e of
        (None, e1) \<Rightarrow> (False, s, e1)
      | (Some m, e1) \<Rightarrow>
          if mod_base m = 0 then (False, s, e1)
          else let s1 = s\<lparr>fs_pid := pid, fs_module_base := mod_base m\<rparr>
               in case resolve_counter_address pf pid (mod_base m) e1 of
                    (None, e2) \<Rightarrow>
                      (case monotonic_us pf e2 of
                         (now, e3) \<Rightarrow>
                           (False, fs_reset (s1\<lparr>fs_discovery_failed_pid := pid,
                                               fs_discovery_retry_after_us := now + 10000000\<rparr>), e3))
                  | (Some counter, e2) \<Rightarrow>
                      (True, s1\<lparr>fs_counter_address := counter, fs_discovery_failed_pid := -1,
                                fs_discovery_retry_after_us := 0\<rparr>, e2))"

definition fs_attach :: "'e platform \<Rightarrow> process_id \<Rightarrow> fps_sampler \<Rightarrow> 'e \<Rightarrow> bool \<times> fps_sampler \<times> 'e" where
  "fs_attach pf pid s e =
     (case monotonic_us pf e of
        (attempt_time, e1) \<Rightarrow>
          if pid = fs_discovery_failed_pid s \<and> attempt_time < fs_discovery_retry_after_us s
          then (False, s, e1)
          else attach_now pf pid (fs_reset s) e1)"

text \<open>The arithmetic of one measuring window.\<close>

definition fps_tenths :: "u32 \<Rightarrow> u64 \<Rightarrow> u64" where
  "fps_tenths delta elapsed_us = (ucast delta * 10000000) div elapsed_us"

definition integer_fps :: "u64 \<Rightarrow> int option" where
  "integer_fps tenths =
     (if ucast kMaxTenthsFps < tenths then None
      else Some (min (uint ((tenths + 5) div 10)) kMaxDisplayFps))"

definition fs_measure :: "u32 \<Rightarrow> u64 \<Rightarrow> fps_sampler \<Rightarrow> int option \<times> fps_sampler" where
  "fs_measure current_counter now s =
     (if \<not> fs_have_baseline s then
        (None, s\<lparr>fs_have_baseline := True, fs_previous_counter := current_counter,
                 fs_previous_time_us := now\<rparr>)
      else if now \<le> fs_previous_time_us s \<or> kMaxFpsWindowUs < now - fs_previous_time_us s then
        (None, s\<lparr>fs_previous_counter := current_counter, fs_previous_time_us := now,
                 fs_warmup := kWarmupDeltasToDiscard\<rparr>)
      else if now - fs_previous_time_us s < kMinFpsWindowUs then (None, s)
      else
        let tenths = fps_tenths (current_counter - fs_previous_counter s) (now - fs_previous_time_us s);
            s1 = s\<lparr>fs_previous_counter := current_counter, fs_previous_time_us := now\<rparr>
        in if fs_warmup s \<noteq> 0 then (None, s1\<lparr>fs_warmup := fs_warmup s - 1\<rparr>)
           else (integer_fps tenths, s1))"

definition fs_sample :: "'e platform \<Rightarrow> fps_sampler \<Rightarrow> 'e \<Rightarrow> int option \<times> fps_sampler \<times> 'e" where
  "fs_sample pf s e =
     (if \<not> fs_attached s then (None, s, e)
      else case process_alive pf (fs_pid s) e of
             (alive, e1) \<Rightarrow>
               if \<not> alive then (None, fs_reset s, e1)
               else case read_u32 pf (fs_pid s) (fs_counter_address s) e1 of
                      (None, e2) \<Rightarrow> (None, fs_reset s, e2)
                    | (Some current_counter, e2) \<Rightarrow>
                        (case monotonic_us pf e2 of
                           (now, e3) \<Rightarrow>
                             (case fs_measure current_counter now s of (r, s') \<Rightarrow> (r, s', e3))))"

text \<open>Any sequence of calls on a sampler.\<close>

datatype fs_call = FsAttach process_id | FsReset | FsSample

fun fs_step :: "'e platform \<Rightarrow> fs_call \<Rightarrow> fps_sampler \<times> 'e \<Rightarrow> int option \<times> (fps_sampler \<times> 'e)" where
  "fs_step pf (FsAttach pid) (s, e) = (None, snd (fs_attach pf pid s e))"
| "fs_step pf FsReset (s, e) = (None, (fs_reset s, e))"
| "fs_step pf FsSample (s, e) = fs_sample pf s e"

section \<open>Candidates\<close>

text \<open>What every recorded candidate satisfies, whatever the memory of the process holds.\<close>

definition cand_ok :: "candidate \<Rightarrow> bool" where
  "cand_ok c \<longleftrightarrow>
     plausible_user_pointer (cand_root c) \<and> cand_counter c = cand_root c + kVideoOutCounterOffset"

definition cands_ok :: "candidate list \<Rightarrow> bool" where
  "cands_ok cs \<longleftrightarrow>
     length cs \<le> kMaxCandidates \<and> distinct (map cand_counter cs) \<and> list_all cand_ok cs"

lemma counter_no_wrap:
  "plausible_user_pointer p \<Longrightarrow> unat (p + kVideoOutCounterOffset) = unat p + 0x768"
  by (subst unat_add_fits)
    (auto simp: plausible_user_pointer_def kVideoOutCounterOffset_def word_less_nat_alt)

lemma add_candidate_ok:
  "cands_ok (fst (fst st)) \<Longrightarrow>
   cands_ok (fst (fst (add_candidate pf pid address name pointer chain_root depth st)))"
  by (auto simp: add_candidate_def cands_ok_def cand_ok_def Let_def split: prod.splits option.splits)

lemma scan_layout_ok:
  "cands_ok (fst (fst st)) \<Longrightarrow> cands_ok (fst (fst (scan_layout pf pid address window local lay st)))"
  by (auto simp: scan_layout_def Let_def intro!: add_candidate_ok split: prod.splits option.splits)

lemma scan_window_ok:
  "cands_ok (fst (fst st)) \<Longrightarrow> cands_ok (fst (fst (scan_window pf pid module_base offset st)))"
  by (auto simp: scan_window_def Let_def
      intro!: fold_invariant [where P = "\<lambda>st. cands_ok (fst (fst st))" and Q = "\<lambda>_. True"] scan_layout_ok
      split: prod.splits option.splits)

lemma scan_candidates_ok: "cands_ok (fst (fst (scan_candidates pf pid module_base e)))"
  unfolding scan_candidates_def
  by (rule fold_invariant [where P = "\<lambda>st. cands_ok (fst (fst st))" and Q = "\<lambda>_. True"])
    (simp_all add: scan_window_ok, simp add: cands_ok_def)

lemma second_pass_keeps:
  "map cand_root (fst (second_pass pf pid cs e)) = map cand_root cs"
  "map cand_counter (fst (second_pass pf pid cs e)) = map cand_counter cs"
  by (induction pf pid cs e rule: second_pass.induct) (auto split: prod.splits option.splits)

lemma third_pass_keeps:
  "map cand_root (fst (third_pass pf pid cs e)) = map cand_root cs"
  "map cand_counter (fst (third_pass pf pid cs e)) = map cand_counter cs"
  by (induction pf pid cs e rule: third_pass.induct) (auto split: prod.splits option.splits)

lemma list_all_cand_ok:
  "map cand_root cs = map cand_root ds \<Longrightarrow> map cand_counter cs = map cand_counter ds \<Longrightarrow>
   list_all cand_ok cs = list_all cand_ok ds"
  by (induction cs ds rule: list_induct2') (auto simp: cand_ok_def)

section \<open>The choice\<close>

lemma unat_distance: "unat (unsigned_distance a b) \<le> max (unat a) (unat b)"
  by (auto simp: unsigned_distance_def unat_diff_le not_less less_imp_le)

lemma unat_min: "unat (min a b) = min (unat a) (unat (b :: 'a::len word))"
  by (simp add: min_def word_le_nat_alt)

lemma eligible_deltas:
  assumes "cand_eligible c"
  shows "1 \<le> unat (cand_delta1 c)" "unat (cand_delta1 c) \<le> 45"
    "1 \<le> unat (cand_delta2 c)" "unat (cand_delta2 c) \<le> 45"
    "unat (unsigned_distance (cand_delta1 c) (cand_delta2 c)) \<le> 4"
  using assms unat_gt_0 [of "cand_delta1 c"] unat_gt_0 [of "cand_delta2 c"]
  by (auto simp: cand_eligible_def word_less_nat_alt not_less Suc_le_eq)

lemma cand_score_bound:
  assumes "cand_eligible c"
  shows "unat (cand_score c) \<le> 5800"
proof -
  note d = eligible_deltas [OF assms]
  define j where "j = unsigned_distance (cand_delta1 c) (cand_delta2 c)"
  define est where "est = (cand_delta1 c + cand_delta2 c) * 2"
  define rd where "rd = min (unsigned_distance est 30) (min (unsigned_distance est 60) (unsigned_distance est 120))"
  have "unat (cand_delta1 c + cand_delta2 c) = unat (cand_delta1 c) + unat (cand_delta2 c)"
    using d by (intro unat_add_fits) auto
  then have "unat est \<le> 180"
    using d unfolding est_def by (subst unat_mult_fits) auto
  then have rd: "unat rd \<le> 180"
    using unat_distance [of est 120] by (simp add: rd_def unat_min)
  have j: "unat j \<le> 4" using d(5) by (simp add: j_def)
  have "unat (j * 1000) = unat j * 1000" "unat (rd * 10) = unat rd * 10"
    using j rd by (simp_all add: unat_mult_fits)
  moreover from this have "unat (j * 1000 + rd * 10) = unat j * 1000 + unat rd * 10"
    using j rd by (simp add: unat_add_fits)
  moreover have "cand_score c = j * 1000 + rd * 10"
    by (simp only: cand_score_def Let_def j_def est_def rd_def)
  ultimately show ?thesis using j rd by simp
qed

lemma cand_score_less_max: "cand_eligible c \<Longrightarrow> cand_score c < 0xFFFFFFFF"
  using cand_score_bound [of c] by (simp add: word_less_nat_alt)

text \<open>The loop keeps the first candidate of least score seen so far.\<close>

definition first_best :: "candidate list \<Rightarrow> candidate option" where
  "first_best cs =
     (case filter cand_eligible cs of [] \<Rightarrow> None | es \<Rightarrow> Some (arg_min_list cand_score es))"

lemma arg_min_list_snoc:
  "xs \<noteq> [] \<Longrightarrow> arg_min_list (f :: _ \<Rightarrow> 'b::linorder) (xs @ [x]) =
     (if f x < f (arg_min_list f xs) then x else arg_min_list f xs)"
proof (induction f xs rule: arg_min_list.induct)
  case (2 f a b zs)
  have "arg_min_list f ((a # b # zs) @ [x]) =
      (let m = arg_min_list f ((b # zs) @ [x]) in if f a \<le> f m then a else m)"
    by (simp only: append_Cons arg_min_list.simps)
  with 2 show ?case by (auto simp: Let_def)
qed auto

lemma select_fold:
  "fold select_step cs (None, 0xFFFFFFFF) =
     (first_best cs, case first_best cs of None \<Rightarrow> 0xFFFFFFFF | Some c \<Rightarrow> cand_score c)"
proof (induction cs rule: rev_induct)
  case Nil
  then show ?case by (simp add: first_best_def)
next
  case (snoc c cs)
  let ?es = "filter cand_eligible cs"
  show ?case
  proof (cases "cand_eligible c")
    case True
    have "arg_min_list cand_score (?es @ [c]) =
        (if cand_score c < cand_score (arg_min_list cand_score ?es) then c else arg_min_list cand_score ?es)"
      if "?es \<noteq> []"
      using arg_min_list_snoc [OF that] .
    then show ?thesis
      using True snoc cand_score_less_max [OF True]
      by (cases "?es") (auto simp: first_best_def select_step_def split: list.splits)
  next
    case False
    with snoc show ?thesis by (simp add: select_step_def first_best_def)
  qed
qed

lemma select_candidate_eq: "select_candidate cs = first_best cs"
  by (simp add: select_candidate_def select_fold)

lemma first_best_mem: "first_best cs = Some c \<Longrightarrow> c \<in> set cs \<and> cand_eligible c"
proof -
  assume best: "first_best cs = Some c"
  then have ne: "filter cand_eligible cs \<noteq> []" by (auto simp: first_best_def)
  with best have "c = arg_min_list cand_score (filter cand_eligible cs)"
    by (auto simp: first_best_def split: list.splits)
  with arg_min_list_in [OF ne, of cand_score] show ?thesis by auto
qed

lemma discover_counter_cases:
  assumes "discover_counter pf pid base e = (Some a, e')"
  obtains cs e1 cs2 e2 cs3 c where
    "fst (fst (scan_candidates pf pid base e)) = cs" "cands_ok cs"
    "second_pass pf pid cs (sleep_ms pf 250 (snd (scan_candidates pf pid base e))) = (cs2, e2)"
    "third_pass pf pid cs2 (sleep_ms pf 250 e2) = (cs3, e')"
    "first_best cs3 = Some c" "a = cand_counter c" "list_all cand_ok cs3"
proof -
  obtain cs tr e1 where scan: "scan_candidates pf pid base e = ((cs, tr), e1)" by (metis prod.collapse)
  obtain cs2 e2 where p2: "second_pass pf pid cs (sleep_ms pf 250 e1) = (cs2, e2)"
    by (cases "second_pass pf pid cs (sleep_ms pf 250 e1)")
  obtain cs3 e3 where p3: "third_pass pf pid cs2 (sleep_ms pf 250 e2) = (cs3, e3)"
    by (cases "third_pass pf pid cs2 (sleep_ms pf 250 e2)")
  have ok: "cands_ok cs" using scan_candidates_ok [of pf pid base e] scan by simp
  have "map cand_root cs3 = map cand_root cs" "map cand_counter cs3 = map cand_counter cs"
    using second_pass_keeps [of pf pid cs "sleep_ms pf 250 e1"]
      third_pass_keeps [of pf pid cs2 "sleep_ms pf 250 e2"] p2 p3 by simp_all
  from list_all_cand_ok [OF this] ok have "list_all cand_ok cs3" by (simp add: cands_ok_def)
  moreover from assms obtain c where "first_best cs3 = Some c" "a = cand_counter c" "e' = e3"
    by (auto simp: discover_counter_def scan p2 p3 select_candidate_eq split: if_splits)
  ultimately show thesis using that [of cs cs2 e2 cs3 c] ok scan p2 p3 by simp
qed

section \<open>Arithmetic of a window\<close>

lemma unat_ucast_u32: "unat (ucast (w :: u32) :: u64) = unat w"
  using unat_u32 [of w] by (simp add: unsigned_ucast_eq take_bit_nat_eq_self)

lemma unat_fps_tenths: "unat (fps_tenths delta elapsed) = unat delta * 10000000 div unat elapsed"
proof -
  have "unat delta * 10000000 < 18446744073709551616" using unat_u32 [of delta] by simp
  then have "unat (ucast delta * 10000000 :: u64) = unat delta * 10000000"
    by (subst unat_mult_fits) (simp_all add: unat_ucast_u32)
  then show ?thesis by (simp add: fps_tenths_def unat_div)
qed

lemma integer_fps_value:
  "integer_fps tenths = (if 1300 < unat tenths then None else Some (min (int ((unat tenths + 5) div 10)) 120))"
proof -
  have "(ucast kMaxTenthsFps < tenths) = (1300 < unat tenths)"
    by (simp add: kMaxTenthsFps_def word_less_nat_alt)
  moreover have "uint ((tenths + 5) div 10) = int ((unat tenths + 5) div 10)" if "unat tenths \<le> 1300"
  proof -
    have "unat (tenths + 5) = unat tenths + 5" using that by (subst unat_add_fits) auto
    then have "unat ((tenths + 5) div 10) = (unat tenths + 5) div 10" by (simp add: unat_div)
    then have "int (unat ((tenths + 5) div 10)) = int ((unat tenths + 5) div 10)" by (simp only:)
    then show ?thesis by (simp only: of_nat_unat)
  qed
  ultimately show ?thesis by (simp add: integer_fps_def kMaxDisplayFps_def)
qed

text \<open>Rounding to tenths first and to an integer next is rounding once.\<close>

lemma nearest_of_tenths:
  assumes "0 < e"
  shows "int ((d * 10000000 div e + 5) div 10) = \<lfloor>(of_nat d * 1000000 :: rat) / of_nat e + 1 / 2\<rfloor>"
proof -
  have "(d * 10000000 div e + 5) div 10 = (d * 10000000 + 5 * e) div e div 10"
    using assms by simp
  also have "\<dots> = (d * 10000000 + 5 * e) div (e * 10)" by (simp only: div_mult2_eq)
  finally have "int ((d * 10000000 div e + 5) div 10) = \<lfloor>(of_nat (d * 10000000 + 5 * e) :: rat) / of_nat (e * 10)\<rfloor>"
    by (simp only: floor_divide_of_nat_eq)
  also have "(of_nat (d * 10000000 + 5 * e) :: rat) / of_nat (e * 10) = of_nat d * 1000000 / of_nat e + 1 / 2"
    using assms by (simp add: field_simps)
  finally show ?thesis .
qed

lemma tenths_limit:
  assumes "0 < e"
  shows "1300 < d * 10000000 div e \<longleftrightarrow> 1301 / 10 \<le> (of_nat d * 1000000 :: rat) / of_nat e"
proof -
  have "1300 < d * 10000000 div e \<longleftrightarrow> 1301 * e \<le> d * 10000000"
    using less_eq_div_iff_mult_less_eq [OF assms, of 1301 "d * 10000000"] by (simp add: Suc_le_eq [symmetric])
  also have "\<dots> \<longleftrightarrow> (of_nat (1301 * e) :: rat) \<le> of_nat (d * 10000000)" by (simp only: of_nat_le_iff)
  also have "\<dots> \<longleftrightarrow> 1301 / 10 \<le> (of_nat d * 1000000 :: rat) / of_nat e"
    using assms by (simp add: field_simps)
  finally show ?thesis .
qed

definition nearest_rate :: "nat \<Rightarrow> nat \<Rightarrow> int option" where
  "nearest_rate frames elapsed =
     (let q = (of_nat frames * 1000000 :: rat) / of_nat elapsed
      in if 1301 / 10 \<le> q then None else Some (min 120 \<lfloor>q + 1 / 2\<rfloor>))"

lemma integer_fps_nearest:
  assumes "0 < unat elapsed"
  shows "integer_fps (fps_tenths delta elapsed) = nearest_rate (unat delta) (unat elapsed)"
  by (simp add: integer_fps_value unat_fps_tenths nearest_of_tenths [OF assms] tenths_limit [OF assms]
      nearest_rate_def Let_def min.commute del: of_nat_unat)

lemma integer_fps_range: "integer_fps tenths = Some r \<Longrightarrow> 0 \<le> r \<and> r \<le> 120"
  by (auto simp: integer_fps_value split: if_splits)

lemma fs_measure_range: "fst (fs_measure c now s) = Some r \<Longrightarrow> 0 \<le> r \<and> r \<le> 120"
  by (auto simp: fs_measure_def Let_def dest: integer_fps_range split: if_splits)

lemma fs_sample_range: "fst (fs_sample pf s e) = Some r \<Longrightarrow> 0 \<le> r \<and> r \<le> 120"
  by (auto simp: fs_sample_def split: prod.splits option.splits if_splits
      dest: fs_measure_range [OF trans [OF arg_cong [where f = fst]]])

interpretation video_rates: rate_source "(fs_init, e0)" "fs_step pf" "\<lambda>_. True"
  for pf :: "'e platform" and e0 :: 'e
proof
  show "0 \<le> r \<and> r \<le> 120" if "fst (fs_step pf i s) = Some r" for i s r
    using that fs_sample_range [of pf "fst s" "snd s" r] by (cases i; cases s) simp_all
qed simp_all

lemma first_best_least:
  assumes "first_best cs = Some c" "c' \<in> set cs" "cand_eligible c'"
  shows "cand_score c \<le> cand_score c'"
proof -
  have ne: "filter cand_eligible cs \<noteq> []" using assms(2,3) by (auto simp: filter_empty_conv)
  with assms(1) have "c = arg_min_list cand_score (filter cand_eligible cs)"
    by (auto simp: first_best_def split: list.splits)
  then have "cand_score c = Min (cand_score ` set (filter cand_eligible cs))"
    using f_arg_min_list_f [OF ne, of cand_score] by simp
  then show ?thesis using assms(2,3) by simp
qed

section \<open>Properties\<close>

text \<open>
  (C5) Inside a measuring window of an attached and warmed-up sampler, \<open>sample\<close> returns the
  nearest integer to the true rate (frames since the last sample, modulo the 32-bit wrap of the
  counter, per elapsed second), capped at 120, or nothing from 130.1 on: neither the rounding
  through tenths nor the 64-bit product loses anything.
\<close>

theorem fs_sample_nearest:
  assumes "fs_attached s" "fs_have_baseline s" "fs_warmup s = 0"
    and "process_alive pf (fs_pid s) e = (True, e1)"
    and "read_u32 pf (fs_pid s) (fs_counter_address s) e1 = (Some counter, e2)"
    and "monotonic_us pf e2 = (now, e3)"
    and "fs_previous_time_us s \<le> now"
    and "200000 \<le> unat now - unat (fs_previous_time_us s)" "unat now - unat (fs_previous_time_us s) \<le> 3000000"
  shows "fs_sample pf s e =
    (nearest_rate (unat (counter - fs_previous_counter s)) (unat now - unat (fs_previous_time_us s)),
     s\<lparr>fs_previous_counter := counter, fs_previous_time_us := now\<rparr>, e3)"
proof -
  have el: "unat (now - fs_previous_time_us s) = unat now - unat (fs_previous_time_us s)"
    using assms(7) by (rule unat_diff_le)
  then have "\<not> now \<le> fs_previous_time_us s" "\<not> kMaxFpsWindowUs < now - fs_previous_time_us s"
    "\<not> now - fs_previous_time_us s < kMinFpsWindowUs"
    using assms(8,9) by (auto simp: word_le_nat_alt word_less_nat_alt kMaxFpsWindowUs_def kMinFpsWindowUs_def)
  then have "fs_measure counter now s =
      (integer_fps (fps_tenths (counter - fs_previous_counter s) (now - fs_previous_time_us s)),
       s\<lparr>fs_previous_counter := counter, fs_previous_time_us := now\<rparr>)"
    using assms(2,3) by (simp add: fs_measure_def Let_def)
  then show ?thesis
    using assms(1,4-6,8) integer_fps_nearest [of "now - fs_previous_time_us s"] el
    by (simp add: fs_sample_def)
qed

definition example_sampler :: fps_sampler where
  "example_sampler = fs_init\<lparr>fs_pid := 80, fs_counter_address := 0x1768, fs_have_baseline := True,
     fs_warmup := 0, fs_previous_counter := 0xFFFFFFF0, fs_previous_time_us := 1000000\<rparr>"

definition example_console_40 :: example_console where
  "example_console_40 = \<lparr>sc_pid = 80, sc_module = None,
     sc_memory = (\<lambda>t a n. if a = 0x1768 then Some [44, 0, 0, 0] else None),
     sc_sdk = 0, sc_clock_us = 2010000\<rparr>"

theorem fs_sample_nearest_witness:
  "fst (fs_sample example_platform example_sampler example_console_40) = Some 59"
proof -
  have "read_u32 example_platform 80 0x1768 example_console_40 = (Some 44, example_console_40)"
    by (simp add: example_ops read_u32_def example_console_40_def get_u32_def sub_bytes_def)
  moreover have "nearest_rate 60 1010000 = Some 59"
    by (simp add: nearest_rate_def Let_def floor_eq_iff)
  ultimately show ?thesis
    using fs_sample_nearest [of example_sampler example_platform example_console_40 example_console_40
        44 example_console_40 2010000 example_console_40]
    by (simp add: example_sampler_def fs_attached_def fs_init_def)
      (simp add: example_ops example_console_40_def)
qed

text \<open>
  Whatever calls are made in whatever order on whatever console, every rate the VideoOut
  sampler returns is between 0 and 120.
\<close>

theorem fs_rates_displayable:
  "set (run_outputs (fs_step pf) (fs_init, e0) calls) \<subseteq> insert None (Some ` {0..120})"
  by (rule video_rates.reachable_outputs)

text \<open>
  (C27) The candidate loop of discovery implements its specification: it picks the first
  candidate of least score among those whose counter advanced plausibly in both windows, and
  none exactly when there is no such candidate.
\<close>

theorem select_candidate_first_best:
  "select_candidate cs =
     (case filter cand_eligible cs of [] \<Rightarrow> None | es \<Rightarrow> Some (arg_min_list cand_score es))"
  by (simp only: select_candidate_eq first_best_def)

text \<open>
  (C26) A counter found by the scan is 0x768 bytes past a root that looks like a user pointer
  (with no address wrap), was seen to advance by 1 to 45 in each of the two 250 ms windows with
  at most 4 of difference, and no other candidate with that behaviour has a better score.
\<close>

theorem discover_counter_sound:
  assumes "discover_counter pf pid base e = (Some a, e')"
  shows "\<exists>cs2 e2 cs3 c.
      second_pass pf pid (fst (fst (scan_candidates pf pid base e)))
        (sleep_ms pf 250 (snd (scan_candidates pf pid base e))) = (cs2, e2)
    \<and> third_pass pf pid cs2 (sleep_ms pf 250 e2) = (cs3, e')
    \<and> c \<in> set cs3 \<and> cand_counter c = a
    \<and> plausible_user_pointer (cand_root c) \<and> unat a = unat (cand_root c) + 0x768
    \<and> 1 \<le> unat (cand_second c - cand_first c) \<and> unat (cand_second c - cand_first c) \<le> 45
    \<and> 1 \<le> unat (cand_third c - cand_second c) \<and> unat (cand_third c - cand_second c) \<le> 45
    \<and> unat (unsigned_distance (cand_second c - cand_first c) (cand_third c - cand_second c)) \<le> 4
    \<and> (\<forall>c'\<in>set cs3. cand_eligible c' \<longrightarrow> cand_score c \<le> cand_score c')"
proof (rule discover_counter_cases [OF assms])
  fix cs e1 cs2 e2 cs3 c
  assume p: "fst (fst (scan_candidates pf pid base e)) = cs"
    "second_pass pf pid cs (sleep_ms pf 250 (snd (scan_candidates pf pid base e))) = (cs2, e2)"
    "third_pass pf pid cs2 (sleep_ms pf 250 e2) = (cs3, e')"
    and best: "first_best cs3 = Some c" and a: "a = cand_counter c" and ok: "list_all cand_ok cs3"
  have c: "c \<in> set cs3" "cand_eligible c" using first_best_mem [OF best] by auto
  then have "cand_ok c" using ok by (simp add: list_all_iff)
  then have "plausible_user_pointer (cand_root c)" "unat a = unat (cand_root c) + 0x768"
    using counter_no_wrap by (auto simp: cand_ok_def a)
  with p a c eligible_deltas [OF c(2)] first_best_least [OF best] show ?thesis
    unfolding cand_delta1_def cand_delta2_def by blast
qed

text \<open>A memory image with one record, one chain and a counter of 60 frames per second.\<close>

definition chain_record :: bytes where
  "chain_record = [1, 0, 0, 0, 0, 0, 0, 0, 0, 0, 2, 0, 0, 0, 0, 0,
                   0, 0, 0, 0, 0, 0, 0, 0, 0, 0, 0, 0, 0, 0, 0, 0]"

definition chain_memory :: "u64 \<Rightarrow> u64 \<Rightarrow> nat \<Rightarrow> bytes option" where
  "chain_memory clock a n =
     (if a = 0x110000 then Some (chain_record @ replicate 8192 0)
      else if a = 0x20000 then Some [0, 0, 3, 0, 0, 0, 0, 0]
      else if a = 0x30768 then Some [ucast (clock div 16667), 0, 0, 0]
      else None)"

definition chain_console :: example_console where
  "chain_console = \<lparr>sc_pid = 80, sc_module = None, sc_memory = chain_memory, sc_sdk = 0, sc_clock_us = 0\<rparr>"

definition chain_candidate :: candidate where
  "chain_candidate = \<lparr>cand_record = 0x110000, cand_layout = ''e0-p8'', cand_pointer = 0x20000,
     cand_root = 0x30000, cand_counter = 0x30768, cand_chain_depth = 2, cand_first = 0,
     cand_second = 0, cand_third = 0, cand_second_ok = False, cand_third_ok = False\<rparr>"

lemma from_le_replicate_0: "from_le (replicate n 0) = 0"
  by (induction n) auto

lemma get_u32_zeros: "length xs \<le> off \<Longrightarrow> get_u32 off (xs @ replicate n 0) = 0"
  by (simp add: get_u32_def sub_bytes_append_skip) (simp add: sub_bytes_def take_replicate drop_replicate
      from_le_replicate_0 min_def)

lemma scan_layout_zeros:
  "length xs \<le> local \<Longrightarrow> scan_layout pf pid address (xs @ replicate n 0) local lay st = st"
  by (simp add: scan_layout_def Let_def get_u32_zeros)

lemma fold_ident: "(\<And>x. x \<in> set xs \<Longrightarrow> f x s = s) \<Longrightarrow> fold f xs s = s"
  by (induction xs) auto

lemma scan_offsets_split: "scan_offsets = 0 # 8 # map (\<lambda>k. 8 * k) [2..<1025]"
proof -
  have "[0..<n] = 0 # 1 # [2..<n]" if "2 \<le> n" for n
    using that by (simp add: upt_conv_Cons numeral_2_eq_2)
  from this [of 1025] show ?thesis
    by (simp add: scan_offsets_def kScanReadSize_def kScanStep_def kLayoutLookahead_def
        del: upt_rec_numeral)
qed

lemma chain_record_fields:
  "get_u32 0 (chain_record @ ys) = 1" "get_u32 4 (chain_record @ ys) = 0"
  "get_u64 8 (chain_record @ ys) = 0x20000" "get_u64 16 (chain_record @ ys) = 0"
  "get_u32 8 (chain_record @ ys) = 0x20000" "get_u32 12 (chain_record @ ys) = 0"
  by (simp_all add: get_u32_def get_u64_def sub_bytes_def chain_record_def)

lemma chain_tail_zero:
  "16 \<le> local \<Longrightarrow> scan_layout pf pid address (chain_record @ replicate 8192 0) local lay st = st"
proof -
  have "chain_record = take 16 chain_record @ replicate 16 0"
    by (simp add: chain_record_def numeral_eq_Suc)
  then have "chain_record @ replicate 8192 0 = take 16 chain_record @ replicate (16 + 8192) 0"
    by (metis append.assoc replicate_add)
  then show "16 \<le> local \<Longrightarrow> ?thesis"
    using scan_layout_zeros [of "take 16 chain_record" local pf pid address "16 + 8192" lay st] by simp
qed

lemma chain_scan_first:
  "scan_window example_platform 80 0x100000 0x10000 (([], False), chain_console)
   = (([chain_candidate], False), chain_console)"
proof -
  let ?w = "chain_record @ replicate 8192 0"
  let ?f = "\<lambda>local. fold (scan_layout example_platform 80 0x110000 ?w local) kLayouts"
  have rest: "fold ?f (map (\<lambda>k. 8 * k) [2..<1025]) st = st" for st
    by (rule fold_ident, rule fold_ident, rule chain_tail_zero) (auto simp del: upt_rec_numeral)
  have ptr: "plausible_user_pointer 0x20000" "plausible_user_pointer 0x30000"
      "\<not> plausible_user_pointer 0" by code_simp+
  have mem: "read_u64 example_platform 80 0x20000 chain_console = (Some 0x30000, chain_console)"
      "read_u32 example_platform 80 0x30768 chain_console = (Some 0, chain_console)"
      "read_memory example_platform 80 0x110000 0x2020 chain_console = (Some ?w, chain_console)"
    by (simp_all add: example_ops read_u64_def read_u32_def chain_console_def chain_memory_def
        get_u32_def get_u64_def sub_bytes_def)
  have "?f 0 (([], False), chain_console) = (([chain_candidate], False), chain_console)"
    by (simp add: kLayouts_def scan_layout_def chain_record_fields ptr mem add_candidate_def
        kVideoOutCounterOffset_def kMaxCandidates_def chain_candidate_def)
  moreover have "?f 8 st = st" for st
    by (simp add: kLayouts_def scan_layout_def chain_record_fields)
  ultimately show ?thesis
    by (simp add: scan_window_def kScanReadSize_def kScanStep_def kLayoutLookahead_def mem
        scan_offsets_split rest del: upt_rec_numeral)
qed

lemma chain_scan_rest:
  assumes "1 \<le> k" "k < 248"
  shows "scan_window example_platform 80 0x100000 (0x10000 + 0x2000 * k) (x, chain_console) = (x, chain_console)"
proof -
  let ?a = "0x100000 + of_nat (0x10000 + 0x2000 * k) :: u64"
  have "unat (of_nat (0x10000 + 0x2000 * k) :: u64) = 0x10000 + 0x2000 * k"
    using assms by (simp add: unat_of_nat del: of_nat_add of_nat_mult)
  then have "unat ?a = 0x110000 + 0x2000 * k"
    using assms by (subst unat_add_fits) auto
  then have ne: "?a \<noteq> w" if "unat w \<noteq> 0x110000 + 0x2000 * k" for w
    using that by metis
  have "?a \<noteq> 0x110000" "?a \<noteq> 0x20000" "?a \<noteq> 0x30768" using assms(1) by (intro ne; simp)+
  then have "chain_memory 0 ?a kScanReadSize = None" by (simp only: chain_memory_def if_False)
  then have "read_memory example_platform 80 ?a kScanReadSize chain_console = (None, chain_console)"
    by (simp add: example_ops chain_console_def)
  then show ?thesis by (simp only: scan_window_def Let_def snd_conv fst_conv prod.case option.case)
qed

lemma chain_scan:
  "scan_candidates example_platform 80 0x100000 chain_console = (([chain_candidate], False), chain_console)"
proof -
  have "[0..<n] = 0 # [1..<n]" if "1 \<le> n" for n
    using that by (simp add: upt_conv_Cons)
  from this [of 248]
  have bases: "scan_bases = 0x10000 # map (\<lambda>k. 0x10000 + 0x2000 * k) [1..<248]"
    by (simp add: scan_bases_def kScanBegin_def kScanEnd_def kScanStep_def del: upt_rec_numeral)
  have "scan_candidates example_platform 80 0x100000 chain_console =
      fold (scan_window example_platform 80 0x100000) (map (\<lambda>k. 0x10000 + 0x2000 * k) [1..<248])
        (([chain_candidate], False), chain_console)"
    unfolding scan_candidates_def bases fold_simps chain_scan_first ..
  also have "\<dots> = (([chain_candidate], False), chain_console)"
    by (rule fold_ident) (auto simp del: upt_rec_numeral intro!: chain_scan_rest)
  finally show ?thesis .
qed

lemma chain_discovered: "fst (discover_counter example_platform 80 0x100000 chain_console) = Some 0x30768"
  unfolding discover_counter_def chain_scan by code_simp

theorem discover_counter_sound_witness:
  "\<exists>c :: candidate. cand_counter c = 0x30768 \<and> plausible_user_pointer (cand_root c)"
proof -
  have "discover_counter example_platform 80 0x100000 chain_console =
      (Some 0x30768, snd (discover_counter example_platform 80 0x100000 chain_console))"
    using chain_discovered by (metis prod.collapse)
  from discover_counter_sound [OF this] show ?thesis by blast
qed

text \<open>
  Discovery is not repeated at once: after a failed resolution for a process the sampler
  is detached, and for ten seconds every further attach to that process fails after reading
  nothing but the clock.
\<close>

theorem fs_attach_backoff:
  assumes "monotonic_us pf e = (t0, e0)"
    and "pid \<noteq> fs_discovery_failed_pid s \<or> fs_discovery_retry_after_us s \<le> t0"
    and "find_module pf pid ''libSceVideoOut.sprx'' e0 = (Some m, e1)" "mod_base m \<noteq> 0"
    and "resolve_counter_address pf pid (mod_base m) e1 = (None, e2)"
    and "monotonic_us pf e2 = (failed_at, e3)"
    and "monotonic_us pf e4 = (t, e5)" "t < failed_at + 10000000"
  shows "\<exists>s'. fs_attach pf pid s e = (False, s', e3) \<and> \<not> fs_attached s'
    \<and> fs_attach pf pid s' e4 = (False, s', e5)"
  using assms by (auto simp: fs_attach_def attach_now_def fs_reset_def fs_attached_def Let_def not_less)

definition empty_console :: example_console where
  "empty_console = \<lparr>sc_pid = 80, sc_module = Some \<lparr>mod_base = 0x100000, mod_name = []\<rparr>,
     sc_memory = (\<lambda>t a n. None), sc_sdk = 0x09600000, sc_clock_us = 1000\<rparr>"

theorem fs_attach_backoff_witness:
  "\<exists>s'. fs_attach example_platform 80 fs_init empty_console = (False, s', empty_console)
    \<and> fs_attach example_platform 80 s' empty_console = (False, s', empty_console)"
proof -
  have none: "read_memory example_platform 80 a n empty_console = (None, empty_console)" for a n
    by (simp add: example_ops empty_console_def)
  have "scan_window example_platform 80 0x100000 k (x, empty_console) = (x, empty_console)" for k x
    by (simp add: scan_window_def none)
  then have "scan_candidates example_platform 80 0x100000 empty_console = (([], False), empty_console)"
    unfolding scan_candidates_def by (rule fold_ident)
  moreover have "firmware_sdk_version example_platform empty_console = (0x09600000, empty_console)"
    by (simp add: example_ops empty_console_def)
  ultimately have "resolve_counter_address example_platform 80 0x100000 empty_console = (None, empty_console)"
    by (simp add: resolve_counter_address_def resolve_fixed_table_def discover_counter_def none)
  then show ?thesis
    using fs_attach_backoff [of example_platform empty_console 1000 empty_console 80 fs_init
        "\<lparr>mod_base = 0x100000, mod_name = []\<rparr>" empty_console empty_console 1000 empty_console
        empty_console 1000 empty_console]
    by (auto simp: example_ops empty_console_def fs_init_def)
qed

text \<open>
  (C38) When the process is gone or its counter cannot be read, \<open>sample\<close> returns nothing and
  detaches, and later samples return nothing without touching the console.
\<close>

theorem fs_sample_loss:
  assumes "fs_attached s"
    and "process_alive pf (fs_pid s) e = (alive, e1)"
    and "alive \<Longrightarrow> fst (read_u32 pf (fs_pid s) (fs_counter_address s) e1) = None"
  shows "\<exists>s' e'. fs_sample pf s e = (None, s', e') \<and> \<not> fs_attached s' \<and> fs_sample pf s' later = (None, s', later)"
proof -
  obtain r e2 where r: "read_u32 pf (fs_pid s) (fs_counter_address s) e1 = (r, e2)"
    by (cases "read_u32 pf (fs_pid s) (fs_counter_address s) e1")
  have "\<not> fs_attached (fs_reset s)" by (simp add: fs_attached_def fs_reset_def)
  then have "fs_sample pf (fs_reset s) later = (None, fs_reset s, later)" by (simp add: fs_sample_def)
  then show ?thesis
    using assms r \<open>\<not> fs_attached (fs_reset s)\<close> by (cases alive) (simp_all add: fs_sample_def)
qed

theorem fs_sample_loss_witness:
  "\<exists>s' e'. fs_sample example_platform example_sampler empty_console = (None, s', e') \<and> \<not> fs_attached s'"
proof -
  have "fs_attached example_sampler" by code_simp
  moreover have "process_alive example_platform (fs_pid example_sampler) empty_console = (True, empty_console)"
    by (simp add: example_ops empty_console_def example_sampler_def fs_init_def)
  moreover have "fst (read_u32 example_platform (fs_pid example_sampler)
      (fs_counter_address example_sampler) empty_console) = None"
    by (simp add: read_u32_def example_ops empty_console_def)
  ultimately show ?thesis
    using fs_sample_loss [of example_sampler example_platform empty_console True empty_console] by blast
qed

end
