(* ===== verification/Readiness.thy ===== *)
theory Readiness
  imports Prelude
begin

text \<open>
  The contract shared by \<^verbatim>\<open>AutoloadGuard\<close> and \<^verbatim>\<open>SceneGuard\<close>: an
  action on the system shell (installing the renderer, creating the widgets) is taken only
  after a number of positive readiness probes in a row, and success is only believed after a
  positive health check.  A guard is observed through the log of its calls to the back end.
\<close>

datatype gate_event = Probe bool | Health bool | Act bool

text \<open>Positive probes since the last negative probe or the last action.\<close>

fun ready_streak_rev :: "gate_event list \<Rightarrow> nat" where
  "ready_streak_rev [] = 0"
| "ready_streak_rev (Probe b # es) = (if b then Suc (ready_streak_rev es) else 0)"
| "ready_streak_rev (Health b # es) = ready_streak_rev es"
| "ready_streak_rev (Act b # es) = 0"

definition ready_streak :: "gate_event list \<Rightarrow> nat" where
  "ready_streak es = ready_streak_rev (rev es)"

fun last_health_rev :: "gate_event list \<Rightarrow> bool" where
  "last_health_rev [] = False"
| "last_health_rev (Health b # es) = b"
| "last_health_rev (Probe b # es) = last_health_rev es"
| "last_health_rev (Act b # es) = False"

text \<open>The last health check after the last action was positive.\<close>

definition last_health :: "gate_event list \<Rightarrow> bool" where
  "last_health es = last_health_rev (rev es)"

text \<open>Every action comes after at least \<open>n\<close> positive probes in a row.\<close>

fun acts_guarded_rev :: "nat \<Rightarrow> gate_event list \<Rightarrow> bool" where
  "acts_guarded_rev n [] = True"
| "acts_guarded_rev n (x # es) \<longleftrightarrow>
     (case x of Act b \<Rightarrow> n \<le> ready_streak_rev es | _ \<Rightarrow> True) \<and> acts_guarded_rev n es"

definition acts_guarded :: "nat \<Rightarrow> gate_event list \<Rightarrow> bool" where
  "acts_guarded n es = acts_guarded_rev n (rev es)"

lemma ready_streak_simps [simp]:
  "ready_streak [] = 0"
  "ready_streak (es @ [Probe b]) = (if b then Suc (ready_streak es) else 0)"
  "ready_streak (es @ [Health b]) = ready_streak es"
  "ready_streak (es @ [Act b]) = 0"
  by (simp_all add: ready_streak_def)

lemma last_health_simps [simp]:
  "\<not> last_health []"
  "last_health (es @ [Probe b]) = last_health es"
  "last_health (es @ [Health b]) = b"
  "\<not> last_health (es @ [Act b])"
  by (simp_all add: last_health_def)

lemma acts_guarded_Nil [simp]: "acts_guarded n []"
  by (simp add: acts_guarded_def)

lemma acts_guarded_snoc [simp]:
  "acts_guarded n (es @ [x]) \<longleftrightarrow>
     acts_guarded n es \<and> (case x of Act b \<Rightarrow> n \<le> ready_streak es | _ \<Rightarrow> True)"
  by (auto simp: acts_guarded_def ready_streak_def split: gate_event.splits)

lemma acts_guardedD: "acts_guarded n (p @ Act b # q) \<Longrightarrow> n \<le> ready_streak p"
  by (induction q rule: rev_induct) (auto simp flip: append_Cons append_assoc)

section \<open>The locale\<close>

locale readiness_gate =
  fixes needed :: nat
    and start :: 's
    and ok :: "'s \<Rightarrow> bool"
    and streak_of :: "'s \<Rightarrow> nat"
    and believes_ready :: "'s \<Rightarrow> bool"
    and tick :: "'i \<Rightarrow> 's \<times> 'e \<times> gate_event list \<Rightarrow> 's \<times> 'e \<times> gate_event list"
  assumes start_ok: "ok start"
    and start_streak: "streak_of start = 0"
    and start_not_ready: "\<not> believes_ready start"
    and tick_ok: "ok s \<Longrightarrow> tick i (s, e, es) = (s', e', es') \<Longrightarrow> ok s'"
    and tick_streak:
      "ok s \<Longrightarrow> streak_of s \<le> ready_streak es \<or> believes_ready s \<Longrightarrow>
       tick i (s, e, es) = (s', e', es') \<Longrightarrow> streak_of s' \<le> ready_streak es' \<or> believes_ready s'"
    and tick_guarded:
      "ok s \<Longrightarrow> streak_of s \<le> ready_streak es \<or> believes_ready s \<Longrightarrow> acts_guarded needed es \<Longrightarrow>
       tick i (s, e, es) = (s', e', es') \<Longrightarrow> acts_guarded needed es'"
    and tick_ready:
      "ok s \<Longrightarrow> tick i (s, e, es) = (s', e', es') \<Longrightarrow> believes_ready s' \<Longrightarrow> last_health es'"
begin

lemma ticks_invariant:
  assumes "ok s" "streak_of s \<le> ready_streak es \<or> believes_ready s" "acts_guarded needed es"
    and "believes_ready s \<Longrightarrow> last_health es"
    and "fold tick inputs (s, e, es) = (s', e', es')"
  shows "acts_guarded needed es' \<and> (believes_ready s' \<longrightarrow> last_health es')"
  using assms
proof (induction inputs arbitrary: s e es)
  case (Cons i inputs)
  obtain s1 e1 es1 where t: "tick i (s, e, es) = (s1, e1, es1)" by (metis prod_cases3)
  with Cons.prems have rest: "fold tick inputs (s1, e1, es1) = (s', e', es')" by simp
  show ?case
    using Cons.IH [OF tick_ok [OF Cons.prems(1) t] tick_streak [OF Cons.prems(1,2) t]
        tick_guarded [OF Cons.prems(1-3) t] _ rest] tick_ready [OF Cons.prems(1) t] by blast
qed auto

lemma ticks_guarded: "acts_guarded needed (snd (snd (fold tick inputs (start, e, []))))"
  using ticks_invariant [of start "[]" inputs e] start_ok start_streak start_not_ready
  by (metis acts_guarded_Nil le0 prod.collapse)

lemma ticks_ready:
  "believes_ready (fst (fold tick inputs (start, e, []))) \<Longrightarrow> last_health (snd (snd (fold tick inputs (start, e, []))))"
  using ticks_invariant [of start "[]" inputs e] start_ok start_streak start_not_ready
  by (metis acts_guarded_Nil le0 prod.collapse)

end

end
