(* ===== verification/Autoload_Guard.thy ===== *)
theory Autoload_Guard
  imports Readiness
begin

text \<open>
  \<^verbatim>\<open>include/common_fps/autoload_guard.hpp\<close> and \<^verbatim>\<open>src/core/autoload_guard.cpp\<close>:
  the state machine that installs the renderer once the shell is stably ready, and reinstalls
  it when it disappears.  The back end is a record of operations over an environment.
\<close>

section \<open>Definitions\<close>

datatype autoload_state =
  WaitingForRuntime | StabilizingRuntime | WaitingToRetry | InstallingRenderer | AutoloadReady

record autoload_policy =
  ap_consecutive_ready_samples :: nat
  ap_retry_delay_us :: u64

definition default_autoload_policy :: autoload_policy where
  "default_autoload_policy = \<lparr>ap_consecutive_ready_samples = 3, ap_retry_delay_us = 1500000\<rparr>"

record 'e autoload_backend =
  runtime_ready :: "'e \<Rightarrow> bool \<times> 'e"
  renderer_alive :: "'e \<Rightarrow> bool \<times> 'e"
  install_renderer_once :: "'e \<Rightarrow> bool \<times> 'e"

record autoload_guard =
  ag_policy :: autoload_policy
  ag_state :: autoload_state
  ag_consecutive_ready :: nat
  ag_install_attempts :: u32
  ag_retry_not_before_us :: u64

definition AutoloadGuard :: "autoload_policy \<Rightarrow> autoload_guard" where
  "AutoloadGuard policy =
     \<lparr>ag_policy = (if ap_consecutive_ready_samples policy = 0
                   then policy\<lparr>ap_consecutive_ready_samples := 1\<rparr> else policy),
      ag_state = WaitingForRuntime, ag_consecutive_ready = 0, ag_install_attempts = 0,
      ag_retry_not_before_us = 0\<rparr>"

definition ag_ready :: "autoload_guard \<Rightarrow> bool" where
  "ag_ready s \<longleftrightarrow> ag_state s = AutoloadReady"

definition ag_reset :: "autoload_guard \<Rightarrow> autoload_guard" where
  "ag_reset s = s\<lparr>ag_state := WaitingForRuntime, ag_consecutive_ready := 0,
                  ag_install_attempts := 0, ag_retry_not_before_us := 0\<rparr>"

definition schedule_retry :: "u64 \<Rightarrow> autoload_guard \<Rightarrow> autoload_guard" where
  "schedule_retry now s = s\<lparr>ag_state := WaitingToRetry, ag_consecutive_ready := 0,
     ag_retry_not_before_us := now + ap_retry_delay_us (ag_policy s)\<rparr>"

text \<open>The installation attempt at the end of a stable phase.\<close>

definition ag_install :: "'e autoload_backend \<Rightarrow> u64 \<Rightarrow> autoload_guard \<Rightarrow> 'e \<Rightarrow> autoload_guard \<times> 'e" where
  "ag_install b now s0 e =
     (let s = s0\<lparr>ag_state := InstallingRenderer, ag_install_attempts := ag_install_attempts s0 + 1\<rparr>
      in case install_renderer_once b e of
           (installed, e1) \<Rightarrow>
             if \<not> installed then (schedule_retry now s, e1)
             else case renderer_alive b e1 of
                    (alive, e2) \<Rightarrow>
                      if \<not> alive then (schedule_retry now s, e2)
                      else (s\<lparr>ag_state := AutoloadReady,
                              ag_consecutive_ready := ap_consecutive_ready_samples (ag_policy s)\<rparr>, e2))"

definition ag_probe :: "'e autoload_backend \<Rightarrow> u64 \<Rightarrow> autoload_guard \<Rightarrow> 'e \<Rightarrow> autoload_guard \<times> 'e" where
  "ag_probe b now s0 e =
     (case runtime_ready b e of
        (ready, e1) \<Rightarrow>
          if \<not> ready then (s0\<lparr>ag_state := WaitingForRuntime, ag_consecutive_ready := 0\<rparr>, e1)
          else
            let s = s0\<lparr>ag_state := StabilizingRuntime, ag_consecutive_ready := ag_consecutive_ready s0 + 1\<rparr>
            in if ag_consecutive_ready s < ap_consecutive_ready_samples (ag_policy s) then (s, e1)
               else case renderer_alive b e1 of
                      (alive, e2) \<Rightarrow>
                        if alive then (s\<lparr>ag_state := AutoloadReady\<rparr>, e2)
                        else ag_install b now s e2)"

definition ag_tick :: "'e autoload_backend \<Rightarrow> u64 \<Rightarrow> autoload_guard \<Rightarrow> 'e \<Rightarrow> autoload_guard \<times> 'e" where
  "ag_tick b now s e =
     (if ag_state s = AutoloadReady then
        case renderer_alive b e of
          (alive, e1) \<Rightarrow> if alive then (s, e1) else (schedule_retry now s, e1)
      else if ag_state s = WaitingToRetry \<and> now < ag_retry_not_before_us s then (s, e)
      else ag_probe b now s e)"

text \<open>A back end that records the calls made to it, and a tick on it.\<close>

definition logged_backend :: "'e autoload_backend \<Rightarrow> ('e \<times> gate_event list) autoload_backend" where
  "logged_backend b =
     \<lparr>runtime_ready = (\<lambda>(e, es). case runtime_ready b e of (r, e') \<Rightarrow> (r, (e', es @ [Probe r]))),
      renderer_alive = (\<lambda>(e, es). case renderer_alive b e of (r, e') \<Rightarrow> (r, (e', es @ [Health r]))),
      install_renderer_once =
        (\<lambda>(e, es). case install_renderer_once b e of (r, e') \<Rightarrow> (r, (e', es @ [Act r])))\<rparr>"

definition ag_logged_tick ::
  "'e autoload_backend \<Rightarrow> u64 \<Rightarrow> autoload_guard \<times> 'e \<times> gate_event list \<Rightarrow> autoload_guard \<times> 'e \<times> gate_event list" where
  "ag_logged_tick b now st = ag_tick (logged_backend b) now (fst st) (snd st)"

section \<open>The readiness contract\<close>

definition ag_needed :: "autoload_policy \<Rightarrow> nat" where
  "ag_needed policy = max 1 (ap_consecutive_ready_samples policy)"

lemma ag_tick_policy: "ag_policy (fst (ag_tick b now s e)) = ag_policy s"
  by (simp add: ag_tick_def ag_probe_def ag_install_def schedule_retry_def Let_def split: prod.splits)

lemma logged_ops [simp]:
  "runtime_ready (logged_backend b) (e, es) =
     (fst (runtime_ready b e), snd (runtime_ready b e), es @ [Probe (fst (runtime_ready b e))])"
  "renderer_alive (logged_backend b) (e, es) =
     (fst (renderer_alive b e), snd (renderer_alive b e), es @ [Health (fst (renderer_alive b e))])"
  "install_renderer_once (logged_backend b) (e, es) =
     (fst (install_renderer_once b e), snd (install_renderer_once b e), es @ [Act (fst (install_renderer_once b e))])"
  by (simp_all add: logged_backend_def case_prod_beta)

lemmas ag_defs = ag_logged_tick_def ag_tick_def ag_probe_def ag_install_def schedule_retry_def Let_def

definition ag_ok :: "autoload_policy \<Rightarrow> autoload_guard \<Rightarrow> bool" where
  "ag_ok policy s \<longleftrightarrow> ap_consecutive_ready_samples (ag_policy s) = ag_needed policy"

interpretation autoload: readiness_gate "ag_needed policy" "AutoloadGuard policy" "ag_ok policy"
    ag_consecutive_ready ag_ready "ag_logged_tick b"
  for policy and b :: "'e autoload_backend"
proof
  show "ag_ok policy (AutoloadGuard policy)"
    by (auto simp: ag_ok_def AutoloadGuard_def ag_needed_def max_def)
  show "ag_ok policy s'" if "ag_ok policy s" "ag_logged_tick b i (s, e, es) = (s', e', es')" for i s e es s' e' es'
    using that ag_tick_policy [of "logged_backend b" i s "(e, es)"]
    by (simp add: ag_ok_def ag_logged_tick_def)
  show "ag_consecutive_ready s' \<le> ready_streak es' \<or> ag_ready s'"
    if "ag_ok policy s" "ag_consecutive_ready s \<le> ready_streak es \<or> ag_ready s"
      "ag_logged_tick b i (s, e, es) = (s', e', es')" for i s e es s' e' es'
    using that by (auto simp: ag_defs ag_ready_def simp del: append_assoc split: if_splits)
  show "acts_guarded (ag_needed policy) es'"
    if "ag_ok policy s" "ag_consecutive_ready s \<le> ready_streak es \<or> ag_ready s"
      "acts_guarded (ag_needed policy) es" "ag_logged_tick b i (s, e, es) = (s', e', es')"
    for i s e es s' e' es'
    using that by (auto simp: ag_defs ag_ready_def ag_ok_def simp del: append_assoc split: if_splits)
  show "last_health es'"
    if "ag_ok policy s" "ag_logged_tick b i (s, e, es) = (s', e', es')" "ag_ready s'"
    for i s e es s' e' es'
    using that by (auto simp: ag_defs ag_ready_def simp del: append_assoc split: if_splits)
qed (simp_all add: AutoloadGuard_def ag_ready_def)

section \<open>Properties\<close>

text \<open>
  (C36) Whatever the shell answers and whenever the guard is polled, the renderer is never
  installed before the required number of readiness probes in a row were positive, and the
  guard never reports a ready renderer whose last health check was not positive.
\<close>

theorem autoload_installs_when_stable:
  "acts_guarded (max 1 (ap_consecutive_ready_samples policy))
     (snd (snd (fold (ag_logged_tick b) instants (AutoloadGuard policy, e, []))))
   \<and> (ag_ready (fst (fold (ag_logged_tick b) instants (AutoloadGuard policy, e, [])))
      \<longrightarrow> last_health (snd (snd (fold (ag_logged_tick b) instants (AutoloadGuard policy, e, [])))))"
  using autoload.ticks_guarded [where policy = policy and b = b and inputs = instants and e = e]
    autoload.ticks_ready [where policy = policy and b = b and inputs = instants and e = e]
  by (auto simp: ag_needed_def)

text \<open>
  While a retry is pending the guard leaves the shell alone: after a failed or lost
  installation at time \<open>now\<close> every tick before the retry time changes neither the guard nor
  the environment.
\<close>

theorem autoload_backs_off:
  assumes "ag_state s = WaitingToRetry \<longrightarrow> ag_retry_not_before_us s \<le> now"
    and "ag_tick b now s e = (s', e')" "ag_state s' = WaitingToRetry"
    and "later < now + ap_retry_delay_us (ag_policy s)"
  shows "ag_tick b later s' any = (s', any)"
proof -
  have "ag_retry_not_before_us s' = now + ap_retry_delay_us (ag_policy s)"
    using assms(1-3)
    by (auto simp: ag_tick_def ag_probe_def ag_install_def schedule_retry_def Let_def
        split: prod.splits if_splits)
  with assms(3,4) show ?thesis by (simp add: ag_tick_def)
qed

lemma autoload_stabilizes:
  assumes ready: "\<And>e. fst (runtime_ready b e)"
    and inst: "\<And>e. fst (install_renderer_once b e)"
    and alive: "\<And>e. fst (renderer_alive b (snd (install_renderer_once b e)))"
    and st: "ag_state s = StabilizingRuntime \<or> ag_state s = WaitingForRuntime"
    and cnt: "ag_consecutive_ready s + length instants = ap_consecutive_ready_samples (ag_policy s)"
    and "instants \<noteq> []"
  shows "ag_ready (fst (fold (\<lambda>now (s, e). ag_tick b now s e) instants (s, e)))"
  using st cnt \<open>instants \<noteq> []\<close>
proof (induction instants arbitrary: s e)
  case (Cons t ts)
  obtain s1 e1 where t1: "ag_tick b t s e = (s1, e1)" by (cases "ag_tick b t s e")
  show ?case
  proof (cases "ts = []")
    case True
    then have "ag_ready s1"
      using t1 Cons.prems ready inst alive
      by (auto simp: ag_tick_def ag_probe_def ag_install_def Let_def ag_ready_def case_prod_beta split: if_splits)
    with True t1 show ?thesis by simp
  next
    case False
    then have "ag_consecutive_ready s + 1 < ap_consecutive_ready_samples (ag_policy s)"
      using Cons.prems(2) by (cases ts) simp_all
    then have "s1 = s\<lparr>ag_state := StabilizingRuntime, ag_consecutive_ready := ag_consecutive_ready s + 1\<rparr>"
      using t1 Cons.prems ready by (auto simp: ag_tick_def ag_probe_def Let_def case_prod_beta)
    with Cons.IH [of s1 e1] Cons.prems False t1 show ?thesis by simp
  qed
qed simp

text \<open>
  With a shell that is ready and an installation that works, the guard reports ready
  after exactly the required number of ticks, whatever their instants.
\<close>

theorem autoload_reaches_ready:
  assumes "\<And>e. fst (runtime_ready b e)" "\<And>e. fst (install_renderer_once b e)"
    and "\<And>e. fst (renderer_alive b (snd (install_renderer_once b e)))"
    and "length instants = max 1 (ap_consecutive_ready_samples policy)"
  shows "ag_ready (fst (fold (\<lambda>now (s, e). ag_tick b now s e) instants (AutoloadGuard policy, e)))"
  using assms by (intro autoload_stabilizes) (auto simp: AutoloadGuard_def)

section \<open>Witnesses\<close>

definition healthy_backend :: "bool autoload_backend" where
  "healthy_backend =
     \<lparr>runtime_ready = (\<lambda>e. (True, e)), renderer_alive = (\<lambda>e. (e, e)), install_renderer_once = (\<lambda>e. (True, True))\<rparr>"

theorem autoload_reaches_ready_witness:
  "ag_ready (fst (fold (\<lambda>now (s, e). ag_tick healthy_backend now s e) [0, 250000, 500000]
     (AutoloadGuard default_autoload_policy, False)))"
  by (rule autoload_reaches_ready) (simp_all add: healthy_backend_def default_autoload_policy_def)

theorem autoload_installs_when_stable_witness:
  "last_health (snd (snd (fold (ag_logged_tick healthy_backend) [0, 250000, 500000]
     (AutoloadGuard default_autoload_policy, False, []))))
   \<and> snd (snd (fold (ag_logged_tick healthy_backend) [0, 250000, 500000]
     (AutoloadGuard default_autoload_policy, False, [])))
     = [Probe True, Probe True, Probe True, Health False, Act True, Health True]"
proof
  have "ag_ready (fst (fold (ag_logged_tick healthy_backend) [0, 250000, 500000]
     (AutoloadGuard default_autoload_policy, False, [])))" by code_simp
  then show "last_health (snd (snd (fold (ag_logged_tick healthy_backend) [0, 250000, 500000]
     (AutoloadGuard default_autoload_policy, False, []))))"
    using autoload_installs_when_stable
      [of default_autoload_policy healthy_backend "[0, 250000, 500000]" False] by blast
  show "snd (snd (fold (ag_logged_tick healthy_backend) [0, 250000, 500000]
     (AutoloadGuard default_autoload_policy, False, [])))
     = [Probe True, Probe True, Probe True, Health False, Act True, Health True]" by code_simp
qed

definition failing_backend :: "unit autoload_backend" where
  "failing_backend =
     \<lparr>runtime_ready = (\<lambda>e. (True, e)), renderer_alive = (\<lambda>e. (False, e)), install_renderer_once = (\<lambda>e. (False, e))\<rparr>"

theorem autoload_backs_off_witness:
  "ag_tick failing_backend 1600000 (fst (ag_tick failing_backend 500000
      (AutoloadGuard (default_autoload_policy\<lparr>ap_consecutive_ready_samples := 1\<rparr>)) ())) ()
   = (fst (ag_tick failing_backend 500000
      (AutoloadGuard (default_autoload_policy\<lparr>ap_consecutive_ready_samples := 1\<rparr>)) ()), ())"
  by (rule autoload_backs_off [where now = 500000 and e = "()" and e' = "()"
        and s = "AutoloadGuard (default_autoload_policy\<lparr>ap_consecutive_ready_samples := 1\<rparr>)"])
    (simp_all add: failing_backend_def default_autoload_policy_def AutoloadGuard_def ag_tick_def
      ag_probe_def ag_install_def schedule_retry_def)

end
