(* ===== verification/Scene_Guard.thy ===== *)
theory Scene_Guard
  imports Readiness
begin

text \<open>
  \<^verbatim>\<open>include/common_fps/scene_guard.hpp\<close> and \<^verbatim>\<open>src/core/scene_guard.cpp\<close>:
  the state machine that creates the overlay widgets in a stable scene and recreates them when
  the shell rebuilds its scene.  It keeps the same contract as the autoload guard.
\<close>

section \<open>Definitions\<close>

datatype scene_state = WaitingForScene | StabilizingScene | CreatingWidgets | SceneReady

record 'e scene_backend =
  scene_ready :: "'e \<Rightarrow> bool \<times> 'e"
  widgets_alive :: "'e \<Rightarrow> bool \<times> 'e"
  create_widgets_once :: "'e \<Rightarrow> bool \<times> 'e"

record scene_guard =
  sg_needed :: nat
  sg_state :: scene_state
  sg_consecutive_ready :: nat

definition default_scene_samples :: nat where
  "default_scene_samples = 2"

definition SceneGuard :: "nat \<Rightarrow> scene_guard" where
  "SceneGuard consecutive_ready_samples =
     \<lparr>sg_needed = (if consecutive_ready_samples = 0 then 1 else consecutive_ready_samples),
      sg_state = WaitingForScene, sg_consecutive_ready = 0\<rparr>"

definition sg_ready :: "scene_guard \<Rightarrow> bool" where
  "sg_ready s \<longleftrightarrow> sg_state s = SceneReady"

definition sg_reset :: "scene_guard \<Rightarrow> scene_guard" where
  "sg_reset s = s\<lparr>sg_state := WaitingForScene, sg_consecutive_ready := 0\<rparr>"

definition sg_create :: "'e scene_backend \<Rightarrow> scene_guard \<Rightarrow> 'e \<Rightarrow> scene_guard \<times> 'e" where
  "sg_create b s0 e =
     (let s = s0\<lparr>sg_state := CreatingWidgets\<rparr>
      in case create_widgets_once b e of
           (created, e1) \<Rightarrow>
             if \<not> created then (s\<lparr>sg_state := WaitingForScene, sg_consecutive_ready := 0\<rparr>, e1)
             else case widgets_alive b e1 of
                    (alive, e2) \<Rightarrow>
                      if \<not> alive then (s\<lparr>sg_state := WaitingForScene, sg_consecutive_ready := 0\<rparr>, e2)
                      else (s\<lparr>sg_state := SceneReady\<rparr>, e2))"

definition sg_probe :: "'e scene_backend \<Rightarrow> scene_guard \<Rightarrow> 'e \<Rightarrow> scene_guard \<times> 'e" where
  "sg_probe b s0 e =
     (case scene_ready b e of
        (ready, e1) \<Rightarrow>
          if \<not> ready then (s0\<lparr>sg_state := WaitingForScene, sg_consecutive_ready := 0\<rparr>, e1)
          else
            let s = s0\<lparr>sg_state := StabilizingScene, sg_consecutive_ready := sg_consecutive_ready s0 + 1\<rparr>
            in if sg_consecutive_ready s < sg_needed s then (s, e1)
               else case widgets_alive b e1 of
                      (alive, e2) \<Rightarrow>
                        if alive then (s\<lparr>sg_state := SceneReady\<rparr>, e2) else sg_create b s e2)"

definition sg_tick :: "'e scene_backend \<Rightarrow> scene_guard \<Rightarrow> 'e \<Rightarrow> scene_guard \<times> 'e" where
  "sg_tick b s e =
     (if sg_state s = SceneReady then
        case widgets_alive b e of
          (alive, e1) \<Rightarrow> if alive then (s, e1) else sg_probe b (sg_reset s) e1
      else sg_probe b s e)"

definition logged_scene :: "'e scene_backend \<Rightarrow> ('e \<times> gate_event list) scene_backend" where
  "logged_scene b =
     \<lparr>scene_ready = (\<lambda>(e, es). case scene_ready b e of (r, e') \<Rightarrow> (r, (e', es @ [Probe r]))),
      widgets_alive = (\<lambda>(e, es). case widgets_alive b e of (r, e') \<Rightarrow> (r, (e', es @ [Health r]))),
      create_widgets_once =
        (\<lambda>(e, es). case create_widgets_once b e of (r, e') \<Rightarrow> (r, (e', es @ [Act r])))\<rparr>"

definition sg_logged_tick ::
  "'e scene_backend \<Rightarrow> unit \<Rightarrow> scene_guard \<times> 'e \<times> gate_event list \<Rightarrow> scene_guard \<times> 'e \<times> gate_event list" where
  "sg_logged_tick b u st = sg_tick (logged_scene b) (fst st) (snd st)"

section \<open>The readiness contract\<close>

lemma logged_scene_ops [simp]:
  "scene_ready (logged_scene b) (e, es) =
     (fst (scene_ready b e), snd (scene_ready b e), es @ [Probe (fst (scene_ready b e))])"
  "widgets_alive (logged_scene b) (e, es) =
     (fst (widgets_alive b e), snd (widgets_alive b e), es @ [Health (fst (widgets_alive b e))])"
  "create_widgets_once (logged_scene b) (e, es) =
     (fst (create_widgets_once b e), snd (create_widgets_once b e), es @ [Act (fst (create_widgets_once b e))])"
  by (simp_all add: logged_scene_def case_prod_beta)

lemmas sg_defs = sg_logged_tick_def sg_tick_def sg_probe_def sg_create_def sg_reset_def Let_def

interpretation scene: readiness_gate "max 1 n" "SceneGuard n" "\<lambda>s. sg_needed s = max 1 n"
    sg_consecutive_ready sg_ready "sg_logged_tick b"
  for n and b :: "'e scene_backend"
proof
  show "sg_needed s' = max 1 n"
    if "sg_needed s = max 1 n" "sg_logged_tick b i (s, e, es) = (s', e', es')" for i s e es s' e' es'
    using that by (auto simp: sg_defs split: if_splits)
  show "sg_consecutive_ready s' \<le> ready_streak es' \<or> sg_ready s'"
    if "sg_needed s = max 1 n" "sg_consecutive_ready s \<le> ready_streak es \<or> sg_ready s"
      "sg_logged_tick b i (s, e, es) = (s', e', es')" for i s e es s' e' es'
    using that by (auto simp: sg_defs sg_ready_def simp del: append_assoc split: if_splits)
  show "acts_guarded (max 1 n) es'"
    if "sg_needed s = max 1 n" "sg_consecutive_ready s \<le> ready_streak es \<or> sg_ready s"
      "acts_guarded (max 1 n) es" "sg_logged_tick b i (s, e, es) = (s', e', es')"
    for i s e es s' e' es'
    using that by (auto simp: sg_defs sg_ready_def simp del: append_assoc split: if_splits)
  show "last_health es'"
    if "sg_needed s = max 1 n" "sg_logged_tick b i (s, e, es) = (s', e', es')" "sg_ready s'"
    for i s e es s' e' es'
    using that by (auto simp: sg_defs sg_ready_def simp del: append_assoc split: if_splits)
qed (simp_all add: SceneGuard_def sg_ready_def)

section \<open>Properties\<close>

text \<open>
  Whatever the shell answers, widgets are never created before the required number of
  scene probes in a row were positive, and the guard is only ready when the last health check of
  the widgets was positive.
\<close>

theorem scene_creates_when_stable:
  "acts_guarded (max 1 n) (snd (snd (fold (sg_logged_tick b) polls (SceneGuard n, e, []))))
   \<and> (sg_ready (fst (fold (sg_logged_tick b) polls (SceneGuard n, e, [])))
      \<longrightarrow> last_health (snd (snd (fold (sg_logged_tick b) polls (SceneGuard n, e, [])))))"
  using scene.ticks_guarded [where n = n and b = b and inputs = polls and e = e]
    scene.ticks_ready [where n = n and b = b and inputs = polls and e = e] by simp

text \<open>A scene whose widgets die once, between the second and the third poll.\<close>

definition flaky_scene :: "nat scene_backend" where
  "flaky_scene =
     \<lparr>scene_ready = (\<lambda>k. (True, k)), widgets_alive = (\<lambda>k. (k = 1 \<or> 3 \<le> k, k + 1)),
      create_widgets_once = (\<lambda>k. (True, k))\<rparr>"

theorem scene_creates_when_stable_witness:
  "last_health (snd (snd (fold (sg_logged_tick flaky_scene) (replicate 4 ())
     (SceneGuard default_scene_samples, 0, []))))
   \<and> snd (snd (fold (sg_logged_tick flaky_scene) (replicate 4 ())
     (SceneGuard default_scene_samples, 0, [])))
     = [Probe True, Probe True, Health False, Act True, Health True,
        Health False, Probe True, Probe True, Health True]"
proof
  have "sg_ready (fst (fold (sg_logged_tick flaky_scene) (replicate 4 ())
     (SceneGuard default_scene_samples, 0, [])))" by code_simp
  then show "last_health (snd (snd (fold (sg_logged_tick flaky_scene) (replicate 4 ())
     (SceneGuard default_scene_samples, 0, []))))"
    using scene_creates_when_stable [of default_scene_samples flaky_scene "replicate 4 ()" 0] by blast
  show "snd (snd (fold (sg_logged_tick flaky_scene) (replicate 4 ())
     (SceneGuard default_scene_samples, 0, [])))
     = [Probe True, Probe True, Health False, Act True, Health True,
        Health False, Probe True, Probe True, Health True]" by code_simp
qed

end
