(* ===== verification/Lifecycle.thy ===== *)
theory Lifecycle
  imports Fps_Sampler Layout
begin

text \<open>
  \<^verbatim>\<open>src/core/lifecycle.cpp\<close> and \<^verbatim>\<open>src/core/app.cpp\<close>: one frame per tick, from
  the sampler's answer and the configuration.  The endless loop of \<^verbatim>\<open>run\<close> is observed
  through its first \<open>n\<close> iterations.
\<close>

section \<open>Definitions\<close>

record lifecycle =
  lc_sampler :: fps_sampler
  lc_config :: overlay_config

definition lc_new :: "overlay_config \<Rightarrow> lifecycle" where
  "lc_new cfg = \<lparr>lc_sampler = fs_init, lc_config = cfg\<rparr>"

definition lc_set_config :: "overlay_config \<Rightarrow> lifecycle \<Rightarrow> lifecycle" where
  "lc_set_config cfg s = s\<lparr>lc_config := cfg\<rparr>"

definition lc_reset :: "lifecycle \<Rightarrow> lifecycle" where
  "lc_reset s = s\<lparr>lc_sampler := fs_reset (lc_sampler s)\<rparr>"

definition loading_frame :: "overlay_config \<Rightarrow> overlay_frame" where
  "loading_frame cfg = default_frame
     \<lparr>frame_visible := True, frame_loading := True, frame_config := cfg, frame_anchor := compute_anchor cfg\<rparr>"

text \<open>Attach when detached: \<open>False\<close> when there is no game or it cannot be attached.\<close>

definition lc_ensure_attached :: "'e platform \<Rightarrow> lifecycle \<Rightarrow> 'e \<Rightarrow> bool \<times> lifecycle \<times> 'e" where
  "lc_ensure_attached pf s e =
     (if fs_attached (lc_sampler s) then (True, s, e)
      else case find_game_process pf e of
             (None, e1) \<Rightarrow> (False, s, e1)
           | (Some pid, e1) \<Rightarrow>
               (case fs_attach pf pid (lc_sampler s) e1 of
                  (ok, sampler, e2) \<Rightarrow> (ok, s\<lparr>lc_sampler := sampler\<rparr>, e2)))"

definition lc_tick :: "'e platform \<Rightarrow> lifecycle \<Rightarrow> 'e \<Rightarrow> overlay_frame \<times> lifecycle \<times> 'e" where
  "lc_tick pf s e =
     (let frame = loading_frame (lc_config s)
      in case lc_ensure_attached pf s e of
           (False, s1, e1) \<Rightarrow> (frame, s1, e1)
         | (True, s1, e1) \<Rightarrow>
             (case fs_sample pf (lc_sampler s1) e1 of
                (None, sampler, e2) \<Rightarrow> (frame, s1\<lparr>lc_sampler := sampler\<rparr>, e2)
              | (Some v, sampler, e2) \<Rightarrow>
                  (frame\<lparr>frame_loading := False, frame_fps := v\<rparr>, s1\<lparr>lc_sampler := sampler\<rparr>, e2)))"

text \<open>The renderer of the application, and its loop.\<close>

record 'e renderer =
  rd_initialize :: "'e \<Rightarrow> bool \<times> 'e"
  rd_render :: "overlay_frame \<Rightarrow> 'e \<Rightarrow> 'e"

definition app_iteration ::
  "'e platform \<Rightarrow> 'e renderer \<Rightarrow> overlay_frame list \<times> lifecycle \<times> 'e \<Rightarrow> overlay_frame list \<times> lifecycle \<times> 'e" where
  "app_iteration pf rd st =
     (case st of (frames, s, e) \<Rightarrow>
        case lc_tick pf s e of
          (frame, s1, e1) \<Rightarrow> (frames @ [frame], s1, sleep_ms pf 1000 (rd_render rd frame e1)))"

text \<open>The frames of the first \<open>n\<close> iterations, or \<open>None\<close> for the early return -1.\<close>

definition run_app ::
  "'e platform \<Rightarrow> 'e renderer \<Rightarrow> overlay_config \<Rightarrow> nat \<Rightarrow> 'e \<Rightarrow> overlay_frame list option" where
  "run_app pf rd cfg n e =
     (case rd_initialize rd e of
        (False, e1) \<Rightarrow> None
      | (True, e1) \<Rightarrow> Some (fst ((app_iteration pf rd ^^ n) ([], lc_new cfg, e1))))"

section \<open>Frames\<close>

text \<open>What every frame handed to the renderer satisfies.\<close>

definition frame_ok :: "overlay_config \<Rightarrow> overlay_frame \<Rightarrow> bool" where
  "frame_ok cfg f \<longleftrightarrow>
     frame_visible f \<and> frame_config f = cfg \<and> frame_anchor f = compute_anchor cfg \<and>
     0 \<le> frame_fps f \<and> frame_fps f \<le> 120 \<and> (frame_loading f \<longrightarrow> frame_fps f = 0)"

lemma loading_frame_ok: "frame_ok cfg (loading_frame cfg)"
  by (simp add: frame_ok_def loading_frame_def default_frame_def)

lemma lc_ensure_config: "lc_config (fst (snd (lc_ensure_attached pf s e))) = lc_config s"
  by (auto simp: lc_ensure_attached_def split: prod.splits option.splits)

lemma lc_tick_ok:
  assumes "lc_tick pf s e = (f, s', e')"
  shows "frame_ok (lc_config s) f \<and> lc_config s' = lc_config s"
proof -
  obtain ok s1 e1 where a: "lc_ensure_attached pf s e = (ok, s1, e1)" by (metis prod_cases3)
  obtain r sm e2 where r: "fs_sample pf (lc_sampler s1) e1 = (r, sm, e2)" by (metis prod_cases3)
  have cfg: "lc_config s1 = lc_config s" using lc_ensure_config [of pf s e] a by simp
  show ?thesis
  proof (cases "ok \<and> r \<noteq> None")
    case True
    then obtain v where v: "r = Some v" by auto
    then have "0 \<le> v \<and> v \<le> 120" using fs_sample_range [of pf "lc_sampler s1" e1 v] r by simp
    then show ?thesis
      using assms a r v True cfg loading_frame_ok [of "lc_config s"]
      by (auto simp: lc_tick_def Let_def frame_ok_def)
  next
    case False
    then show ?thesis
      using assms a r cfg loading_frame_ok [of "lc_config s"]
      by (auto simp: lc_tick_def Let_def split: bool.splits option.splits)
  qed
qed

lemma app_iteration_ok:
  assumes "list_all (frame_ok cfg) frames" "lc_config s = cfg"
    and "app_iteration pf rd (frames, s, e) = (frames', s', e')"
  shows "list_all (frame_ok cfg) frames' \<and> lc_config s' = cfg \<and> length frames' = Suc (length frames)"
  using assms lc_tick_ok [of pf s e] by (auto simp: app_iteration_def split: prod.splits)

lemma app_run_ok:
  assumes "(app_iteration pf rd ^^ n) ([], lc_new cfg, e) = (frames, s, e')"
  shows "list_all (frame_ok cfg) frames \<and> lc_config s = cfg \<and> length frames = n"
  using assms
proof (induction n arbitrary: frames s e')
  case (Suc n)
  obtain fs1 s1 e1 where p: "(app_iteration pf rd ^^ n) ([], lc_new cfg, e) = (fs1, s1, e1)"
    by (metis prod_cases3)
  from Suc.IH [OF p] Suc.prems p app_iteration_ok [of cfg fs1 s1 pf rd e1 frames s e']
  show ?case by simp
qed (auto simp: lc_new_def)

section \<open>Properties\<close>

text \<open>
  When the renderer initialises, every iteration of the application hands it exactly one
  frame: always visible, always with the configured style at an anchor recomputed from the
  configuration (never accumulated), with a rate between 0 and 120 and no rate while loading.
\<close>

theorem app_frames_ok:
  assumes "rd_initialize rd e = (True, e1)"
  shows "\<exists>frames. run_app pf rd cfg n e = Some frames \<and> length frames = n
    \<and> list_all (\<lambda>f. frame_visible f \<and> frame_config f = cfg \<and> frame_anchor f = compute_anchor cfg
        \<and> 0 \<le> frame_fps f \<and> frame_fps f \<le> 120 \<and> (frame_loading f \<longrightarrow> frame_fps f = 0)) frames"
proof -
  obtain frames s e2 where r: "(app_iteration pf rd ^^ n) ([], lc_new cfg, e1) = (frames, s, e2)"
    by (metis prod_cases3)
  with app_run_ok [OF this] assms show ?thesis
    by (simp add: run_app_def frame_ok_def [abs_def])
qed

definition example_renderer :: "'e renderer" where
  "example_renderer = \<lparr>rd_initialize = (\<lambda>e. (True, e)), rd_render = (\<lambda>f e. e)\<rparr>"

theorem app_frames_ok_witness:
  "\<exists>frames. run_app example_platform example_renderer default_config 5 empty_console = Some frames
     \<and> length frames = 5"
  using app_frames_ok [of example_renderer empty_console empty_console example_platform default_config 5]
  by (auto simp: example_renderer_def)

end
