(* ===== verification/Codec.thy ===== *)
theory Codec
  imports Prelude
begin

text \<open>
  The contract of a packed structure that is copied to and from bytes: the wire packets
  between controller and renderer and the files of the hook protocol are instances of it.
\<close>

section \<open>Fields of a structure\<close>

definition get_u8 :: "nat \<Rightarrow> bytes \<Rightarrow> u8" where
  "get_u8 off bs = of_nat (from_le (sub_bytes off 1 bs))"

lemma sub_bytes_single: "sub_bytes 0 (Suc 0) (b # bs) = [b]"
  by (simp add: sub_bytes_def)

lemma sub_bytes_tail: "0 < off \<Longrightarrow> sub_bytes off n (b # bs) = sub_bytes (off - 1) n bs"
  by (cases off) (simp_all add: sub_bytes_def)

lemma field_fits: "unat (h :: u16) mod 65536 = unat h" "unat (w :: u32) mod 4294967296 = unat w"
  "unat (d :: u64) mod 18446744073709551616 = unat d"
  using unsigned_less [of w, where 'a = nat] unsigned_less [of h, where 'a = nat]
    unsigned_less [of d, where 'a = nat] by simp_all

text \<open>Reading the fields of a structure that is written as a concatenation.\<close>

lemmas struct_simps = get_u8_def get_u16_def get_u32_def get_u64_def sub_bytes_single sub_bytes_tail
  sub_bytes_append_skip sub_bytes_append_take sub_bytes_all field_fits

text \<open>Writing back the fields of a buffer.\<close>

lemma length_sub_bytes: "off + n \<le> length bs \<Longrightarrow> length (sub_bytes off n bs) = n"
  by (simp add: sub_bytes_def)

lemma sub_bytes_join: "b = a + m \<Longrightarrow> sub_bytes a m bs @ sub_bytes b n bs = sub_bytes a (m + n) bs"
  by (simp add: sub_bytes_def take_add add.commute)

lemma put_get_u32: "off + 4 \<le> length bs \<Longrightarrow> to_le 4 (unat (get_u32 off bs)) = sub_bytes off 4 bs"
  using from_le_bound [of "sub_bytes off 4 bs"]
  by (simp add: get_u32_def unat_of_nat length_sub_bytes)

lemma put_get_u64: "off + 8 \<le> length bs \<Longrightarrow> to_le 8 (unat (get_u64 off bs)) = sub_bytes off 8 bs"
  using from_le_bound [of "sub_bytes off 8 bs"]
  by (simp add: get_u64_def unat_of_nat length_sub_bytes)

section \<open>The locale\<close>

locale byte_codec =
  fixes packet_size :: nat
    and valid :: "'a \<Rightarrow> bool"
    and enc :: "'a \<Rightarrow> bytes"
    and dec :: "bytes \<Rightarrow> 'a"
  assumes packet_size_pos: "0 < packet_size"
    and enc_length: "valid x \<Longrightarrow> length (enc x) = packet_size"
    and dec_enc: "valid x \<Longrightarrow> dec (enc x) = x"
begin

lemma enc_inj: "valid x \<Longrightarrow> valid y \<Longrightarrow> enc x = enc y \<Longrightarrow> x = y"
  by (metis dec_enc)

lemma dec_prefix: "valid x \<Longrightarrow> dec (take packet_size (enc x @ rest)) = x"
  by (simp add: enc_length dec_enc)

text \<open>A buffer of packets laid end to end is read back packet by packet.\<close>

lemma dec_sequence:
  "\<forall>x\<in>set xs. valid x \<Longrightarrow> i < length xs \<Longrightarrow>
   dec (sub_bytes (i * packet_size) packet_size (concat (map enc xs))) = xs ! i"
proof (induction xs arbitrary: i)
  case (Cons x xs)
  then show ?case
    by (cases i) (auto simp: sub_bytes_def enc_length dec_enc)
qed simp

end

end
