(* ===== verification/Float_Bits.thy ===== *)
theory Float_Bits
  imports Floats
begin

text \<open>
  The bit patterns of single precision numbers, as packets carry them.  \<open>f32_of_bits\<close>
  reads any pattern; \<open>f32_to_bits\<close> writes the pattern of a representable value (with one
  pattern for NaN).  Reading what was written gives the value back.
\<close>

section \<open>Definitions\<close>

definition f32_exponent :: "u32 \<Rightarrow> nat" where
  "f32_exponent w = unat w div 2 ^ 23 mod 256"

definition f32_fraction :: "u32 \<Rightarrow> nat" where
  "f32_fraction w = unat w mod 2 ^ 23"

definition f32_sign :: "u32 \<Rightarrow> bool" where
  "f32_sign w \<longleftrightarrow> 2 ^ 31 \<le> unat w"

definition f32_of_bits :: "u32 \<Rightarrow> fl" where
  "f32_of_bits w =
     (let e = f32_exponent w; m = f32_fraction w; s = f32_sign w
      in if e = 255 then (if m = 0 then Infinity s else NaN)
         else if e = 0 then Fin s (of_nat m * 2 powi (-149))
         else Fin s (of_nat (2 ^ 23 + m) * 2 powi (int e - 150)))"

text \<open>A positive value is its significand times a power of two.\<close>

definition f32_scale :: "rat \<Rightarrow> int" where
  "f32_scale q = max (floor_log2 q) (-126)"

definition f32_significand :: "rat \<Rightarrow> int" where
  "f32_significand q = \<lfloor>q / 2 powi (f32_scale q - 23)\<rfloor>"

fun f32_to_bits :: "fl \<Rightarrow> u32" where
  "f32_to_bits NaN = 0x7FC00000"
| "f32_to_bits (Infinity s) = (if s then 0xFF800000 else 0x7F800000)"
| "f32_to_bits (Fin s q) =
     of_int ((if s then 2 ^ 31 else 0) +
       (if q = 0 then 0 else (f32_scale q + 126) * 2 ^ 23 + f32_significand q))"

text \<open>A value of the format.\<close>

fun f32_repr :: "fl \<Rightarrow> bool" where
  "f32_repr (Fin s q) \<longleftrightarrow> 0 \<le> q \<and> round32 s q = Fin s q"
| "f32_repr _ \<longleftrightarrow> True"

section \<open>Significands\<close>

lemma repr_significand:
  assumes "round32 s q = Fin s q" "0 < q"
  shows "q = of_int (f32_significand q) * 2 powi (f32_scale q - 23)"
    and "0 < f32_significand q" and "f32_significand q < 2 ^ 24"
    and "-126 \<le> f32_scale q" and "f32_scale q \<le> 127"
    and "f32_scale q = -126 \<or> 2 ^ 23 \<le> f32_significand q"
proof -
  let ?k = "f32_scale q" and ?u = "(2 :: rat) powi (f32_scale q - 23)"
  have fixed: "round_mag 24 (-126) q = q" and range: "floor_log2 q \<le> 127"
    using assms by (auto simp: round32_def round_to_def Let_def split: if_splits)
  have ulp: "ulp 24 (-126) q = ?u" by (simp add: ulp_def f32_scale_def)
  have u: "0 < ?u" by simp
  have "q / ?u = of_int (round_half_even (q / ?u))"
    using fixed assms(2) u by (simp add: round_mag_def ulp field_simps)
  then have int: "q / ?u = of_int (f32_significand q)"
    unfolding f32_significand_def by (metis floor_of_int)
  then show eq: "q = of_int (f32_significand q) * ?u" using u by (simp add: field_simps)
  show "0 < f32_significand q"
    using eq assms(2) u by (metis mult_pos_pos of_int_0_less_iff zero_less_mult_pos2)
  have "q < 2 powi (?k + 1)"
  proof -
    have "(2 :: rat) powi (floor_log2 q + 1) \<le> 2 powi (?k + 1)"
      by (intro power_int_increasing) (auto simp: f32_scale_def)
    with floor_log2_bounds [OF assms(2)] show ?thesis by linarith
  qed
  also have "(2 :: rat) powi (?k + 1) = 2 ^ 24 * ?u"
    by (simp add: power_int_diff power_int_add field_simps)
  finally have "of_int (f32_significand q) * ?u < 2 ^ 24 * ?u" using eq by simp
  then have "(of_int (f32_significand q) :: rat) < of_int (2 ^ 24)" using u by simp
  then show "f32_significand q < 2 ^ 24" by (simp only: of_int_less_iff)
  show "-126 \<le> ?k" "?k \<le> 127" using range by (auto simp: f32_scale_def)
  show "?k = -126 \<or> 2 ^ 23 \<le> f32_significand q"
  proof (rule disjCI)
    assume "\<not> 2 ^ 23 \<le> f32_significand q"
    then have "(of_int (f32_significand q) :: rat) < of_int (2 ^ 23)" by (simp only: of_int_less_iff not_le)
    then have "q < 2 ^ 23 * ?u" using eq u by (metis mult_strict_right_mono of_int_numeral of_int_power)
    also have "2 ^ 23 * ?u = 2 powi ?k" by (simp add: power_int_diff field_simps)
    finally have "floor_log2 q < ?k" using assms(2) by (intro floor_log2_less)
    then show "?k = -126" by (simp add: f32_scale_def)
  qed
qed

section \<open>Round trip\<close>

lemma bits_fields:
  fixes s :: bool
  assumes "0 \<le> e" "e < 256" "0 \<le> m" "m < 2 ^ 23"
  defines "w \<equiv> (of_int ((if s then 2 ^ 31 else 0) + e * 2 ^ 23 + m) :: u32)"
  shows "f32_exponent w = nat e" "f32_fraction w = nat m" "f32_sign w = s"
proof -
  define n where "n = (if s then 2 ^ 31 else 0) + nat e * 2 ^ 23 + nat m"
  have "w = of_nat n" using assms by (simp add: w_def n_def)
  moreover have "n < 2 ^ 32" using assms by (auto simp: n_def)
  ultimately have w: "unat w = n" by (simp add: unat_of_nat)
  have s: "n = (if s then 2 ^ 31 else 0) + (nat e * 2 ^ 23 + nat m)" "nat e * 2 ^ 23 + nat m < 2 ^ 31"
    using assms by (auto simp: n_def)
  show "f32_sign w = s" using s by (auto simp: f32_sign_def w)
  define h where "h = (if s then 256 else 0) + nat e"
  have d: "n = h * 2 ^ 23 + nat m" by (simp add: n_def h_def)
  have "nat m < 2 ^ 23" using assms by simp
  then have "n mod 2 ^ 23 = nat m" "n div 2 ^ 23 = h"
    unfolding d by simp_all
  then show "f32_fraction w = nat m" "f32_exponent w = nat e"
    using assms(1,2) by (simp_all add: f32_fraction_def f32_exponent_def w h_def)
qed

lemma f32_bits_zero: "f32_of_bits (f32_to_bits (Fin s 0)) = Fin s 0"
  by (cases s) (simp_all add: f32_of_bits_def f32_exponent_def f32_fraction_def f32_sign_def)

lemma f32_bits_positive:
  assumes "round32 s q = Fin s q" "0 < q"
  shows "f32_of_bits (f32_to_bits (Fin s q)) = Fin s q"
proof -
  let ?k = "f32_scale q" and ?m = "f32_significand q"
  note sig = repr_significand [OF assms]
  show ?thesis
  proof (cases "?m < 2 ^ 23")
    case True
    with sig have k: "?k = -126" by auto
    have b: "f32_to_bits (Fin s q) = of_int ((if s then 2 ^ 31 else 0) + 0 * 2 ^ 23 + ?m)"
      using assms(2) k by simp
    have "f32_of_bits (f32_to_bits (Fin s q)) = Fin s (of_nat (nat ?m) * 2 powi (-149))"
      unfolding b f32_of_bits_def using bits_fields [of 0 ?m s] True sig(2) by (simp add: Let_def)
    then show ?thesis using sig(1,2) k by simp
  next
    case False
    have b: "f32_to_bits (Fin s q) = of_int ((if s then 2 ^ 31 else 0) + (?k + 127) * 2 ^ 23 + (?m - 2 ^ 23))"
      using assms(2) by (simp add: algebra_simps)
    have f: "0 \<le> ?k + 127" "?k + 127 < 256" "0 \<le> ?m - 2 ^ 23" "?m - 2 ^ 23 < 2 ^ 23"
      using sig False by auto
    have "f32_of_bits (f32_to_bits (Fin s q)) =
        Fin s (of_nat (2 ^ 23 + nat (?m - 2 ^ 23)) * 2 powi (?k - 23))"
      unfolding b f32_of_bits_def using bits_fields [OF f, of s] sig(4,5) f by (simp add: Let_def)
    also have "(of_nat (2 ^ 23 + nat (?m - 2 ^ 23)) :: rat) = of_int ?m" using f by simp
    finally show ?thesis using sig(1) by simp
  qed
qed

theorem f32_bits_roundtrip: "f32_repr x \<Longrightarrow> f32_of_bits (f32_to_bits x) = x"
proof (cases x)
  case (Fin s q)
  assume "f32_repr x"
  with Fin show ?thesis
    using f32_bits_zero f32_bits_positive by (cases "q = 0") auto
qed (simp_all add: f32_of_bits_def f32_exponent_def f32_fraction_def f32_sign_def)

end
