(* ===== verification/Wire.thy ===== *)
theory Wire
  imports Codec Float_Bits Layout
begin

text \<open>
  \<^verbatim>\<open>include/common_fps/wire.hpp\<close> and \<^verbatim>\<open>src/core/wire.cpp\<close>: the 44-byte packet
  that carries a frame from the controller to the renderer in the shell, and
  \<^verbatim>\<open>src/ps5/state_sender.cpp\<close>, which sends it.  The structure is packed, so its bytes are the
  little-endian fields in order.
\<close>

section \<open>Definitions\<close>

definition kWireMagic :: u32 where "kWireMagic = 0x53465043"
definition kWireShutdownMagic :: u32 where "kWireShutdownMagic = 0x58465043"
definition kWireVersion :: u16 where "kWireVersion = 2"
definition kDefaultIpcPort :: u16 where "kDefaultIpcPort = 39028"
definition kWirePacketSize :: u16 where "kWirePacketSize = 44"

record wire_packet =
  wp_magic :: u32
  wp_version :: u16
  wp_size :: u16
  wp_sequence :: u64
  wp_fps :: u32
  wp_loading :: u8
  wp_corner :: u8
  wp_font_size :: u16
  wp_margin_x :: fl
  wp_margin_y :: fl
  wp_show_label :: u8
  wp_reserved :: bytes
  wp_label_color :: u32
  wp_value_color :: u32

definition default_packet :: wire_packet where
  "default_packet =
     \<lparr>wp_magic = kWireMagic, wp_version = kWireVersion, wp_size = kWirePacketSize, wp_sequence = 0,
      wp_fps = 0, wp_loading = 1, wp_corner = 2, wp_font_size = of_int kDefaultFontSize,
      wp_margin_x = kDefaultMarginX, wp_margin_y = kDefaultMarginY, wp_show_label = 1,
      wp_reserved = [0, 0, 0], wp_label_color = 0xB366FF, wp_value_color = 0xFFFFFF\<rparr>"

text \<open>The memory of a packet, and a packet over 44 bytes of memory.\<close>

definition wire_bytes :: "wire_packet \<Rightarrow> bytes" where
  "wire_bytes p =
     to_le 4 (unat (wp_magic p)) @ to_le 2 (unat (wp_version p)) @ to_le 2 (unat (wp_size p)) @
     to_le 8 (unat (wp_sequence p)) @ to_le 4 (unat (wp_fps p)) @ [wp_loading p, wp_corner p] @
     to_le 2 (unat (wp_font_size p)) @ to_le 4 (unat (f32_to_bits (wp_margin_x p))) @
     to_le 4 (unat (f32_to_bits (wp_margin_y p))) @ [wp_show_label p] @ wp_reserved p @
     to_le 4 (unat (wp_label_color p)) @ to_le 4 (unat (wp_value_color p))"

definition wire_of_bytes :: "bytes \<Rightarrow> wire_packet" where
  "wire_of_bytes bs =
     \<lparr>wp_magic = get_u32 0 bs, wp_version = get_u16 4 bs, wp_size = get_u16 6 bs,
      wp_sequence = get_u64 8 bs, wp_fps = get_u32 16 bs, wp_loading = get_u8 20 bs,
      wp_corner = get_u8 21 bs, wp_font_size = get_u16 22 bs,
      wp_margin_x = f32_of_bits (get_u32 24 bs), wp_margin_y = f32_of_bits (get_u32 28 bs),
      wp_show_label = get_u8 32 bs, wp_reserved = sub_bytes 33 3 bs,
      wp_label_color = get_u32 36 bs, wp_value_color = get_u32 40 bs\<rparr>"

fun encode_corner :: "corner \<Rightarrow> u8" where
  "encode_corner TopLeft = 0"
| "encode_corner TopRight = 1"
| "encode_corner BottomLeft = 2"
| "encode_corner BottomRight = 3"
| "encode_corner (OtherCorner _) = 2"

definition decode_corner :: "u8 \<Rightarrow> corner" where
  "decode_corner c =
     (if c = 0 then TopLeft else if c = 1 then TopRight else if c = 3 then BottomRight else BottomLeft)"

definition make_wire_packet :: "overlay_frame \<Rightarrow> u64 \<Rightarrow> wire_packet" where
  "make_wire_packet frame sequence =
     (let valid_rate = (0 \<le> frame_fps frame \<and> frame_fps frame \<le> kMaxDisplayFps);
          cfg = frame_config frame
      in default_packet
           \<lparr>wp_sequence := sequence,
            wp_fps := (if valid_rate then of_int (frame_fps frame) else 0),
            wp_loading := (if frame_loading frame \<or> \<not> valid_rate then 1 else 0),
            wp_corner := encode_corner (corner cfg),
            wp_font_size := of_int (int_clamp (font_size cfg) kMinFontSize kMaxFontSize),
            wp_margin_x := margin_x cfg,
            wp_margin_y := margin_y cfg,
            wp_show_label := (if show_label cfg then 1 else 0),
            wp_label_color := label_color cfg AND 0xFFFFFF,
            wp_value_color := value_color cfg AND 0xFFFFFF\<rparr>)"

definition make_shutdown_wire_packet :: "u64 \<Rightarrow> wire_packet" where
  "make_shutdown_wire_packet sequence =
     default_packet\<lparr>wp_magic := kWireShutdownMagic, wp_sequence := sequence, wp_loading := 1\<rparr>"

definition is_shutdown_wire_packet :: "wire_packet \<Rightarrow> bool" where
  "is_shutdown_wire_packet p \<longleftrightarrow>
     wp_magic p = kWireShutdownMagic \<and> wp_version p = kWireVersion \<and> wp_size p = kWirePacketSize"

definition decode_wire_packet :: "wire_packet \<Rightarrow> overlay_frame option" where
  "decode_wire_packet p =
     (if wp_magic p \<noteq> kWireMagic \<or> wp_version p \<noteq> kWireVersion \<or> wp_size p \<noteq> kWirePacketSize then None
      else
        let fps = sint (wp_fps p);
            valid_rate = (0 \<le> fps \<and> fps \<le> kMaxDisplayFps);
            cfg = sanitize_config
              \<lparr>corner = decode_corner (wp_corner p),
               font_size = int_clamp (uint (wp_font_size p)) kMinFontSize kMaxFontSize,
               margin_x = fl_max (Fin False 0) (wp_margin_x p),
               margin_y = fl_max (Fin False 0) (wp_margin_y p),
               show_label = (wp_show_label p \<noteq> 0),
               label_color = wp_label_color p, value_color = wp_value_color p\<rparr>
        in Some \<lparr>frame_visible = True, frame_loading = (wp_loading p \<noteq> 0 \<or> \<not> valid_rate),
                 frame_fps = (if valid_rate then fps else 0), frame_config = cfg,
                 frame_anchor = compute_anchor cfg\<rparr>)"

text \<open>The datagram sender: the socket is opened on first use and kept.\<close>

record 'e datagram_api =
  open_socket :: "'e \<Rightarrow> int \<times> 'e"
  send_datagram :: "int \<Rightarrow> u16 \<Rightarrow> bytes \<Rightarrow> 'e \<Rightarrow> int \<times> 'e"

definition sender_open :: "'e datagram_api \<Rightarrow> int \<Rightarrow> 'e \<Rightarrow> bool \<times> int \<times> 'e" where
  "sender_open api sock e =
     (if 0 \<le> sock then (True, sock, e)
      else case open_socket api e of (fd, e') \<Rightarrow> (0 \<le> fd, fd, e'))"

definition sender_send :: "'e datagram_api \<Rightarrow> wire_packet \<Rightarrow> int \<Rightarrow> 'e \<Rightarrow> bool \<times> int \<times> 'e" where
  "sender_send api p sock e =
     (case sender_open api sock e of
        (ok, sock1, e1) \<Rightarrow>
          if \<not> ok then (False, sock1, e1)
          else case send_datagram api sock1 kDefaultIpcPort (wire_bytes p) e1 of
                 (sent, e2) \<Rightarrow> (sent = 44, sock1, e2))"

section \<open>The byte format\<close>

definition wire_valid :: "wire_packet \<Rightarrow> bool" where
  "wire_valid p \<longleftrightarrow>
     length (wp_reserved p) = 3 \<and> f32_repr (wp_margin_x p) \<and> f32_repr (wp_margin_y p)"

lemma length_wire_bytes: "length (wp_reserved p) = 3 \<Longrightarrow> length (wire_bytes p) = 44"
  by (simp add: wire_bytes_def)

lemma wire_of_wire_bytes: "wire_valid p \<Longrightarrow> wire_of_bytes (wire_bytes p) = p"
  by (simp add: wire_valid_def wire_of_bytes_def wire_bytes_def struct_simps f32_bits_roundtrip)

interpretation wire: byte_codec 44 wire_valid wire_bytes wire_of_bytes
  by unfold_locales (simp_all add: wire_of_wire_bytes, simp add: wire_valid_def length_wire_bytes)

section \<open>Encoding and decoding\<close>

lemma decode_encode_corner: "c \<in> {TopLeft, TopRight, BottomLeft, BottomRight} \<Longrightarrow> decode_corner (encode_corner c) = c"
  by (auto simp: decode_corner_def)

lemma small_sint: "0 \<le> i \<Longrightarrow> i \<le> 120 \<Longrightarrow> sint (of_int i :: u32) = i"
  by (simp add: signed_of_int signed_take_bit_int_eq_self)

lemma small_uint16: "14 \<le> i \<Longrightarrow> i \<le> 64 \<Longrightarrow> uint (of_int i :: u16) = i"
  by (simp add: unsigned_of_int take_bit_int_eq_self)

text \<open>A frame the controller builds: a sanitized configuration with ordinary margins.\<close>

fun plain_margin :: "fl \<Rightarrow> bool" where
  "plain_margin (Fin s m) \<longleftrightarrow> \<not> s \<and> 0 \<le> m \<and> m \<le> 240 \<and> round32 False m = Fin False m"
| "plain_margin _ \<longleftrightarrow> False"

definition sendable_frame :: "overlay_frame \<Rightarrow> bool" where
  "sendable_frame f \<longleftrightarrow>
     frame_visible f \<and> 0 \<le> frame_fps f \<and> frame_fps f \<le> 120 \<and> config_ok (frame_config f) \<and>
     plain_margin (margin_x (frame_config f)) \<and> plain_margin (margin_y (frame_config f)) \<and>
     frame_anchor f = compute_anchor (frame_config f)"

lemma plain_margin_max: "plain_margin m \<Longrightarrow> fl_max (Fin False 0) m = m"
  by (cases m) (auto simp: fl_max_def)

lemma plain_margin_repr: "plain_margin m \<Longrightarrow> f32_repr m"
  by (cases m) auto

lemma make_wire_packet_valid:
  "plain_margin (margin_x (frame_config f)) \<Longrightarrow> plain_margin (margin_y (frame_config f)) \<Longrightarrow>
   wire_valid (make_wire_packet f sequence)"
  by (simp add: wire_valid_def make_wire_packet_def default_packet_def Let_def plain_margin_repr)

lemma decode_make_wire_packet:
  assumes "sendable_frame f"
  shows "decode_wire_packet (make_wire_packet f sequence) = Some f"
proof -
  let ?c = "frame_config f"
  have ok: "config_ok ?c" using assms by (simp add: sendable_frame_def)
  then have fs: "int_clamp (font_size ?c) kMinFontSize kMaxFontSize = font_size ?c"
    "14 \<le> font_size ?c" "font_size ?c \<le> 64"
    by (simp_all add: config_ok_def int_clamp_def kMinFontSize_def kMaxFontSize_def)
  have "\<lparr>corner = decode_corner (encode_corner (corner ?c)), font_size = font_size ?c,
      margin_x = fl_max (Fin False 0) (margin_x ?c), margin_y = fl_max (Fin False 0) (margin_y ?c),
      show_label = show_label ?c, label_color = label_color ?c AND 0xFFFFFF,
      value_color = value_color ?c AND 0xFFFFFF\<rparr> = ?c"
    using ok assms by (cases ?c) (simp add: config_ok_def decode_encode_corner sendable_frame_def
        plain_margin_max color_mask_id)
  then show ?thesis
    using assms fs sanitize_config_id [OF ok]
    by (cases f; cases "show_label ?c")
      (simp_all add: decode_wire_packet_def make_wire_packet_def default_packet_def Let_def
        sendable_frame_def small_sint small_uint16 kMaxDisplayFps_def)
qed

section \<open>Properties\<close>

text \<open>
  (C34) A frame survives the wire: the 44 bytes the controller sends for a frame, read as a
  packet by the renderer and decoded, give the same frame back, whatever the sequence number.
\<close>

theorem wire_frame_roundtrip:
  assumes "sendable_frame f"
  shows "length (wire_bytes (make_wire_packet f sequence)) = 44
    \<and> wp_sequence (wire_of_bytes (wire_bytes (make_wire_packet f sequence))) = sequence
    \<and> decode_wire_packet (wire_of_bytes (wire_bytes (make_wire_packet f sequence))) = Some f"
proof -
  have v: "wire_valid (make_wire_packet f sequence)"
    using assms by (intro make_wire_packet_valid) (auto simp: sendable_frame_def)
  show ?thesis
    using wire.enc_length [OF v] wire.dec_enc [OF v] decode_make_wire_packet [OF assms]
    by (simp add: make_wire_packet_def Let_def)
qed

text \<open>
  Whatever datagram arrives, a frame decoded from it is displayable: visible, with a rate
  between 0 and 120, a configuration within limits and the anchor of that configuration; and a
  shutdown packet is never taken for a frame.
\<close>

theorem wire_decode_safe:
  assumes "decode_wire_packet (wire_of_bytes bs) = Some f"
  shows "frame_visible f \<and> 0 \<le> frame_fps f \<and> frame_fps f \<le> 120 \<and> config_ok (frame_config f)
    \<and> frame_anchor f = compute_anchor (frame_config f)
    \<and> \<not> is_shutdown_wire_packet (wire_of_bytes bs)"
  using assms
  by (auto simp: decode_wire_packet_def Let_def config_ok_sanitize kMaxDisplayFps_def
      is_shutdown_wire_packet_def kWireMagic_def kWireShutdownMagic_def split: if_splits)

definition example_frame :: overlay_frame where
  "example_frame = default_frame\<lparr>frame_visible := True, frame_loading := False, frame_fps := 60,
     frame_anchor := compute_anchor default_config\<rparr>"

lemma example_frame_sendable: "sendable_frame example_frame"
proof -
  have "plain_margin kDefaultMarginX" "plain_margin kDefaultMarginY" by code_simp+
  then show ?thesis
    using default_config_ok
    by (simp add: sendable_frame_def example_frame_def default_frame_def default_config_def)
qed

theorem wire_frame_roundtrip_witness:
  "decode_wire_packet (wire_of_bytes (wire_bytes (make_wire_packet example_frame 9))) = Some example_frame"
  using wire_frame_roundtrip [OF example_frame_sendable] by blast

theorem wire_decode_safe_witness:
  "config_ok (frame_config (the (decode_wire_packet (wire_of_bytes
     ([0x43, 0x50, 0x46, 0x53, 2, 0, 44, 0, 1, 0, 0, 0, 0, 0, 0, 0, 255, 255, 255, 255, 0, 9, 200, 0]
      @ replicate 20 255)))))"
proof -
  let ?bs = "[0x43, 0x50, 0x46, 0x53, 2, 0, 44, 0, 1, 0, 0, 0, 0, 0, 0, 0, 255, 255, 255, 255, 0, 9, 200, 0]
      @ replicate 20 255"
  have "decode_wire_packet (wire_of_bytes ?bs) \<noteq> None"
    by (simp add: decode_wire_packet_def wire_of_bytes_def get_u32_def get_u16_def sub_bytes_def
        kWireMagic_def kWireVersion_def kWirePacketSize_def Let_def)
  then show ?thesis using wire_decode_safe [of ?bs] by auto
qed

end
