(* ===== verification/Managed.thy ===== *)
theory Managed
  imports Wire "HOL-Library.State_Monad" "HOL-Library.Multiset"
begin

text \<open>
  The renderer inside the shell (\<^verbatim>\<open>src/ps5/shellui_payload/commonfps_shellui.cpp\<close>): its
  global state, the Mono runtime it calls, and the handling of garbage collector handles.
  The Mono runtime is a parameter, a record of its calls over an environment; pointers are
  64-bit words with 0 for null.  Its entry points are statically imported, so the tests for a
  missing entry point have no counterpart.  Logging is left out.

  The code threads its globals and the runtime through every call, so it is written in the
  state monad.  Specifications are triples of a precondition, a program and a postcondition.
\<close>

section \<open>State and runtime\<close>

record payload =
  g_domain :: u64
  g_pui_image :: u64
  g_game_scene_handle :: u32
  g_root_handle :: u32
  g_label_handle :: u32
  g_value_handle :: u32
  g_style_applied :: bool
  g_applied_config :: overlay_config
  g_applied_layout :: overlay_layout
  g_find_scene_method :: u64
  g_background_render_mode :: bool
  g_application_update_original :: u64
  g_hook_install_confirmed :: bool
  g_hook_attempted :: bool
  g_runtime_ready :: bool
  g_have_packet :: bool
  g_sequence :: u64
  g_applied_sequence :: u64
  g_packet :: wire_packet
  g_trampoline :: bytes

text \<open>An argument of a compiled method.\<close>

datatype mono_value = VObject u64 | VInt int | VFloat fl | VBool bool

record 'e mono =
  mono_get_root_domain :: "'e \<Rightarrow> u64 \<times> 'e"
  mono_domain_get :: "'e \<Rightarrow> u64 \<times> 'e"
  mono_thread_attach :: "u64 \<Rightarrow> 'e \<Rightarrow> u64 \<times> 'e"
  mono_domain_assembly_open :: "u64 \<Rightarrow> string \<Rightarrow> 'e \<Rightarrow> u64 \<times> 'e"
  mono_assembly_get_image :: "u64 \<Rightarrow> 'e \<Rightarrow> u64 \<times> 'e"
  mono_class_from_name :: "u64 \<Rightarrow> string \<Rightarrow> string \<Rightarrow> 'e \<Rightarrow> u64 \<times> 'e"
  mono_class_get_method_from_name :: "u64 \<Rightarrow> string \<Rightarrow> int \<Rightarrow> 'e \<Rightarrow> u64 \<times> 'e"
  mono_class_get_property_from_name :: "u64 \<Rightarrow> string \<Rightarrow> 'e \<Rightarrow> u64 \<times> 'e"
  mono_property_get_get_method :: "u64 \<Rightarrow> 'e \<Rightarrow> u64 \<times> 'e"
  mono_property_get_set_method :: "u64 \<Rightarrow> 'e \<Rightarrow> u64 \<times> 'e"
  mono_runtime_invoke :: "u64 \<Rightarrow> u64 \<Rightarrow> u64 list \<Rightarrow> 'e \<Rightarrow> (u64 \<times> u64) \<times> 'e"
  mono_string_new :: "u64 \<Rightarrow> string \<Rightarrow> 'e \<Rightarrow> u64 \<times> 'e"
  mono_object_new :: "u64 \<Rightarrow> u64 \<Rightarrow> 'e \<Rightarrow> u64 \<times> 'e"
  mono_runtime_object_init :: "u64 \<Rightarrow> 'e \<Rightarrow> unit \<times> 'e"
  mono_object_unbox :: "u64 \<Rightarrow> 'e \<Rightarrow> u64 \<times> 'e"
  mono_compile_method :: "u64 \<Rightarrow> 'e \<Rightarrow> u64 \<times> 'e"
  mono_call :: "u64 \<Rightarrow> mono_value list \<Rightarrow> 'e \<Rightarrow> u64 \<times> 'e"
  mono_gchandle_new :: "u64 \<Rightarrow> int \<Rightarrow> 'e \<Rightarrow> u32 \<times> 'e"
  mono_gchandle_get_target :: "u32 \<Rightarrow> 'e \<Rightarrow> u64 \<times> 'e"
  mono_gchandle_free :: "u32 \<Rightarrow> 'e \<Rightarrow> unit \<times> 'e"

type_synonym ('e, 'a) render = "(payload \<times> 'e, 'a) state"

definition rt :: "('e \<Rightarrow> 'a \<times> 'e) \<Rightarrow> ('e, 'a) render" where
  "rt f = State (\<lambda>(p, e). case f e of (r, e') \<Rightarrow> (r, (p, e')))"

definition glob :: "(payload \<Rightarrow> 'a) \<Rightarrow> ('e, 'a) render" where
  "glob f = State (\<lambda>(p, e). (f p, (p, e)))"

definition glob_put :: "(payload \<Rightarrow> payload) \<Rightarrow> ('e, unit) render" where
  "glob_put f = State (\<lambda>(p, e). ((), (f p, e)))"

abbreviation done_with :: "'a \<Rightarrow> ('e, 'a) render" where
  "done_with \<equiv> State_Monad.return"

section \<open>Calls of the runtime\<close>

definition open_image :: "'e mono \<Rightarrow> string \<Rightarrow> ('e, u64) render" where
  "open_image m path = do {
     d \<leftarrow> glob g_domain;
     if d = 0 then done_with 0
     else do {
       assembly \<leftarrow> rt (mono_domain_assembly_open m d path);
       if assembly \<noteq> 0 then rt (mono_assembly_get_image m assembly) else done_with 0
     }
   }"

definition invoke :: "'e mono \<Rightarrow> u64 \<Rightarrow> u64 \<Rightarrow> u64 list \<Rightarrow> ('e, u64) render" where
  "invoke m meth inst args =
     (if meth = 0 then done_with 0
      else do {
        r \<leftarrow> rt (mono_runtime_invoke m meth inst args);
        done_with (if snd r \<noteq> 0 then 0 else fst r)
      })"

definition property_getter :: "'e mono \<Rightarrow> u64 \<Rightarrow> string \<Rightarrow> ('e, u64) render" where
  "property_getter m klass name =
     (if klass = 0 then done_with 0
      else do {
        prop \<leftarrow> rt (mono_class_get_property_from_name m klass name);
        if prop \<noteq> 0 then rt (mono_property_get_get_method m prop) else done_with 0
      })"

definition property_setter :: "'e mono \<Rightarrow> u64 \<Rightarrow> string \<Rightarrow> ('e, u64) render" where
  "property_setter m klass name =
     (if klass = 0 then done_with 0
      else do {
        prop \<leftarrow> rt (mono_class_get_property_from_name m klass name);
        if prop \<noteq> 0 then rt (mono_property_get_set_method m prop) else done_with 0
      })"

section \<open>Handles\<close>

definition managed_target :: "'e mono \<Rightarrow> u32 \<Rightarrow> ('e, u64) render" where
  "managed_target m h = (if h \<noteq> 0 then rt (mono_gchandle_get_target m h) else done_with 0)"

text \<open>The handle passed by reference is an argument and part of the result.\<close>

definition replace_managed_handle :: "'e mono \<Rightarrow> u32 \<Rightarrow> u64 \<Rightarrow> ('e, u32 \<times> bool) render" where
  "replace_managed_handle m h obj =
     (if obj = 0 then done_with (h, False)
      else do {
        same \<leftarrow> (if h \<noteq> 0 then do { t \<leftarrow> managed_target m h; done_with (t = obj) } else done_with False);
        if same then done_with (h, True)
        else do {
          nxt \<leftarrow> rt (mono_gchandle_new m obj 1);
          t \<leftarrow> (if nxt = 0 then done_with 0 else managed_target m nxt);
          if nxt = 0 \<or> t \<noteq> obj
          then do {
            (if nxt \<noteq> 0 then rt (mono_gchandle_free m nxt) else done_with ());
            done_with (h, False)
          }
          else do {
            (if h \<noteq> 0 then rt (mono_gchandle_free m h) else done_with ());
            done_with (nxt, True)
          }
        }
      })"

definition release_managed_handle :: "'e mono \<Rightarrow> u32 \<Rightarrow> ('e, u32) render" where
  "release_managed_handle m h = do {
     (if h \<noteq> 0 then rt (mono_gchandle_free m h) else done_with ());
     done_with 0
   }"

text \<open>A pinned object is its handle; the bracket is its scope.\<close>

definition pin :: "'e mono \<Rightarrow> u64 \<Rightarrow> ('e, u32) render" where
  "pin m obj = (if obj \<noteq> 0 then do { r \<leftarrow> replace_managed_handle m 0 obj; done_with (fst r) } else done_with 0)"

definition unpin :: "'e mono \<Rightarrow> u32 \<Rightarrow> ('e, unit) render" where
  "unpin m h = do { _ \<leftarrow> release_managed_handle m h; done_with () }"

definition with_pinned :: "'e mono \<Rightarrow> u64 \<Rightarrow> (u32 \<Rightarrow> ('e, 'a) render) \<Rightarrow> ('e, 'a) render" where
  "with_pinned m obj body = do { h \<leftarrow> pin m obj; r \<leftarrow> body h; unpin m h; done_with r }"

definition pinned_value :: "'e mono \<Rightarrow> u32 \<Rightarrow> ('e, u64) render" where
  "pinned_value m h = do {
     owner \<leftarrow> managed_target m h;
     if owner \<noteq> 0 then rt (mono_object_unbox m owner) else done_with 0
   }"

text \<open>A handle kept in a global: its selector and its update.\<close>

definition replace_slot ::
  "'e mono \<Rightarrow> (payload \<Rightarrow> u32) \<Rightarrow> ((u32 \<Rightarrow> u32) \<Rightarrow> payload \<Rightarrow> payload) \<Rightarrow> u64 \<Rightarrow> ('e, bool) render" where
  "replace_slot m sel upd obj = do {
     h \<leftarrow> glob sel;
     r \<leftarrow> replace_managed_handle m h obj;
     glob_put (upd (\<lambda>_. fst r));
     done_with (snd r)
   }"

definition release_slot ::
  "'e mono \<Rightarrow> (payload \<Rightarrow> u32) \<Rightarrow> ((u32 \<Rightarrow> u32) \<Rightarrow> payload \<Rightarrow> payload) \<Rightarrow> ('e, unit) render" where
  "release_slot m sel upd = do {
     h \<leftarrow> glob sel;
     h' \<leftarrow> release_managed_handle m h;
     glob_put (upd (\<lambda>_. h'))
   }"

definition refresh_game_scene :: "'e mono \<Rightarrow> ('e, bool) render" where
  "refresh_game_scene m = do {
     d \<leftarrow> glob g_domain;
     find \<leftarrow> glob g_find_scene_method;
     if d = 0 \<or> find = 0 then done_with False
     else do {
       active \<leftarrow> rt (mono_domain_get m);
       path \<leftarrow> rt (mono_string_new m (if active \<noteq> 0 then active else d) ''Game'');
       with_pinned m path (\<lambda>game_path. do {
         arg \<leftarrow> managed_target m game_path;
         if arg = 0 then done_with False
         else do {
           arg2 \<leftarrow> managed_target m game_path;
           game_scene \<leftarrow> invoke m find 0 [arg2];
           if game_scene = 0 then done_with False
           else do {
             h \<leftarrow> glob g_game_scene_handle;
             t \<leftarrow> managed_target m h;
             if t \<noteq> game_scene then do {
               release_slot m g_label_handle g_label_handle_update;
               release_slot m g_value_handle g_value_handle_update;
               release_slot m g_root_handle g_root_handle_update;
               glob_put (\<lambda>p. p\<lparr>g_style_applied := False\<rparr>);
               replace_slot m g_game_scene_handle g_game_scene_handle_update game_scene
             }
             else done_with True
           }
         }
       })
     }
   }"

section \<open>A logic for the state monad\<close>

definition triple :: "('s \<Rightarrow> bool) \<Rightarrow> ('s, 'a) state \<Rightarrow> ('a \<Rightarrow> 's \<Rightarrow> bool) \<Rightarrow> bool" where
  "triple P c Q \<longleftrightarrow> (\<forall>s. P s \<longrightarrow> (case run_state c s of (r, s') \<Rightarrow> Q r s'))"

lemma triple_bind: "triple P c R \<Longrightarrow> (\<And>x. triple (R x) (f x) Q) \<Longrightarrow> triple P (State_Monad.bind c f) Q"
  by (fastforce simp: triple_def split: prod.splits)

lemma triple_return: "(\<And>s. P s \<Longrightarrow> Q x s) \<Longrightarrow> triple P (State_Monad.return x) Q"
  by (simp add: triple_def)

lemma triple_if: "(b \<Longrightarrow> triple P c Q) \<Longrightarrow> (\<not> b \<Longrightarrow> triple P d Q) \<Longrightarrow> triple P (if b then c else d) Q"
  by simp

lemma triple_pre: "triple P c Q \<Longrightarrow> (\<And>s. P' s \<Longrightarrow> P s) \<Longrightarrow> triple P' c Q"
  by (auto simp: triple_def)

lemma triple_post: "triple P c Q \<Longrightarrow> (\<And>r s. Q r s \<Longrightarrow> Q' r s) \<Longrightarrow> triple P c Q'"
  by (fastforce simp: triple_def split: prod.splits)

lemma tripleD: "triple P c Q \<Longrightarrow> P s \<Longrightarrow> run_state c s = (r, s') \<Longrightarrow> Q r s'"
  by (auto simp: triple_def split: prod.splits)

text \<open>Programs that keep a predicate.\<close>

definition keeps :: "('s \<Rightarrow> bool) \<Rightarrow> ('s, 'a) state \<Rightarrow> bool" where
  "keeps P c \<longleftrightarrow> triple P c (\<lambda>_. P)"

lemma keepsD: "keeps P c \<Longrightarrow> P s \<Longrightarrow> run_state c s = (r, s') \<Longrightarrow> P s'"
  unfolding keeps_def by (rule tripleD)

lemma keeps_bind: "keeps P c \<Longrightarrow> (\<And>x. keeps P (f x)) \<Longrightarrow> keeps P (State_Monad.bind c f)"
  unfolding keeps_def by (rule triple_bind)

lemma keeps_return: "keeps P (State_Monad.return x)"
  unfolding keeps_def by (rule triple_return)

lemma keeps_if: "(b \<Longrightarrow> keeps P c) \<Longrightarrow> (\<not> b \<Longrightarrow> keeps P d) \<Longrightarrow> keeps P (if b then c else d)"
  by simp

lemma keeps_glob: "keeps P (glob f)"
  by (simp add: keeps_def triple_def glob_def)

lemmas keeps_rules = keeps_bind keeps_return keeps_if keeps_glob

section \<open>Ownership of handles\<close>

text \<open>The handles the globals hold, as a multiset.\<close>

definition one :: "u32 \<Rightarrow> u32 multiset" where
  "one h = (if h = 0 then {#} else {#h#})"

definition held :: "payload \<Rightarrow> u32 multiset" where
  "held p = one (g_game_scene_handle p) + one (g_root_handle p) + one (g_label_handle p) + one (g_value_handle p)"

text \<open>
  What the runtime documents of handles, for the multiset \<open>live\<close> of the handles in use: a new
  handle is 0 or one more in use, freeing a handle in use removes it, and no other call changes
  them.  Nothing is said of freeing a handle that is not in use.
\<close>

definition neutral :: "('e \<Rightarrow> u32 multiset) \<Rightarrow> ('e \<Rightarrow> 'a \<times> 'e) \<Rightarrow> bool" where
  "neutral live f \<longleftrightarrow> (\<forall>e. live (snd (f e)) = live e)"

definition gc_laws :: "'e mono \<Rightarrow> ('e \<Rightarrow> u32 multiset) \<Rightarrow> bool" where
  "gc_laws m live \<longleftrightarrow>
     (\<forall>obj k e h e'. mono_gchandle_new m obj k e = (h, e') \<longrightarrow> live e' = live e + one h) \<and>
     (\<forall>h e. h \<in># live e \<longrightarrow> live (snd (mono_gchandle_free m h e)) = live e - {#h#}) \<and>
     (\<forall>h. neutral live (mono_gchandle_get_target m h)) \<and>
     neutral live (mono_get_root_domain m) \<and> neutral live (mono_domain_get m) \<and>
     (\<forall>d. neutral live (mono_thread_attach m d)) \<and>
     (\<forall>d s. neutral live (mono_domain_assembly_open m d s)) \<and> (\<forall>a. neutral live (mono_assembly_get_image m a)) \<and>
     (\<forall>i s t. neutral live (mono_class_from_name m i s t)) \<and>
     (\<forall>c s n. neutral live (mono_class_get_method_from_name m c s n)) \<and>
     (\<forall>c s. neutral live (mono_class_get_property_from_name m c s)) \<and>
     (\<forall>q. neutral live (mono_property_get_get_method m q)) \<and> (\<forall>q. neutral live (mono_property_get_set_method m q)) \<and>
     (\<forall>f i as. neutral live (mono_runtime_invoke m f i as)) \<and> (\<forall>d s. neutral live (mono_string_new m d s)) \<and>
     (\<forall>d c. neutral live (mono_object_new m d c)) \<and> (\<forall>q. neutral live (mono_runtime_object_init m q)) \<and>
     (\<forall>q. neutral live (mono_object_unbox m q)) \<and> (\<forall>f. neutral live (mono_compile_method m f)) \<and>
     (\<forall>f as. neutral live (mono_call m f as))"

text \<open>All handles in use are held by the globals or belong to \<open>L\<close>.\<close>

definition owned :: "('e \<Rightarrow> u32 multiset) \<Rightarrow> u32 multiset \<Rightarrow> payload \<times> 'e \<Rightarrow> bool" where
  "owned live L s \<longleftrightarrow> live (snd s) = held (fst s) + L"

lemma keeps_rt: "neutral live f \<Longrightarrow> keeps (owned live L) (rt f)"
  by (auto simp: keeps_def triple_def rt_def owned_def neutral_def split: prod.splits) (metis snd_conv)

lemma keeps_glob_put: "(\<And>p. held (f p) = held p) \<Longrightarrow> keeps (owned live L) (glob_put f)"
  by (auto simp: keeps_def triple_def glob_put_def owned_def)

lemma gc_neutral:
  assumes "gc_laws m live"
  shows "neutral live (mono_gchandle_get_target m h)" "neutral live (mono_get_root_domain m)"
    "neutral live (mono_domain_get m)" "neutral live (mono_thread_attach m d)"
    "neutral live (mono_domain_assembly_open m d s)" "neutral live (mono_assembly_get_image m a)"
    "neutral live (mono_class_from_name m i s t)" "neutral live (mono_class_get_method_from_name m c s n)"
    "neutral live (mono_class_get_property_from_name m c s)" "neutral live (mono_property_get_get_method m q)"
    "neutral live (mono_property_get_set_method m q)" "neutral live (mono_runtime_invoke m f i' as)"
    "neutral live (mono_string_new m d s)" "neutral live (mono_object_new m d c)"
    "neutral live (mono_runtime_object_init m q)" "neutral live (mono_object_unbox m q)"
    "neutral live (mono_compile_method m f)" "neutral live (mono_call m f vs)"
  using assms by (simp_all add: gc_laws_def)

lemma keeps_managed_target: "gc_laws m live \<Longrightarrow> keeps (owned live L) (managed_target m h)"
  unfolding managed_target_def by (intro keeps_rules keeps_rt gc_neutral)

lemma triple_free:
  assumes "gc_laws m live"
  shows "triple (\<lambda>(p, e). p = p0 \<and> live e = K + one h)
    (if h \<noteq> 0 then rt (mono_gchandle_free m h) else State_Monad.return ())
    (\<lambda>_ (p, e). p = p0 \<and> live e = K)"
  using assms
  by (auto simp: triple_def rt_def one_def gc_laws_def split: prod.splits)
    (metis add_mset_remove_trivial snd_conv union_single_eq_member)

text \<open>Looking up a target changes neither the globals nor the handles in use.\<close>

abbreviation at_handles :: "payload \<Rightarrow> ('e \<Rightarrow> u32 multiset) \<Rightarrow> u32 multiset \<Rightarrow> payload \<times> 'e \<Rightarrow> bool" where
  "at_handles p0 live K \<equiv> \<lambda>(p, e). p = p0 \<and> live e = K"

lemma keeps_at_rt: "neutral live f \<Longrightarrow> keeps (at_handles p0 live K) (rt f)"
  by (auto simp: keeps_def triple_def rt_def neutral_def split: prod.splits) (metis snd_conv)

lemma keeps_at_target: "gc_laws m live \<Longrightarrow> keeps (at_handles p0 live K) (managed_target m h)"
  unfolding managed_target_def by (intro keeps_rules keeps_at_rt gc_neutral)

lemma triple_new:
  assumes "gc_laws m live"
  shows "triple (at_handles p0 live K) (rt (mono_gchandle_new m obj k)) (\<lambda>h. at_handles p0 live (K + one h))"
  using assms by (auto simp: triple_def rt_def gc_laws_def split: prod.splits)

lemma triple_replace:
  assumes "gc_laws m live"
  shows "triple (at_handles p0 live (K + one h)) (replace_managed_handle m h obj)
    (\<lambda>r. at_handles p0 live (K + one (fst r)))"
proof -
  let ?I = "at_handles p0 live (K + one h)"
  have same: "triple ?I (if h \<noteq> 0 then do { t \<leftarrow> managed_target m h; done_with (t = obj) } else done_with False) (\<lambda>_. ?I)"
    using keeps_at_target [OF assms, of p0 "K + one h" h] unfolding keeps_def
    by (intro triple_if triple_return) (auto intro: triple_bind triple_return)
  have target: "triple (at_handles p0 live (K + one h + one nxt)) (if nxt = 0 then done_with 0 else managed_target m nxt)
      (\<lambda>_. at_handles p0 live (K + one h + one nxt))" for nxt
    using keeps_at_target [OF assms] unfolding keeps_def by (intro triple_if triple_return) auto
  have drop: "triple (at_handles p0 live (K + one h + one nxt))
      (do { (if nxt \<noteq> 0 then rt (mono_gchandle_free m nxt) else done_with ()); done_with (h, False) })
      (\<lambda>r. at_handles p0 live (K + one (fst r)))" for nxt
    by (rule triple_bind [OF triple_free [OF assms]]) (auto intro!: triple_return)
  have swap: "triple (at_handles p0 live (K + one h + one nxt))
      (do { (if h \<noteq> 0 then rt (mono_gchandle_free m h) else done_with ()); done_with (nxt, True) })
      (\<lambda>r. at_handles p0 live (K + one (fst r)))" for nxt
    by (rule triple_bind [OF triple_pre [OF triple_free [OF assms]]]) (auto intro!: triple_return simp: ac_simps)
  show ?thesis
    unfolding replace_managed_handle_def
    by (intro triple_if triple_bind [OF same] triple_bind [OF triple_new [OF assms]] triple_bind [OF target]
        drop swap triple_return) auto
qed

text \<open>A global that holds a handle.\<close>

locale handle_slot =
  fixes sel :: "payload \<Rightarrow> u32" and upd :: "(u32 \<Rightarrow> u32) \<Rightarrow> payload \<Rightarrow> payload"
  assumes slot_swap: "held (upd (\<lambda>_. h) p) + one (sel p) = held p + one h"
    and slot_in: "one (sel p) \<subseteq># held p"
begin

lemma replace_owned:
  assumes "gc_laws m live"
  shows "keeps (owned live L) (replace_slot m sel upd obj)"
  unfolding keeps_def triple_def
proof (intro allI impI)
  fix s assume o: "owned live L s"
  obtain p e where s: "s = (p, e)" by (cases s)
  obtain K where K: "held p = K + one (sel p)" using slot_in [of p] by (metis subset_mset.le_iff_add add.commute)
  obtain h ok p1 e1 where r: "run_state (replace_managed_handle m (sel p) obj) (p, e) = ((h, ok), (p1, e1))"
    by (metis prod.collapse)
  have "triple (at_handles p live (K + L + one (sel p))) (replace_managed_handle m (sel p) obj)
      (\<lambda>r. at_handles p live (K + L + one (fst r)))" by (rule triple_replace [OF assms])
  with o s K r have "p1 = p" "live e1 = K + L + one h" by (auto simp: triple_def owned_def ac_simps)
  moreover have "held (upd (\<lambda>_. h) p) = K + one h" using slot_swap [of h p] K by simp
  ultimately show "case run_state (replace_slot m sel upd obj) s of (r, s') \<Rightarrow> owned live L s'"
    using r s by (simp add: replace_slot_def glob_def glob_put_def owned_def ac_simps)
qed

lemma release_owned:
  assumes "gc_laws m live"
  shows "keeps (owned live L) (release_slot m sel upd)"
  unfolding keeps_def triple_def
proof (intro allI impI)
  fix s assume o: "owned live L s"
  obtain p e where s: "s = (p, e)" by (cases s)
  obtain K where K: "held p = K + one (sel p)" using slot_in [of p] by (metis subset_mset.le_iff_add add.commute)
  let ?free = "if sel p \<noteq> 0 then rt (mono_gchandle_free m (sel p)) else done_with ()"
  obtain u p1 e1 where r: "run_state ?free (p, e) = (u, (p1, e1))" by (metis prod.collapse)
  have "triple (at_handles p live (K + L + one (sel p))) ?free (\<lambda>_. at_handles p live (K + L))"
    by (rule triple_free [OF assms])
  with o s K r have "p1 = p" "live e1 = K + L" by (auto simp: triple_def owned_def ac_simps)
  moreover have "held (upd (\<lambda>_. 0) p) = K" using slot_swap [of 0 p] K by (simp add: one_def)
  ultimately show "case run_state (release_slot m sel upd) s of (r, s') \<Rightarrow> owned live L s'"
    using r s by (simp add: release_slot_def release_managed_handle_def glob_def glob_put_def owned_def ac_simps)
qed

end

interpretation scene_slot: handle_slot g_game_scene_handle g_game_scene_handle_update
  by unfold_locales (simp_all add: held_def ac_simps)

interpretation root_slot: handle_slot g_root_handle g_root_handle_update
  by unfold_locales (simp_all add: held_def ac_simps)

interpretation label_slot: handle_slot g_label_handle g_label_handle_update
  by unfold_locales (simp_all add: held_def ac_simps)

interpretation value_slot: handle_slot g_value_handle g_value_handle_update
  by unfold_locales (simp_all add: held_def ac_simps)

lemma triple_pin:
  assumes "gc_laws m live"
  shows "triple (owned live L) (pin m obj) (\<lambda>h. owned live (L + one h))"
  unfolding triple_def
proof (intro allI impI)
  fix s assume o: "owned live L s"
  obtain p e where s: "s = (p, e)" by (cases s)
  obtain h ok p1 e1 where r: "run_state (replace_managed_handle m 0 obj) (p, e) = ((h, ok), (p1, e1))"
    by (metis prod.collapse)
  have "triple (at_handles p live (held p + L + one 0)) (replace_managed_handle m 0 obj)
      (\<lambda>r. at_handles p live (held p + L + one (fst r)))" by (rule triple_replace [OF assms])
  with o s r have "p1 = p" "live e1 = held p + L + one h" by (auto simp: triple_def owned_def one_def)
  then show "case run_state (pin m obj) s of (h, s') \<Rightarrow> owned live (L + one h) s'"
    using o s r by (simp add: pin_def owned_def ac_simps) (simp add: one_def)
qed

lemma triple_unpin:
  assumes "gc_laws m live"
  shows "triple (owned live (L + one h)) (unpin m h) (\<lambda>_. owned live L)"
  unfolding triple_def
proof (intro allI impI)
  fix s assume o: "owned live (L + one h) s"
  obtain p e where s: "s = (p, e)" by (cases s)
  let ?free = "if h \<noteq> 0 then rt (mono_gchandle_free m h) else done_with ()"
  obtain u p1 e1 where r: "run_state ?free (p, e) = (u, (p1, e1))" by (metis prod.collapse)
  have "triple (at_handles p live (held p + L + one h)) ?free (\<lambda>_. at_handles p live (held p + L))"
    by (rule triple_free [OF assms])
  with o s r have "p1 = p" "live e1 = held p + L" by (auto simp: triple_def owned_def ac_simps)
  then show "case run_state (unpin m h) s of (r, s') \<Rightarrow> owned live L s'"
    using s r by (simp add: unpin_def release_managed_handle_def owned_def)
qed

lemma keeps_with_pinned:
  assumes "gc_laws m live" "\<And>h. keeps (owned live (L + one h)) (body h)"
  shows "keeps (owned live L) (with_pinned m obj body)"
  unfolding keeps_def with_pinned_def
  by (rule triple_bind [OF triple_pin [OF assms(1)]], rule triple_bind [OF assms(2) [unfolded keeps_def]],
      rule triple_bind [OF triple_unpin [OF assms(1)]]) (rule triple_return)

lemma keeps_pinned_value: "gc_laws m live \<Longrightarrow> keeps (owned live L) (pinned_value m h)"
  unfolding pinned_value_def by (intro keeps_rules keeps_managed_target keeps_rt gc_neutral)

lemma keeps_calls:
  assumes "gc_laws m live"
  shows "keeps (owned live L) (open_image m path)" "keeps (owned live L) (invoke m meth inst args)"
    "keeps (owned live L) (property_getter m klass name)" "keeps (owned live L) (property_setter m klass name)"
  unfolding open_image_def invoke_def property_getter_def property_setter_def
  by (intro keeps_rules keeps_rt gc_neutral assms)+

lemmas slot_rules = scene_slot.replace_owned root_slot.replace_owned label_slot.replace_owned value_slot.replace_owned
  scene_slot.release_owned root_slot.release_owned label_slot.release_owned value_slot.release_owned

lemma held_style [simp]: "held (p\<lparr>g_style_applied := b\<rparr>) = held p"
  by (simp add: held_def)

lemmas owned_rules = keeps_rules keeps_managed_target keeps_pinned_value keeps_with_pinned keeps_calls
  slot_rules keeps_rt gc_neutral keeps_glob_put

lemma refresh_game_scene_owned: "gc_laws m live \<Longrightarrow> keeps (owned live L) (refresh_game_scene m)"
  unfolding refresh_game_scene_def by (intro owned_rules; simp)

end
