(* ===== verification/Decimal.thy ===== *)
theory Decimal
  imports Main
begin

text \<open>
  Decimal text as \<^verbatim>\<open>printf("%d")\<close> writes it and the code reads it: a shared service of
  the renderer, the configuration file and the settings page.
\<close>

section \<open>Writing\<close>

definition digit_char :: "nat \<Rightarrow> char" where
  "digit_char d = char_of (48 + d)"

fun decimal :: "nat \<Rightarrow> string" where
  "decimal n = (if n < 10 then [digit_char n] else decimal (n div 10) @ [digit_char (n mod 10)])"

declare decimal.simps [simp del]

definition show_int :: "int \<Rightarrow> string" where
  "show_int i = (if i < 0 then ''-'' @ decimal (nat (- i)) else decimal (nat i))"

section \<open>Reading\<close>

definition is_digit :: "char \<Rightarrow> bool" where
  "is_digit c \<longleftrightarrow> 48 \<le> (of_char c :: nat) \<and> (of_char c :: nat) \<le> 57"

definition digit_val :: "char \<Rightarrow> nat" where
  "digit_val c = of_char c - 48"

definition digits_value :: "string \<Rightarrow> nat" where
  "digits_value s = foldl (\<lambda>n c. 10 * n + digit_val c) 0 s"

section \<open>Round trip\<close>

lemma digit_char_digit: "d < 10 \<Longrightarrow> is_digit (digit_char d)" "d < 10 \<Longrightarrow> digit_val (digit_char d) = d"
  by (simp_all add: is_digit_def digit_char_def digit_val_def of_char_of)

lemma decimal_digits: "list_all is_digit (decimal n) \<and> decimal n \<noteq> []"
  by (induction n rule: decimal.induct) (subst (1 2) decimal.simps, simp add: digit_char_digit)

lemma digits_value_decimal: "digits_value (decimal n) = n"
proof (induction n rule: decimal.induct)
  case (1 n)
  then show ?case
    by (subst decimal.simps) (auto simp: digits_value_def digit_char_digit)
qed

end
