(* ===== verification/Renderer.thy ===== *)
theory Renderer
  imports Managed Decimal
begin

text \<open>
  Drawing the overlay inside the shell (\<^verbatim>\<open>src/ps5/shellui_payload/commonfps_shellui.cpp\<close>):
  widgets are created or found, restyled only where the style changed, and the latest packet is
  applied once.  The receiver loop is given as the step of one datagram.
\<close>

unbundle bit_operations_syntax

section \<open>Properties and widgets of the runtime\<close>

definition kUi2 :: string where "kUi2 = ''Sce.PlayStation.PUI.UI2''"
definition kLabelId :: string where "kLabelId = ''id_commonfps_label''"
definition kValueId :: string where "kValueId = ''id_commonfps_value''"

definition set_property_direct :: "'e mono \<Rightarrow> u64 \<Rightarrow> u64 \<Rightarrow> string \<Rightarrow> mono_value \<Rightarrow> ('e, bool) render" where
  "set_property_direct m klass inst name v = do {
     setter \<leftarrow> property_setter m klass name;
     if setter = 0 then done_with False
     else do {
       thunk \<leftarrow> rt (mono_compile_method m setter);
       if thunk = 0 then done_with False
       else do { _ \<leftarrow> rt (mono_call m thunk [VObject inst, v]); done_with True }
     }
   }"

definition set_property_object :: "'e mono \<Rightarrow> u64 \<Rightarrow> u64 \<Rightarrow> string \<Rightarrow> u64 \<Rightarrow> ('e, bool) render" where
  "set_property_object m klass inst name v = do {
     setter \<leftarrow> property_setter m klass name;
     if setter = 0 then done_with False
     else do { r \<leftarrow> rt (mono_runtime_invoke m setter inst [v]); done_with (snd r = 0) }
   }"

definition get_root_widget :: "'e mono \<Rightarrow> ('e, u64) render" where
  "get_root_widget m = do {
     h \<leftarrow> glob g_game_scene_handle;
     game_scene \<leftarrow> managed_target m h;
     if game_scene = 0 then done_with 0
     else do {
       img \<leftarrow> glob g_pui_image;
       scene \<leftarrow> rt (mono_class_from_name m img kUi2 ''Scene'');
       getter \<leftarrow> property_getter m scene ''RootWidget'';
       if getter \<noteq> 0 then invoke m getter game_scene [] else done_with 0
     }
   }"

text \<open>A boxed value built by its constructor; the result is its pinned handle, 0 for none.\<close>

definition create_boxed :: "'e mono \<Rightarrow> string \<Rightarrow> string \<Rightarrow> mono_value list \<Rightarrow> ('e, u32) render" where
  "create_boxed m ns name args = do {
     img \<leftarrow> glob g_pui_image;
     klass \<leftarrow> rt (mono_class_from_name m img ns name);
     if klass = 0 then done_with 0
     else do {
       d \<leftarrow> glob g_domain;
       obj \<leftarrow> rt (mono_object_new m d klass);
       boxed \<leftarrow> pin m obj;
       t \<leftarrow> managed_target m boxed;
       if t = 0 then do { unpin m boxed; done_with 0 }
       else do {
         real \<leftarrow> pinned_value m boxed;
         ctor \<leftarrow> rt (mono_class_get_method_from_name m klass ''.ctor'' (int (length args)));
         thunk \<leftarrow> (if ctor \<noteq> 0 then rt (mono_compile_method m ctor) else done_with 0);
         if real = 0 \<or> thunk = 0 then do { unpin m boxed; done_with 0 }
         else do { _ \<leftarrow> rt (mono_call m thunk (VObject real # args)); done_with boxed }
       }
     }
   }"

definition create_font :: "'e mono \<Rightarrow> int \<Rightarrow> ('e, u32) render" where
  "create_font m sz = create_boxed m kUi2 ''UIFont'' [VInt sz, VInt 0, VInt 0]"

definition create_color :: "'e mono \<Rightarrow> fl \<Rightarrow> fl \<Rightarrow> fl \<Rightarrow> fl \<Rightarrow> ('e, u32) render" where
  "create_color m r g b a =
     create_boxed m ''Sce.PlayStation.PUI'' ''UIColor'' [VFloat r, VFloat g, VFloat b, VFloat a]"

text \<open>A component of a colour as the code passes it, divided by 255 in single precision.\<close>

definition channel :: "u32 \<Rightarrow> nat \<Rightarrow> fl" where
  "channel rgb shift = fdiv (f_of_int (uint (drop_bit shift rgb AND 255))) (Fin False 255)"

definition color_of :: "'e mono \<Rightarrow> u32 \<Rightarrow> ('e, u32) render" where
  "color_of m rgb = create_color m (channel rgb 16) (channel rgb 8) (channel rgb 0) (Fin False 1)"

text \<open>A chain of null tests, and a list of updates that all run.\<close>

primrec all_live :: "'e mono \<Rightarrow> u32 list \<Rightarrow> ('e, bool) render" where
  "all_live m [] = done_with True"
| "all_live m (h # hs) = do { t \<leftarrow> managed_target m h; if t = 0 then done_with False else all_live m hs }"

primrec run_all :: "('e, bool) render list \<Rightarrow> ('e, bool) render" where
  "run_all [] = done_with True"
| "run_all (c # cs) = do { b \<leftarrow> c; r \<leftarrow> run_all cs; done_with (b \<and> r) }"

definition label_properties ::
  "'e mono \<Rightarrow> u64 \<Rightarrow> u64 \<Rightarrow> u32 \<Rightarrow> fl \<Rightarrow> fl \<Rightarrow> u32 \<Rightarrow> u32 \<Rightarrow> int \<Rightarrow> u32 \<Rightarrow> ('e, bool) render list" where
  "label_properties m klass inst name x y txt font align color =
     [do { v \<leftarrow> managed_target m name; set_property_direct m klass inst ''Name'' (VObject v) },
      set_property_direct m klass inst ''X'' (VFloat x),
      set_property_direct m klass inst ''Y'' (VFloat y),
      do { v \<leftarrow> managed_target m txt; set_property_direct m klass inst ''Text'' (VObject v) },
      do { v \<leftarrow> pinned_value m font; set_property_object m klass inst ''Font'' v },
      set_property_direct m klass inst ''HorizontalAlignment'' (VInt align),
      set_property_direct m klass inst ''VerticalAlignment'' (VInt 0),
      do { v \<leftarrow> pinned_value m color; set_property_object m klass inst ''TextColor'' v },
      set_property_direct m klass inst ''FitWidthToText'' (VBool True),
      set_property_direct m klass inst ''FitHeightToText'' (VBool True)]"

text \<open>The block of the new label in which its colour is pinned.\<close>

definition style_label ::
  "'e mono \<Rightarrow> u64 \<Rightarrow> u32 \<Rightarrow> u32 \<Rightarrow> fl \<Rightarrow> fl \<Rightarrow> u32 \<Rightarrow> u32 \<Rightarrow> int \<Rightarrow> u32 \<Rightarrow> ('e, bool) render" where
  "style_label m klass label mono_name x y mono_text font align rgb = do {
     color \<leftarrow> color_of m rgb;
     r \<leftarrow> do {
       present \<leftarrow> all_live m [mono_name, mono_text, color, font];
       if \<not> present then done_with False
       else do {
         inst \<leftarrow> managed_target m label;
         run_all (label_properties m klass inst mono_name x y mono_text font align color)
       }
     };
     _ \<leftarrow> unpin m color;
     done_with r
   }"

definition create_label ::
  "'e mono \<Rightarrow> string \<Rightarrow> fl \<Rightarrow> fl \<Rightarrow> string \<Rightarrow> u32 \<Rightarrow> int \<Rightarrow> u32 \<Rightarrow> ('e, u32) render" where
  "create_label m name x y txt font align rgb = do {
     img \<leftarrow> glob g_pui_image;
     klass \<leftarrow> rt (mono_class_from_name m img kUi2 ''Label'');
     if klass = 0 then done_with 0
     else do {
       d \<leftarrow> glob g_domain;
       obj \<leftarrow> rt (mono_object_new m d klass);
       label \<leftarrow> pin m obj;
       t \<leftarrow> managed_target m label;
       if t = 0 then do { unpin m label; done_with 0 }
       else do {
         t1 \<leftarrow> managed_target m label;
         _ \<leftarrow> rt (mono_runtime_object_init m t1);
         name_obj \<leftarrow> rt (mono_string_new m d name);
         ok \<leftarrow> with_pinned m name_obj (\<lambda>mono_name. do {
           text_obj \<leftarrow> rt (mono_string_new m d txt);
           with_pinned m text_obj (\<lambda>mono_text.
             style_label m klass label mono_name x y mono_text font align rgb)
         });
         if \<not> ok then do { unpin m label; done_with 0 } else done_with label
       }
     }
   }"

definition find_widget :: "'e mono \<Rightarrow> u64 \<Rightarrow> string \<Rightarrow> ('e, u64) render" where
  "find_widget m rootw ident = do {
     img \<leftarrow> glob g_pui_image;
     klass \<leftarrow> rt (mono_class_from_name m img kUi2 ''Widget'');
     meth \<leftarrow> (if klass \<noteq> 0 then rt (mono_class_get_method_from_name m klass ''FindWidgetByName'' 1) else done_with 0);
     thunk \<leftarrow> (if meth \<noteq> 0 then rt (mono_compile_method m meth) else done_with 0);
     if rootw = 0 \<or> thunk = 0 then done_with 0
     else do {
       d \<leftarrow> glob g_domain;
       obj \<leftarrow> rt (mono_string_new m d ident);
       with_pinned m obj (\<lambda>name. do {
         t \<leftarrow> managed_target m name;
         if t = 0 then done_with 0
         else do { v \<leftarrow> managed_target m name; rt (mono_call m thunk [VObject rootw, VObject v]) }
       })
     }
   }"

definition append_child :: "'e mono \<Rightarrow> u64 \<Rightarrow> u64 \<Rightarrow> ('e, bool) render" where
  "append_child m rootw child = do {
     img \<leftarrow> glob g_pui_image;
     klass \<leftarrow> rt (mono_class_from_name m img kUi2 ''Widget'');
     meth \<leftarrow> (if klass \<noteq> 0 then rt (mono_class_get_method_from_name m klass ''AppendChild'' 1) else done_with 0);
     if meth = 0 \<or> rootw = 0 \<or> child = 0 then done_with False
     else do { r \<leftarrow> rt (mono_runtime_invoke m meth rootw [child]); done_with (snd r = 0) }
   }"

definition set_label_text :: "'e mono \<Rightarrow> u64 \<Rightarrow> string \<Rightarrow> ('e, bool) render" where
  "set_label_text m label txt =
     (if label = 0 then done_with False
      else do {
        img \<leftarrow> glob g_pui_image;
        klass \<leftarrow> rt (mono_class_from_name m img kUi2 ''Label'');
        d \<leftarrow> glob g_domain;
        obj \<leftarrow> rt (mono_string_new m d txt);
        with_pinned m obj (\<lambda>mono_text. do {
          t \<leftarrow> managed_target m mono_text;
          if t = 0 then done_with False
          else do { v \<leftarrow> managed_target m mono_text; set_property_direct m klass label ''Text'' (VObject v) }
        })
      })"

definition apply_rgb :: "'e mono \<Rightarrow> u64 \<Rightarrow> u64 \<Rightarrow> u32 \<Rightarrow> ('e, bool) render" where
  "apply_rgb m klass label rgb = do {
     color \<leftarrow> color_of m rgb;
     t \<leftarrow> managed_target m color;
     r \<leftarrow> (if t = 0 then done_with False
          else do { v \<leftarrow> pinned_value m color; set_property_object m klass label ''TextColor'' v });
     unpin m color;
     done_with r
   }"

section \<open>Applying a packet\<close>

definition adopt_root :: "'e mono \<Rightarrow> u64 \<Rightarrow> ('e, bool) render" where
  "adopt_root m rootw = do {
     h \<leftarrow> glob g_root_handle;
     t \<leftarrow> managed_target m h;
     if t \<noteq> rootw then do {
       ok \<leftarrow> replace_slot m g_root_handle g_root_handle_update rootw;
       if \<not> ok then done_with False
       else do {
         release_slot m g_label_handle g_label_handle_update;
         release_slot m g_value_handle g_value_handle_update;
         glob_put (\<lambda>p. p\<lparr>g_style_applied := False\<rparr>);
         done_with True
       }
     }
     else done_with True
   }"

text \<open>What has to be restyled, from the style applied last.\<close>

record restyle =
  new_label :: bool
  new_value :: bool
  font_changed :: bool
  label_color_changed :: bool
  value_color_changed :: bool
  label_text_changed :: bool
  layout_changed :: bool

definition restyle_for :: "payload \<Rightarrow> overlay_frame \<Rightarrow> overlay_layout \<Rightarrow> u64 \<Rightarrow> u64 \<Rightarrow> restyle" where
  "restyle_for p frame layout label val =
     (let fresh = (\<not> g_style_applied p); cfg = frame_config frame;
          ac = g_applied_config p; al = g_applied_layout p
      in \<lparr>new_label = (label = 0), new_value = (val = 0),
          font_changed = (fresh \<or> lay_font_size layout \<noteq> lay_font_size al),
          label_color_changed = (fresh \<or> label_color cfg \<noteq> label_color ac),
          value_color_changed = (fresh \<or> value_color cfg \<noteq> value_color ac),
          label_text_changed = (fresh \<or> show_label cfg \<noteq> show_label ac),
          layout_changed = (fresh \<or> \<not> fl_eq (vec_x (lay_anchor layout)) (vec_x (lay_anchor al)) \<or>
             \<not> fl_eq (vec_y (lay_anchor layout)) (vec_y (lay_anchor al)) \<or>
             \<not> fl_eq (lay_label_advance layout) (lay_label_advance al))\<rparr>)"

definition needs_font :: "restyle \<Rightarrow> bool" where
  "needs_font d \<longleftrightarrow> new_label d \<or> new_value d \<or> font_changed d"

definition frame_text :: "overlay_frame \<Rightarrow> string" where
  "frame_text frame = (if frame_loading frame then ''Loading'' else show_int (frame_fps frame))"

definition label_text :: "overlay_frame \<Rightarrow> string" where
  "label_text frame = (if show_label (frame_config frame) then ''FPS:'' else [])"

text \<open>A created widget becomes a child of the root and is kept in its global.\<close>

definition add_widget ::
  "'e mono \<Rightarrow> (payload \<Rightarrow> u32) \<Rightarrow> ((u32 \<Rightarrow> u32) \<Rightarrow> payload \<Rightarrow> payload) \<Rightarrow> u64 \<Rightarrow> u32 \<Rightarrow> ('e, u64 option) render" where
  "add_widget m sel upd rootw created = do {
     t \<leftarrow> managed_target m created;
     ok \<leftarrow> (if t = 0 then done_with False
           else do {
             t1 \<leftarrow> managed_target m created;
             appended \<leftarrow> append_child m rootw t1;
             if \<not> appended then done_with False
             else do { t2 \<leftarrow> managed_target m created; replace_slot m sel upd t2 }
           });
     r \<leftarrow> (if ok then do { h \<leftarrow> glob sel; w \<leftarrow> managed_target m h; done_with (Some w) } else done_with None);
     unpin m created;
     done_with r
   }"

definition keep_widget ::
  "'e mono \<Rightarrow> (payload \<Rightarrow> u32) \<Rightarrow> ((u32 \<Rightarrow> u32) \<Rightarrow> payload \<Rightarrow> payload) \<Rightarrow> u64 \<Rightarrow> ('e, u64 option) render" where
  "keep_widget m sel upd w = do { ok \<leftarrow> replace_slot m sel upd w; done_with (if ok then Some w else None) }"

definition label_widget ::
  "'e mono \<Rightarrow> overlay_frame \<Rightarrow> overlay_layout \<Rightarrow> u64 \<Rightarrow> u32 \<Rightarrow> u64 \<Rightarrow> ('e, u64 option) render" where
  "label_widget m frame layout rootw font label =
     (if label = 0 then do {
        created \<leftarrow> create_label m kLabelId (vec_x (lay_anchor layout)) (vec_y (lay_anchor layout))
                    (label_text frame) font 1 (label_color (frame_config frame));
        add_widget m g_label_handle g_label_handle_update rootw created
      }
      else keep_widget m g_label_handle g_label_handle_update label)"

definition value_x :: "overlay_layout \<Rightarrow> fl" where
  "value_x layout = fadd (vec_x (lay_anchor layout)) (lay_label_advance layout)"

definition value_widget ::
  "'e mono \<Rightarrow> overlay_frame \<Rightarrow> overlay_layout \<Rightarrow> u64 \<Rightarrow> u32 \<Rightarrow> u64 \<Rightarrow> ('e, u64 option) render" where
  "value_widget m frame layout rootw font val =
     (if val = 0 then do {
        created \<leftarrow> create_label m kValueId (value_x layout) (vec_y (lay_anchor layout))
                    (frame_text frame) font 0 (value_color (frame_config frame));
        add_widget m g_value_handle g_value_handle_update rootw created
      }
      else keep_widget m g_value_handle g_value_handle_update val)"

definition when_changed :: "bool \<Rightarrow> 'a list \<Rightarrow> 'a list" where
  "when_changed b cs = (if b then cs else [])"

definition set_font :: "'e mono \<Rightarrow> u64 \<Rightarrow> u64 \<Rightarrow> u32 \<Rightarrow> ('e, bool) render" where
  "set_font m klass w font = do { v \<leftarrow> pinned_value m font; set_property_object m klass w ''Font'' v }"

definition label_updates ::
  "'e mono \<Rightarrow> overlay_frame \<Rightarrow> overlay_layout \<Rightarrow> restyle \<Rightarrow> u64 \<Rightarrow> u32 \<Rightarrow> u64 \<Rightarrow> ('e, bool) render list" where
  "label_updates m frame layout d klass font label =
     when_changed (\<not> new_label d)
       (when_changed (font_changed d) [set_font m klass label font] @
        when_changed (label_color_changed d) [apply_rgb m klass label (label_color (frame_config frame))] @
        when_changed (label_text_changed d) [set_label_text m label (label_text frame)] @
        when_changed (layout_changed d)
          [set_property_direct m klass label ''X'' (VFloat (vec_x (lay_anchor layout))),
           set_property_direct m klass label ''Y'' (VFloat (vec_y (lay_anchor layout)))])"

definition value_updates ::
  "'e mono \<Rightarrow> overlay_frame \<Rightarrow> overlay_layout \<Rightarrow> restyle \<Rightarrow> u64 \<Rightarrow> u32 \<Rightarrow> u64 \<Rightarrow> ('e, bool) render list" where
  "value_updates m frame layout d klass font val =
     when_changed (\<not> new_value d)
       (when_changed (font_changed d) [set_font m klass val font] @
        when_changed (value_color_changed d) [apply_rgb m klass val (value_color (frame_config frame))] @
        when_changed (layout_changed d)
          [set_property_direct m klass val ''X'' (VFloat (value_x layout)),
           set_property_direct m klass val ''Y'' (VFloat (vec_y (lay_anchor layout)))] @
        [set_label_text m val (frame_text frame)])"

definition apply_updates ::
  "'e mono \<Rightarrow> overlay_frame \<Rightarrow> overlay_layout \<Rightarrow> restyle \<Rightarrow> u32 \<Rightarrow> u64 \<Rightarrow> u64 \<Rightarrow> ('e, bool) render" where
  "apply_updates m frame layout d font label val = do {
     img \<leftarrow> glob g_pui_image;
     klass \<leftarrow> rt (mono_class_from_name m img kUi2 ''Label'');
     if klass = 0 then done_with False
     else do {
       ok \<leftarrow> run_all (label_updates m frame layout d klass font label @
                      value_updates m frame layout d klass font val);
       if \<not> ok then do { glob_put (\<lambda>p. p\<lparr>g_style_applied := False\<rparr>); done_with False }
       else do {
         glob_put (\<lambda>p. p\<lparr>g_applied_config := frame_config frame, g_applied_layout := layout,
                         g_style_applied := True\<rparr>);
         done_with True
       }
     }
   }"

definition draw_widgets ::
  "'e mono \<Rightarrow> overlay_frame \<Rightarrow> overlay_layout \<Rightarrow> restyle \<Rightarrow> u64 \<Rightarrow> u32 \<Rightarrow> u64 \<Rightarrow> u64 \<Rightarrow> ('e, bool) render" where
  "draw_widgets m frame layout d rootw font label0 value0 = do {
     l \<leftarrow> label_widget m frame layout rootw font label0;
     (case l of None \<Rightarrow> done_with False
      | Some label \<Rightarrow> do {
          v \<leftarrow> value_widget m frame layout rootw font value0;
          (case v of None \<Rightarrow> done_with False
           | Some val \<Rightarrow> apply_updates m frame layout d font label val)
        })
   }"

definition draw_frame :: "'e mono \<Rightarrow> overlay_frame \<Rightarrow> u64 \<Rightarrow> ('e, bool) render" where
  "draw_frame m frame rootw = do {
     layout \<leftarrow> done_with (compute_layout (frame_config frame) kLogicalWidth kLogicalHeight (frame_loading frame));
     lh \<leftarrow> glob g_label_handle;
     label1 \<leftarrow> managed_target m lh;
     vh \<leftarrow> glob g_value_handle;
     value1 \<leftarrow> managed_target m vh;
     label \<leftarrow> (if label1 = 0 then find_widget m rootw kLabelId else done_with label1);
     val \<leftarrow> (if value1 = 0 then find_widget m rootw kValueId else done_with value1);
     p \<leftarrow> glob id;
     d \<leftarrow> done_with (restyle_for p frame layout label val);
     font \<leftarrow> (if needs_font d then create_font m (lay_font_size layout) else done_with 0);
     missing \<leftarrow> (if needs_font d then do { t \<leftarrow> managed_target m font; done_with (t = 0) } else done_with False);
     r \<leftarrow> (if missing then done_with False else draw_widgets m frame layout d rootw font label val);
     unpin m font;
     done_with r
   }"

definition apply_packet_on_render :: "'e mono \<Rightarrow> wire_packet \<Rightarrow> ('e, bool) render" where
  "apply_packet_on_render m packet =
     (case decode_wire_packet packet of
        None \<Rightarrow> done_with False
      | Some frame \<Rightarrow> do {
          ok \<leftarrow> refresh_game_scene m;
          if \<not> ok then done_with False
          else do {
            rootw \<leftarrow> get_root_widget m;
            if rootw = 0 then done_with False
            else do {
              rooted \<leftarrow> adopt_root m rootw;
              if \<not> rooted then done_with False else draw_frame m frame rootw
            }
          }
        })"

definition apply_latest_state_on_render :: "'e mono \<Rightarrow> ('e, unit) render" where
  "apply_latest_state_on_render m = do {
     p \<leftarrow> glob id;
     if \<not> g_runtime_ready p \<or> \<not> g_have_packet p then done_with ()
     else if g_sequence p = g_applied_sequence p then done_with ()
     else if wp_sequence (g_packet p) \<noteq> g_sequence p \<or> decode_wire_packet (g_packet p) = None then done_with ()
     else do {
       ok \<leftarrow> apply_packet_on_render m (g_packet p);
       if ok then glob_put (\<lambda>q. q\<lparr>g_applied_sequence := wp_sequence (g_packet p)\<rparr>) else done_with ()
     }
   }"

text \<open>The hook runs the overlay first and then the original method, when there is one.\<close>

definition application_update_hook :: "'e mono \<Rightarrow> (u64 \<Rightarrow> u64 \<Rightarrow> 'e \<Rightarrow> unit \<times> 'e) \<Rightarrow> u64 \<Rightarrow> ('e, unit) render" where
  "application_update_hook m call_original inst = do {
     _ \<leftarrow> apply_latest_state_on_render m;
     original \<leftarrow> glob g_application_update_original;
     if original \<noteq> 0 then rt (call_original original inst) else done_with ()
   }"

section \<open>The receiver\<close>

text \<open>What a call of recv delivers: an error, or the bytes of a datagram.\<close>

datatype receive = RecvError | RecvBytes bytes

definition receiver_step :: "'e mono \<Rightarrow> ('e \<Rightarrow> unit \<times> 'e) \<Rightarrow> receive \<Rightarrow> ('e, unit) render" where
  "receiver_step m pause r =
     (case r of
        RecvError \<Rightarrow> do { _ \<leftarrow> glob_put (\<lambda>p. p\<lparr>g_have_packet := False\<rparr>); rt pause }
      | RecvBytes bs \<Rightarrow>
          if length bs \<noteq> 44 then done_with ()
          else
            let packet = wire_of_bytes bs
            in if is_shutdown_wire_packet packet then done_with ()
               else if wp_magic packet \<noteq> kWireMagic \<or> wp_version packet \<noteq> kWireVersion \<or>
                       wp_size packet \<noteq> kWirePacketSize then done_with ()
               else do {
                 _ \<leftarrow> glob_put (\<lambda>p. p\<lparr>g_packet := packet, g_sequence := wp_sequence packet, g_have_packet := True\<rparr>);
                 background \<leftarrow> glob g_background_render_mode;
                 if background then apply_latest_state_on_render m else done_with ()
               })"

section \<open>No handle is lost\<close>

text \<open>
  Functions that return a pinned object hand its handle to the caller; all others leave the
  handles in use as they were.
\<close>

lemma triple_keeps_bind:
  "keeps P c \<Longrightarrow> (\<And>x. triple P (f x) Q) \<Longrightarrow> triple P (State_Monad.bind c f) Q"
  unfolding keeps_def by (rule triple_bind)

lemma triple_give_back:
  assumes "gc_laws m live"
  shows "triple (owned live (L + one h)) (do { _ \<leftarrow> unpin m h; done_with (0 :: u32) }) (\<lambda>r. owned live (L + one r))"
  by (rule triple_bind [OF triple_unpin [OF assms]]) (auto intro!: triple_return simp: one_def)

lemma keeps_local:
  assumes "gc_laws m live" "triple (owned live L) c (\<lambda>h. owned live (L + one h))"
    and "\<And>h. keeps (owned live (L + one h)) (body h)"
  shows "keeps (owned live L) (do { h \<leftarrow> c; r \<leftarrow> body h; _ \<leftarrow> unpin m h; done_with r })"
  unfolding keeps_def
  by (rule triple_bind [OF assms(2)], rule triple_bind [OF assms(3) [unfolded keeps_def]],
      rule triple_bind [OF triple_unpin [OF assms(1)]]) (rule triple_return)

lemma triple_owned_none: "triple (owned live L) (done_with 0) (\<lambda>r. owned live (L + one r))"
  by (rule triple_return) (simp add: one_def)

lemma create_boxed_owned:
  assumes "gc_laws m live"
  shows "triple (owned live L) (create_boxed m ns name args) (\<lambda>h. owned live (L + one h))"
  unfolding create_boxed_def
  by (intro triple_keeps_bind [OF keeps_glob] triple_keeps_bind [OF keeps_rt] triple_if triple_owned_none
      triple_bind [OF triple_pin] triple_keeps_bind [OF keeps_managed_target] triple_give_back
      triple_keeps_bind [OF keeps_pinned_value] triple_keeps_bind [OF keeps_if] keeps_rt keeps_return gc_neutral
      triple_return assms)

lemma create_font_owned: "gc_laws m live \<Longrightarrow> triple (owned live L) (create_font m sz) (\<lambda>h. owned live (L + one h))"
  unfolding create_font_def by (rule create_boxed_owned)

lemma color_of_owned: "gc_laws m live \<Longrightarrow> triple (owned live L) (color_of m rgb) (\<lambda>h. owned live (L + one h))"
  unfolding color_of_def create_color_def by (rule create_boxed_owned)

lemma keeps_properties:
  assumes "gc_laws m live"
  shows "keeps (owned live L) (set_property_direct m klass inst name v)"
    "keeps (owned live L) (set_property_object m klass inst name x)"
    "keeps (owned live L) (get_root_widget m)"
  unfolding set_property_direct_def set_property_object_def get_root_widget_def
  by (intro owned_rules assms)+

lemma keeps_all_live: "gc_laws m live \<Longrightarrow> keeps (owned live L) (all_live m hs)"
  by (induction hs) (auto intro!: owned_rules)

lemma keeps_run_all: "(\<And>c. c \<in> set cs \<Longrightarrow> keeps P c) \<Longrightarrow> keeps P (run_all cs)"
  by (induction cs) (auto intro!: keeps_rules)

lemma keeps_label_properties:
  assumes "gc_laws m live" "c \<in> set (label_properties m klass inst name x y txt font align color)"
  shows "keeps (owned live L) c"
  using assms(2) unfolding label_properties_def
  by (auto intro!: keeps_bind keeps_managed_target keeps_pinned_value keeps_properties assms(1))

lemma style_label_owned:
  assumes "gc_laws m live"
  shows "keeps (owned live L) (style_label m klass label a x y b font align rgb)"
  unfolding style_label_def
  by (intro keeps_local color_of_owned keeps_bind keeps_all_live keeps_if keeps_return keeps_managed_target
      keeps_run_all assms) (rule keeps_label_properties [OF assms])

lemma create_label_owned:
  assumes "gc_laws m live"
  shows "triple (owned live L) (create_label m name x y txt font align rgb) (\<lambda>h. owned live (L + one h))"
  unfolding create_label_def
  by (intro triple_keeps_bind [OF keeps_glob] triple_keeps_bind [OF keeps_rt] triple_if triple_owned_none
      triple_bind [OF triple_pin] triple_keeps_bind [OF keeps_managed_target] triple_give_back gc_neutral assms
      triple_keeps_bind [OF keeps_with_pinned] keeps_bind keeps_rt keeps_with_pinned style_label_owned
      triple_return)

lemma keeps_widgets:
  assumes "gc_laws m live"
  shows "keeps (owned live L) (find_widget m rootw ident)" "keeps (owned live L) (append_child m rootw child)"
    "keeps (owned live L) (set_label_text m label txt)"
  unfolding find_widget_def append_child_def set_label_text_def
  by (intro owned_rules keeps_properties assms)+

lemma apply_rgb_owned: "gc_laws m live \<Longrightarrow> keeps (owned live L) (apply_rgb m klass label rgb)"
proof -
  assume g: "gc_laws m live"
  have e: "apply_rgb m klass label rgb = do {
     color \<leftarrow> color_of m rgb;
     r \<leftarrow> do { t \<leftarrow> managed_target m color;
            if t = 0 then done_with False
            else do { v \<leftarrow> pinned_value m color; set_property_object m klass label ''TextColor'' v } };
     _ \<leftarrow> unpin m color; done_with r }"
    by (simp add: apply_rgb_def)
  show ?thesis
    unfolding e by (intro keeps_local color_of_owned keeps_bind keeps_if keeps_return keeps_managed_target
        keeps_pinned_value keeps_properties g)
qed

lemma adopt_root_owned: "gc_laws m live \<Longrightarrow> keeps (owned live L) (adopt_root m rootw)"
  unfolding adopt_root_def by (intro owned_rules; simp)

lemma keep_widget_owned:
  assumes "gc_laws m live"
  shows "keeps (owned live L) (keep_widget m g_label_handle g_label_handle_update w)"
    "keeps (owned live L) (keep_widget m g_value_handle g_value_handle_update w)"
  unfolding keep_widget_def by (intro owned_rules assms)+

lemma add_widget_owned:
  assumes "gc_laws m live" "\<And>L obj. keeps (owned live L) (replace_slot m sel upd obj)"
    and "triple (owned live L) c (\<lambda>h. owned live (L + one h))"
  shows "keeps (owned live L) (do { created \<leftarrow> c; add_widget m sel upd rootw created })"
proof -
  have e: "do { created \<leftarrow> c; add_widget m sel upd rootw created } = do {
     created \<leftarrow> c;
     r \<leftarrow> do {
       t \<leftarrow> managed_target m created;
       ok \<leftarrow> (if t = 0 then done_with False
             else do {
               t1 \<leftarrow> managed_target m created;
               appended \<leftarrow> append_child m rootw t1;
               if \<not> appended then done_with False
               else do { t2 \<leftarrow> managed_target m created; replace_slot m sel upd t2 }
             });
       if ok then do { h \<leftarrow> glob sel; w \<leftarrow> managed_target m h; done_with (Some w) } else done_with None
     };
     _ \<leftarrow> unpin m created; done_with r }"
    by (simp add: add_widget_def)
  show ?thesis
    unfolding e by (intro keeps_local assms keeps_rules keeps_managed_target keeps_widgets)
qed

lemma label_widget_owned: "gc_laws m live \<Longrightarrow> keeps (owned live L) (label_widget m frame layout rootw font label)"
  unfolding label_widget_def
  by (intro keeps_if add_widget_owned label_slot.replace_owned create_label_owned keep_widget_owned)

lemma value_widget_owned: "gc_laws m live \<Longrightarrow> keeps (owned live L) (value_widget m frame layout rootw font val)"
  unfolding value_widget_def
  by (intro keeps_if add_widget_owned value_slot.replace_owned create_label_owned keep_widget_owned)

lemma set_font_owned: "gc_laws m live \<Longrightarrow> keeps (owned live L) (set_font m klass w font)"
  unfolding set_font_def by (intro owned_rules keeps_properties)

lemma updates_owned:
  assumes "gc_laws m live"
    and "c \<in> set (label_updates m frame layout d klass font label @ value_updates m frame layout d klass font val)"
  shows "keeps (owned live L) c"
  using assms(2) set_font_owned [OF assms(1)] apply_rgb_owned [OF assms(1)] keeps_widgets [OF assms(1)]
    keeps_properties [OF assms(1)]
  by (auto simp: label_updates_def value_updates_def when_changed_def split: if_splits)

lemma held_applied [simp]:
  "held (p\<lparr>g_applied_config := c, g_applied_layout := l, g_style_applied := b\<rparr>) = held p"
  "held (p\<lparr>g_applied_sequence := s\<rparr>) = held p" "held (p\<lparr>g_have_packet := b\<rparr>) = held p"
  "held (p\<lparr>g_packet := w, g_sequence := s, g_have_packet := b\<rparr>) = held p"
  by (simp_all add: held_def)

lemma apply_updates_owned:
  assumes "gc_laws m live"
  shows "keeps (owned live L) (apply_updates m frame layout d font label val)"
  unfolding apply_updates_def
  by (intro keeps_rules keeps_rt gc_neutral keeps_glob_put keeps_run_all held_style held_applied assms)
    (rule updates_owned [OF assms])

lemma draw_widgets_owned:
  assumes "gc_laws m live"
  shows "keeps (owned live L) (draw_widgets m frame layout d rootw font label val)"
  unfolding draw_widgets_def
  by (auto intro!: keeps_bind label_widget_owned value_widget_owned apply_updates_owned keeps_return assms
      split: option.split)

lemma draw_frame_owned:
  assumes "gc_laws m live"
  shows "keeps (owned live L) (draw_frame m frame rootw)"
proof -
  have font: "keeps (owned live L) (do {
      font \<leftarrow> (if needs_font d then create_font m sz else done_with 0);
      missing \<leftarrow> (if needs_font d then do { t \<leftarrow> managed_target m font; done_with (t = 0) } else done_with False);
      r \<leftarrow> (if missing then done_with False else draw_widgets m frame layout d rootw font label val);
      _ \<leftarrow> unpin m font; done_with r })" for d sz layout label val
  proof -
    have "triple (owned live L) (if needs_font d then create_font m sz else done_with 0) (\<lambda>h. owned live (L + one h))"
      by (intro triple_if create_font_owned triple_owned_none assms)
    then have "keeps (owned live L) (do {
      font \<leftarrow> (if needs_font d then create_font m sz else done_with 0);
      r \<leftarrow> do { missing \<leftarrow> (if needs_font d then do { t \<leftarrow> managed_target m font; done_with (t = 0) } else done_with False);
             if missing then done_with False else draw_widgets m frame layout d rootw font label val };
      _ \<leftarrow> unpin m font; done_with r })"
      by (intro keeps_local keeps_bind keeps_if keeps_return keeps_managed_target draw_widgets_owned assms)
    then show ?thesis by simp
  qed
  show ?thesis
    unfolding draw_frame_def
    by (rule keeps_bind [OF keeps_return], rule keeps_bind [OF keeps_glob],
        rule keeps_bind [OF keeps_managed_target [OF assms]], rule keeps_bind [OF keeps_glob],
        rule keeps_bind [OF keeps_managed_target [OF assms]],
        rule keeps_bind [OF keeps_if [OF keeps_widgets(1) [OF assms] keeps_return]],
        rule keeps_bind [OF keeps_if [OF keeps_widgets(1) [OF assms] keeps_return]],
        rule keeps_bind [OF keeps_glob], rule keeps_bind [OF keeps_return], rule font)
qed

lemma apply_packet_owned: "gc_laws m live \<Longrightarrow> keeps (owned live L) (apply_packet_on_render m packet)"
  unfolding apply_packet_on_render_def
  by (auto intro!: keeps_rules refresh_game_scene_owned keeps_properties adopt_root_owned draw_frame_owned
      split: option.split)

lemma apply_latest_owned: "gc_laws m live \<Longrightarrow> keeps (owned live L) (apply_latest_state_on_render m)"
  unfolding apply_latest_state_on_render_def
  by (intro keeps_rules apply_packet_owned keeps_glob_put held_applied)

section \<open>What a drawn frame leaves\<close>

definition styled :: "overlay_frame \<Rightarrow> payload \<times> 'e \<Rightarrow> bool" where
  "styled frame s \<longleftrightarrow> g_style_applied (fst s) \<and> g_applied_config (fst s) = frame_config frame \<and>
     g_applied_layout (fst s) = compute_layout (frame_config frame) kLogicalWidth kLogicalHeight (frame_loading frame)"

lemma triple_true: "(\<And>x. triple (\<lambda>_. True) (f x) Q) \<Longrightarrow> triple (\<lambda>_. True) (State_Monad.bind c f) Q"
  by (rule triple_bind [where R = "\<lambda>_ _. True"]) (simp_all add: triple_def split: prod.splits)

lemma keeps_styled_unpin: "triple (\<lambda>s. r \<longrightarrow> styled frame s) (unpin m h) (\<lambda>_ s. r \<longrightarrow> styled frame s)"
  by (auto simp: triple_def unpin_def release_managed_handle_def rt_def styled_def split: prod.splits)

lemma apply_updates_styled:
  fixes m :: "'e mono" and frame layout
  defines "layout \<equiv> compute_layout (frame_config frame) kLogicalWidth kLogicalHeight (frame_loading frame)"
  shows "triple (\<lambda>_. True) (apply_updates m frame layout d font label val) (\<lambda>r s. r \<longrightarrow> styled frame s)"
proof -
  have final: "triple (\<lambda>_. True) (do { _ \<leftarrow> glob_put (\<lambda>p. p\<lparr>g_applied_config := frame_config frame,
      g_applied_layout := layout, g_style_applied := True\<rparr>); done_with True }) (\<lambda>r s. r \<longrightarrow> styled frame s)"
    by (auto simp: triple_def glob_put_def styled_def layout_def)
  show ?thesis
    unfolding apply_updates_def
    by (rule triple_true, rule triple_true, intro triple_if triple_return, simp, rule triple_true)
      (intro triple_if final, rule triple_true, rule triple_return, simp)
qed

lemma draw_frame_styled: "triple (\<lambda>_. True) (draw_frame m frame rootw) (\<lambda>r s. r \<longrightarrow> styled frame s)"
proof -
  let ?layout = "compute_layout (frame_config frame) kLogicalWidth kLogicalHeight (frame_loading frame)"
  have draw: "triple (\<lambda>_. True) (if missing then done_with False else draw_widgets m frame ?layout d rootw font label val)
      (\<lambda>r s. r \<longrightarrow> styled frame s)" for missing d font label val
    unfolding draw_widgets_def
    by (intro triple_if triple_return triple_true; (auto split: option.split intro!: triple_return triple_true apply_updates_styled)?)
  show ?thesis
    unfolding draw_frame_def bind_left_identity
    by (rule triple_true, rule triple_true, rule triple_true, rule triple_true, rule triple_true, rule triple_true,
        rule triple_true, rule triple_true, rule triple_true, rule triple_bind [OF draw],
        rule triple_bind [OF keeps_styled_unpin], rule triple_return, simp)
qed

section \<open>What drawing leaves alone\<close>

text \<open>The globals that drawing does not change: all but the four handles and the applied style.\<close>

definition frame_globals :: "payload \<Rightarrow> bool \<times> bool \<times> u64 \<times> u64 \<times> wire_packet \<times> u64 \<times> bool" where
  "frame_globals p = (g_runtime_ready p, g_have_packet p, g_sequence p, g_applied_sequence p, g_packet p,
     g_application_update_original p, g_background_render_mode p)"

abbreviation same_globals :: "payload \<Rightarrow> payload \<times> 'e \<Rightarrow> bool" where
  "same_globals p0 \<equiv> \<lambda>s. frame_globals (fst s) = frame_globals p0"

lemma frame_rt: "keeps (same_globals p0) (rt f)"
  by (auto simp: keeps_def triple_def rt_def split: prod.splits)

lemma frame_put: "(\<And>p. frame_globals (f p) = frame_globals p) \<Longrightarrow> keeps (same_globals p0) (glob_put f)"
  by (auto simp: keeps_def triple_def glob_put_def)

lemma frame_updates:
  "frame_globals (p\<lparr>g_style_applied := b\<rparr>) = frame_globals p"
  "frame_globals (p\<lparr>g_applied_config := c, g_applied_layout := l, g_style_applied := b\<rparr>) = frame_globals p"
  "frame_globals (g_game_scene_handle_update f p) = frame_globals p"
  "frame_globals (g_root_handle_update f p) = frame_globals p"
  "frame_globals (g_label_handle_update f p) = frame_globals p"
  "frame_globals (g_value_handle_update f p) = frame_globals p"
  by (simp_all add: frame_globals_def)

lemmas frame_rules = keeps_rules frame_rt frame_put frame_updates

lemma frame_handles:
  "keeps (same_globals p0) (managed_target m h)" "keeps (same_globals p0) (pin m obj)"
  "keeps (same_globals p0) (unpin m h)" "keeps (same_globals p0) (pinned_value m h)"
  "keeps (same_globals p0) (replace_managed_handle m h obj)" "keeps (same_globals p0) (release_managed_handle m h)"
  "keeps (same_globals p0) (invoke m meth inst args)"
  "keeps (same_globals p0) (property_setter m klass name)" "keeps (same_globals p0) (property_getter m klass name)"
  unfolding pin_def unpin_def pinned_value_def replace_managed_handle_def release_managed_handle_def
    managed_target_def invoke_def property_setter_def property_getter_def
  by (intro frame_rules)+

lemma frame_with_pinned: "(\<And>h. keeps (same_globals p0) (body h)) \<Longrightarrow> keeps (same_globals p0) (with_pinned m obj body)"
  unfolding with_pinned_def by (intro frame_rules frame_handles)

lemma frame_slots:
  "(\<And>f p. frame_globals (upd f p) = frame_globals p) \<Longrightarrow> keeps (same_globals p0) (replace_slot m sel upd obj)"
  "(\<And>f p. frame_globals (upd f p) = frame_globals p) \<Longrightarrow> keeps (same_globals p0) (release_slot m sel upd)"
  unfolding replace_slot_def release_slot_def by (intro frame_rules frame_handles; assumption)+

lemma frame_run_all: "list_all (keeps (same_globals p0)) cs \<Longrightarrow> keeps (same_globals p0) (run_all cs)"
  by (induction cs) (auto intro!: keeps_rules)

lemma frame_all_live: "keeps (same_globals p0) (all_live m hs)"
  by (induction hs) (auto intro!: frame_rules frame_handles)

lemma frame_widgets:
  "keeps (same_globals p0) (set_property_direct m klass inst name v)"
  "keeps (same_globals p0) (set_property_object m klass inst name x)"
  "keeps (same_globals p0) (get_root_widget m)" "keeps (same_globals p0) (color_of m rgb)"
  "keeps (same_globals p0) (create_font m sz)" "keeps (same_globals p0) (find_widget m rootw ident)"
  "keeps (same_globals p0) (append_child m rootw child)" "keeps (same_globals p0) (set_label_text m label txt)"
  unfolding set_property_direct_def set_property_object_def get_root_widget_def color_of_def create_color_def
    create_font_def create_boxed_def find_widget_def append_child_def set_label_text_def
  by (intro frame_rules frame_handles frame_with_pinned)+

lemma frame_create_label: "keeps (same_globals p0) (create_label m name x y txt font align rgb)"
  unfolding create_label_def style_label_def
  by (intro frame_rules frame_handles frame_with_pinned frame_run_all frame_all_live frame_widgets)
    (simp add: label_properties_def frame_rules frame_handles frame_widgets)

lemma frame_apply_rgb: "keeps (same_globals p0) (apply_rgb m klass label rgb)"
  unfolding apply_rgb_def by (intro frame_rules frame_handles frame_widgets)

lemma frame_draw: "keeps (same_globals p0) (draw_frame m frame rootw)"
proof -
  have w: "keeps (same_globals p0) (label_widget m frame layout rootw font x)"
    "keeps (same_globals p0) (value_widget m frame layout rootw font x)" for layout font x
    unfolding label_widget_def value_widget_def add_widget_def keep_widget_def
    by (intro frame_rules frame_handles frame_slots frame_create_label frame_widgets)+
  have u: "keeps (same_globals p0) (apply_updates m frame layout d font label val)" for layout d font label val
    unfolding apply_updates_def
    by (intro frame_rules frame_run_all)
      (simp add: label_updates_def value_updates_def when_changed_def set_font_def frame_rules frame_handles
        frame_widgets frame_apply_rgb)
  have d: "keeps (same_globals p0) (draw_widgets m frame layout d rootw font label val)" for layout d font label val
    unfolding draw_widgets_def by (auto intro!: frame_rules w u split: option.split)
  show ?thesis unfolding draw_frame_def by (intro frame_rules frame_handles frame_widgets d)
qed

lemma frame_apply_packet: "keeps (same_globals p0) (apply_packet_on_render m packet)"
proof -
  have "keeps (same_globals p0) (refresh_game_scene m)" "keeps (same_globals p0) (adopt_root m rootw)" for rootw
    unfolding refresh_game_scene_def adopt_root_def
    by (intro frame_rules frame_handles frame_with_pinned frame_slots)+
  then show ?thesis
    unfolding apply_packet_on_render_def
    by (auto intro!: keeps_rules frame_widgets frame_draw split: option.split)
qed

section \<open>Properties\<close>

definition run_receiver :: "'e mono \<Rightarrow> ('e \<Rightarrow> unit \<times> 'e) \<Rightarrow> receive list \<Rightarrow> payload \<times> 'e \<Rightarrow> payload \<times> 'e" where
  "run_receiver m pause rs s = fold (\<lambda>r s. snd (run_state (receiver_step m pause r) s)) rs s"

lemma receiver_step_owned:
  assumes "gc_laws m live" "neutral live pause"
  shows "keeps (owned live L) (receiver_step m pause r)"
proof (cases r)
  case RecvError
  then show ?thesis
    unfolding receiver_step_def receive.case RecvError by (intro keeps_rules keeps_rt keeps_glob_put held_applied assms)
next
  case (RecvBytes bs)
  then show ?thesis
    unfolding receiver_step_def receive.case RecvBytes Let_def
    by (intro keeps_rules keeps_glob_put held_applied apply_latest_owned assms)
qed

text \<open>
  (C9) Whatever datagrams arrive and whatever the runtime answers, the renderer neither leaks
  nor wrongly frees a garbage collector handle: after any run of the receiver the handles in
  use are those its four globals hold and those that never were the renderer's.  Freeing a
  handle that is not in use would have an unspecified effect, so the balance also shows that
  every handle freed was in use.
\<close>

theorem renderer_handles_balanced:
  assumes "gc_laws m live" "neutral live pause" "live e = held p + foreign"
    and "run_receiver m pause rs (p, e) = (p', e')"
  shows "live e' = held p' + foreign"
proof -
  have "owned live foreign s \<Longrightarrow> owned live foreign (run_receiver m pause rs s)" for s
  proof (induction rs arbitrary: s)
    case (Cons r rs)
    have "owned live foreign (snd (run_state (receiver_step m pause r) s))"
      by (rule keepsD [OF receiver_step_owned [OF assms(1,2)] Cons.prems]) (rule prod.collapse [symmetric])
    then show ?case using Cons.IH by (simp add: run_receiver_def)
  qed (simp add: run_receiver_def)
  from this [of "(p, e)"] assms(3,4) show ?thesis by (simp add: owned_def)
qed

text \<open>
  The renderer draws exactly the latest packet, once: a call either records no new
  sequence number, or it records the number of the stored packet, which is the number the
  receiver announced, and the style then applied is that of the packet.  Without a runtime,
  without a live packet, or when the number is already drawn, nothing at all happens.
\<close>

theorem latest_packet_applied_once:
  assumes "run_state (apply_latest_state_on_render m) (p, e) = ((), (p', e'))"
  shows "(g_applied_sequence p' = g_applied_sequence p \<or>
      (\<exists>frame. decode_wire_packet (g_packet p) = Some frame \<and> styled frame (p', e') \<and>
         g_applied_sequence p' = g_sequence p \<and> wp_sequence (g_packet p) = g_sequence p))
    \<and> (\<not> g_runtime_ready p \<or> \<not> g_have_packet p \<or> g_sequence p = g_applied_sequence p \<longrightarrow> p' = p \<and> e' = e)
    \<and> g_packet p' = g_packet p \<and> g_sequence p' = g_sequence p \<and> g_have_packet p' = g_have_packet p"
proof (cases "\<not> g_runtime_ready p \<or> \<not> g_have_packet p \<or> g_sequence p = g_applied_sequence p \<or>
    wp_sequence (g_packet p) \<noteq> g_sequence p \<or> decode_wire_packet (g_packet p) = None")
  case True
  then show ?thesis
    using assms by (auto simp: apply_latest_state_on_render_def glob_def split: if_splits)
next
  case False
  then obtain frame where f: "decode_wire_packet (g_packet p) = Some frame" by auto
  obtain ok p1 e1 where r: "run_state (apply_packet_on_render m (g_packet p)) (p, e) = (ok, (p1, e1))"
    by (metis prod.collapse)
  have g: "frame_globals p1 = frame_globals p"
    using keepsD [OF frame_apply_packet _ r] by simp
  have "triple (\<lambda>_. True) (apply_packet_on_render m (g_packet p)) (\<lambda>r s. r \<longrightarrow> styled frame s)"
    unfolding apply_packet_on_render_def f option.case
    by (intro triple_true triple_if triple_return draw_frame_styled; simp)
  from tripleD [OF this TrueI r] have st: "ok \<longrightarrow> styled frame (p1, e1)" .
  show ?thesis
  proof (cases ok)
    case True
    then have "p' = p1\<lparr>g_applied_sequence := wp_sequence (g_packet p)\<rparr>" "e' = e1"
      using assms False r by (auto simp: apply_latest_state_on_render_def glob_def glob_put_def)
    then show ?thesis using False f g st True by (auto simp: frame_globals_def styled_def)
  next
    case no: False
    then have "p' = p1" using assms False r by (auto simp: apply_latest_state_on_render_def glob_def glob_put_def)
    then show ?thesis using False g by (simp add: frame_globals_def)
  qed
qed

text \<open>
  The receiver only ever stores packets of the protocol: a datagram of another length or
  with another header, a request to shut down among them, changes nothing.  A timeout makes the
  last packet stale, so that the hook draws nothing until a packet arrives again.
\<close>

theorem receiver_filters_datagrams:
  "(length bs \<noteq> 44 \<or> decode_wire_packet (wire_of_bytes bs) = None \<longrightarrow>
      run_state (receiver_step m pause (RecvBytes bs)) s = ((), s))
   \<and> (length bs = 44 \<and> decode_wire_packet (wire_of_bytes bs) \<noteq> None \<and> \<not> g_background_render_mode p \<longrightarrow>
      run_state (receiver_step m pause (RecvBytes bs)) (p, e) =
        ((), (p\<lparr>g_packet := wire_of_bytes bs, g_sequence := wp_sequence (wire_of_bytes bs), g_have_packet := True\<rparr>, e)))
   \<and> snd (run_state (do { _ \<leftarrow> receiver_step m pause RecvError; apply_latest_state_on_render m }) (p, e)) =
       (p\<lparr>g_have_packet := False\<rparr>, snd (pause e))"
proof -
  have magic: "kWireShutdownMagic \<noteq> kWireMagic" by (simp add: kWireShutdownMagic_def kWireMagic_def)
  show ?thesis
    using magic
    by (auto simp: receiver_step_def decode_wire_packet_def is_shutdown_wire_packet_def Let_def glob_def glob_put_def
        rt_def apply_latest_state_on_render_def split: prod.splits if_splits)
qed

section \<open>A small runtime for the witnesses\<close>

text \<open>
  Every object is 7, handles are numbered upwards, and the environment lists the handles in use
  with the next number.
\<close>

type_synonym toy_runtime = "u32 multiset \<times> u32"

definition toy_mono :: "toy_runtime mono" where
  "toy_mono =
     \<lparr>mono_get_root_domain = (\<lambda>e. (7, e)), mono_domain_get = (\<lambda>e. (7, e)), mono_thread_attach = (\<lambda>_ e. (7, e)),
      mono_domain_assembly_open = (\<lambda>_ _ e. (7, e)), mono_assembly_get_image = (\<lambda>_ e. (7, e)),
      mono_class_from_name = (\<lambda>_ _ _ e. (7, e)), mono_class_get_method_from_name = (\<lambda>_ _ _ e. (7, e)),
      mono_class_get_property_from_name = (\<lambda>_ _ e. (7, e)), mono_property_get_get_method = (\<lambda>_ e. (7, e)),
      mono_property_get_set_method = (\<lambda>_ e. (7, e)), mono_runtime_invoke = (\<lambda>_ _ _ e. ((7, 0), e)),
      mono_string_new = (\<lambda>_ _ e. (7, e)), mono_object_new = (\<lambda>_ _ e. (7, e)),
      mono_runtime_object_init = (\<lambda>_ e. ((), e)), mono_object_unbox = (\<lambda>_ e. (7, e)),
      mono_compile_method = (\<lambda>_ e. (7, e)), mono_call = (\<lambda>_ _ e. (0, e)),
      mono_gchandle_new = (\<lambda>_ _ (l, n). (n, (l + one n, n + 1))),
      mono_gchandle_get_target = (\<lambda>_ e. (7, e)),
      mono_gchandle_free = (\<lambda>h (l, n). ((), (l - {#h#}, n)))\<rparr>"

lemma toy_gc_laws: "gc_laws toy_mono fst"
  by (auto simp: gc_laws_def neutral_def toy_mono_def)

definition toy_payload :: payload where
  "toy_payload =
     \<lparr>g_domain = 7, g_pui_image = 7, g_game_scene_handle = 0, g_root_handle = 0, g_label_handle = 0,
      g_value_handle = 0, g_style_applied = False, g_applied_config = default_config,
      g_applied_layout = compute_layout default_config kLogicalWidth kLogicalHeight False,
      g_find_scene_method = 7, g_background_render_mode = True, g_application_update_original = 0,
      g_hook_install_confirmed = False, g_hook_attempted = False, g_runtime_ready = True, g_have_packet = False,
      g_sequence = 0, g_applied_sequence = 0, g_packet = default_packet, g_trampoline = replicate 128 0x90\<rparr>"

theorem renderer_handles_balanced_witness:
  "\<exists>p' e'. run_receiver toy_mono (\<lambda>e. ((), e)) [RecvBytes (wire_bytes (make_wire_packet example_frame 1)), RecvError]
     (toy_payload, ({#}, 1)) = (p', e') \<and> fst e' = held p'"
proof -
  let ?run = "run_receiver toy_mono (\<lambda>e. ((), e)) [RecvBytes (wire_bytes (make_wire_packet example_frame 1)), RecvError]
     (toy_payload, ({#}, 1))"
  obtain p' e' where r: "?run = (p', e')" by (cases ?run)
  have "neutral fst (\<lambda>e. ((), e :: toy_runtime))" "fst ({#}, 1 :: u32) = held toy_payload + {#}"
    by (simp_all add: neutral_def held_def one_def toy_payload_def)
  from renderer_handles_balanced [OF toy_gc_laws this r] r show ?thesis by simp
qed

text \<open>With a packet waiting, the small runtime draws it.\<close>

definition toy_waiting :: payload where
  "toy_waiting = toy_payload\<lparr>g_have_packet := True, g_sequence := 1, g_packet := make_wire_packet example_frame 1\<rparr>"

lemmas renderer_defs = apply_packet_on_render_def refresh_game_scene_def glob_def rt_def glob_put_def with_pinned_def
  pin_def unpin_def managed_target_def replace_managed_handle_def release_managed_handle_def invoke_def
  release_slot_def replace_slot_def get_root_widget_def property_getter_def adopt_root_def draw_frame_def
  find_widget_def restyle_for_def needs_font_def create_font_def create_boxed_def pinned_value_def draw_widgets_def
  label_widget_def value_widget_def create_label_def style_label_def color_of_def create_color_def
  label_properties_def set_property_direct_def property_setter_def set_property_object_def add_widget_def
  append_child_def apply_updates_def label_updates_def value_updates_def when_changed_def

lemma toy_draws:
  assumes "decode_wire_packet w = Some frame"
  shows "fst (run_state (apply_packet_on_render toy_mono w) (toy_waiting, ({#}, 1)))"
  using assms by (simp add: renderer_defs toy_mono_def toy_payload_def toy_waiting_def one_def Let_def)

theorem latest_packet_applied_once_witness:
  "\<exists>p' e'. run_state (apply_latest_state_on_render toy_mono) (toy_waiting, ({#}, 1)) = ((), (p', e'))
     \<and> g_applied_sequence p' = 1 \<and> g_packet p' = make_wire_packet example_frame 1"
proof -
  let ?run = "run_state (apply_latest_state_on_render toy_mono) (toy_waiting, ({#}, 1))"
  obtain u p' e' where r: "?run = (u, (p', e'))" by (metis prod.collapse)
  have w: "wp_sequence (make_wire_packet example_frame 1) = 1"
    by (simp add: make_wire_packet_def Let_def default_packet_def)
  have d: "decode_wire_packet (make_wire_packet example_frame 1) \<noteq> None"
    by (simp add: decode_wire_packet_def make_wire_packet_def default_packet_def Let_def)
  let ?draw = "run_state (apply_packet_on_render toy_mono (make_wire_packet example_frame 1)) (toy_waiting, ({#}, 1))"
  have "fst ?draw" using d by (auto intro: toy_draws)
  then obtain p1 e1 where a: "?draw = (True, (p1, e1))" by (cases ?draw) auto
  have "g_applied_sequence p' = 1"
    using r a d w
    by (auto simp: apply_latest_state_on_render_def glob_def glob_put_def toy_waiting_def toy_payload_def)
  moreover have "g_packet p' = g_packet toy_waiting" using latest_packet_applied_once [of toy_mono toy_waiting] r by simp
  ultimately show ?thesis using r by (simp add: toy_waiting_def)
qed

theorem receiver_filters_datagrams_witness:
  "run_state (receiver_step toy_mono (\<lambda>e. ((), e)) (RecvBytes [1, 2, 3])) (toy_payload, ({#}, 1))
     = ((), (toy_payload, ({#}, 1)))"
  using receiver_filters_datagrams [of "[1, 2, 3]" toy_mono "\<lambda>e. ((), e)" "(toy_payload, ({#}, 1))"] by simp

end
