(* ===== verification/Hook_Protocol.thy ===== *)
theory Hook_Protocol
  imports Codec
begin

text \<open>
  \<^verbatim>\<open>include/common_fps/shellui_hook_protocol.hpp\<close> and
  \<^verbatim>\<open>firmware_runtime_policy.hpp\<close>: the files through which the renderer asks the controller to
  patch the shell, their checksum, and the rules that decide which requests are acted upon on
  which firmware.  Signed fields are kept as words and read with \<open>sint\<close>.
\<close>

unbundle bit_operations_syntax

section \<open>Definitions\<close>

definition kShellUiHookRequestMagic :: u64 where "kShellUiHookRequestMagic = 0x395145524b484643"
definition kShellUiHookAckMagic :: u64 where "kShellUiHookAckMagic = 0x394b43414b484643"
definition kShellUiHookProtocolVersion :: u32 where "kShellUiHookProtocolVersion = 9"
definition kShellUiHookPatchSize :: nat where "kShellUiHookPatchSize = 16"
definition kShellUiAbsoluteJumpPrefix :: bytes where
  "kShellUiAbsoluteJumpPrefix = [0xff, 0x25, 0x00, 0x00, 0x00, 0x00]"

datatype hook_backend = Unsupported | Mdbg | PtraceIo
datatype hook_ack_phase = PhasePatch | PhaseProbe | PhaseMainThreadGuard

fun phase_code :: "hook_ack_phase \<Rightarrow> u8" where
  "phase_code PhasePatch = 0"
| "phase_code PhaseProbe = 1"
| "phase_code PhaseMainThreadGuard = 2"

definition firmware_family :: "u32 \<Rightarrow> u32" where
  "firmware_family sdk = sdk AND 0xffff0000"

definition firmware_is_fw1160 :: "u32 \<Rightarrow> bool" where
  "firmware_is_fw1160 sdk \<longleftrightarrow> firmware_family sdk = 0x11600000"

definition shellui_hook_backend :: "u32 \<Rightarrow> bool \<Rightarrow> hook_backend" where
  "shellui_hook_backend sdk eta_chain =
     (let family = firmware_family sdk
      in if 0x03000000 \<le> family \<and> family \<le> 0x08200000 then Mdbg
         else if family = 0x09600000 \<and> eta_chain then PtraceIo
         else Unsupported)"

definition shellui_main_thread_guard_backend :: "u32 \<Rightarrow> hook_backend" where
  "shellui_main_thread_guard_backend sdk =
     (let family = firmware_family sdk
      in if (0x01000000 \<le> family \<and> family \<le> 0x08200000) \<or> family = 0x09000000 then Mdbg
         else if (0x08300000 \<le> family \<and> family < 0x09000000) \<or>
                 (0x09000000 < family \<and> family < 0x09600000) \<or>
                 (0x09600000 < family \<and> family \<le> 0x10ff0000) \<or>
                 family = 0x11600000 then PtraceIo
         else Unsupported)"

definition shellui_hook_probe_backend :: "u32 \<Rightarrow> hook_backend" where
  "shellui_hook_probe_backend sdk =
     (let family = firmware_family sdk
      in if (0x01000000 \<le> family \<and> family \<le> 0x08200000) \<or> family = 0x09000000 then Mdbg
         else if (0x08300000 \<le> family \<and> family \<le> 0x10ff0000) \<or> family = 0x11600000 then PtraceIo
         else Unsupported)"

datatype hook_status =
  Success | InvalidRequest | UnsupportedFirmware | AuthFailure | AttachFailure
| ExpectedBytesMismatch | WriteFailure | VerifyFailure | DetachFailure | AuthRestoreFailure

fun status_code :: "hook_status \<Rightarrow> int" where
  "status_code Success = 0"
| "status_code InvalidRequest = -1"
| "status_code UnsupportedFirmware = -2"
| "status_code AuthFailure = -3"
| "status_code AttachFailure = -4"
| "status_code ExpectedBytesMismatch = -5"
| "status_code WriteFailure = -6"
| "status_code VerifyFailure = -7"
| "status_code DetachFailure = -8"
| "status_code AuthRestoreFailure = -9"

record hook_request =
  rq_magic :: u64
  rq_version :: u32
  rq_pid :: u32
  rq_nonce :: u64
  rq_method_address :: u64
  rq_hook_address :: u64
  rq_original_call_address :: u64
  rq_patch_size :: u32
  rq_displaced_size :: u32
  rq_expected :: bytes
  rq_desired :: bytes
  rq_checksum :: u32

record hook_ack =
  ack_magic :: u64
  ack_version :: u32
  ack_pid :: u32
  ack_nonce :: u64
  ack_status :: u32
  ack_read_rc :: u32
  ack_write_rc :: u32
  ack_verified :: u8
  ack_restored :: u8
  ack_detached :: u8
  ack_auth_restored :: u8
  ack_phase :: u8
  ack_observed :: bytes
  ack_checksum :: u32

definition default_hook_ack :: hook_ack where
  "default_hook_ack =
     \<lparr>ack_magic = kShellUiHookAckMagic, ack_version = kShellUiHookProtocolVersion, ack_pid = -1,
      ack_nonce = 0, ack_status = of_int (status_code InvalidRequest), ack_read_rc = -1,
      ack_write_rc = -1, ack_verified = 0, ack_restored = 0, ack_detached = 0,
      ack_auth_restored = 0, ack_phase = phase_code PhasePatch,
      ack_observed = replicate kShellUiHookPatchSize 0, ack_checksum = 0\<rparr>"

text \<open>The packed structures up to their checksum, and whole.\<close>

definition request_body :: "hook_request \<Rightarrow> bytes" where
  "request_body r =
     to_le 8 (unat (rq_magic r)) @ to_le 4 (unat (rq_version r)) @ to_le 4 (unat (rq_pid r)) @
     to_le 8 (unat (rq_nonce r)) @ to_le 8 (unat (rq_method_address r)) @
     to_le 8 (unat (rq_hook_address r)) @ to_le 8 (unat (rq_original_call_address r)) @
     to_le 4 (unat (rq_patch_size r)) @ to_le 4 (unat (rq_displaced_size r)) @
     rq_expected r @ rq_desired r"

definition request_bytes :: "hook_request \<Rightarrow> bytes" where
  "request_bytes r = request_body r @ to_le 4 (unat (rq_checksum r))"

definition request_of_bytes :: "bytes \<Rightarrow> hook_request" where
  "request_of_bytes bs =
     \<lparr>rq_magic = get_u64 0 bs, rq_version = get_u32 8 bs, rq_pid = get_u32 12 bs,
      rq_nonce = get_u64 16 bs, rq_method_address = get_u64 24 bs, rq_hook_address = get_u64 32 bs,
      rq_original_call_address = get_u64 40 bs, rq_patch_size = get_u32 48 bs,
      rq_displaced_size = get_u32 52 bs, rq_expected = sub_bytes 56 16 bs,
      rq_desired = sub_bytes 72 16 bs, rq_checksum = get_u32 88 bs\<rparr>"

definition ack_body :: "hook_ack \<Rightarrow> bytes" where
  "ack_body a =
     to_le 8 (unat (ack_magic a)) @ to_le 4 (unat (ack_version a)) @ to_le 4 (unat (ack_pid a)) @
     to_le 8 (unat (ack_nonce a)) @ to_le 4 (unat (ack_status a)) @ to_le 4 (unat (ack_read_rc a)) @
     to_le 4 (unat (ack_write_rc a)) @
     [ack_verified a, ack_restored a, ack_detached a, ack_auth_restored a, ack_phase a] @
     ack_observed a"

definition ack_bytes :: "hook_ack \<Rightarrow> bytes" where
  "ack_bytes a = ack_body a @ to_le 4 (unat (ack_checksum a))"

definition ack_of_bytes :: "bytes \<Rightarrow> hook_ack" where
  "ack_of_bytes bs =
     \<lparr>ack_magic = get_u64 0 bs, ack_version = get_u32 8 bs, ack_pid = get_u32 12 bs,
      ack_nonce = get_u64 16 bs, ack_status = get_u32 24 bs, ack_read_rc = get_u32 28 bs,
      ack_write_rc = get_u32 32 bs, ack_verified = get_u8 36 bs, ack_restored = get_u8 37 bs,
      ack_detached = get_u8 38 bs, ack_auth_restored = get_u8 39 bs, ack_phase = get_u8 40 bs,
      ack_observed = sub_bytes 41 16 bs, ack_checksum = get_u32 57 bs\<rparr>"

subsection \<open>Checksum\<close>

definition checksum_step :: "u8 \<Rightarrow> u32 \<Rightarrow> u32" where
  "checksum_step b hash = (hash XOR ucast b) * 16777619"

definition shellui_hook_checksum :: "bytes \<Rightarrow> u32" where
  "shellui_hook_checksum bs = fold checksum_step bs 2166136261"

definition shellui_hook_request_checksum :: "hook_request \<Rightarrow> u32" where
  "shellui_hook_request_checksum r = shellui_hook_checksum (request_body r)"

definition shellui_hook_ack_checksum :: "hook_ack \<Rightarrow> u32" where
  "shellui_hook_ack_checksum a = shellui_hook_checksum (ack_body a)"

subsection \<open>Validity of requests\<close>

definition is_jump :: "bytes \<Rightarrow> bool" where
  "is_jump code \<longleftrightarrow> take 6 code = kShellUiAbsoluteJumpPrefix"

definition shellui_hook_is_eta_chain :: "hook_request \<Rightarrow> bool" where
  "shellui_hook_is_eta_chain r \<longleftrightarrow> is_jump (rq_expected r)"

definition shellui_user_address :: "u64 \<Rightarrow> bool" where
  "shellui_user_address address \<longleftrightarrow> 0x10000 \<le> address \<and> address < 0x0000800000000000"

definition shellui_hook_request_common_is_valid :: "hook_request \<Rightarrow> int \<Rightarrow> bool" where
  "shellui_hook_request_common_is_valid r pid \<longleftrightarrow>
     \<not> (rq_magic r \<noteq> kShellUiHookRequestMagic \<or>
        rq_version r \<noteq> kShellUiHookProtocolVersion \<or>
        sint (rq_pid r) \<noteq> pid \<or> pid \<le> 0 \<or> rq_nonce r = 0 \<or>
        \<not> shellui_user_address (rq_method_address r) \<or>
        \<not> shellui_user_address (rq_method_address r + of_nat kShellUiHookPatchSize - 1) \<or>
        \<not> shellui_user_address (rq_hook_address r) \<or>
        rq_patch_size r \<noteq> of_nat kShellUiHookPatchSize \<or>
        rq_checksum r \<noteq> shellui_hook_request_checksum r)"

definition shellui_hook_request_is_probe :: "hook_request \<Rightarrow> bool" where
  "shellui_hook_request_is_probe r \<longleftrightarrow> rq_displaced_size r = 0"

definition shellui_hook_request_is_main_thread_guard :: "hook_request \<Rightarrow> bool" where
  "shellui_hook_request_is_main_thread_guard r \<longleftrightarrow>
     rq_displaced_size r = 1 \<and> rq_original_call_address r = 0 \<and>
     rq_hook_address r = rq_method_address r"

definition shellui_hook_probe_request_is_valid :: "hook_request \<Rightarrow> int \<Rightarrow> bool" where
  "shellui_hook_probe_request_is_valid r pid \<longleftrightarrow>
     \<not> (\<not> shellui_hook_request_common_is_valid r pid \<or> rq_original_call_address r \<noteq> 0 \<or>
        \<not> shellui_hook_request_is_probe r) \<and>
     list_all (\<lambda>i. \<not> (rq_expected r ! i \<noteq> 0 \<or> rq_desired r ! i \<noteq> 0)) [0..<kShellUiHookPatchSize]"

definition shellui_main_thread_guard_request_is_valid :: "hook_request \<Rightarrow> int \<Rightarrow> bool" where
  "shellui_main_thread_guard_request_is_valid r pid \<longleftrightarrow>
     \<not> (\<not> shellui_hook_request_common_is_valid r pid \<or>
        \<not> shellui_hook_request_is_main_thread_guard r \<or>
        rq_expected r ! 0 = 0xc3 \<or> rq_desired r ! 0 \<noteq> 0xc3) \<and>
     list_all (\<lambda>i. rq_desired r ! i = rq_expected r ! i) [1..<kShellUiHookPatchSize]"

definition shellui_hook_request_is_valid :: "hook_request \<Rightarrow> int \<Rightarrow> bool" where
  "shellui_hook_request_is_valid r pid \<longleftrightarrow>
     \<not> (\<not> shellui_hook_request_common_is_valid r pid \<or>
        \<not> shellui_user_address (rq_original_call_address r) \<or>
        rq_original_call_address r = rq_hook_address r \<or>
        rq_original_call_address r = rq_method_address r \<or>
        rq_displaced_size r < 14 \<or> 16 < rq_displaced_size r \<or>
        shellui_hook_request_is_probe r \<or>
        shellui_hook_request_is_main_thread_guard r \<or>
        \<not> is_jump (rq_desired r)) \<and>
     get_u64 6 (rq_desired r) = rq_hook_address r \<and>
     (if shellui_hook_is_eta_chain r
      then \<not> (rq_displaced_size r \<noteq> 14 \<or> get_u64 6 (rq_expected r) \<noteq> rq_original_call_address r)
      else list_all (\<lambda>i. rq_desired r ! i = 0x90) [14..<unat (rq_displaced_size r)]) \<and>
     list_all (\<lambda>i. rq_desired r ! i = rq_expected r ! i) [unat (rq_displaced_size r)..<kShellUiHookPatchSize]"

section \<open>Layout of the structures\<close>

definition request_wf :: "hook_request \<Rightarrow> bool" where
  "request_wf r \<longleftrightarrow> length (rq_expected r) = 16 \<and> length (rq_desired r) = 16"

definition ack_wf :: "hook_ack \<Rightarrow> bool" where
  "ack_wf a \<longleftrightarrow> length (ack_observed a) = 16"

lemma request_of_request_bytes: "request_wf r \<Longrightarrow> request_of_bytes (request_bytes r) = r"
  by (simp add: request_wf_def request_of_bytes_def request_bytes_def request_body_def struct_simps)

lemma ack_of_ack_bytes: "ack_wf a \<Longrightarrow> ack_of_bytes (ack_bytes a) = a"
  by (simp add: ack_wf_def ack_of_bytes_def ack_bytes_def ack_body_def struct_simps)

interpretation request: byte_codec 92 request_wf request_bytes request_of_bytes
  by unfold_locales
    (simp_all add: request_of_request_bytes, simp add: request_wf_def request_bytes_def request_body_def)

interpretation ack: byte_codec 61 ack_wf ack_bytes ack_of_bytes
  by unfold_locales (simp_all add: ack_of_ack_bytes, simp add: ack_wf_def ack_bytes_def ack_body_def)

lemma request_bytes_of_bytes: "length bs = 92 \<Longrightarrow> request_bytes (request_of_bytes bs) = bs"
  by (simp add: request_bytes_def request_body_def request_of_bytes_def put_get_u32 put_get_u64
      sub_bytes_join sub_bytes_all)

lemma request_of_bytes_wf: "length bs = 92 \<Longrightarrow> request_wf (request_of_bytes bs)"
  by (simp add: request_wf_def request_of_bytes_def length_sub_bytes)

lemma request_body_of_bytes: "length bs = 92 \<Longrightarrow> request_body (request_of_bytes bs) = take 88 bs"
  by (simp add: request_body_def request_of_bytes_def put_get_u32 put_get_u64 sub_bytes_join)
    (simp add: sub_bytes_def)

section \<open>The checksum\<close>

lemma odd_mult_inject: "(a * 16777619 = b * 16777619) = (a = (b :: u32))"
proof
  have inverse: "(16777619 :: u32) * 899433627 = 1" by code_simp
  assume "a * 16777619 = b * 16777619"
  then have "a * 16777619 * 899433627 = b * 16777619 * 899433627" by (rule arg_cong)
  then show "a = b" by (simp only: mult.assoc inverse mult_1_right)
qed simp

lemma checksum_step_inject_hash: "checksum_step b h = checksum_step b h' \<longleftrightarrow> h = h'"
proof -
  have "h = h'" if "h XOR ucast b = h' XOR ucast b"
    using arg_cong [OF that, of "\<lambda>x. x XOR ucast b"] by (simp add: xor.assoc)
  then show ?thesis by (auto simp: checksum_step_def odd_mult_inject)
qed

lemma ucast_u8_inject: "(ucast b :: u32) = ucast b' \<longleftrightarrow> b = (b' :: u8)"
proof
  assume "(ucast b :: u32) = ucast b'"
  then have "unat (ucast b :: u32) = unat (ucast b' :: u32)" by (rule arg_cong)
  then show "b = b'"
    using unat_u8 [of b] unat_u8 [of b']
    by (intro word_unat_eq_iff [THEN iffD2]) (simp add: unsigned_ucast_eq take_bit_nat_eq_self)
qed simp

lemma checksum_step_inject_byte: "checksum_step b h = checksum_step b' h \<longleftrightarrow> b = b'"
proof -
  have "b = b'" if "h XOR ucast b = h XOR (ucast b' :: u32)"
  proof -
    have "(ucast b :: u32) = ucast b'"
      using arg_cong [OF that, of "\<lambda>x. h XOR x"] by (simp add: xor.assoc [symmetric])
    then show ?thesis by (simp add: ucast_u8_inject)
  qed
  then show ?thesis by (auto simp: checksum_step_def odd_mult_inject)
qed

lemma checksum_fold_inject: "fold checksum_step bs h = fold checksum_step bs h' \<longleftrightarrow> h = h'"
  by (induction bs arbitrary: h h') (simp_all add: checksum_step_inject_hash)

lemma checksum_split:
  "shellui_hook_checksum (xs @ b # ys) = shellui_hook_checksum (xs @ b' # ys) \<longleftrightarrow>
   checksum_step b (fold checksum_step xs 2166136261) = checksum_step b' (fold checksum_step xs 2166136261)"
  by (simp add: shellui_hook_checksum_def checksum_fold_inject)

lemma checksum_single_byte:
  assumes "i < length bs" "b \<noteq> bs ! i"
  shows "shellui_hook_checksum (bs[i := b]) \<noteq> shellui_hook_checksum bs"
proof -
  have "bs = take i bs @ bs ! i # drop (Suc i) bs" using assms(1) by (rule id_take_nth_drop)
  moreover have "bs[i := b] = take i bs @ b # drop (Suc i) bs" using assms(1) by (rule upd_conv_take_nth_drop)
  ultimately have "shellui_hook_checksum (bs[i := b]) = shellui_hook_checksum bs \<longleftrightarrow>
      checksum_step b (fold checksum_step (take i bs) 2166136261) =
      checksum_step (bs ! i) (fold checksum_step (take i bs) 2166136261)"
    using checksum_split [of "take i bs" b "drop (Suc i) bs" "bs ! i"] by simp
  then show ?thesis using assms(2) by (simp add: checksum_step_inject_byte)
qed

section \<open>Properties\<close>

text \<open>
  (C25) The checksum catches every corruption of a single byte: a request file that differs
  from a valid one in exactly one of its 92 bytes, the checksum's own bytes included, is
  rejected for every process.
\<close>

theorem corrupted_request_rejected:
  assumes "request_wf r" "shellui_hook_request_common_is_valid r pid"
    and "i < 92" "b \<noteq> request_bytes r ! i"
  shows "\<not> shellui_hook_request_common_is_valid (request_of_bytes ((request_bytes r)[i := b])) pid'"
proof -
  let ?bs = "request_bytes r" and ?bs' = "(request_bytes r)[i := b]"
  have len: "length ?bs = 92" "length ?bs' = 92" using request.enc_length [OF assms(1)] by simp_all
  have r: "request_of_bytes ?bs = r" by (rule request.dec_enc [OF assms(1)])
  have sum: "rq_checksum r = shellui_hook_checksum (take 88 ?bs)"
    using assms(2) request_body_of_bytes [OF len(1)] r
    by (simp add: shellui_hook_request_common_is_valid_def shellui_hook_request_checksum_def)
  have "rq_checksum (request_of_bytes ?bs') \<noteq> shellui_hook_checksum (take 88 ?bs')"
  proof (cases "i < 88")
    case True
    have "drop 88 ?bs' = drop 88 ?bs" using True by simp
    then have "get_u32 88 ?bs' = get_u32 88 ?bs" by (simp add: get_u32_def sub_bytes_def)
    then have same: "rq_checksum (request_of_bytes ?bs') = rq_checksum r"
      using r by (metis request_of_bytes_def hook_request.select_convs(12))
    have "take 88 ?bs' = (take 88 ?bs)[i := b]" using True by (simp add: take_update_swap)
    then show ?thesis
      using checksum_single_byte [of i "take 88 ?bs" b] True assms(4) len same sum by simp
  next
    case False
    have body: "take 88 ?bs' = take 88 ?bs" using False by simp
    have "rq_checksum (request_of_bytes ?bs') \<noteq> rq_checksum r"
    proof
      assume "rq_checksum (request_of_bytes ?bs') = rq_checksum r"
      then have "to_le 4 (unat (get_u32 88 ?bs')) = to_le 4 (unat (get_u32 88 ?bs))"
        using r by (metis request_of_bytes_def hook_request.select_convs(12))
      then have "drop 88 ?bs' = drop 88 ?bs" using len by (simp add: put_get_u32) (simp add: sub_bytes_def)
      with body have "?bs' = ?bs" by (metis append_take_drop_id)
      then have "?bs' ! i = ?bs ! i" by simp
      with assms(3,4) len show False by simp
    qed
    then show ?thesis using sum body by simp
  qed
  then show ?thesis
    using request_body_of_bytes [OF len(2)]
    by (simp add: shellui_hook_request_common_is_valid_def shellui_hook_request_checksum_def)
qed

lemma list_all_upt: "list_all P [m..<n] \<longleftrightarrow> (\<forall>i. m \<le> i \<and> i < n \<longrightarrow> P i)"
  by (auto simp: list_all_iff)

text \<open>
  A valid main-thread guard request changes one byte: the bytes to write are those
  expected in memory with a return instruction in the first place, which was not one before.
\<close>

theorem guard_request_changes_one_byte:
  assumes "request_wf r" "shellui_main_thread_guard_request_is_valid r pid"
  shows "rq_desired r = (rq_expected r)[0 := 0xc3] \<and> rq_desired r \<noteq> rq_expected r"
proof -
  have v: "rq_expected r ! 0 \<noteq> 0xc3" "rq_desired r ! 0 = 0xc3"
      "\<forall>i. 1 \<le> i \<and> i < 16 \<longrightarrow> rq_desired r ! i = rq_expected r ! i"
    using assms(2) by (simp_all add: shellui_main_thread_guard_request_is_valid_def list_all_upt kShellUiHookPatchSize_def)
  have "rq_desired r = (rq_expected r)[0 := 0xc3]"
    using assms(1) v by (intro nth_equalityI) (auto simp: request_wf_def nth_list_update)
  with v show ?thesis by auto
qed

text \<open>
  A valid patch request writes a jump to the renderer's hook and nothing else: the new
  code starts with the absolute jump and the hook's address, is unchanged from the first byte
  that is not displaced, and the 16 patched bytes lie in user space without wrapping around.
\<close>

theorem patch_request_is_hook_jump:
  assumes "request_wf r" "shellui_hook_request_is_valid r pid"
  shows "take 14 (rq_desired r) = kShellUiAbsoluteJumpPrefix @ to_le 8 (unat (rq_hook_address r))
    \<and> drop (unat (rq_displaced_size r)) (rq_desired r) = drop (unat (rq_displaced_size r)) (rq_expected r)
    \<and> 14 \<le> unat (rq_displaced_size r) \<and> unat (rq_displaced_size r) \<le> 16
    \<and> 0x10000 \<le> unat (rq_method_address r) \<and> unat (rq_method_address r) + 15 < 2 ^ 47"
proof -
  let ?n = "unat (rq_displaced_size r)"
  have len: "length (rq_desired r) = 16" "length (rq_expected r) = 16"
    using assms(1) by (simp_all add: request_wf_def)
  have v: "is_jump (rq_desired r)" "get_u64 6 (rq_desired r) = rq_hook_address r"
      "\<forall>i. ?n \<le> i \<and> i < 16 \<longrightarrow> rq_desired r ! i = rq_expected r ! i"
      "\<not> rq_displaced_size r < 14" "\<not> 16 < rq_displaced_size r"
      "shellui_user_address (rq_method_address r)"
      "shellui_user_address (rq_method_address r + of_nat kShellUiHookPatchSize - 1)"
    using assms(2)
    by (simp_all add: shellui_hook_request_is_valid_def shellui_hook_request_common_is_valid_def
        list_all_upt kShellUiHookPatchSize_def)
  have "to_le 8 (unat (rq_hook_address r)) = sub_bytes 6 8 (rq_desired r)"
    using v(2) len put_get_u64 [of 6 "rq_desired r"] by simp
  then have jump: "take 14 (rq_desired r) = kShellUiAbsoluteJumpPrefix @ to_le 8 (unat (rq_hook_address r))"
    using v(1) take_add [of 6 8 "rq_desired r"] by (simp add: is_jump_def sub_bytes_def)
  have tail: "drop ?n (rq_desired r) = drop ?n (rq_expected r)"
    using v(3) len by (intro nth_equalityI) auto
  have m: "0x10000 \<le> unat (rq_method_address r)" "unat (rq_method_address r) < 0x800000000000"
    using v(6) by (simp_all add: shellui_user_address_def word_le_nat_alt word_less_nat_alt)
  have "rq_method_address r + of_nat kShellUiHookPatchSize - 1 = rq_method_address r + 15"
    by (simp add: kShellUiHookPatchSize_def)
  moreover have "unat (rq_method_address r + 15) = unat (rq_method_address r) + 15"
    using m by (subst unat_add_fits) auto
  ultimately have "unat (rq_method_address r) + 15 < unat (0x800000000000 :: u64)"
    using v(7) by (simp only: shellui_user_address_def word_less_nat_alt)
  then show ?thesis
    using jump tail m v(4,5) by (simp add: word_less_nat_alt)
qed

text \<open>
  No request is valid as two kinds at once, so the controller's choice among probe, guard
  and patch is never ambiguous.
\<close>

theorem request_kinds_disjoint:
  "\<not> (shellui_hook_probe_request_is_valid r pid \<and> shellui_main_thread_guard_request_is_valid r pid')
   \<and> \<not> (shellui_hook_probe_request_is_valid r pid \<and> shellui_hook_request_is_valid r pid')
   \<and> \<not> (shellui_main_thread_guard_request_is_valid r pid \<and> shellui_hook_request_is_valid r pid')"
  by (auto simp: shellui_hook_probe_request_is_valid_def shellui_main_thread_guard_request_is_valid_def
      shellui_hook_request_is_valid_def shellui_hook_request_is_probe_def
      shellui_hook_request_is_main_thread_guard_def)

lemma probe_and_guard_backends:
  "firmware_family sdk \<noteq> 0x09600000 \<Longrightarrow> shellui_hook_probe_backend sdk = shellui_main_thread_guard_backend sdk"
  unfolding shellui_hook_probe_backend_def shellui_main_thread_guard_backend_def Let_def
  by (auto simp: word_less_nat_alt word_le_nat_alt word_unat_eq_iff)

text \<open>
  Firmware policy: outside the 9.60 family the probe and the guard use the same debugger
  back end, every firmware that may be patched may also be probed, and firmware older than 1.00
  or newer than 10.xx, 11.60 apart, is refused by every operation.
\<close>

theorem firmware_policy:
  "(firmware_family sdk \<noteq> 0x09600000 \<longrightarrow>
      shellui_hook_probe_backend sdk = shellui_main_thread_guard_backend sdk)
   \<and> (shellui_hook_backend sdk eta_chain \<noteq> Unsupported \<longrightarrow> shellui_hook_probe_backend sdk \<noteq> Unsupported)
   \<and> (firmware_family sdk < 0x01000000 \<or> 0x10ff0000 < firmware_family sdk \<and> \<not> firmware_is_fw1160 sdk \<longrightarrow>
      shellui_hook_probe_backend sdk = Unsupported \<and> shellui_main_thread_guard_backend sdk = Unsupported
      \<and> shellui_hook_backend sdk eta_chain = Unsupported)"
  using probe_and_guard_backends [of sdk]
  unfolding shellui_hook_probe_backend_def shellui_main_thread_guard_backend_def
    shellui_hook_backend_def firmware_is_fw1160_def Let_def
  by (auto simp: word_less_nat_alt word_le_nat_alt word_unat_eq_iff)

theorem firmware_policy_witness:
  "shellui_hook_probe_backend 0x12000000 = Unsupported
   \<and> shellui_hook_probe_backend 0x11600005 = shellui_main_thread_guard_backend 0x11600005"
proof -
  have "0x10ff0000 < firmware_family 0x12000000 \<and> \<not> firmware_is_fw1160 0x12000000"
    "firmware_family 0x11600005 \<noteq> 0x09600000"
    by (simp_all add: firmware_family_def firmware_is_fw1160_def)
  then show ?thesis using firmware_policy [of "0x12000000" False] firmware_policy [of "0x11600005" False] by blast
qed

section \<open>Example requests\<close>

definition seal_request :: "hook_request \<Rightarrow> hook_request" where
  "seal_request r = r\<lparr>rq_checksum := shellui_hook_request_checksum r\<rparr>"

definition example_guard_request :: hook_request where
  "example_guard_request = seal_request
     \<lparr>rq_magic = kShellUiHookRequestMagic, rq_version = kShellUiHookProtocolVersion, rq_pid = 42,
      rq_nonce = 7, rq_method_address = 0x200000, rq_hook_address = 0x200000,
      rq_original_call_address = 0, rq_patch_size = 16, rq_displaced_size = 1,
      rq_expected = 0x55 # replicate 15 0x90, rq_desired = 0xc3 # replicate 15 0x90, rq_checksum = 0\<rparr>"

definition example_patch_request :: hook_request where
  "example_patch_request = seal_request
     \<lparr>rq_magic = kShellUiHookRequestMagic, rq_version = kShellUiHookProtocolVersion, rq_pid = 42,
      rq_nonce = 7, rq_method_address = 0x200000, rq_hook_address = 0x300000,
      rq_original_call_address = 0x400000, rq_patch_size = 16, rq_displaced_size = 15,
      rq_expected = 0x55 # replicate 15 0x55,
      rq_desired = [0xff, 0x25, 0, 0, 0, 0, 0, 0, 0x30, 0, 0, 0, 0, 0, 0x90, 0x55], rq_checksum = 0\<rparr>"

lemma seal_request_checksum [simp]:
  "rq_checksum (seal_request r) = shellui_hook_request_checksum (seal_request r)"
  by (simp add: seal_request_def shellui_hook_request_checksum_def request_body_def)

lemma example_guard_fields [simp]:
  "rq_magic example_guard_request = kShellUiHookRequestMagic"
  "rq_version example_guard_request = kShellUiHookProtocolVersion" "rq_pid example_guard_request = 42"
  "rq_nonce example_guard_request = 7" "rq_method_address example_guard_request = 0x200000"
  "rq_hook_address example_guard_request = 0x200000" "rq_original_call_address example_guard_request = 0"
  "rq_patch_size example_guard_request = 16" "rq_displaced_size example_guard_request = 1"
  "rq_expected example_guard_request = 0x55 # replicate 15 0x90"
  "rq_desired example_guard_request = 0xc3 # replicate 15 0x90"
  by (simp_all add: example_guard_request_def seal_request_def)

lemma example_guard_valid:
  "request_wf example_guard_request" "shellui_main_thread_guard_request_is_valid example_guard_request 42"
proof -
  have c: "rq_checksum example_guard_request = shellui_hook_request_checksum example_guard_request"
    by (simp only: example_guard_request_def seal_request_checksum)
  show "request_wf example_guard_request" by (simp add: request_wf_def)
  show "shellui_main_thread_guard_request_is_valid example_guard_request 42"
    by (simp add: shellui_main_thread_guard_request_is_valid_def shellui_hook_request_is_main_thread_guard_def
        shellui_hook_request_common_is_valid_def c shellui_user_address_def kShellUiHookPatchSize_def
        list_all_upt nth_Cons split: nat.splits)
qed

lemma example_patch_valid:
  "request_wf example_patch_request" "shellui_hook_request_is_valid example_patch_request 42"
proof -
  have c: "rq_checksum example_patch_request = shellui_hook_request_checksum example_patch_request"
    by (simp only: example_patch_request_def seal_request_checksum)
  have f: "rq_magic example_patch_request = kShellUiHookRequestMagic"
    "rq_version example_patch_request = kShellUiHookProtocolVersion" "rq_pid example_patch_request = 42"
    "rq_nonce example_patch_request = 7" "rq_method_address example_patch_request = 0x200000"
    "rq_hook_address example_patch_request = 0x300000"
    "rq_original_call_address example_patch_request = 0x400000"
    "rq_patch_size example_patch_request = 16" "rq_displaced_size example_patch_request = 15"
    "rq_expected example_patch_request = 0x55 # replicate 15 0x55"
    "rq_desired example_patch_request = [0xff, 0x25, 0, 0, 0, 0, 0, 0, 0x30, 0, 0, 0, 0, 0, 0x90, 0x55]"
    by (simp_all add: example_patch_request_def seal_request_def)
  show "request_wf example_patch_request" by (simp add: request_wf_def f)
  show "shellui_hook_request_is_valid example_patch_request 42"
    by (simp add: shellui_hook_request_is_valid_def shellui_hook_request_is_main_thread_guard_def
        shellui_hook_request_is_probe_def shellui_hook_is_eta_chain_def is_jump_def
        shellui_hook_request_common_is_valid_def c f shellui_user_address_def kShellUiHookPatchSize_def
        kShellUiAbsoluteJumpPrefix_def get_u64_def sub_bytes_def)
qed

theorem guard_request_changes_one_byte_witness:
  "rq_desired example_guard_request = (rq_expected example_guard_request)[0 := 0xc3]"
  using guard_request_changes_one_byte [OF example_guard_valid] by blast

theorem corrupted_request_rejected_witness:
  "\<not> shellui_hook_request_common_is_valid (request_of_bytes ((request_bytes example_guard_request)[0 := 0])) 42"
proof -
  have "rq_magic example_guard_request = kShellUiHookRequestMagic"
    by (simp add: example_guard_request_def seal_request_def)
  then have "request_bytes example_guard_request ! 0 = 0x43"
    by (simp add: request_bytes_def request_body_def kShellUiHookRequestMagic_def to_le_numeral)
  then show ?thesis
    using corrupted_request_rejected [OF example_guard_valid(1), of 42 0 0 42] example_guard_valid(2)
    by (simp add: shellui_main_thread_guard_request_is_valid_def)
qed

theorem patch_request_is_hook_jump_witness:
  "take 14 (rq_desired example_patch_request)
   = kShellUiAbsoluteJumpPrefix @ to_le 8 (unat (rq_hook_address example_patch_request))"
  using patch_request_is_hook_jump [OF example_patch_valid] by blast

end
