(* ===== verification/Instruction_Decoder.thy ===== *)
theory Instruction_Decoder
  imports Hook_Protocol
begin

text \<open>
  The instruction decoder of the renderer (\<^verbatim>\<open>src/ps5/shellui_payload/commonfps_shellui.cpp\<close>):
  how long an instruction is that may be copied elsewhere unchanged, how many whole
  instructions the jump to the hook displaces, the jump itself and the trampoline that runs
  the displaced instructions.  Code is the list of the bytes available; a decoded length of
  zero is a refusal, as in the source.
\<close>

unbundle bit_operations_syntax

section \<open>Definitions\<close>

definition kAbsoluteJumpSize :: nat where "kAbsoluteJumpSize = 14"
definition kAtomicPatchSize :: nat where "kAtomicPatchSize = 16"
definition kTrampolineCapacity :: nat where "kTrampolineCapacity = 128"

definition encode_absolute_jump :: "u64 \<Rightarrow> bytes" where
  "encode_absolute_jump destination = [0xff, 0x25, 0, 0, 0, 0] @ to_le 8 (unat destination)"

text \<open>
  The trampoline is a block of 128 bytes; \<open>None\<close> is a refusal that leaves it alone.  A null
  continuation is \<open>None\<close>.
\<close>

definition prepare_trampoline :: "bytes \<Rightarrow> u64 option \<Rightarrow> bytes \<Rightarrow> bytes option" where
  "prepare_trampoline original continuation trampoline =
     (let original_size = length original;
          jump = (case continuation of None \<Rightarrow> [] | Some c \<Rightarrow> encode_absolute_jump c)
      in if original_size = 0 \<or>
            kTrampolineCapacity < original_size + (if continuation \<noteq> None then kAbsoluteJumpSize else 0)
         then None
         else Some (original @ jump @ drop (original_size + length jump) trampoline))"

definition ignored_prefix :: "u8 \<Rightarrow> bool" where
  "ignored_prefix b \<longleftrightarrow> b \<in> {0xf0, 0xf2, 0xf3, 0x2e, 0x36, 0x3e, 0x26, 0x64, 0x65}"

text \<open>Prefixes: the cursor behind them, REX.W and the operand size override.\<close>

function skip_prefixes :: "bytes \<Rightarrow> nat \<Rightarrow> bool \<Rightarrow> bool \<Rightarrow> (nat \<times> bool \<times> bool) option" where
  "skip_prefixes code cursor rex_w operand16 =
     (if cursor < length code then
        let b = code ! cursor
        in if b = 0x66 then skip_prefixes code (cursor + 1) rex_w True
           else if b = 0x67 then None
           else if ignored_prefix b then skip_prefixes code (cursor + 1) rex_w operand16
           else if 0x40 \<le> b \<and> b \<le> 0x4f then skip_prefixes code (cursor + 1) (b AND 8 \<noteq> 0) operand16
           else Some (cursor, rex_w, operand16)
      else Some (cursor, rex_w, operand16))"
  by auto
termination
  by (relation "measure (\<lambda>(code, cursor, _). length code - cursor)") auto

declare skip_prefixes.simps [simp del]

definition fits :: "bytes \<Rightarrow> nat \<Rightarrow> nat \<Rightarrow> nat" where
  "fits code cursor n = (if cursor + n \<le> length code then cursor + n else 0)"

definition relative_flow :: "u8 \<Rightarrow> bool" where
  "relative_flow opcode \<longleftrightarrow> opcode = 0xe8 \<or> opcode = 0xe9 \<or> opcode = 0xeb \<or>
     (0x70 \<le> opcode \<and> opcode \<le> 0x7f) \<or> (0xe0 \<le> opcode \<and> opcode \<le> 0xe3)"

definition modrm_plain :: "u8 \<Rightarrow> bool" where
  "modrm_plain opcode \<longleftrightarrow> opcode \<in> {0x01, 0x03, 0x09, 0x0b, 0x21, 0x23, 0x29, 0x2b, 0x31, 0x33, 0x39, 0x3b,
     0x63, 0x85, 0x87, 0x89, 0x8b, 0x8d}"

text \<open>The ModRM byte, an SIB byte, a displacement, then the immediate.\<close>

definition modrm_displacement :: "bytes \<Rightarrow> nat \<Rightarrow> u8 \<Rightarrow> nat \<Rightarrow> nat" where
  "modrm_displacement code cursor md immediate =
     (if md = 1 then (if length code < cursor + 1 then 0 else fits code (cursor + 1) immediate)
      else if md = 2 then (if length code < cursor + 4 then 0 else fits code (cursor + 4) immediate)
      else fits code cursor immediate)"

definition decode_modrm :: "bytes \<Rightarrow> nat \<Rightarrow> nat \<Rightarrow> nat" where
  "decode_modrm code cursor immediate =
     (if length code \<le> cursor then 0
      else
        let modrm = code ! cursor; c1 = cursor + 1;
            md = drop_bit 6 modrm; rm = modrm AND 7
        in if md \<noteq> 3 \<and> rm = 4 then
             (if length code \<le> c1 then 0
              else
                let base = (code ! c1) AND 7; c2 = c1 + 1
                in if md = 0 \<and> base = 5 then
                     (if length code < c2 + 4 then 0 else modrm_displacement code (c2 + 4) md immediate)
                   else modrm_displacement code c2 md immediate)
           else if md = 0 \<and> rm = 5 then 0
           else modrm_displacement code c1 md immediate)"

definition decode_opcode :: "bytes \<Rightarrow> nat \<Rightarrow> bool \<Rightarrow> bool \<Rightarrow> nat" where
  "decode_opcode code cursor rex_w operand16 =
     (if length code \<le> cursor then 0
      else
        let opcode = code ! cursor; c = cursor + 1; word_size = (if operand16 then 2 else 4)
        in if (0x50 \<le> opcode \<and> opcode \<le> 0x5f) \<or> opcode = 0x90 then c
           else if opcode = 0x68 then fits code c word_size
           else if opcode = 0x6a then fits code c 1
           else if 0xb8 \<le> opcode \<and> opcode \<le> 0xbf then fits code c (if rex_w then 8 else word_size)
           else if relative_flow opcode then 0
           else if modrm_plain opcode then decode_modrm code c 0
           else if opcode \<in> {0x80, 0x82, 0x83, 0xc6} then decode_modrm code c 1
           else if opcode \<in> {0x81, 0xc7} then decode_modrm code c word_size
           else if opcode = 0x0f then
             (if length code \<le> c then 0
              else
                let second = code ! c
                in if 0x80 \<le> second \<and> second \<le> 0x8f then 0
                   else if second \<in> {0x1e, 0x1f, 0xb6, 0xb7, 0xbe, 0xbf} then decode_modrm code (c + 1) 0
                   else 0)
           else 0)"

definition decode_relocatable_instruction :: "bytes \<Rightarrow> nat" where
  "decode_relocatable_instruction code =
     (case skip_prefixes code 0 False False of
        None \<Rightarrow> 0
      | Some (cursor, rex_w, operand16) \<Rightarrow> decode_opcode code cursor rex_w operand16)"

text \<open>The loop over whole instructions; the code is the 16 bytes of a patch.\<close>

function patch_length_from :: "bytes \<Rightarrow> nat \<Rightarrow> nat" where
  "patch_length_from code len =
     (if len < kAbsoluteJumpSize then
        let decoded = decode_relocatable_instruction (sub_bytes len (kAtomicPatchSize - len) code)
        in if decoded = 0 then 0 else patch_length_from code (len + decoded)
      else if len \<le> kAtomicPatchSize then len else 0)"
  by auto
termination
  by (relation "measure (\<lambda>(code, len). kAbsoluteJumpSize - len)") auto

declare patch_length_from.simps [simp del]

definition native_patch_length :: "bytes \<Rightarrow> nat" where
  "native_patch_length code = patch_length_from code 0"

section \<open>Lengths\<close>

lemma fits_pos: "fits code cursor n = m \<Longrightarrow> 0 < m \<Longrightarrow> m = cursor + n \<and> m \<le> length code"
  by (auto simp: fits_def split: if_splits)

lemma modrm_displacement_pos:
  "modrm_displacement code cursor md imm = m \<Longrightarrow> 0 < m \<Longrightarrow> cursor \<le> m \<and> m \<le> length code"
  by (auto simp: modrm_displacement_def fits_def split: if_splits)

lemma decode_modrm_pos:
  assumes "decode_modrm code cursor imm = m" "0 < m"
  shows "cursor < m \<and> m \<le> length code"
  using assms
  by (auto simp: decode_modrm_def Let_def split: if_splits dest!: modrm_displacement_pos [OF refl])

text \<open>Case distinctions on an opcode without looking at the opcode.\<close>

lemma if_cases: "(b \<Longrightarrow> P x) \<Longrightarrow> (\<not> b \<Longrightarrow> P y) \<Longrightarrow> P (if b then x else y)"
  by simp

lemma if_related:
  "(if b then x else y) = n \<Longrightarrow> (b \<Longrightarrow> x = n \<Longrightarrow> x' = n) \<Longrightarrow> (\<not> b \<Longrightarrow> y = n \<Longrightarrow> y' = n) \<Longrightarrow>
   (if b then x' else y') = n"
  by (simp split: if_splits)

lemma decode_opcode_pos:
  assumes "decode_opcode code cursor rex_w op16 = m" "0 < m"
  shows "cursor < m \<and> m \<le> length code"
proof -
  let ?P = "\<lambda>m. 0 < m \<longrightarrow> cursor < m \<and> m \<le> length code"
  have d: "?P (decode_modrm code (cursor + 1) k)" "?P (decode_modrm code (cursor + 1 + 1) k)" for k
    using decode_modrm_pos [OF refl, of code "cursor + 1" k] decode_modrm_pos [OF refl, of code "cursor + 1 + 1" k]
    by auto
  have f: "?P (fits code (cursor + 1) k)" for k by (simp add: fits_def)
  have "?P (decode_opcode code cursor rex_w op16)"
    unfolding decode_opcode_def Let_def
    by (intro if_cases [where P = "?P"] d f) simp_all
  with assms show ?thesis by simp
qed

text \<open>Two buffers that agree on the bytes of an instruction.\<close>

definition agree :: "nat \<Rightarrow> bytes \<Rightarrow> bytes \<Rightarrow> bool" where
  "agree n code code' \<longleftrightarrow> n \<le> length code \<and> n \<le> length code' \<and> (\<forall>i<n. code ! i = code' ! i)"

lemma fits_agree: "fits code c k = n \<Longrightarrow> 0 < n \<Longrightarrow> agree n code code' \<Longrightarrow> fits code' c k = n"
  by (auto simp: fits_def agree_def split: if_splits)

lemma modrm_displacement_agree:
  "modrm_displacement code c md k = n \<Longrightarrow> 0 < n \<Longrightarrow> agree n code code' \<Longrightarrow> modrm_displacement code' c md k = n"
  by (auto simp: modrm_displacement_def fits_def agree_def split: if_splits)

lemma decode_modrm_agree:
  assumes "decode_modrm code c k = n" "0 < n" "agree n code code'"
  shows "decode_modrm code' c k = n"
proof -
  have c: "c < n" "n \<le> length code" using decode_modrm_pos [OF assms(1,2)] by auto
  have e: "code' ! i = code ! i" if "i < n" for i using assms(3) that by (simp add: agree_def)
  have l: "n \<le> length code'" using assms(3) by (simp add: agree_def)
  have "c + 1 < n" if "drop_bit 6 (code ! c) \<noteq> 3 \<and> (code ! c) AND 7 = 4"
    using assms(1,2) that by (auto simp: decode_modrm_def Let_def split: if_splits dest!: modrm_displacement_pos [OF refl])
  then have e1: "code' ! Suc c = code ! Suc c" if "drop_bit 6 (code ! c) \<noteq> 3 \<and> (code ! c) AND 7 = 4"
    using e that by simp
  have m: "modrm_displacement code' x md k = n \<and> x \<le> length code'" if "modrm_displacement code x md k = n" for x md
    using modrm_displacement_agree [OF that assms(2,3)] modrm_displacement_pos [OF that assms(2)] l by simp
  let ?md = "drop_bit 6 (code ! c)"
  let ?cont = "\<lambda>code. if ?md \<noteq> 3 \<and> (code ! c) AND 7 = 4 then
       (if length code \<le> c + 1 then 0
        else if ?md = 0 \<and> (code ! (c + 1)) AND 7 = 5
        then (if length code < c + 1 + 1 + 4 then 0 else modrm_displacement code (c + 1 + 1 + 4) ?md k)
        else modrm_displacement code (c + 1 + 1) ?md k)
     else if ?md = 0 \<and> (code ! c) AND 7 = 5 then 0 else modrm_displacement code (c + 1) ?md k"
  have nle: "(length code \<le> c) = False" "(length code' \<le> c) = False" using c l by simp_all
  have r: "?cont code = n" using assms(1) unfolding decode_modrm_def Let_def nle if_False .
  have "?cont code' = n"
  proof (cases "?md \<noteq> 3 \<and> (code ! c) AND 7 = 4")
    case True
    then show ?thesis
      using r e [OF c(1)] e1 assms(2) m [of "c + 1 + 1 + 4" ?md] m [of "c + 1 + 1" ?md]
      by (cases "?md = 0 \<and> (code ! (c + 1)) AND 7 = 5") (auto split: if_splits)
  next
    case False
    then show ?thesis using r e [OF c(1)] assms(2) m [of "c + 1" ?md] by (auto split: if_splits)
  qed
  then show ?thesis unfolding decode_modrm_def Let_def nle if_False e [OF c(1)] .
qed

lemma decode_opcode_agree:
  assumes "decode_opcode code c rex_w op16 = n" "0 < n" "agree n code code'"
  shows "decode_opcode code' c rex_w op16 = n"
proof -
  have c: "c < n" "n \<le> length code" using decode_opcode_pos [OF assms(1,2)] by auto
  have e: "code' ! i = code ! i" if "i < n" for i using assms(3) that by (simp add: agree_def)
  have l: "n \<le> length code'" using assms(3) by (simp add: agree_def)
  note f = fits_agree [OF _ assms(2,3)] and d = decode_modrm_agree [OF _ assms(2,3)]
  have s: "c + 1 < n" if "decode_modrm code (c + 1 + 1) 0 = n"
    using decode_modrm_pos [OF that assms(2)] by simp
  have x: "(if length code' \<le> c + 1 then 0 else
      if 0x80 \<le> code' ! (c + 1) \<and> code' ! (c + 1) \<le> 0x8f then 0
      else if code' ! (c + 1) \<in> {0x1e, 0x1f, 0xb6, 0xb7, 0xbe, 0xbf} then decode_modrm code' (c + 1 + 1) 0 else 0) = n"
    if "(if length code \<le> c + 1 then 0 else
      if 0x80 \<le> code ! (c + 1) \<and> code ! (c + 1) \<le> 0x8f then 0
      else if code ! (c + 1) \<in> {0x1e, 0x1f, 0xb6, 0xb7, 0xbe, 0xbf} then decode_modrm code (c + 1 + 1) 0 else 0) = n"
    using that s e [of "c + 1"] d [of "c + 1 + 1" 0] assms(2) l by (simp only: split: if_splits) auto
  have "\<not> length code \<le> c" "\<not> length code' \<le> c" using c l by auto
  then show ?thesis
    using assms(1) unfolding decode_opcode_def Let_def e [OF c(1)]
    apply (simp only: if_False)
    apply (erule if_related; (assumption | erule f | erule d | erule x | simp only:)?)+
    done
qed

lemma skip_prefixes_agree:
  "skip_prefixes code c r w = Some (c', r', w') \<Longrightarrow> c' < n \<Longrightarrow> agree n code code' \<Longrightarrow>
   c \<le> c' \<and> skip_prefixes code' c r w = Some (c', r', w')"
proof (induction code c r w rule: skip_prefixes.induct)
  case (1 code c r w)
  show ?case
  proof (cases "c < length code")
    case True
    let ?b = "code ! c"
    consider (o16) "?b = 0x66" | (other) "?b \<noteq> 0x66" "ignored_prefix ?b"
      | (rex) "?b \<noteq> 0x66" "\<not> ignored_prefix ?b" "0x40 \<le> ?b \<and> ?b \<le> 0x4f"
      | (stop) "?b \<noteq> 0x66" "\<not> ignored_prefix ?b" "\<not> (0x40 \<le> ?b \<and> ?b \<le> 0x4f)"
      by blast
    note here = this and s = skip_prefixes.simps [of code c r w] skip_prefixes.simps [of code' c r w]
    have ne: "?b \<noteq> 0x67" using 1(4) True s(1) by (auto simp: ignored_prefix_def Let_def)
    have "c < n \<Longrightarrow> code' ! c = ?b \<and> c < length code'" using 1(6) by (simp add: agree_def)
    with here show ?thesis
      using 1 True ne s by cases (fastforce simp: Let_def)+
  next
    case False
    then show ?thesis using 1(4-) skip_prefixes.simps [of code c r w] by (simp add: agree_def)
  qed
qed

lemma decode_pos:
  assumes "decode_relocatable_instruction code = n" "0 < n"
  obtains c r w where "skip_prefixes code 0 False False = Some (c, r, w)" "decode_opcode code c r w = n"
    "c < n" "n \<le> length code"
  using assms decode_opcode_pos
  by (auto simp: decode_relocatable_instruction_def split: option.splits prod.splits)

lemma decode_agree:
  assumes "decode_relocatable_instruction code = n" "0 < n" "agree n code code'"
  shows "decode_relocatable_instruction code' = n"
proof -
  obtain c r w where d: "skip_prefixes code 0 False False = Some (c, r, w)" "decode_opcode code c r w = n" "c < n"
    using decode_pos [OF assms(1,2)] by metis
  show ?thesis
    using skip_prefixes_agree [OF d(1,3) assms(3)] decode_opcode_agree [OF d(2) assms(2,3)]
    by (simp add: decode_relocatable_instruction_def)
qed

lemma agree_take: "n \<le> length code \<Longrightarrow> agree n code (take n code @ rest)"
  by (simp add: agree_def nth_append)

section \<open>Properties\<close>

text \<open>
  The decoder never claims bytes it was not given, and the length it gives depends only on
  the bytes of the instruction itself: whatever follows them, in the trampoline as in the
  original method, the instruction decodes to the same length.
\<close>

theorem decoded_instruction_self_contained:
  assumes "decode_relocatable_instruction code = n" "0 < n"
  shows "n \<le> length code \<and> (\<forall>rest. decode_relocatable_instruction (take n code @ rest) = n)"
proof -
  have "n \<le> length code" using decode_pos [OF assms] by metis
  with decode_agree [OF assms] agree_take show ?thesis by blast
qed

theorem decoded_instruction_self_contained_witness:
  "decode_relocatable_instruction ([0x48, 0x83, 0xec, 0x28] @ [0xc3]) = 4"
proof -
  have "decode_relocatable_instruction [0x48, 0x83, 0xec, 0x28, 0x90] = 4"
    by (simp add: decode_relocatable_instruction_def skip_prefixes.simps ignored_prefix_def decode_opcode_def
        relative_flow_def modrm_plain_def decode_modrm_def modrm_displacement_def fits_def Let_def)
  from decoded_instruction_self_contained [OF this] show ?thesis by simp
qed

text \<open>
  What may be moved: behind its prefixes the instruction is no relative jump or call, short or
  long, and its operand is not addressed relative to the instruction pointer.  (The decoder does
  not tell C7 F8 apart, the start of a memory transaction with a relative address, which the
  console's processor does not have.)
\<close>

definition position_independent :: "bytes \<Rightarrow> bool" where
  "position_independent i \<longleftrightarrow>
     (case skip_prefixes i 0 False False of
        None \<Rightarrow> False
      | Some (p, _, _) \<Rightarrow>
          p < length i \<and> \<not> relative_flow (i ! p) \<and>
          (i ! p = 0x0f \<longrightarrow> p + 2 < length i \<and> \<not> (0x80 \<le> i ! (p + 1) \<and> i ! (p + 1) \<le> 0x8f) \<and>
             \<not> (drop_bit 6 (i ! (p + 2)) = 0 \<and> i ! (p + 2) AND 7 = 5)) \<and>
          (modrm_plain (i ! p) \<or> i ! p \<in> {0x80, 0x81, 0x82, 0x83, 0xc6, 0xc7} \<longrightarrow>
             p + 1 < length i \<and> \<not> (drop_bit 6 (i ! (p + 1)) = 0 \<and> i ! (p + 1) AND 7 = 5)))"

lemma decode_modrm_not_rip:
  assumes "decode_modrm code c k = n" "0 < n"
  shows "c < length code \<and> \<not> (drop_bit 6 (code ! c) = 0 \<and> code ! c AND 7 = 5)"
  using assms by (auto simp: decode_modrm_def Let_def split: if_splits)

lemma decode_opcode_safe:
  assumes "decode_opcode code p r w = n" "0 < n"
  shows "\<not> relative_flow (code ! p)"
    "code ! p = 0x0f \<Longrightarrow> \<not> (0x80 \<le> code ! (p + 1) \<and> code ! (p + 1) \<le> 0x8f) \<and> decode_modrm code (p + 2) 0 = n"
    "modrm_plain (code ! p) \<or> code ! p \<in> {0x80, 0x81, 0x82, 0x83, 0xc6, 0xc7} \<Longrightarrow> \<exists>k. decode_modrm code (p + 1) k = n"
proof -
  show "\<not> relative_flow (code ! p)"
  proof
    assume f: "relative_flow (code ! p)"
    then have "\<not> (0x50 \<le> code ! p \<and> code ! p \<le> 0x5f)" "code ! p \<noteq> 0x90" "code ! p \<noteq> 0x68" "code ! p \<noteq> 0x6a"
      "\<not> (0xb8 \<le> code ! p \<and> code ! p \<le> 0xbf)"
      unfolding relative_flow_def by (auto simp: word_le_nat_alt)
    with f assms show False by (simp add: decode_opcode_def Let_def split: if_splits)
  qed
  show "code ! p = 0x0f \<Longrightarrow> \<not> (0x80 \<le> code ! (p + 1) \<and> code ! (p + 1) \<le> 0x8f) \<and> decode_modrm code (p + 2) 0 = n"
    using assms by (simp add: decode_opcode_def Let_def relative_flow_def modrm_plain_def split: if_splits)
  show "\<exists>k. decode_modrm code (p + 1) k = n"
    if "modrm_plain (code ! p) \<or> code ! p \<in> {0x80, 0x81, 0x82, 0x83, 0xc6, 0xc7}"
  proof -
    have "\<not> (0x50 \<le> code ! p \<and> code ! p \<le> 0x5f)" "code ! p \<noteq> 0x90" "code ! p \<noteq> 0x68" "code ! p \<noteq> 0x6a"
      "\<not> (0xb8 \<le> code ! p \<and> code ! p \<le> 0xbf)" "\<not> relative_flow (code ! p)"
      using that unfolding relative_flow_def modrm_plain_def by (auto simp: word_le_nat_alt)
    with that assms show ?thesis by (auto simp: decode_opcode_def Let_def split: if_splits)
  qed
qed

lemma decoded_position_independent:
  assumes "decode_relocatable_instruction i = length i" "0 < length i"
  shows "position_independent i"
proof -
  obtain p r w where d: "skip_prefixes i 0 False False = Some (p, r, w)" "decode_opcode i p r w = length i" "p < length i"
    using decode_pos [OF assms] by metis
  note s = decode_opcode_safe [OF d(2) assms(2)]
  show ?thesis
    using d(1,3) s(1,2) s(3) decode_modrm_not_rip [OF _ assms(2)]
    unfolding position_independent_def by (simp only: option.case prod.case) blast
qed

lemma patch_length_from_split:
  assumes "patch_length_from code len = n" "0 < n" "length code = kAtomicPatchSize" "len \<le> kAtomicPatchSize"
  shows "kAbsoluteJumpSize \<le> n \<and> n \<le> kAtomicPatchSize \<and> len \<le> n \<and>
    (\<exists>parts. concat parts = sub_bytes len (n - len) code \<and>
       (\<forall>i\<in>set parts. 0 < length i \<and> decode_relocatable_instruction i = length i))"
  using assms
proof (induction "kAbsoluteJumpSize - len" arbitrary: len rule: less_induct)
  case less
  show ?case
  proof (cases "len < kAbsoluteJumpSize")
    case False
    then show ?thesis
      using less.prems by (auto simp: patch_length_from.simps [of code len] sub_bytes_def split: if_splits intro!: exI [of _ "[]"])
  next
    case True
    let ?tail = "sub_bytes len (kAtomicPatchSize - len) code"
    let ?d = "decode_relocatable_instruction ?tail"
    have d: "0 < ?d" "patch_length_from code (len + ?d) = n"
      using less.prems(1,2) True by (auto simp: patch_length_from.simps [of code len] Let_def split: if_splits)
    have le: "?d \<le> length ?tail" "\<forall>rest. decode_relocatable_instruction (take ?d ?tail @ rest) = ?d"
      using decode_pos [OF refl d(1)] decode_agree [OF refl d(1)] agree_take by (metis, metis)
    then have l: "len + ?d \<le> kAtomicPatchSize" using less.prems(3,4) by (simp add: sub_bytes_def)
    obtain parts where i: "kAbsoluteJumpSize \<le> n" "n \<le> kAtomicPatchSize" "len + ?d \<le> n"
        "concat parts = sub_bytes (len + ?d) (n - (len + ?d)) code"
        "\<forall>i\<in>set parts. 0 < length i \<and> decode_relocatable_instruction i = length i"
      using less.hyps [OF _ d(2) less.prems(2,3) l] d(1) True by (metis diff_add_inverse diff_less_mono2 less_add_same_cancel1)
    let ?i = "take ?d ?tail"
    have len: "length ?i = ?d" using le(1) by simp
    have dec: "decode_relocatable_instruction ?i = ?d" using le(2) [rule_format, of "[]"] by simp
    have "?i = sub_bytes len ?d code"
      using l by (simp add: sub_bytes_def min_def)
    then have "concat (?i # parts) = sub_bytes len (n - len) code"
      using i(3,4) sub_bytes_join [of "len + ?d" len ?d code "n - (len + ?d)"] by simp
    moreover have "\<forall>i\<in>set (?i # parts). 0 < length i \<and> decode_relocatable_instruction i = length i"
      unfolding list.set using i(5) len dec d(1) by (metis insert_iff)
    ultimately have ex: "\<exists>parts. concat parts = sub_bytes len (n - len) code \<and>
        (\<forall>i\<in>set parts. 0 < length i \<and> decode_relocatable_instruction i = length i)" by blast
    have "len \<le> n" using i(3) by (rule add_leD1)
    with i(1,2) ex show ?thesis by blast
  qed
qed

section \<open>The length the processor gives\<close>

text \<open>
  A reference for 64-bit mode, written from the encoding and not from the decoder: legacy
  prefixes, one REX prefix right in front of the opcode, the operands of the opcode from the
  opcode map (a part of it, larger than what the decoder accepts; 82 is the old alias of 80),
  ModRM with SIB and displacement, and the immediate, whose size REX.W and the operand size
  prefix decide, REX.W first.
\<close>

datatype immediate = NoImm | Imm8 | ImmZ | ImmV

definition legacy_prefix :: "u8 \<Rightarrow> bool" where
  "legacy_prefix b \<longleftrightarrow> ignored_prefix b \<or> b = 0x66 \<or> b = 0x67"

definition rex_prefix :: "u8 \<Rightarrow> bool" where
  "rex_prefix b \<longleftrightarrow> 0x40 \<le> b \<and> b \<le> 0x4f"

text \<open>Whether there is a ModRM byte, and the immediate.\<close>

definition one_byte_form :: "u8 \<Rightarrow> (bool \<times> immediate) option" where
  "one_byte_form b =
     (if b < 0x40 then
        (if b AND 7 < 4 then Some (True, NoImm) else if b AND 7 = 4 then Some (False, Imm8)
         else if b AND 7 = 5 then Some (False, ImmZ) else None)
      else if 0x50 \<le> b \<and> b < 0x60 then Some (False, NoImm)
      else if b = 0x63 then Some (True, NoImm)
      else if b = 0x68 then Some (False, ImmZ)
      else if b = 0x69 then Some (True, ImmZ)
      else if b = 0x6a then Some (False, Imm8)
      else if b = 0x6b then Some (True, Imm8)
      else if b = 0x81 then Some (True, ImmZ)
      else if b = 0x80 \<or> b = 0x82 \<or> b = 0x83 then Some (True, Imm8)
      else if 0x84 \<le> b \<and> b < 0x8f then Some (True, NoImm)
      else if 0x90 \<le> b \<and> b < 0x98 then Some (False, NoImm)
      else if b = 0xa8 then Some (False, Imm8)
      else if b = 0xa9 then Some (False, ImmZ)
      else if 0xb0 \<le> b \<and> b < 0xb8 then Some (False, Imm8)
      else if 0xb8 \<le> b \<and> b < 0xc0 then Some (False, ImmV)
      else if b = 0xc0 \<or> b = 0xc1 \<or> b = 0xc6 then Some (True, Imm8)
      else if b = 0xc3 \<or> b = 0xc9 then Some (False, NoImm)
      else if b = 0xc7 then Some (True, ImmZ)
      else None)"

definition two_byte_form :: "u8 \<Rightarrow> (bool \<times> immediate) option" where
  "two_byte_form b =
     (if b = 0x05 \<or> b = 0xa2 then Some (False, NoImm)
      else if (0x10 \<le> b \<and> b < 0x20) \<or> (0x40 \<le> b \<and> b < 0x50) \<or> (0x90 \<le> b \<and> b < 0xa0) then Some (True, NoImm)
      else if b = 0xaf \<or> b = 0xb6 \<or> b = 0xb7 \<or> b = 0xbe \<or> b = 0xbf then Some (True, NoImm)
      else if b = 0xba then Some (True, Imm8)
      else None)"

definition immediate_bytes :: "bool \<Rightarrow> bool \<Rightarrow> immediate \<Rightarrow> nat" where
  "immediate_bytes rex_w operand16 i =
     (case i of NoImm \<Rightarrow> 0 | Imm8 \<Rightarrow> 1
      | ImmZ \<Rightarrow> if rex_w then 4 else if operand16 then 2 else 4
      | ImmV \<Rightarrow> if rex_w then 8 else if operand16 then 2 else 4)"

text \<open>ModRM, SIB and displacement at the front of a list.\<close>

fun modrm_bytes :: "bytes \<Rightarrow> nat option" where
  "modrm_bytes [] = None"
| "modrm_bytes (m # r) =
     (let md = drop_bit 6 m; rm = m AND 7
      in if md = 3 then Some 1
         else if rm = 4 then
           (case r of [] \<Rightarrow> None
            | sib # _ \<Rightarrow> Some (2 + (if md = 1 then 1 else if md = 2 then 4 else if sib AND 7 = 5 then 4 else 0)))
         else Some (1 + (if md = 1 then 1 else if md = 2 then 4 else if rm = 5 then 4 else 0)))"

definition operand_bytes :: "bool \<Rightarrow> bool \<Rightarrow> (bool \<times> immediate) option \<Rightarrow> bytes \<Rightarrow> nat option" where
  "operand_bytes rex_w operand16 form r =
     (case form of None \<Rightarrow> None
      | Some (has_modrm, imm) \<Rightarrow>
          map_option (\<lambda>k. k + immediate_bytes rex_w operand16 imm) (if has_modrm then modrm_bytes r else Some 0))"

text \<open>The prefixes: how many legacy ones, the REX prefix, and what follows.\<close>

definition legacy_count :: "bytes \<Rightarrow> nat" where
  "legacy_count i = length (takeWhile legacy_prefix i)"

definition has_rex :: "bytes \<Rightarrow> bool" where
  "has_rex i \<longleftrightarrow> legacy_count i < length i \<and> rex_prefix (i ! legacy_count i)"

definition has_rex_w :: "bytes \<Rightarrow> bool" where
  "has_rex_w i \<longleftrightarrow> has_rex i \<and> i ! legacy_count i AND 8 \<noteq> 0"

definition has_operand16 :: "bytes \<Rightarrow> bool" where
  "has_operand16 i \<longleftrightarrow> 0x66 \<in> set (takeWhile legacy_prefix i)"

definition opcode_at :: "bytes \<Rightarrow> nat" where
  "opcode_at i = legacy_count i + (if has_rex i then 1 else 0)"

definition x86_length :: "bytes \<Rightarrow> nat option" where
  "x86_length i =
     (case drop (opcode_at i) i of
        [] \<Rightarrow> None
      | opcode # r \<Rightarrow>
          if opcode = 0x0f then
            (case r of [] \<Rightarrow> None
             | second # r2 \<Rightarrow> map_option (\<lambda>k. opcode_at i + 2 + k) (operand_bytes (has_rex_w i) (has_operand16 i) (two_byte_form second) r2))
          else map_option (\<lambda>k. opcode_at i + 1 + k) (operand_bytes (has_rex_w i) (has_operand16 i) (one_byte_form opcode) r))"

text \<open>
  Prefixes as compilers emit them: nothing but the opcode behind a REX prefix, and no operand
  size prefix together with REX.W, where the decoder gives the wrong one precedence.
\<close>

definition well_prefixed :: "bytes \<Rightarrow> bool" where
  "well_prefixed i \<longleftrightarrow> opcode_at i < length i \<and> \<not> legacy_prefix (i ! opcode_at i) \<and> \<not> rex_prefix (i ! opcode_at i) \<and>
     \<not> (has_rex_w i \<and> has_operand16 i)"

lemma ignored_not_rex: "ignored_prefix b \<Longrightarrow> \<not> rex_prefix b" "\<not> rex_prefix 0x66" "\<not> rex_prefix 0x67"
  by (auto simp: ignored_prefix_def rex_prefix_def)

text \<open>The decoder's prefixes are those of the reference.\<close>

lemma skip_legacy:
  "skip_prefixes code c r w = Some s \<Longrightarrow> m = length (takeWhile legacy_prefix (drop c code)) \<Longrightarrow>
   skip_prefixes code (c + m) r (w \<or> 0x66 \<in> set (takeWhile legacy_prefix (drop c code))) = Some s"
proof (induction m arbitrary: c w)
  case 0
  then show ?case by simp
next
  case (Suc m)
  have c: "c < length code" using Suc.prems(2) by (cases "c < length code") auto
  then have d: "drop c code = code ! c # drop (Suc c) code" by (simp add: Cons_nth_drop_Suc)
  have l: "legacy_prefix (code ! c)" using Suc.prems(2) by (cases "legacy_prefix (code ! c)") (simp_all add: d)
  then have t: "takeWhile legacy_prefix (drop c code) = code ! c # takeWhile legacy_prefix (drop (Suc c) code)" by (simp add: d)
  have "code ! c \<noteq> 0x67" using Suc.prems(1) c skip_prefixes.simps [of code c r w] by auto
  then have "skip_prefixes code (Suc c) r (w \<or> code ! c = 0x66) = Some s"
    using Suc.prems(1) c l skip_prefixes.simps [of code c r w] by (auto simp: legacy_prefix_def Let_def split: if_splits)
  from Suc.IH [OF this] show ?case using Suc.prems(2) by (simp add: t disj_assoc)
qed

lemma skip_well_prefixed:
  assumes "skip_prefixes i 0 False False = Some s" "well_prefixed i"
  shows "s = (opcode_at i, has_rex_w i, has_operand16 i)"
proof -
  let ?n = "legacy_count i"
  have s: "skip_prefixes i ?n False (has_operand16 i) = Some s"
    using skip_legacy [OF assms(1) refl] by (simp add: legacy_count_def has_operand16_def)
  have stop: "skip_prefixes i (opcode_at i) r o16 = Some (opcode_at i, r, o16)" for r o16
    using assms(2) by (subst skip_prefixes.simps) (auto simp: well_prefixed_def legacy_prefix_def rex_prefix_def Let_def)
  show ?thesis
  proof (cases "has_rex i")
    case True
    then have "skip_prefixes i ?n False (has_operand16 i) = skip_prefixes i (?n + 1) (i ! ?n AND 8 \<noteq> 0) (has_operand16 i)"
      using ignored_not_rex by (subst skip_prefixes.simps) (auto simp: has_rex_def rex_prefix_def Let_def)
    then show ?thesis using s stop True by (simp add: opcode_at_def has_rex_w_def)
  next
    case False
    then show ?thesis using s stop by (simp add: opcode_at_def has_rex_w_def)
  qed
qed

text \<open>So are the operands.\<close>

lemma two_bits:
  fixes m :: u8
  shows "drop_bit 6 m = 0 \<or> drop_bit 6 m = 1 \<or> drop_bit 6 m = 2 \<or> drop_bit 6 m = 3"
proof -
  have "unat (drop_bit 6 m) = unat m div 64" by (simp add: drop_bit_eq_div unat_div)
  then have "unat (drop_bit 6 m) < 4" using unat_u8 [of m] by simp
  then have "unat (drop_bit 6 m) = 0 \<or> unat (drop_bit 6 m) = 1 \<or> unat (drop_bit 6 m) = 2 \<or> unat (drop_bit 6 m) = 3" by linarith
  then show ?thesis by (auto dest: arg_cong [where f = "of_nat :: nat \<Rightarrow> u8"])
qed

lemma modrm_reference:
  assumes "decode_modrm code c imm = n" "0 < n"
  shows "\<exists>k. modrm_bytes (drop c code) = Some k \<and> n = c + k + imm"
proof -
  have c: "c < length code" using assms by (auto simp: decode_modrm_def split: if_splits)
  then have d: "drop c code = code ! c # drop (Suc c) code" by (simp add: Cons_nth_drop_Suc)
  have e: "drop (Suc c) code = code ! Suc c # drop (Suc (Suc c)) code" if "Suc c < length code"
    using that by (simp add: Cons_nth_drop_Suc)
  have neq: "(3 :: u8) \<noteq> 1" "(3 :: u8) \<noteq> 2" "(0 :: u8) \<noteq> 1" by simp_all
  show ?thesis
    using assms c neq two_bits [of "code ! c"]
    by (cases "Suc c < length code")
      (auto simp: d e decode_modrm_def modrm_displacement_def fits_def Let_def split: if_splits)
qed

lemma plain_form: "modrm_plain b \<Longrightarrow> one_byte_form b = Some (True, NoImm) \<and> b \<noteq> 0x0f"
  unfolding modrm_plain_def insert_iff empty_iff
  by (elim disjE FalseE) (hypsubst, simp add: one_byte_form_def)+

lemma push_form: "0x50 \<le> b \<and> b \<le> (0x5f :: u8) \<Longrightarrow> one_byte_form b = Some (False, NoImm) \<and> b \<noteq> 0x0f"
  by (auto simp: one_byte_form_def word_le_nat_alt word_less_nat_alt)

lemma mov_form: "0xb8 \<le> b \<and> b \<le> (0xbf :: u8) \<Longrightarrow> one_byte_form b = Some (False, ImmV) \<and> b \<noteq> 0x0f"
  by (auto simp: one_byte_form_def word_le_nat_alt word_less_nat_alt)

lemma fixed_forms:
  "one_byte_form 0x90 = Some (False, NoImm)" "one_byte_form 0x68 = Some (False, ImmZ)" "one_byte_form 0x6a = Some (False, Imm8)"
  "b \<in> {0x80, 0x82, 0x83, 0xc6} \<Longrightarrow> one_byte_form b = Some (True, Imm8) \<and> b \<noteq> 0x0f"
  "b \<in> {0x81, 0xc7} \<Longrightarrow> one_byte_form b = Some (True, ImmZ) \<and> b \<noteq> 0x0f"
  "b \<in> {0x1e, 0x1f, 0xb6, 0xb7, 0xbe, 0xbf} \<Longrightarrow> two_byte_form b = Some (True, NoImm)"
  unfolding insert_iff empty_iff
  by (simp add: one_byte_form_def, simp add: one_byte_form_def, simp add: one_byte_form_def,
      (elim disjE FalseE; hypsubst; simp add: one_byte_form_def two_byte_form_def)+)

text \<open>The operands of one opcode, at its place.\<close>

definition opcode_length :: "bytes \<Rightarrow> nat \<Rightarrow> bool \<Rightarrow> bool \<Rightarrow> nat option" where
  "opcode_length i p w o16 =
     (case drop p i of
        [] \<Rightarrow> None
      | opcode # r \<Rightarrow>
          if opcode = 0x0f then
            (case r of [] \<Rightarrow> None
             | second # r2 \<Rightarrow> map_option (\<lambda>k. p + 2 + k) (operand_bytes w o16 (two_byte_form second) r2))
          else map_option (\<lambda>k. p + 1 + k) (operand_bytes w o16 (one_byte_form opcode) r))"

lemma opcode_reference:
  assumes "decode_opcode code c w o16 = n" "0 < n" "\<not> (w \<and> o16)"
  shows "opcode_length code c w o16 = Some n"
proof -
  have c: "c < length code" using assms(1,2) by (auto simp: decode_opcode_def split: if_splits)
  then have d: "drop c code = code ! c # drop (Suc c) code" by (simp add: Cons_nth_drop_Suc)
  have one: "opcode_length code c w o16 = Some n"
    if form: "one_byte_form (code ! c) = Some (m, im)" "code ! c \<noteq> 0x0f"
      and dec: "if m then decode_modrm code (Suc c) (immediate_bytes w o16 im) = n else n = Suc c + immediate_bytes w o16 im" for m im
  proof (cases m)
    case True
    then obtain k where "modrm_bytes (drop (Suc c) code) = Some k" "n = Suc c + k + immediate_bytes w o16 im"
      using modrm_reference [of code "Suc c" "immediate_bytes w o16 im" n] dec assms(2) by auto
    then show ?thesis using form True by (simp add: opcode_length_def d operand_bytes_def)
  qed (use form dec in \<open>simp add: opcode_length_def d operand_bytes_def\<close>)
  have two: "opcode_length code c w o16 = Some n"
    if "code ! c = 0x0f" "Suc c < length code" "code ! Suc c \<in> {0x1e, 0x1f, 0xb6, 0xb7, 0xbe, 0xbf}"
      "decode_modrm code (Suc (Suc c)) 0 = n"
  proof -
    have "drop (Suc c) code = code ! Suc c # drop (Suc (Suc c)) code" using that(2) by (simp add: Cons_nth_drop_Suc)
    then show ?thesis using that modrm_reference [OF that(4) assms(2)] fixed_forms(6) [OF that(3)]
      by (auto simp: opcode_length_def d operand_bytes_def immediate_bytes_def)
  qed
  have z: "immediate_bytes w o16 NoImm = 0" "immediate_bytes w o16 Imm8 = 1" "immediate_bytes w o16 ImmZ = (if o16 then 2 else 4)"
    "immediate_bytes w o16 ImmV = (if w then 8 else if o16 then 2 else 4)"
    using assms(3) by (auto simp: immediate_bytes_def)
  let ?b = "code ! c"
  consider (push) "(0x50 \<le> ?b \<and> ?b \<le> 0x5f) \<or> ?b = 0x90" "n = Suc c"
    | (pushz) "?b = 0x68" "n = Suc c + (if o16 then 2 else 4)" | (push8) "?b = 0x6a" "n = Suc c + 1"
    | (mov) "0xb8 \<le> ?b \<and> ?b \<le> 0xbf" "n = Suc c + (if w then 8 else if o16 then 2 else 4)"
    | (plain) "modrm_plain ?b" "decode_modrm code (Suc c) 0 = n"
    | (alu8) "?b \<in> {0x80, 0x82, 0x83, 0xc6}" "decode_modrm code (Suc c) 1 = n"
    | (aluz) "?b \<in> {0x81, 0xc7}" "decode_modrm code (Suc c) (if o16 then 2 else 4) = n"
    | (long) "?b = 0x0f" "Suc c < length code" "code ! Suc c \<in> {0x1e, 0x1f, 0xb6, 0xb7, 0xbe, 0xbf}"
        "decode_modrm code (Suc (Suc c)) 0 = n"
    using assms(1,2) c unfolding decode_opcode_def Let_def fits_def
    by (simp only: split: if_splits) (simp_all add: numeral_2_eq_2 not_le split: if_splits)
  then show ?thesis
  proof cases
    case push
    have "one_byte_form ?b = Some (False, NoImm) \<and> ?b \<noteq> 0x0f" using push(1) push_form [of ?b] fixed_forms(1) by auto
    then show ?thesis using push(2) z by (intro one) auto
  next
    case mov
    then show ?thesis using mov_form [OF mov(1)] z by (intro one) auto
  next
    case plain
    then show ?thesis using plain_form [OF plain(1)] z by (intro one) auto
  next
    case alu8
    then show ?thesis using fixed_forms(4) [OF alu8(1)] z by (intro one) auto
  next
    case aluz
    then show ?thesis using fixed_forms(5) [OF aluz(1)] z by (intro one) auto
  next
    case long
    then show ?thesis by (rule two)
  next
    case pushz
    then show ?thesis using fixed_forms(2) z by (intro one [of False ImmZ]) auto
  next
    case push8
    then show ?thesis using fixed_forms(3) z by (intro one [of False Imm8]) auto
  qed
qed

lemma decoded_length_true:
  assumes "decode_relocatable_instruction i = n" "0 < n" "well_prefixed i"
  shows "x86_length i = Some n"
proof -
  obtain c r w where d: "skip_prefixes i 0 False False = Some (c, r, w)" "decode_opcode i c r w = n"
    using decode_pos [OF assms(1,2)] by metis
  have p: "c = opcode_at i" "r = has_rex_w i" "w = has_operand16 i" using skip_well_prefixed [OF d(1) assms(3)] by simp_all
  have "\<not> (has_rex_w i \<and> has_operand16 i)" using assms(3) by (simp add: well_prefixed_def)
  from opcode_reference [OF d(2) assms(2) this [folded p]] show ?thesis
    by (simp add: x86_length_def opcode_length_def p)
qed

text \<open>
  (C35) When the renderer accepts a native prologue, the 14 to 16 bytes it displaces split into
  parts, each of the length the decoder gives it, each without relative jump or call and without
  operand relative to the instruction pointer; and a part whose prefixes are as compilers emit
  them, with no operand size prefix beside REX.W, is one whole instruction, of the length that
  the processor's encoding gives it.
\<close>

theorem displaced_instructions_relocatable:
  assumes "native_patch_length code = n" "0 < n" "length code = kAtomicPatchSize"
  shows "kAbsoluteJumpSize \<le> n \<and> n \<le> kAtomicPatchSize \<and>
    (\<exists>parts. concat parts = take n code \<and>
       (\<forall>i\<in>set parts. decode_relocatable_instruction i = length i \<and> position_independent i \<and>
          (well_prefixed i \<longrightarrow> x86_length i = Some (length i))))"
proof -
  obtain parts where "kAbsoluteJumpSize \<le> n" "n \<le> kAtomicPatchSize" "concat parts = sub_bytes 0 n code"
    "\<forall>i\<in>set parts. 0 < length i \<and> decode_relocatable_instruction i = length i"
    using patch_length_from_split [of code 0 n] assms by (auto simp: native_patch_length_def)
  then show ?thesis using decoded_position_independent decoded_length_true by (auto simp: sub_bytes_def)
qed

lemmas decoder_defs = decode_relocatable_instruction_def skip_prefixes.simps ignored_prefix_def decode_opcode_def
  relative_flow_def modrm_plain_def decode_modrm_def modrm_displacement_def fits_def Let_def

text \<open>
  The wrong precedence: \<^verbatim>\<open>add rax, 1\<close> with a needless operand size prefix has a 32-bit
  immediate and eight bytes, of which the decoder takes six.
\<close>

lemma decoder_cuts_immediate:
  "decode_relocatable_instruction [0x66, 0x48, 0x81, 0xc0, 1, 0, 0, 0] = 6"
  "x86_length [0x66, 0x48, 0x81, 0xc0, 1, 0, 0, 0] = Some 8"
proof -
  show "decode_relocatable_instruction [0x66, 0x48, 0x81, 0xc0, 1, 0, 0, 0] = 6" by (simp add: decoder_defs)
  show "x86_length [0x66, 0x48, 0x81, 0xc0, 1, 0, 0, 0] = Some 8" by code_simp
qed

definition example_prologue :: bytes where
  "example_prologue = [0x55, 0x48, 0x89, 0xe5, 0x41, 0x57, 0x41, 0x56, 0x48, 0x83, 0xec, 0x28, 0x90, 0x90, 0xe8, 0x00]"

lemma example_prologue_length: "native_patch_length example_prologue = 14"
  unfolding native_patch_length_def example_prologue_def
  by (simp add: patch_length_from.simps kAbsoluteJumpSize_def kAtomicPatchSize_def sub_bytes_def decoder_defs)

theorem displaced_instructions_relocatable_witness:
  "\<exists>parts. concat parts = take 14 example_prologue \<and>
     (\<forall>i\<in>set parts. position_independent i \<and> (well_prefixed i \<longrightarrow> x86_length i = Some (length i)))"
  using displaced_instructions_relocatable [OF example_prologue_length]
  by (auto simp: example_prologue_def kAtomicPatchSize_def)

end
