(* ===== verification/Code_Read.thy ===== *)
theory Code_Read
  imports Hook_Protocol
begin

text \<open>
  \<^verbatim>\<open>include/common_fps/shellui_code_read.hpp\<close>: exact transfers through a debugger that may
  move fewer bytes than asked for, and the choice between the two debuggers.  A transfer
  function is an operation over an environment.  Destinations are local arrays of the callers,
  so the null test of the code has no counterpart.
\<close>

section \<open>Definitions\<close>

definition EPERM :: int where "EPERM = 1"
definition EIO :: int where "EIO = 5"
definition EFAULT :: int where "EFAULT = 14"
definition EINVAL :: int where "EINVAL = 22"
definition ENOTSUP :: int where "ENOTSUP = 45"

record debugger_chunk =
  ch_syscall_rc :: int
  ch_status :: int
  ch_bytes :: nat

definition chunk_error :: "debugger_chunk \<Rightarrow> nat \<Rightarrow> int" where
  "chunk_error c remaining =
     (let err = (if ch_syscall_rc c \<noteq> 0 then ch_syscall_rc c else ch_status c)
      in if err = 0 \<and> (ch_bytes c = 0 \<or> remaining < ch_bytes c) then EIO else err)"

function transfer_from ::
  "(nat \<Rightarrow> nat \<Rightarrow> 'e \<Rightarrow> debugger_chunk \<times> 'e) \<Rightarrow> nat \<Rightarrow> nat \<Rightarrow> 'e \<Rightarrow> int \<times> 'e" where
  "transfer_from chunk sz off e =
     (if off < sz then
        let r = chunk off (sz - off) e
        in if chunk_error (fst r) (sz - off) \<noteq> 0 then (chunk_error (fst r) (sz - off), snd r)
           else transfer_from chunk sz (off + ch_bytes (fst r)) (snd r)
      else (0, e))"
  by auto
termination
  by (relation "measure (\<lambda>(chunk, sz, off, e). sz - off)")
    (auto simp: chunk_error_def EIO_def Let_def split: if_splits)

declare transfer_from.simps [simp del]

definition debugger_transfer_exact ::
  "(nat \<Rightarrow> nat \<Rightarrow> 'e \<Rightarrow> debugger_chunk \<times> 'e) \<Rightarrow> nat \<Rightarrow> 'e \<Rightarrow> int \<times> 'e" where
  "debugger_transfer_exact chunk sz e = (if sz = 0 then (EINVAL, e) else transfer_from chunk sz 0 e)"

text \<open>What a copy of \<open>data\<close> to offset \<open>off\<close> leaves in a buffer.\<close>

definition overlay_at :: "nat \<Rightarrow> bytes \<Rightarrow> bytes \<Rightarrow> bytes" where
  "overlay_at off data buf =
     take off buf @ take (length buf - off) data @ drop (off + length data) buf"

definition debugger_read_exact ::
  "(nat \<Rightarrow> nat \<Rightarrow> 'e \<Rightarrow> (debugger_chunk \<times> bytes) \<times> 'e) \<Rightarrow> nat \<Rightarrow> 'e \<Rightarrow> (int \<times> bytes) \<times> 'e" where
  "debugger_read_exact read_chunk sz e =
     (case debugger_transfer_exact
             (\<lambda>off remaining (e, buf).
                case read_chunk off remaining e of
                  ((c, data), e') \<Rightarrow> (c, (e', overlay_at off data buf)))
             sz (e, replicate sz 0) of
        (rc, (e', buf)) \<Rightarrow> ((rc, if rc \<noteq> 0 then replicate sz 0 else buf), e'))"

record code_read_result =
  cr_rc :: int
  cr_primary_rc :: int
  cr_fallback_rc :: int
  cr_fallback_attempted :: bool

definition read_shellui_code ::
  "u32 \<Rightarrow> hook_backend \<Rightarrow> nat \<Rightarrow> (nat \<Rightarrow> 'e \<Rightarrow> (int \<times> bytes) \<times> 'e) \<Rightarrow>
   (nat \<Rightarrow> 'e \<Rightarrow> (int \<times> bytes) \<times> 'e) \<Rightarrow> bytes \<Rightarrow> 'e \<Rightarrow> (code_read_result \<times> bytes) \<times> 'e" where
  "read_shellui_code sdk backend sz ptrace_read mdbg_read dest e =
     (let r0 = \<lparr>cr_rc = -1, cr_primary_rc = -1, cr_fallback_rc = -1, cr_fallback_attempted = False\<rparr>
      in if sz = 0 then ((r0\<lparr>cr_rc := EINVAL\<rparr>, dest), e)
         else if backend = Unsupported then ((r0\<lparr>cr_rc := ENOTSUP\<rparr>, dest), e)
         else
           case (if backend = Mdbg then mdbg_read sz e else ptrace_read sz e) of
             ((primary, buf), e1) \<Rightarrow>
               let r1 = r0\<lparr>cr_primary_rc := primary, cr_rc := primary\<rparr>
               in case (if backend = PtraceIo \<and> firmware_is_fw1160 sdk \<and> primary = EFAULT
                        then case mdbg_read sz e1 of
                               ((fb, buf'), e2) \<Rightarrow>
                                 ((r1\<lparr>cr_fallback_attempted := True, cr_fallback_rc := fb, cr_rc := fb\<rparr>, buf'), e2)
                        else ((r1, buf), e1)) of
                    ((r2, buf2), e2) \<Rightarrow>
                      ((r2, if cr_rc r2 \<noteq> 0 then replicate sz 0 else buf2), e2))"

section \<open>Exact transfers\<close>

lemma length_overlay_at [simp]:
  "off + length data \<le> length buf \<Longrightarrow> length (overlay_at off data buf) = length buf"
  by (simp add: overlay_at_def)

lemma transfer_done: "sz \<le> off \<Longrightarrow> transfer_from chunk sz off e = (0, e)"
  by (subst transfer_from.simps) simp

lemma transfer_step:
  "off < sz \<Longrightarrow> transfer_from chunk sz off e =
     (if chunk_error (fst (chunk off (sz - off) e)) (sz - off) \<noteq> 0
      then (chunk_error (fst (chunk off (sz - off) e)) (sz - off), snd (chunk off (sz - off) e))
      else transfer_from chunk sz (off + ch_bytes (fst (chunk off (sz - off) e)))
             (snd (chunk off (sz - off) e)))"
  by (subst transfer_from.simps) (simp add: Let_def)

lemma chunk_error_0:
  "chunk_error c remaining = 0 \<longleftrightarrow>
     ch_syscall_rc c = 0 \<and> ch_status c = 0 \<and> 0 < ch_bytes c \<and> ch_bytes c \<le> remaining"
  by (auto simp: chunk_error_def EIO_def Let_def)

text \<open>
  A faithful debugger: from environments in which the memory is as given, a chunk keeps it so
  and delivers no more than was asked for; a chunk without error delivers the bytes of memory
  it claims.
\<close>

definition faithful_chunks_on ::
  "('e \<Rightarrow> bool) \<Rightarrow> (nat \<Rightarrow> nat \<Rightarrow> 'e \<Rightarrow> (debugger_chunk \<times> bytes) \<times> 'e) \<Rightarrow> bytes \<Rightarrow> bool" where
  "faithful_chunks_on holds read_chunk memory \<longleftrightarrow>
     (\<forall>off remaining e c data e'.
        holds e \<longrightarrow> off + remaining = length memory \<longrightarrow> read_chunk off remaining e = ((c, data), e') \<longrightarrow>
        holds e' \<and> length data \<le> remaining \<and>
        (chunk_error c remaining = 0 \<longrightarrow>
           take (ch_bytes c) data = sub_bytes off (ch_bytes c) memory \<and> ch_bytes c \<le> length data))"

definition faithful_chunks :: "(nat \<Rightarrow> nat \<Rightarrow> 'e \<Rightarrow> (debugger_chunk \<times> bytes) \<times> 'e) \<Rightarrow> bytes \<Rightarrow> bool" where
  "faithful_chunks read_chunk memory = faithful_chunks_on (\<lambda>_. True) read_chunk memory"

lemma overlay_prefix:
  assumes "take off buf = take off memory" "off \<le> length buf" "n \<le> length data"
    and "off + length data \<le> length buf" "take n data = sub_bytes off n memory"
  shows "take (off + n) (overlay_at off data buf) = take (off + n) memory"
proof -
  have "take (off + n) (overlay_at off data buf) = take off buf @ take n data"
    using assms(2-4) by (simp add: overlay_at_def)
  then show ?thesis using assms(1,5) by (simp add: sub_bytes_def take_add)
qed

lemma transfer_reads:
  assumes faithful: "faithful_chunks_on holds read_chunk memory" and "length memory = sz"
    and "holds e" "off \<le> sz" "length buf = sz" "take off buf = take off memory"
    and "transfer_from (\<lambda>off remaining (e, buf).
           case read_chunk off remaining e of ((c, data), e') \<Rightarrow> (c, (e', overlay_at off data buf)))
         sz off (e, buf) = (rc, (e', buf'))"
  shows "holds e' \<and> (rc = 0 \<longrightarrow> buf' = memory)"
  using assms(3-)
proof (induction "sz - off" arbitrary: off e buf rule: less_induct)
  case less
  let ?chunk = "\<lambda>off remaining (e, buf).
    case read_chunk off remaining e of ((c, data), e') \<Rightarrow> (c, (e', overlay_at off data buf))"
  show ?case
  proof (cases "off < sz")
    case False
    then show ?thesis using less.prems assms(2) by (simp add: transfer_done)
  next
    case True
    obtain c data e1 where r: "read_chunk off (sz - off) e = ((c, data), e1)"
      by (metis prod.collapse)
    have "off + (sz - off) = length memory" using True assms(2) by simp
    with faithful r less.prems(1) have f: "holds e1" "length data \<le> sz - off"
      "chunk_error c (sz - off) = 0 \<longrightarrow>
         take (ch_bytes c) data = sub_bytes off (ch_bytes c) memory \<and> ch_bytes c \<le> length data"
      unfolding faithful_chunks_on_def by blast+
    show ?thesis
    proof (cases "chunk_error c (sz - off) = 0")
      case False
      then show ?thesis using less.prems(5) f(1) transfer_step [OF True, of ?chunk "(e, buf)"] r by auto
    next
      case ok: True
      have b: "0 < ch_bytes c" "ch_bytes c \<le> sz - off" using ok by (auto simp: chunk_error_0)
      have "take (off + ch_bytes c) (overlay_at off data buf) = take (off + ch_bytes c) memory"
        using less.prems f ok True by (intro overlay_prefix) auto
      then show ?thesis
        using less.hyps [of "off + ch_bytes c" e1 "overlay_at off data buf"] less.prems ok b f True
          transfer_step [OF True, of ?chunk "(e, buf)"] r by auto
    qed
  qed
qed

section \<open>Properties\<close>

text \<open>
  Reading through a debugger that delivers short chunks is all or nothing: on success the
  buffer holds exactly the memory that was asked for, and on any failure it holds only zeros,
  so no partially read code is ever compared or returned.
\<close>

theorem debugger_read_all_or_nothing:
  assumes "faithful_chunks read_chunk memory" "length memory = sz" "0 < sz"
    and "debugger_read_exact read_chunk sz e = ((rc, buf), e')"
  shows "buf = (if rc = 0 then memory else replicate sz 0)"
proof -
  let ?chunk = "\<lambda>off remaining (e, buf).
    case read_chunk off remaining e of ((c, data), e') \<Rightarrow> (c, (e', overlay_at off data buf))"
  obtain e1 b1 where t: "transfer_from ?chunk sz 0 (e, replicate sz 0) = (rc, (e1, b1))"
      "buf = (if rc \<noteq> 0 then replicate sz 0 else b1)"
    using assms(3,4)
    by (cases "transfer_from ?chunk sz 0 (e, replicate sz 0)")
      (auto simp: debugger_read_exact_def debugger_transfer_exact_def)
  show ?thesis
    using transfer_reads [OF assms(1) [unfolded faithful_chunks_def] assms(2),
        where e = e and off = 0 and buf = "replicate sz 0" and rc = rc and e' = e1 and buf' = b1] t
    by auto
qed

text \<open>A debugger that delivers one byte at a time from four bytes of memory.\<close>

definition byte_chunks :: "bytes \<Rightarrow> nat \<Rightarrow> nat \<Rightarrow> nat \<Rightarrow> (debugger_chunk \<times> bytes) \<times> nat" where
  "byte_chunks memory off remaining calls =
     (if off < length memory \<and> 0 < remaining
      then ((\<lparr>ch_syscall_rc = 0, ch_status = 0, ch_bytes = 1\<rparr>, [memory ! off]), calls + 1)
      else ((\<lparr>ch_syscall_rc = EIO, ch_status = 0, ch_bytes = 0\<rparr>, []), calls + 1))"

lemma byte_chunks_faithful: "faithful_chunks (byte_chunks memory) memory"
proof -
  have "sub_bytes off (Suc 0) memory = [memory ! off]" if "off < length memory" for off
    using that Cons_nth_drop_Suc [OF that, symmetric] by (simp add: sub_bytes_def)
  then show ?thesis
    by (auto simp: faithful_chunks_def faithful_chunks_on_def byte_chunks_def EIO_def chunk_error_0 split: if_splits)
qed

theorem debugger_read_all_or_nothing_witness:
  "debugger_read_exact (byte_chunks [1, 2, 3, 4]) 4 0 = ((0, [1, 2, 3, 4]), 4)"
proof -
  obtain rc buf n where r: "debugger_read_exact (byte_chunks [1, 2, 3, 4]) 4 0 = ((rc, buf), n)"
    by (metis prod.collapse)
  moreover have "rc = 0 \<and> n = 4"
    using r by (simp add: debugger_read_exact_def debugger_transfer_exact_def transfer_from.simps
        byte_chunks_def chunk_error_def Let_def)
  moreover have "buf = (if rc = 0 then [1, 2, 3, 4] else replicate 4 0)"
    using debugger_read_all_or_nothing [OF byte_chunks_faithful _ _ r] by simp
  ultimately show ?thesis by simp
qed

text \<open>
  The second debugger is only a fallback for the one error and the one firmware that need
  it, an unsupported back end reads nothing, and a failed read leaves only zeros.
\<close>

theorem read_shellui_code_policy:
  assumes "0 < sz" "read_shellui_code sdk backend sz ptrace_read mdbg_read dest e = ((r, buf), e')"
  shows "(cr_fallback_attempted r \<longleftrightarrow>
            backend = PtraceIo \<and> firmware_is_fw1160 sdk \<and> cr_primary_rc r = EFAULT)
    \<and> (backend = Unsupported \<longrightarrow> cr_rc r = ENOTSUP \<and> e' = e)
    \<and> (backend \<noteq> Unsupported \<longrightarrow> cr_rc r \<noteq> 0 \<longrightarrow> buf = replicate sz 0)
    \<and> (backend \<noteq> Unsupported \<longrightarrow>
         cr_rc r = (if cr_fallback_attempted r then cr_fallback_rc r else cr_primary_rc r))"
  using assms
  by (auto simp: read_shellui_code_def Let_def EFAULT_def split: prod.splits if_splits)

theorem read_shellui_code_policy_witness:
  "snd (fst (read_shellui_code 0x11600001 PtraceIo 2 (\<lambda>n e. ((EFAULT, [1, 2]), e))
     (\<lambda>n e. ((EIO, [3, 4]), e)) [] ())) = replicate 2 0"
proof -
  obtain r buf e' where x: "read_shellui_code 0x11600001 PtraceIo 2 (\<lambda>n e. ((EFAULT, [1, 2]), e))
     (\<lambda>n e. ((EIO, [3, 4]), e)) [] () = ((r, buf), e')" by (metis prod.collapse)
  moreover have "cr_rc r \<noteq> 0"
    using x by (auto simp: read_shellui_code_def Let_def firmware_is_fw1160_def firmware_family_def
        EIO_def EFAULT_def)
  ultimately show ?thesis
    using read_shellui_code_policy [OF _ x] by simp
qed

end
