(* ===== verification/Debugger.thy ===== *)
theory Debugger
  imports Code_Read
begin

text \<open>
  The debugger side of the controller: \<^verbatim>\<open>src/ps5/shellui_mdbg_io.cpp\<close> (bounded transfers
  through the MDBG system call inside a window of raised credentials) and
  \<^verbatim>\<open>src/ps5/shellui_guard_write.cpp\<close> (one byte written inside a window of writable memory
  protection).  Kernel and debugger calls are parameters: a record of operations over an
  environment.  PROT\_READ, PROT\_WRITE and PROT\_EXEC are 1, 2 and 4.
\<close>

section \<open>The kernel interface\<close>

record mdbg_reply =
  md_rc :: int
  md_errno :: int
  md_status :: int
  md_length :: nat
  md_data :: bytes

record 'e kernel =
  k_self :: int
  k_get_authid :: "int \<Rightarrow> 'e \<Rightarrow> u64 \<times> 'e"
  k_set_authid :: "int \<Rightarrow> u64 \<Rightarrow> 'e \<Rightarrow> int \<times> 'e"
  k_get_caps :: "int \<Rightarrow> 'e \<Rightarrow> (int \<times> bytes) \<times> 'e"
  k_set_caps :: "int \<Rightarrow> bytes \<Rightarrow> 'e \<Rightarrow> int \<times> 'e"
  k_mprotect :: "int \<Rightarrow> u64 \<Rightarrow> nat \<Rightarrow> int \<Rightarrow> 'e \<Rightarrow> int \<times> 'e"
  k_get_protection :: "int \<Rightarrow> u64 \<Rightarrow> nat \<Rightarrow> 'e \<Rightarrow> int \<times> 'e"
  mdbg_read_call :: "int \<Rightarrow> u64 \<Rightarrow> nat \<Rightarrow> 'e \<Rightarrow> mdbg_reply \<times> 'e"
  mdbg_write_call :: "int \<Rightarrow> u64 \<Rightarrow> bytes \<Rightarrow> 'e \<Rightarrow> mdbg_reply \<times> 'e"
  mdbg_copyout :: "int \<Rightarrow> u64 \<Rightarrow> nat \<Rightarrow> 'e \<Rightarrow> (int \<times> bytes) \<times> 'e"
  mdbg_copyin :: "int \<Rightarrow> bytes \<Rightarrow> u64 \<Rightarrow> 'e \<Rightarrow> int \<times> 'e"
  pt_attach :: "int \<Rightarrow> 'e \<Rightarrow> int \<times> 'e"
  pt_detach :: "int \<Rightarrow> 'e \<Rightarrow> int \<times> 'e"
  pt_copyout :: "int \<Rightarrow> u64 \<Rightarrow> nat \<Rightarrow> 'e \<Rightarrow> (int \<times> bytes) \<times> 'e"
  pt_copyin :: "int \<Rightarrow> bytes \<Rightarrow> u64 \<Rightarrow> 'e \<Rightarrow> (int \<times> int) \<times> 'e"
  k_kill_cont :: "int \<Rightarrow> 'e \<Rightarrow> 'e"

section \<open>MDBG transfers\<close>

definition kCoredumpAuth :: u64 where "kCoredumpAuth = 0x4800000000000006"

definition privileged_caps :: bytes where "privileged_caps = replicate 16 0xff"

definition mdbg_chunk :: "mdbg_reply \<Rightarrow> debugger_chunk" where
  "mdbg_chunk r =
     \<lparr>ch_syscall_rc = (if md_rc r = -1 then (if md_errno r \<noteq> 0 then md_errno r else EIO) else md_rc r),
      ch_status = md_status r, ch_bytes = md_length r\<rparr>"

definition transfer_arguments_ok :: "bool \<Rightarrow> int \<Rightarrow> u64 \<Rightarrow> nat \<Rightarrow> bool" where
  "transfer_arguments_ok rd pid address sz \<longleftrightarrow>
     \<not> (pid \<le> 0 \<or> sz = 0 \<or> kShellUiHookPatchSize < sz \<or> (\<not> rd \<and> sz \<noteq> 1) \<or>
        \<not> shellui_user_address address \<or> \<not> shellui_user_address (address + of_nat sz - 1))"

text \<open>The transfer itself; the buffer is part of the environment.\<close>

definition mdbg_transfer ::
  "'e kernel \<Rightarrow> bool \<Rightarrow> int \<Rightarrow> u64 \<Rightarrow> nat \<Rightarrow> 'e \<times> bytes \<Rightarrow> int \<times> ('e \<times> bytes)" where
  "mdbg_transfer k rd pid address sz st =
     debugger_transfer_exact
       (\<lambda>off remaining (e, buf).
          if rd then
            case mdbg_read_call k pid (address + of_nat off) remaining e of
              (r, e') \<Rightarrow> (mdbg_chunk r, (e', overlay_at off (md_data r) buf))
          else
            case mdbg_write_call k pid (address + of_nat off) (sub_bytes off remaining buf) e of
              (r, e') \<Rightarrow> (mdbg_chunk r, (e', buf)))
       sz st"

text \<open>Both credentials are set back whatever happened, and read back to be sure.\<close>

definition restore_credentials :: "'e kernel \<Rightarrow> u64 \<Rightarrow> bytes \<Rightarrow> 'e \<Rightarrow> bool \<times> 'e" where
  "restore_credentials k original_auth original_caps e =
     (case k_set_authid k (k_self k) original_auth e of
        (auth_rc, e1) \<Rightarrow>
      case k_set_caps k (k_self k) original_caps e1 of
        (caps_rc, e2) \<Rightarrow>
      case (if auth_rc = 0 then case k_get_authid k (k_self k) e2 of (a, e3) \<Rightarrow> (a = original_auth, e3)
            else (False, e2)) of
        (auth_restored, e3) \<Rightarrow>
      case (if caps_rc = 0
            then case k_get_caps k (k_self k) e3 of ((rc, caps), e4) \<Rightarrow> (rc = 0 \<and> caps = original_caps, e4)
            else (False, e3)) of
        (caps_restored, e4) \<Rightarrow> (auth_restored \<and> caps_restored, e4))"

definition mdbg_privileged ::
  "'e kernel \<Rightarrow> bool \<Rightarrow> int \<Rightarrow> u64 \<Rightarrow> nat \<Rightarrow> 'e \<times> bytes \<Rightarrow> int \<times> ('e \<times> bytes)" where
  "mdbg_privileged k rd pid address sz st =
     (case k_set_authid k (k_self k) kCoredumpAuth (fst st) of
        (rc1, e1) \<Rightarrow>
          if rc1 \<noteq> 0 then (EIO, (e1, snd st))
          else case k_set_caps k (k_self k) privileged_caps e1 of
                 (rc2, e2) \<Rightarrow>
                   if rc2 \<noteq> 0 then (EIO, (e2, snd st))
                   else mdbg_transfer k rd pid address sz (e2, snd st))"

definition transfer_exact ::
  "'e kernel \<Rightarrow> bool \<Rightarrow> int \<Rightarrow> u64 \<Rightarrow> nat \<Rightarrow> bytes \<Rightarrow> 'e \<Rightarrow> (int \<times> bytes) \<times> 'e" where
  "transfer_exact k rd pid address sz buffer e =
     (if \<not> transfer_arguments_ok rd pid address sz then ((EINVAL, buffer), e)
      else
        let buf0 = (if rd then replicate sz 0 else buffer)
        in case k_get_authid k (k_self k) e of
             (original_auth, e1) \<Rightarrow>
               if original_auth = 0 then ((EIO, buf0), e1)
               else case k_get_caps k (k_self k) e1 of
                      ((caps_rc, original_caps), e2) \<Rightarrow>
                        if caps_rc \<noteq> 0 then ((EIO, buf0), e2)
                        else
                          case mdbg_privileged k rd pid address sz (e2, buf0) of
                            (rc, (e3, buf)) \<Rightarrow>
                              case restore_credentials k original_auth original_caps e3 of
                                (restored, e4) \<Rightarrow>
                                  let result = (if \<not> restored then EIO else rc)
                                  in ((result, if rd \<and> result \<noteq> 0 then replicate sz 0 else buf), e4))"

definition shellui_mdbg_read_exact :: "'e kernel \<Rightarrow> int \<Rightarrow> u64 \<Rightarrow> nat \<Rightarrow> 'e \<Rightarrow> (int \<times> bytes) \<times> 'e" where
  "shellui_mdbg_read_exact k pid address sz e = transfer_exact k True pid address sz (replicate sz 0) e"

definition shellui_mdbg_write_byte :: "'e kernel \<Rightarrow> int \<Rightarrow> u64 \<Rightarrow> u8 \<Rightarrow> 'e \<Rightarrow> int \<times> 'e" where
  "shellui_mdbg_write_byte k pid address b e =
     (case transfer_exact k False pid address 1 [b] e of ((rc, _), e') \<Rightarrow> (rc, e'))"

section \<open>The guarded write\<close>

record guard_write_state =
  gw_pid :: int
  gw_address :: u64
  gw_original_protection :: int
  gw_protect_rc :: int
  gw_ptrace_write_rc :: int
  gw_mdbg_write_rc :: int
  gw_restore_protection_rc :: int
  gw_protection_restored :: bool

definition gw_init :: guard_write_state where
  "gw_init = \<lparr>gw_pid = -1, gw_address = 0, gw_original_protection = -1, gw_protect_rc = -1,
     gw_ptrace_write_rc = -1, gw_mdbg_write_rc = -1, gw_restore_protection_rc = -1,
     gw_protection_restored = False\<rparr>"

definition PROT_EXEC :: int where "PROT_EXEC = 4"
definition PROT_READ_WRITE :: int where "PROT_READ_WRITE = 3"

definition gw_clear :: "guard_write_state \<Rightarrow> guard_write_state" where
  "gw_clear s = s\<lparr>gw_protect_rc := -1, gw_ptrace_write_rc := -1, gw_mdbg_write_rc := -1,
                  gw_restore_protection_rc := -1, gw_protection_restored := False\<rparr>"

text \<open>Set the saved protection back and read it back.\<close>

definition gw_restore :: "'e kernel \<Rightarrow> int \<Rightarrow> u64 \<Rightarrow> guard_write_state \<Rightarrow> 'e \<Rightarrow> guard_write_state \<times> 'e" where
  "gw_restore k pid address s e =
     (case k_mprotect k pid address 1 (gw_original_protection s) e of
        (rc, e1) \<Rightarrow>
          if rc = 0 then
            case k_get_protection k pid address 1 e1 of
              (p, e2) \<Rightarrow> (s\<lparr>gw_restore_protection_rc := rc,
                            gw_protection_restored := (p = gw_original_protection s)\<rparr>, e2)
          else (s\<lparr>gw_restore_protection_rc := rc, gw_protection_restored := False\<rparr>, e1))"

text \<open>The current protection, or the saved one when a rollback cannot query it.\<close>

definition gw_current ::
  "'e kernel \<Rightarrow> int \<Rightarrow> u64 \<Rightarrow> guard_write_state \<Rightarrow> 'e \<Rightarrow> int option \<times> guard_write_state \<times> 'e" where
  "gw_current k pid address s e =
     (case k_get_protection k pid address 1 e of
        (current, e1) \<Rightarrow>
          if 0 \<le> current then (Some current, s, e1)
          else if 0 \<le> gw_original_protection s then
            case gw_restore k pid address s e1 of
              (s1, e2) \<Rightarrow>
                if gw_protection_restored s1 then (Some (gw_original_protection s1), s1, e2) else (None, s1, e2)
          else (None, s, e1))"

definition gw_copy_byte ::
  "'e kernel \<Rightarrow> int \<Rightarrow> u64 \<Rightarrow> u8 \<Rightarrow> guard_write_state \<Rightarrow> 'e \<Rightarrow> int \<times> guard_write_state \<times> 'e" where
  "gw_copy_byte k pid address b s e =
     (case pt_copyin k pid [b] address e of
        ((rc, err), e1) \<Rightarrow>
          let prc = (if rc = -1 then (if err \<noteq> 0 then err else EIO) else rc);
              s1 = s\<lparr>gw_ptrace_write_rc := prc\<rparr>
          in if prc = EFAULT \<or> prc = EPERM then
               case shellui_mdbg_write_byte k pid address b e1 of
                 (mrc, e2) \<Rightarrow> (mrc, s1\<lparr>gw_mdbg_write_rc := mrc\<rparr>, e2)
             else (prc, s1, e1))"

definition gw_window ::
  "'e kernel \<Rightarrow> int \<Rightarrow> u64 \<Rightarrow> u8 \<Rightarrow> int \<Rightarrow> guard_write_state \<Rightarrow> 'e \<Rightarrow> int \<times> guard_write_state \<times> 'e" where
  "gw_window k pid address b current s e =
     (let writable = or (gw_original_protection s) PROT_READ_WRITE
      in if current \<noteq> gw_original_protection s \<and> current \<noteq> writable then (EIO, s, e)
         else
           case (if current = writable then (0, e) else k_mprotect k pid address 1 writable e) of
             (prc, e1) \<Rightarrow>
               let s1 = s\<lparr>gw_protect_rc := prc\<rparr>
               in case (if prc = 0
                        then case k_get_protection k pid address 1 e1 of
                               (p, e2) \<Rightarrow> if p = writable then gw_copy_byte k pid address b s1 e2
                                          else (EIO, s1, e2)
                        else (EIO, s1, e1)) of
                    (write_rc, s2, e2) \<Rightarrow>
                      case gw_restore k pid address s2 e2 of
                        (s3, e3) \<Rightarrow>
                          (if \<not> gw_protection_restored s3 then -1001
                           else if gw_protect_rc s3 \<noteq> 0 then -1000 else write_rc, s3, e3))"

definition shellui_write_guard_byte ::
  "'e kernel \<Rightarrow> int \<Rightarrow> u64 \<Rightarrow> u8 \<Rightarrow> guard_write_state \<Rightarrow> 'e \<Rightarrow> int \<times> guard_write_state \<times> 'e" where
  "shellui_write_guard_byte k pid address b s e =
     (if pid \<le> 0 \<or> \<not> shellui_user_address address \<or>
         (0 \<le> gw_original_protection s \<and> (gw_pid s \<noteq> pid \<or> gw_address s \<noteq> address))
      then (EINVAL, s, e)
      else case gw_current k pid address (gw_clear s) e of
             (None, s1, e1) \<Rightarrow> (EIO, s1, e1)
           | (Some current, s1, e1) \<Rightarrow>
               if 0xff < current \<or> and current PROT_EXEC = 0 then (EIO, s1, e1)
               else gw_window k pid address b current
                      (if gw_original_protection s1 < 0
                       then s1\<lparr>gw_pid := pid, gw_address := address, gw_original_protection := current\<rparr>
                       else s1) e1)"

section \<open>Properties\<close>

text \<open>What the kernel documents of its queries: they report the credentials and change nothing.\<close>

definition reports_credentials :: "'e kernel \<Rightarrow> ('e \<Rightarrow> u64) \<Rightarrow> ('e \<Rightarrow> bytes) \<Rightarrow> bool" where
  "reports_credentials k auth caps \<longleftrightarrow>
     (\<forall>e. k_get_authid k (k_self k) e = (auth e, e)) \<and>
     (\<forall>e. \<exists>rc. k_get_caps k (k_self k) e = ((rc, caps e), e))"

definition reports_protection :: "'e kernel \<Rightarrow> (int \<Rightarrow> u64 \<Rightarrow> 'e \<Rightarrow> int) \<Rightarrow> bool" where
  "reports_protection k prot \<longleftrightarrow> (\<forall>pid a n e. k_get_protection k pid a n e = (prot pid a e, e))"

lemma restore_credentials_true:
  assumes "reports_credentials k auth caps" "restore_credentials k a c e = (True, e')"
  shows "auth e' = a \<and> caps e' = c"
proof -
  obtain rc1 e1 where 1: "k_set_authid k (k_self k) a e = (rc1, e1)" by (cases "k_set_authid k (k_self k) a e")
  obtain rc2 e2 where 2: "k_set_caps k (k_self k) c e1 = (rc2, e2)" by (cases "k_set_caps k (k_self k) c e1")
  obtain rc3 where 3: "k_get_caps k (k_self k) e2 = ((rc3, caps e2), e2)"
    using assms(1) by (auto simp: reports_credentials_def)
  have "k_get_authid k (k_self k) e2 = (auth e2, e2)" using assms(1) by (simp add: reports_credentials_def)
  with assms(2) 1 2 3 show ?thesis
    by (auto simp: restore_credentials_def split: if_splits)
qed

text \<open>
  (C39) A transfer that reports success leaves the controller with exactly the credentials it
  had before, and a transfer with bad arguments (a write of more than one byte among them)
  touches nothing at all.
\<close>

theorem mdbg_transfer_restores_credentials:
  assumes "reports_credentials k auth caps"
    and "transfer_exact k rd pid address sz buffer e = ((rc, buf), e')"
  shows "(rc = 0 \<longrightarrow> auth e' = auth e \<and> caps e' = caps e \<and> transfer_arguments_ok rd pid address sz)
    \<and> (\<not> transfer_arguments_ok rd pid address sz \<longrightarrow> rc = EINVAL \<and> e' = e)
    \<and> (transfer_arguments_ok rd pid address sz \<and> rd \<and> rc \<noteq> 0 \<longrightarrow> buf = replicate sz 0)"
proof (cases "transfer_arguments_ok rd pid address sz \<and> auth e \<noteq> 0")
  case False
  then show ?thesis
    using assms by (auto simp: transfer_exact_def reports_credentials_def EINVAL_def EIO_def Let_def split: if_splits)
next
  case True
  have a: "k_get_authid k (k_self k) e = (auth e, e)"
    using assms(1) by (simp add: reports_credentials_def)
  obtain crc where c: "k_get_caps k (k_self k) e = ((crc, caps e), e)"
    using assms(1) by (auto simp: reports_credentials_def)
  obtain prc e3 b where p: "mdbg_privileged k rd pid address sz (e, if rd then replicate sz 0 else buffer) = (prc, (e3, b))"
    by (metis prod.collapse)
  obtain ok e4 where r: "restore_credentials k (auth e) (caps e) e3 = (ok, e4)"
    by (cases "restore_credentials k (auth e) (caps e) e3")
  show ?thesis
    using True assms(2) a c p r restore_credentials_true [OF assms(1), of "auth e" "caps e" e3 e4]
    by (auto simp: transfer_exact_def Let_def EIO_def split: if_splits)
qed

lemma gw_restore_keeps:
  assumes "gw_restore k pid address s e = (s', e')"
  shows "gw_original_protection s' = gw_original_protection s" "gw_protect_rc s' = gw_protect_rc s"
  using assms by (auto simp: gw_restore_def split: prod.splits if_splits)

lemma gw_restore_restored:
  assumes "reports_protection k prot" "gw_restore k pid address s e = (s', e')" "gw_protection_restored s'"
  shows "prot pid address e' = gw_original_protection s'"
  using assms by (auto simp: gw_restore_def reports_protection_def split: prod.splits if_splits)

lemma gw_copy_byte_keeps:
  assumes "gw_copy_byte k pid address b s e = (rc, s', e')"
  shows "gw_original_protection s' = gw_original_protection s \<and> gw_protect_rc s' = gw_protect_rc s"
  using assms by (auto simp: gw_copy_byte_def Let_def split: prod.splits if_splits)

lemma gw_window_keeps:
  assumes "gw_window k pid address b current s e = (rc, s', e')"
  shows "gw_original_protection s' = gw_original_protection s"
  using assms
  by (auto simp: gw_window_def Let_def split: prod.splits if_splits
      dest!: gw_restore_keeps(1) gw_copy_byte_keeps)

lemma gw_window_restored:
  assumes "reports_protection k prot" "gw_window k pid address b current s e = (0, s', e')"
  shows "gw_protection_restored s' \<and> prot pid address e' = gw_original_protection s'"
  using assms(2) gw_restore_restored [OF assms(1)]
  by (auto simp: gw_window_def Let_def EIO_def split: prod.splits if_splits)

lemma gw_current_keeps:
  assumes "reports_protection k prot" "gw_current k pid address s e = (r, s', e')"
  shows "gw_original_protection s' = gw_original_protection s
    \<and> (gw_original_protection s < 0 \<longrightarrow> r = Some current \<longrightarrow> current = prot pid address e)"
  using assms
  by (auto simp: gw_current_def reports_protection_def split: prod.splits if_splits dest!: gw_restore_keeps(1))

text \<open>
  (C40) The one-byte write never leaves the shell's code writable when it reports success: the
  protection is back to the saved one, which is the protection found at the first attempt, and
  a rollback keeps the saved protection instead of snapshotting the writable one.
\<close>

theorem guard_write_restores_protection:
  assumes "reports_protection k prot"
    and "shellui_write_guard_byte k pid address b s e = (rc, s', e')"
  shows "(rc = 0 \<longrightarrow> gw_protection_restored s' \<and> prot pid address e' = gw_original_protection s')
    \<and> (0 \<le> gw_original_protection s \<longrightarrow> gw_original_protection s' = gw_original_protection s)
    \<and> (gw_original_protection s < 0 \<and> 0 \<le> gw_original_protection s' \<longrightarrow>
        gw_original_protection s' = prot pid address e)"
proof -
  obtain r s1 e1 where c: "gw_current k pid address (gw_clear s) e = (r, s1, e1)" by (metis prod_cases3)
  have o: "gw_original_protection (gw_clear s) = gw_original_protection s" by (simp add: gw_clear_def)
  have k1: "gw_original_protection s1 = gw_original_protection s"
    using gw_current_keeps [OF assms(1) c] o by simp
  have cur: "gw_original_protection s < 0 \<Longrightarrow> r = Some x \<Longrightarrow> x = prot pid address e" for x
    using gw_current_keeps [OF assms(1) c, of x] o by simp
  show ?thesis
    using assms(2) c k1 cur
    by (auto simp: shellui_write_guard_byte_def EINVAL_def EIO_def split: option.splits if_splits
        dest: gw_window_restored [OF assms(1)] gw_window_keeps)
qed

section \<open>Reading the target\<close>

text \<open>
  What the debuggers document, for the memory \<open>mem\<close> of process \<open>pid\<close>: reads that report
  success deliver that memory, and neither reads nor the calls for credentials, protection and
  attachment change it.  Nothing is assumed of the writes.
\<close>

definition truthful_reads :: "'e kernel \<Rightarrow> int \<Rightarrow> ('e \<Rightarrow> u64 \<Rightarrow> u8) \<Rightarrow> bool" where
  "truthful_reads k pid mem \<longleftrightarrow>
     (\<forall>a n e rc d e'. pt_copyout k pid a n e = ((rc, d), e') \<longrightarrow>
        mem e' = mem e \<and> (rc = 0 \<longrightarrow> d = read_mem (mem e) a n)) \<and>
     (\<forall>a n e rc d e'. mdbg_copyout k pid a n e = ((rc, d), e') \<longrightarrow>
        mem e' = mem e \<and> (rc = 0 \<longrightarrow> d = read_mem (mem e) a n)) \<and>
     (\<forall>a n e r e'. mdbg_read_call k pid a n e = (r, e') \<longrightarrow>
        mem e' = mem e \<and> length (md_data r) \<le> n \<and>
        (chunk_error (mdbg_chunk r) n = 0 \<longrightarrow>
           md_length r \<le> length (md_data r) \<and>
           take (md_length r) (md_data r) = read_mem (mem e) a (md_length r)))"

definition leaves_memory :: "'e kernel \<Rightarrow> int \<Rightarrow> ('e \<Rightarrow> u64 \<Rightarrow> u8) \<Rightarrow> bool" where
  "leaves_memory k pid mem \<longleftrightarrow>
     (\<forall>p e. mem (snd (k_get_authid k p e)) = mem e) \<and>
     (\<forall>p a e. mem (snd (k_set_authid k p a e)) = mem e) \<and>
     (\<forall>p e. mem (snd (k_get_caps k p e)) = mem e) \<and>
     (\<forall>p c e. mem (snd (k_set_caps k p c e)) = mem e) \<and>
     (\<forall>e. mem (snd (pt_attach k pid e)) = mem e) \<and>
     (\<forall>e. mem (snd (pt_detach k pid e)) = mem e) \<and>
     (\<forall>e. mem (k_kill_cont k pid e) = mem e)"

lemma leaves_memoryD:
  assumes "leaves_memory k pid mem"
  shows "k_get_authid k p e = (x, e') \<Longrightarrow> mem e' = mem e"
    "k_set_authid k p a e = (rc, e') \<Longrightarrow> mem e' = mem e"
    "k_get_caps k p e = (y, e') \<Longrightarrow> mem e' = mem e"
    "k_set_caps k p c e = (rc, e') \<Longrightarrow> mem e' = mem e"
    "pt_attach k pid e = (rc, e') \<Longrightarrow> mem e' = mem e"
    "pt_detach k pid e = (rc, e') \<Longrightarrow> mem e' = mem e"
    "mem (k_kill_cont k pid e) = mem e"
  using assms unfolding leaves_memory_def by (metis snd_conv)+

lemma length_read_mem [simp]: "length (read_mem m a n) = n"
  by (simp add: read_mem_def)

lemma sub_bytes_read_mem:
  "off + l \<le> n \<Longrightarrow> sub_bytes off l (read_mem m a n) = read_mem m (a + of_nat off) l"
  by (rule nth_equalityI) (simp_all add: sub_bytes_def read_mem_def add.assoc)

lemma mdbg_transfer_reads:
  assumes "truthful_reads k pid mem" "0 < sz"
    and "mdbg_transfer k True pid address sz (e, replicate sz 0) = (rc, (e', buf))"
  shows "mem e' = mem e \<and> (rc = 0 \<longrightarrow> buf = read_mem (mem e) address sz)"
proof -
  let ?read = "\<lambda>off remaining e. case mdbg_read_call k pid (address + of_nat off) remaining e of
    (r, e') \<Rightarrow> ((mdbg_chunk r, md_data r), e')"
  have "faithful_chunks_on (\<lambda>x. mem x = mem e) ?read (read_mem (mem e) address sz)"
    using assms(1)
    by (auto simp: faithful_chunks_on_def truthful_reads_def mdbg_chunk_def chunk_error_0 sub_bytes_read_mem
        split: prod.splits)
  moreover have "transfer_from (\<lambda>off remaining (e, buf).
      case ?read off remaining e of ((c, data), e') \<Rightarrow> (c, (e', overlay_at off data buf)))
      sz 0 (e, replicate sz 0) = (rc, (e', buf))"
    using assms(2,3) by (simp add: mdbg_transfer_def debugger_transfer_exact_def case_prod_beta')
  ultimately show ?thesis
    using transfer_reads [of "\<lambda>x. mem x = mem e" ?read "read_mem (mem e) address sz" sz e 0 "replicate sz 0" rc e' buf]
    by simp
qed

lemma mdbg_privileged_reads:
  assumes "truthful_reads k pid mem" "leaves_memory k pid mem" "0 < sz"
    and "mdbg_privileged k True pid address sz (e, replicate sz 0) = (rc, (e', buf))"
  shows "mem e' = mem e \<and> (rc = 0 \<longrightarrow> buf = read_mem (mem e) address sz)"
  using assms(4) leaves_memoryD [OF assms(2)] mdbg_transfer_reads [OF assms(1,3)]
  by (auto simp: mdbg_privileged_def EIO_def split: prod.splits if_splits) metis+

lemma restore_credentials_memory:
  assumes "leaves_memory k pid mem" "restore_credentials k a c e = (r, e')"
  shows "mem e' = mem e"
  using assms(2) leaves_memoryD [OF assms(1)]
  by (auto simp: restore_credentials_def split: prod.splits if_splits)

lemma mdbg_read_exact_truthful:
  assumes "truthful_reads k pid mem" "leaves_memory k pid mem"
    and "shellui_mdbg_read_exact k pid address sz e = ((rc, buf), e')"
  shows "mem e' = mem e \<and> (rc = 0 \<longrightarrow> buf = read_mem (mem e) address sz)"
proof (cases "transfer_arguments_ok True pid address sz")
  case False
  then show ?thesis using assms(3) by (simp add: shellui_mdbg_read_exact_def transfer_exact_def EINVAL_def)
next
  case True
  then have sz: "0 < sz" by (auto simp: transfer_arguments_ok_def)
  obtain auth e1 where 1: "k_get_authid k (k_self k) e = (auth, e1)" by (cases "k_get_authid k (k_self k) e")
  obtain crc caps e2 where 2: "k_get_caps k (k_self k) e1 = ((crc, caps), e2)" by (metis prod.collapse)
  obtain prc e3 b where 3: "mdbg_privileged k True pid address sz (e2, replicate sz 0) = (prc, (e3, b))"
    by (metis prod.collapse)
  obtain ok e4 where 4: "restore_credentials k auth caps e3 = (ok, e4)" by (metis prod.collapse)
  have m: "mem e1 = mem e" "mem e2 = mem e1" "mem e4 = mem e3"
    using leaves_memoryD [OF assms(2)] 1 2 restore_credentials_memory [OF assms(2) 4] by metis+
  show ?thesis
    using True assms(3) 1 2 3 4 m mdbg_privileged_reads [OF assms(1,2) sz 3]
    by (auto simp: shellui_mdbg_read_exact_def transfer_exact_def Let_def EIO_def split: if_splits)
qed

section \<open>A small console for the witnesses\<close>

record toy_console =
  tc_auth :: u64
  tc_caps :: bytes
  tc_prot :: int
  tc_mem :: "u64 \<Rightarrow> u8"

definition toy_base :: u64 where "toy_base = 0x200000"

definition toy_write :: "bytes \<Rightarrow> u64 \<Rightarrow> toy_console \<Rightarrow> toy_console" where
  "toy_write data a c =
     c\<lparr>tc_mem := (\<lambda>x. if unat (x - a) < length data then data ! unat (x - a) else tc_mem c x)\<rparr>"

definition toy_kernel :: "toy_console kernel" where
  "toy_kernel =
     \<lparr>k_self = 1,
      k_get_authid = (\<lambda>pid c. (tc_auth c, c)),
      k_set_authid = (\<lambda>pid a c. (0, c\<lparr>tc_auth := a\<rparr>)),
      k_get_caps = (\<lambda>pid c. ((0, tc_caps c), c)),
      k_set_caps = (\<lambda>pid caps c. (0, c\<lparr>tc_caps := caps\<rparr>)),
      k_mprotect = (\<lambda>pid a n p c. (0, c\<lparr>tc_prot := p\<rparr>)),
      k_get_protection = (\<lambda>pid a n c. (tc_prot c, c)),
      mdbg_read_call = (\<lambda>pid a n c.
        (\<lparr>md_rc = 0, md_errno = 0, md_status = 0, md_length = n,
          md_data = read_mem (tc_mem c) a n\<rparr>, c)),
      mdbg_write_call = (\<lambda>pid a data c.
        (\<lparr>md_rc = 0, md_errno = 0, md_status = 0, md_length = length data, md_data = []\<rparr>, toy_write data a c)),
      mdbg_copyout = (\<lambda>pid a n c. ((0, read_mem (tc_mem c) a n), c)),
      mdbg_copyin = (\<lambda>pid data a c. (0, toy_write data a c)),
      pt_attach = (\<lambda>pid c. (0, c)), pt_detach = (\<lambda>pid c. (0, c)),
      pt_copyout = (\<lambda>pid a n c. ((0, read_mem (tc_mem c) a n), c)),
      pt_copyin = (\<lambda>pid data a c. if and (tc_prot c) 2 = 0 then ((-1, EFAULT), c) else ((0, 0), toy_write data a c)),
      k_kill_cont = (\<lambda>pid c. c)\<rparr>"

definition toy_start :: toy_console where
  "toy_start = \<lparr>tc_auth = 0x1234, tc_caps = replicate 16 0, tc_prot = 5, tc_mem = (\<lambda>x. if x = toy_base then 0x55 else 0x90)\<rparr>"

lemma toy_reports:
  "reports_credentials toy_kernel tc_auth tc_caps" "reports_protection toy_kernel (\<lambda>pid a. tc_prot)"
  by (simp_all add: reports_credentials_def reports_protection_def toy_kernel_def)

lemma toy_reads:
  "truthful_reads toy_kernel pid tc_mem" "leaves_memory toy_kernel pid tc_mem"
  by (auto simp: truthful_reads_def leaves_memory_def toy_kernel_def read_mem_def)

theorem mdbg_transfer_restores_credentials_witness:
  "\<exists>e'. transfer_exact toy_kernel True 42 toy_base 16 [] toy_start = ((0, 0x55 # replicate 15 0x90), e')
     \<and> tc_auth e' = 0x1234"
proof -
  have r: "fst (transfer_exact toy_kernel True 42 toy_base 16 [] toy_start) = (0, 0x55 # replicate 15 0x90)"
    by code_simp
  obtain e' where e: "transfer_exact toy_kernel True 42 toy_base 16 [] toy_start = ((0, 0x55 # replicate 15 0x90), e')"
    using r by (metis prod.collapse)
  with mdbg_transfer_restores_credentials [OF toy_reports(1) e] show ?thesis
    by (simp add: toy_start_def)
qed

theorem guard_write_restores_protection_witness:
  "\<exists>s' e'. shellui_write_guard_byte toy_kernel 42 toy_base 0xc3 gw_init toy_start = (0, s', e') \<and> tc_prot e' = 5"
proof -
  have r: "fst (shellui_write_guard_byte toy_kernel 42 toy_base 0xc3 gw_init toy_start) = 0
      \<and> gw_original_protection (fst (snd (shellui_write_guard_byte toy_kernel 42 toy_base 0xc3 gw_init toy_start))) = 5"
    by code_simp
  obtain s' e' where e: "shellui_write_guard_byte toy_kernel 42 toy_base 0xc3 gw_init toy_start = (0, s', e')"
    using r by (metis prod.collapse)
  with guard_write_restores_protection [OF toy_reports(2) e] r show ?thesis by auto
qed

end
