(* ===== verification/Files.thy ===== *)
theory Files
  imports Prelude
begin

text \<open>
  The file operations the program uses, as a record of operations over an environment, and the
  write-then-rename protocol that publishes a file as a whole
  (\<^verbatim>\<open>write_exact_file_atomic\<close> of \<^verbatim>\<open>src/ps5/shellui_hook_controller.cpp\<close>).  A
  small file system of whole files shows what the protocol achieves.
\<close>

section \<open>Operations\<close>

record 'e files =
  f_read :: "string \<Rightarrow> 'e \<Rightarrow> bytes option \<times> 'e"
  f_create :: "string \<Rightarrow> 'e \<Rightarrow> bool \<times> 'e"
  f_fill :: "string \<Rightarrow> bytes \<Rightarrow> 'e \<Rightarrow> bool \<times> 'e"
  f_rename :: "string \<Rightarrow> string \<Rightarrow> 'e \<Rightarrow> bool \<times> 'e"
  f_unlink :: "string \<Rightarrow> 'e \<Rightarrow> 'e"

text \<open>A file counts only when it holds exactly the bytes of the structure.\<close>

definition read_exact_file :: "'e files \<Rightarrow> string \<Rightarrow> nat \<Rightarrow> 'e \<Rightarrow> bytes option \<times> 'e" where
  "read_exact_file fs path sz e =
     (case f_read fs path e of
        (None, e1) \<Rightarrow> (None, e1)
      | (Some bs, e1) \<Rightarrow> (if length bs = sz then Some bs else None, e1))"

definition write_exact_file_atomic :: "'e files \<Rightarrow> string \<Rightarrow> string \<Rightarrow> bytes \<Rightarrow> 'e \<Rightarrow> bool \<times> 'e" where
  "write_exact_file_atomic fs temporary_path final_path value e =
     (case f_create fs temporary_path e of
        (False, e1) \<Rightarrow> (False, e1)
      | (True, e1) \<Rightarrow>
          (case f_fill fs temporary_path value e1 of
             (False, e2) \<Rightarrow> (False, f_unlink fs temporary_path e2)
           | (True, e2) \<Rightarrow>
               (case f_rename fs temporary_path final_path e2 of
                  (False, e3) \<Rightarrow> (False, f_unlink fs temporary_path e3)
                | (True, e3) \<Rightarrow> (True, e3))))"

section \<open>A file system of whole files with failures\<close>

text \<open>
  The disk maps paths to contents; the oracle decides which of the next operations fail, and
  after how many bytes a write stops.
\<close>

record disk =
  dk_files :: "string \<Rightarrow> bytes option"
  dk_oracle :: "nat option list"

definition dk_next :: "disk \<Rightarrow> nat option \<times> disk" where
  "dk_next d = (case dk_oracle d of [] \<Rightarrow> (None, d) | x # xs \<Rightarrow> (x, d\<lparr>dk_oracle := xs\<rparr>))"

text \<open>\<open>None\<close> lets an operation succeed; \<open>Some n\<close> makes it fail, a write after \<open>n\<close> bytes.\<close>

definition disk_files :: "disk files" where
  "disk_files =
     \<lparr>f_read = (\<lambda>p d. (dk_files d p, d)),
      f_create = (\<lambda>p d. case dk_next d of
         (None, d1) \<Rightarrow> (True, d1\<lparr>dk_files := (dk_files d1)(p \<mapsto> [])\<rparr>) | (Some n, d1) \<Rightarrow> (False, d1)),
      f_fill = (\<lambda>p bs d. case dk_next d of
         (None, d1) \<Rightarrow> (True, d1\<lparr>dk_files := (dk_files d1)(p \<mapsto> bs)\<rparr>)
       | (Some n, d1) \<Rightarrow> (False, d1\<lparr>dk_files := (dk_files d1)(p \<mapsto> take n bs)\<rparr>)),
      f_rename = (\<lambda>p q d. case dk_next d of
         (None, d1) \<Rightarrow> (True, d1\<lparr>dk_files := (dk_files d1)(q := dk_files d1 p, p := None)\<rparr>)
       | (Some n, d1) \<Rightarrow> (False, d1)),
      f_unlink = (\<lambda>p d. d\<lparr>dk_files := (dk_files d)(p := None)\<rparr>)\<rparr>"

section \<open>Properties\<close>

text \<open>
  Whatever operation fails and however much of the temporary file was written, the
  published path holds either its old contents or the new structure as a whole, the latter
  exactly when the write reports success, and no other file but the temporary one changes.
\<close>

theorem atomic_file_all_or_nothing:
  assumes "write_exact_file_atomic disk_files tmp final value d = (ok, d')" "tmp \<noteq> final"
  shows "dk_files d' final = (if ok then Some value else dk_files d final)
    \<and> (\<forall>p. p \<noteq> tmp \<longrightarrow> p \<noteq> final \<longrightarrow> dk_files d' p = dk_files d p)"
  using assms
  by (auto simp: write_exact_file_atomic_def disk_files_def dk_next_def
      split: prod.splits bool.splits option.splits list.splits if_splits)

theorem atomic_file_all_or_nothing_witness:
  "dk_files (snd (write_exact_file_atomic disk_files ''t'' ''f'' [1, 2, 3]
     \<lparr>dk_files = [''f'' \<mapsto> [9]], dk_oracle = [None, Some 2]\<rparr>)) ''f'' = Some [9]"
proof -
  let ?d = "\<lparr>dk_files = [''f'' \<mapsto> [9]], dk_oracle = [None, Some 2]\<rparr>"
  obtain ok d' where r: "write_exact_file_atomic disk_files ''t'' ''f'' [1, 2, 3] ?d = (ok, d')"
    by (cases "write_exact_file_atomic disk_files ''t'' ''f'' [1, 2, 3] ?d")
  moreover have "\<not> ok"
    using r by (simp add: write_exact_file_atomic_def disk_files_def dk_next_def)
  ultimately show ?thesis using atomic_file_all_or_nothing [OF r] by simp
qed

end
