(* ===== verification/Hook_Controller.thy ===== *)
theory Hook_Controller
  imports Debugger Files
begin

text \<open>
  \<^verbatim>\<open>src/ps5/shellui_hook_controller.cpp\<close>: the controller consumes one request file, checks
  it, and patches the stopped shell inside windows of raised authority, attachment and (on some
  firmware) writable memory, with verification and rollback.  Kernel, files and the firmware
  version are parameters.  The transaction is modelled in the stages of the code.
\<close>

unbundle bit_operations_syntax

section \<open>Definitions\<close>

definition kPtraceAuthId :: u64 where "kPtraceAuthId = 0x4800000000010003"
definition kPs5CodePageSize :: u64 where "kPs5CodePageSize = 0x4000"

definition kShellUiHookRequestPath :: string where
  "kShellUiHookRequestPath = ''/system_tmp/commonfps_v123_hook_request.bin''"
definition kShellUiHookRequestTempPath :: string where
  "kShellUiHookRequestTempPath = ''/system_tmp/commonfps_v123_hook_request.tmp''"
definition kShellUiHookAckPath :: string where
  "kShellUiHookAckPath = ''/system_tmp/commonfps_v123_hook_ack.bin''"
definition kShellUiHookAckTempPath :: string where
  "kShellUiHookAckTempPath = ''/system_tmp/commonfps_v123_hook_ack.tmp''"

datatype hook_poll_result = NoRequest | Applied | HookFailed

record hook_report =
  hr_status :: hook_status
  hr_sdk_version :: u32
  hr_method_address :: u64
  hr_displaced_size :: u32
  hr_eta_chain :: bool
  hr_backend :: string
  hr_read_rc :: int
  hr_read_primary_rc :: int
  hr_read_fallback_rc :: int
  hr_write_rc :: int
  hr_original_protection :: int
  hr_protect_rc :: int
  hr_ptrace_write_rc :: int
  hr_mdbg_write_rc :: int
  hr_restore_protection_rc :: int
  hr_protection_restored :: bool
  hr_expected_matched :: bool
  hr_verified :: bool
  hr_restored :: bool
  hr_detached :: bool
  hr_auth_restored :: bool
  hr_probe :: bool
  hr_main_thread_guard :: bool
  hr_observed :: bytes

definition hr_init :: hook_report where
  "hr_init =
     \<lparr>hr_status = InvalidRequest, hr_sdk_version = 0, hr_method_address = 0, hr_displaced_size = 0,
      hr_eta_chain = False, hr_backend = ''none'', hr_read_rc = -1, hr_read_primary_rc = -1,
      hr_read_fallback_rc = -1, hr_write_rc = -1, hr_original_protection = -1, hr_protect_rc = -1,
      hr_ptrace_write_rc = -1, hr_mdbg_write_rc = -1, hr_restore_protection_rc = -1,
      hr_protection_restored = False, hr_expected_matched = False, hr_verified = False,
      hr_restored = False, hr_detached = False, hr_auth_restored = False, hr_probe = False,
      hr_main_thread_guard = False, hr_observed = replicate kShellUiHookPatchSize 0\<rparr>"

definition make_ack :: "hook_request \<Rightarrow> hook_report \<Rightarrow> hook_ack" where
  "make_ack request report =
     (let flag = (\<lambda>b. if b then 1 else 0);
          a = default_hook_ack
            \<lparr>ack_pid := rq_pid request, ack_nonce := rq_nonce request,
             ack_status := of_int (status_code (hr_status report)),
             ack_read_rc := of_int (hr_read_rc report), ack_write_rc := of_int (hr_write_rc report),
             ack_verified := flag (hr_verified report), ack_restored := flag (hr_restored report),
             ack_detached := flag (hr_detached report), ack_auth_restored := flag (hr_auth_restored report),
             ack_phase := phase_code (if hr_probe report then PhaseProbe
                                      else if hr_main_thread_guard report then PhaseMainThreadGuard
                                      else PhasePatch),
             ack_observed := hr_observed report\<rparr>
      in a\<lparr>ack_checksum := shellui_hook_ack_checksum a\<rparr>)"

definition write_ack :: "'e files \<Rightarrow> hook_request \<Rightarrow> hook_report \<Rightarrow> 'e \<Rightarrow> 'e" where
  "write_ack fs request report e =
     snd (write_exact_file_atomic fs kShellUiHookAckTempPath kShellUiHookAckPath
       (ack_bytes (make_ack request report)) e)"

definition clear_shellui_hook_protocol_files :: "'e files \<Rightarrow> 'e \<Rightarrow> 'e" where
  "clear_shellui_hook_protocol_files fs e =
     f_unlink fs kShellUiHookAckTempPath (f_unlink fs kShellUiHookAckPath
       (f_unlink fs kShellUiHookRequestTempPath (f_unlink fs kShellUiHookRequestPath e)))"

subsection \<open>The target of a transaction\<close>

record hook_context =
  hc_request :: hook_request
  hc_pid :: int
  hc_sdk :: u32
  hc_backend :: hook_backend
  hc_probe :: bool
  hc_guard :: bool
  hc_eta_chain :: bool

definition hc_fw900_guard_write :: "hook_context \<Rightarrow> bool" where
  "hc_fw900_guard_write c \<longleftrightarrow>
     hc_guard c \<and> firmware_family (hc_sdk c) = 0x09000000 \<and> hc_backend c = Mdbg"

definition hc_fw1160_guard_write :: "hook_context \<Rightarrow> bool" where
  "hc_fw1160_guard_write c \<longleftrightarrow> hc_guard c \<and> firmware_is_fw1160 (hc_sdk c) \<and> hc_backend c = PtraceIo"

record 'e hook_session =
  hs_report :: hook_report
  hs_guard :: guard_write_state
  hs_guard_attempted :: bool
  hs_code_reads :: nat
  hs_env :: 'e

definition hook_read_target :: "'e kernel \<Rightarrow> hook_context \<Rightarrow> 'e hook_session \<Rightarrow> int \<times> bytes \<times> 'e hook_session" where
  "hook_read_target k c s =
     (let address = rq_method_address (hc_request c)
      in case read_shellui_code (hc_sdk c) (hc_backend c) kShellUiHookPatchSize
                (\<lambda>n. pt_copyout k (hc_pid c) address n)
                (\<lambda>n. if firmware_is_fw1160 (hc_sdk c) then shellui_mdbg_read_exact k (hc_pid c) address n
                     else mdbg_copyout k (hc_pid c) address n)
                (replicate kShellUiHookPatchSize 0) (hs_env s) of
           ((r, buf), e) \<Rightarrow>
             let rep = hs_report s;
                 rep1 = (if hs_code_reads s = 0
                         then rep\<lparr>hr_read_primary_rc := cr_primary_rc r, hr_read_fallback_rc := cr_fallback_rc r\<rparr>
                         else rep);
                 rep2 = (if cr_fallback_attempted r \<and> \<not> hs_guard_attempted s
                         then rep1\<lparr>hr_backend := ''ptrace-io+mdbg-read''\<rparr> else rep1)
             in (cr_rc r, buf, s\<lparr>hs_report := rep2, hs_code_reads := hs_code_reads s + 1, hs_env := e\<rparr>))"

definition write_offset :: "hook_context \<Rightarrow> nat" where
  "write_offset c = (if hc_guard c then 0 else if hc_eta_chain c then 6 else 0)"

definition write_size :: "hook_context \<Rightarrow> nat" where
  "write_size c = (if hc_guard c then 1 else if hc_eta_chain c then 8 else kShellUiHookPatchSize)"

definition write_fw1160 :: "'e kernel \<Rightarrow> hook_context \<Rightarrow> bytes \<Rightarrow> 'e hook_session \<Rightarrow> int \<times> 'e hook_session" where
  "write_fw1160 k c code s =
     (case shellui_write_guard_byte k (hc_pid c) (rq_method_address (hc_request c)) (code ! 0)
             (hs_guard s) (hs_env s) of
        (rc, gw, e) \<Rightarrow>
          let rep0 = (hs_report s)\<lparr>hr_original_protection := gw_original_protection gw\<rparr>;
              rep1 = (if \<not> hs_guard_attempted s
                      then rep0\<lparr>hr_backend := (if gw_mdbg_write_rc gw = -1 then ''ptrace-io+vm-protection''
                                              else ''ptrace-io+mdbg+vm-protection''),
                                hr_protect_rc := gw_protect_rc gw,
                                hr_ptrace_write_rc := gw_ptrace_write_rc gw,
                                hr_mdbg_write_rc := gw_mdbg_write_rc gw\<rparr>
                      else rep0);
              rep2 = rep1\<lparr>hr_restore_protection_rc := gw_restore_protection_rc gw,
                          hr_protection_restored := gw_protection_restored gw\<rparr>
          in (rc, s\<lparr>hs_report := rep2, hs_guard := gw, hs_guard_attempted := True, hs_env := e\<rparr>))"

definition write_fw900 :: "'e kernel \<Rightarrow> hook_context \<Rightarrow> bytes \<Rightarrow> 'e \<Rightarrow> int \<times> 'e" where
  "write_fw900 k c part e =
     (let address = rq_method_address (hc_request c) + of_nat (write_offset c);
          page = rq_method_address (hc_request c) AND NOT (kPs5CodePageSize - 1)
      in case k_mprotect k (hc_pid c) page (unat kPs5CodePageSize) 7 e of
           (prc, e1) \<Rightarrow>
             if prc \<noteq> 0 then (-1000, e1)
             else case mdbg_copyin k (hc_pid c) part address e1 of
                    (rc, e2) \<Rightarrow>
                      case (if rc \<noteq> 0
                            then case pt_copyin k (hc_pid c) part address e2 of ((rc', _), e3) \<Rightarrow> (rc', e3)
                            else (rc, e2)) of
                        (rc3, e3) \<Rightarrow>
                          case k_mprotect k (hc_pid c) page (unat kPs5CodePageSize) 5 e3 of
                            (rrc, e4) \<Rightarrow> (if rrc \<noteq> 0 then -1001 else rc3, e4))"

definition hook_write_target :: "'e kernel \<Rightarrow> hook_context \<Rightarrow> bytes \<Rightarrow> 'e hook_session \<Rightarrow> int \<times> 'e hook_session" where
  "hook_write_target k c code s =
     (if hc_fw1160_guard_write c then write_fw1160 k c code s
      else
        let part = sub_bytes (write_offset c) (write_size c) code;
            address = rq_method_address (hc_request c) + of_nat (write_offset c)
        in case (if hc_fw900_guard_write c then write_fw900 k c part (hs_env s)
                 else if hc_backend c = Mdbg then mdbg_copyin k (hc_pid c) part address (hs_env s)
                 else case pt_copyin k (hc_pid c) part address (hs_env s) of ((rc, _), e) \<Rightarrow> (rc, e)) of
             (rc, e) \<Rightarrow> (rc, s\<lparr>hs_env := e\<rparr>))"

subsection \<open>The transaction on the stopped shell\<close>

definition probe_result :: "int \<Rightarrow> bytes \<Rightarrow> hook_report \<Rightarrow> hook_report" where
  "probe_result rc observed rep =
     (if rc = 0
      then rep\<lparr>hr_observed := observed, hr_eta_chain := is_jump observed, hr_expected_matched := True,
               hr_verified := True, hr_status := Success\<rparr>
      else rep\<lparr>hr_status := ExpectedBytesMismatch\<rparr>)"

text \<open>Undo a write that could not be verified, unless the original code is still there.\<close>

definition hook_rollback :: "'e kernel \<Rightarrow> hook_context \<Rightarrow> int \<Rightarrow> bytes \<Rightarrow> 'e hook_session \<Rightarrow> 'e hook_session" where
  "hook_rollback k c verify_rc verified s =
     (let expected = rq_expected (hc_request c)
      in if verify_rc = 0 \<and> verified = expected \<and>
            (\<not> hc_fw1160_guard_write c \<or> gw_protection_restored (hs_guard s))
         then s\<lparr>hs_report := (hs_report s)\<lparr>hr_restored := True\<rparr>\<rparr>
         else case hook_write_target k c expected s of
                (restore_rc, s1) \<Rightarrow>
                  if restore_rc \<noteq> 0 then s1\<lparr>hs_report := (hs_report s1)\<lparr>hr_restored := False\<rparr>\<rparr>
                  else case hook_read_target k c s1 of
                         (rc, check, s2) \<Rightarrow>
                           s2\<lparr>hs_report := (hs_report s2)\<lparr>hr_restored := (rc = 0 \<and> check = expected)\<rparr>\<rparr>)"

definition hook_patch :: "'e kernel \<Rightarrow> hook_context \<Rightarrow> 'e hook_session \<Rightarrow> bool \<times> 'e hook_session" where
  "hook_patch k c s0 =
     (let s = s0\<lparr>hs_report := (hs_report s0)\<lparr>hr_expected_matched := True\<rparr>\<rparr>
      in case hook_write_target k c (rq_desired (hc_request c)) s of
           (write_rc, s1) \<Rightarrow>
             case hook_read_target k c (s1\<lparr>hs_report := (hs_report s1)\<lparr>hr_write_rc := write_rc\<rparr>\<rparr>) of
               (verify_rc, verified, s2) \<Rightarrow>
                 let ok = (verify_rc = 0 \<and> verified = rq_desired (hc_request c))
                 in if ok \<and> write_rc = 0
                    then (True, s2\<lparr>hs_report := (hs_report s2)\<lparr>hr_verified := True, hr_status := Success\<rparr>\<rparr>)
                    else (False, hook_rollback k c verify_rc verified
                           (s2\<lparr>hs_report := (hs_report s2)
                              \<lparr>hr_verified := ok,
                               hr_status := (if write_rc = 0 then VerifyFailure else WriteFailure)\<rparr>\<rparr>)))"

definition hook_transaction :: "'e kernel \<Rightarrow> hook_context \<Rightarrow> 'e hook_session \<Rightarrow> bool \<times> 'e hook_session" where
  "hook_transaction k c s =
     (case hook_read_target k c s of
        (rc, observed, s1) \<Rightarrow>
          let s2 = s1\<lparr>hs_report := (hs_report s1)\<lparr>hr_read_rc := rc\<rparr>\<rparr>
          in if hc_probe c then (False, s2\<lparr>hs_report := probe_result rc observed (hs_report s2)\<rparr>)
             else if rc \<noteq> 0 \<or> observed \<noteq> rq_expected (hc_request c)
             then (False, s2\<lparr>hs_report := (hs_report s2)\<lparr>hr_status := ExpectedBytesMismatch\<rparr>\<rparr>)
             else hook_patch k c s2)"

definition hook_attached :: "'e kernel \<Rightarrow> hook_context \<Rightarrow> 'e hook_session \<Rightarrow> bool \<times> 'e hook_session" where
  "hook_attached k c s =
     (case pt_attach k (hc_pid c) (hs_env s) of
        (arc, e1) \<Rightarrow>
          if arc \<noteq> 0
          then (False, s\<lparr>hs_report := (hs_report s)\<lparr>hr_status := AttachFailure\<rparr>, hs_env := e1\<rparr>)
          else case hook_transaction k c (s\<lparr>hs_env := e1\<rparr>) of
                 (applied, s1) \<Rightarrow>
                   case pt_detach k (hc_pid c) (hs_env s1) of
                     (drc, e2) \<Rightarrow>
                       let rep = (hs_report s1)\<lparr>hr_detached := (drc = 0)\<rparr>
                       in (applied,
                           s1\<lparr>hs_report := (if drc \<noteq> 0 \<and> applied then rep\<lparr>hr_status := DetachFailure\<rparr> else rep),
                              hs_env := k_kill_cont k (hc_pid c) e2\<rparr>))"

definition hook_privileged :: "'e kernel \<Rightarrow> hook_context \<Rightarrow> 'e hook_session \<Rightarrow> 'e hook_session" where
  "hook_privileged k c s =
     (case k_get_authid k (k_self k) (hs_env s) of
        (original_auth, e1) \<Rightarrow>
          if original_auth = 0
          then s\<lparr>hs_report := (hs_report s)\<lparr>hr_status := AuthFailure\<rparr>, hs_env := e1\<rparr>
          else case k_set_authid k (k_self k) kPtraceAuthId e1 of
                 (src, e2) \<Rightarrow>
                   if src \<noteq> 0
                   then s\<lparr>hs_report := (hs_report s)\<lparr>hr_status := AuthFailure\<rparr>, hs_env := e2\<rparr>
                   else case hook_attached k c (s\<lparr>hs_env := e2\<rparr>) of
                          (applied, s1) \<Rightarrow>
                            case k_set_authid k (k_self k) original_auth (hs_env s1) of
                              (rrc, e3) \<Rightarrow>
                                case (if rrc = 0
                                      then case k_get_authid k (k_self k) e3 of (a, e4) \<Rightarrow> (a = original_auth, e4)
                                      else (False, e3)) of
                                  (restored, e4) \<Rightarrow>
                                    let rep = (hs_report s1)\<lparr>hr_auth_restored := restored\<rparr>
                                    in s1\<lparr>hs_report := (if \<not> restored \<and> applied
                                                       then rep\<lparr>hr_status := AuthRestoreFailure\<rparr> else rep),
                                          hs_env := e4\<rparr>)"

subsection \<open>One poll\<close>

definition request_is_valid :: "hook_request \<Rightarrow> int \<Rightarrow> bool" where
  "request_is_valid r pid =
     (if shellui_hook_request_is_probe r then shellui_hook_probe_request_is_valid r pid
      else if shellui_hook_request_is_main_thread_guard r
      then shellui_main_thread_guard_request_is_valid r pid
      else shellui_hook_request_is_valid r pid)"

definition hook_context_for :: "hook_request \<Rightarrow> int \<Rightarrow> u32 \<Rightarrow> hook_context" where
  "hook_context_for r pid sdk =
     (let probe = shellui_hook_request_is_probe r;
          guard = shellui_hook_request_is_main_thread_guard r;
          eta = (\<not> probe \<and> \<not> guard \<and> shellui_hook_is_eta_chain r)
      in \<lparr>hc_request = r, hc_pid = pid, hc_sdk = sdk,
          hc_backend = (if probe then shellui_hook_probe_backend sdk
                        else if guard then shellui_main_thread_guard_backend sdk
                        else shellui_hook_backend sdk eta),
          hc_probe = probe, hc_guard = guard, hc_eta_chain = eta\<rparr>)"

definition hook_process ::
  "'e kernel \<Rightarrow> 'e files \<Rightarrow> hook_request \<Rightarrow> int \<Rightarrow> u32 \<Rightarrow> 'e \<Rightarrow> hook_poll_result \<times> hook_report \<times> 'e" where
  "hook_process k fs r pid sdk e =
     (let c = hook_context_for r pid sdk;
          rep0 = hr_init\<lparr>hr_sdk_version := sdk, hr_method_address := rq_method_address r,
                         hr_displaced_size := rq_displaced_size r, hr_probe := hc_probe c,
                         hr_main_thread_guard := hc_guard c\<rparr>
      in if \<not> request_is_valid r pid then
           let rep = rep0\<lparr>hr_status := InvalidRequest\<rparr> in (HookFailed, rep, write_ack fs r rep e)
         else if hc_backend c = Unsupported then
           let rep = rep0\<lparr>hr_eta_chain := hc_eta_chain c, hr_status := UnsupportedFirmware\<rparr>
           in (HookFailed, rep, write_ack fs r rep e)
         else
           let rep1 = rep0\<lparr>hr_eta_chain := hc_eta_chain c,
                 hr_backend := (if hc_fw900_guard_write c then ''mdbg-rwx''
                                else if hc_backend c = Mdbg then ''mdbg'' else ''ptrace-io'')\<rparr>;
               s = hook_privileged k c
                 \<lparr>hs_report = rep1, hs_guard = gw_init, hs_guard_attempted = False, hs_code_reads = 0, hs_env = e\<rparr>;
               rep = hs_report s
           in (if hr_status rep = Success then Applied else HookFailed, rep, write_ack fs r rep (hs_env s)))"

definition poll_and_apply_shellui_hook ::
  "'e kernel \<Rightarrow> 'e files \<Rightarrow> ('e \<Rightarrow> u32 \<times> 'e) \<Rightarrow> int \<Rightarrow> 'e \<Rightarrow> hook_poll_result \<times> hook_report \<times> 'e" where
  "poll_and_apply_shellui_hook k fs sdk_version pid e =
     (case read_exact_file fs kShellUiHookRequestPath 92 e of
        (None, e1) \<Rightarrow> (NoRequest, hr_init, e1)
      | (Some bs, e1) \<Rightarrow>
          (case sdk_version (f_unlink fs kShellUiHookRequestPath e1) of
             (sdk, e2) \<Rightarrow> hook_process k fs (request_of_bytes bs) pid sdk e2))"

section \<open>The transaction\<close>

text \<open>The part of a report that reads and writes of the target leave alone.\<close>

definition verdict :: "hook_report \<Rightarrow> hook_status \<times> bool \<times> bool \<times> int \<times> bool \<times> (bool \<times> bool) \<times> bytes" where
  "verdict rep = (hr_status rep, hr_expected_matched rep, hr_verified rep, hr_write_rc rep, hr_restored rep,
     (hr_probe rep, hr_main_thread_guard rep), hr_observed rep)"

definition code_at :: "('e \<Rightarrow> u64 \<Rightarrow> u8) \<Rightarrow> hook_context \<Rightarrow> 'e \<Rightarrow> bytes" where
  "code_at mem c e = read_mem (mem e) (rq_method_address (hc_request c)) kShellUiHookPatchSize"

text \<open>
  What a transaction leaves behind: applied means verified and in place, restored means the
  expected code is in place, and a probe or a mismatch has not touched the memory at all.
\<close>

definition transaction_outcome ::
  "('e \<Rightarrow> u64 \<Rightarrow> u8) \<Rightarrow> hook_context \<Rightarrow> 'e \<Rightarrow> bool \<Rightarrow> hook_report \<Rightarrow> 'e \<Rightarrow> bool" where
  "transaction_outcome mem c e applied rep e' \<longleftrightarrow>
     (applied \<longrightarrow> \<not> hc_probe c \<and> hr_status rep = Success \<and> hr_expected_matched rep \<and> hr_verified rep \<and>
        hr_write_rc rep = 0 \<and> code_at mem c e = rq_expected (hc_request c) \<and>
        code_at mem c e' = rq_desired (hc_request c)) \<and>
     (\<not> applied \<longrightarrow> hr_status rep = Success \<longrightarrow> hc_probe c) \<and>
     (hr_restored rep \<longrightarrow> code_at mem c e' = rq_expected (hc_request c)) \<and>
     (hc_probe c \<or> \<not> hr_expected_matched rep \<longrightarrow> mem e' = mem e) \<and>
     length (hr_observed rep) = kShellUiHookPatchSize \<and>
     (hc_probe c \<longrightarrow> hr_status rep = Success \<longrightarrow> hr_observed rep = code_at mem c e)"

lemma hook_read_target_verdict:
  assumes "hook_read_target k c s = (rc, buf, s')"
  shows "verdict (hs_report s') = verdict (hs_report s)"
  using assms by (auto simp: hook_read_target_def verdict_def Let_def split: prod.splits if_splits)

lemma hook_write_target_verdict:
  assumes "hook_write_target k c code s = (rc, s')"
  shows "verdict (hs_report s') = verdict (hs_report s)"
  using assms
  by (auto simp: hook_write_target_def write_fw1160_def verdict_def Let_def split: prod.splits if_splits)

lemma read_shellui_code_sound:
  assumes p: "\<And>x rc d x'. ptrace_read sz x = ((rc, d), x') \<Longrightarrow> mem x' = mem x \<and> (rc = 0 \<longrightarrow> d = get (mem x))"
    and m: "\<And>x rc d x'. mdbg_read sz x = ((rc, d), x') \<Longrightarrow> mem x' = mem x \<and> (rc = 0 \<longrightarrow> d = get (mem x))"
    and r: "read_shellui_code sdk backend sz ptrace_read mdbg_read dest e = ((r, buf), e')"
  shows "mem e' = mem e \<and> (cr_rc r = 0 \<longrightarrow> buf = get (mem e))"
proof -
  obtain rc1 d1 e1 where 1: "ptrace_read sz e = ((rc1, d1), e1)" by (metis prod.collapse)
  obtain rc2 d2 e2 where 2: "mdbg_read sz e = ((rc2, d2), e2)" by (metis prod.collapse)
  obtain rc3 d3 e3 where 3: "mdbg_read sz e1 = ((rc3, d3), e3)" by (metis prod.collapse)
  show ?thesis
    using r p [OF 1] m [OF 2] m [OF 3] 1 2 3
    by (auto simp: read_shellui_code_def Let_def EINVAL_def ENOTSUP_def split: if_splits)
qed

lemma hook_read_target_truthful:
  assumes "truthful_reads k (hc_pid c) mem" "leaves_memory k (hc_pid c) mem"
    and "hook_read_target k c s = (rc, buf, s')"
  shows "mem (hs_env s') = mem (hs_env s) \<and> (rc = 0 \<longrightarrow> buf = code_at mem c (hs_env s))"
proof -
  let ?a = "rq_method_address (hc_request c)"
  let ?pt = "\<lambda>n. pt_copyout k (hc_pid c) ?a n"
  let ?md = "\<lambda>n. if firmware_is_fw1160 (hc_sdk c) then shellui_mdbg_read_exact k (hc_pid c) ?a n
                 else mdbg_copyout k (hc_pid c) ?a n"
  let ?X = "read_shellui_code (hc_sdk c) (hc_backend c) kShellUiHookPatchSize ?pt ?md
      (replicate kShellUiHookPatchSize 0) (hs_env s)"
  obtain q e' where "?X = (q, e')" by (cases ?X)
  moreover obtain r d where "q = (r, d)" by (cases q)
  ultimately have r: "?X = ((r, d), e')" by simp
  have "mem e' = mem (hs_env s) \<and> (cr_rc r = 0 \<longrightarrow> d = read_mem (mem (hs_env s)) ?a kShellUiHookPatchSize)"
    using assms(1) mdbg_read_exact_truthful [OF assms(1,2)]
    by (intro read_shellui_code_sound [OF _ _ r, where get = "\<lambda>m. read_mem m ?a kShellUiHookPatchSize"])
      (auto simp: truthful_reads_def split: if_splits)
  with r assms(3) show ?thesis by (auto simp: hook_read_target_def code_at_def Let_def)
qed

lemma hook_rollback_cases:
  assumes "hook_rollback k c verify_rc verified s = s'"
  obtains (original) "verify_rc = 0" "verified = rq_expected (hc_request c)"
      "s' = s\<lparr>hs_report := (hs_report s)\<lparr>hr_restored := True\<rparr>\<rparr>"
  | (failed) rc s1 where "hook_write_target k c (rq_expected (hc_request c)) s = (rc, s1)" "rc \<noteq> 0"
      "s' = s1\<lparr>hs_report := (hs_report s1)\<lparr>hr_restored := False\<rparr>\<rparr>"
  | (written) s1 rc check s2 where "hook_write_target k c (rq_expected (hc_request c)) s = (0, s1)"
      "hook_read_target k c s1 = (rc, check, s2)"
      "s' = s2\<lparr>hs_report := (hs_report s2)\<lparr>hr_restored := (rc = 0 \<and> check = rq_expected (hc_request c))\<rparr>\<rparr>"
  using assms by (auto simp: hook_rollback_def Let_def split: prod.splits if_splits)

lemma hook_rollback_restored:
  assumes "truthful_reads k (hc_pid c) mem" "leaves_memory k (hc_pid c) mem"
    and "verify_rc = 0 \<longrightarrow> verified = code_at mem c (hs_env s)"
    and "hook_rollback k c verify_rc verified s = s'" "hr_restored (hs_report s')"
  shows "code_at mem c (hs_env s') = rq_expected (hc_request c)"
  using assms(4)
proof (cases rule: hook_rollback_cases)
  case original
  then show ?thesis using assms(3) by simp
next
  case failed
  then show ?thesis using assms(5) by simp
next
  case (written s1 rc check s2)
  then show ?thesis
    using assms(5) hook_read_target_truthful [OF assms(1,2) written(2)] by (simp add: code_at_def)
qed

lemma hook_rollback_verdict:
  assumes "hook_rollback k c verify_rc verified s = s'"
  shows "hr_status (hs_report s') = hr_status (hs_report s)
    \<and> hr_expected_matched (hs_report s') = hr_expected_matched (hs_report s)
    \<and> hr_observed (hs_report s') = hr_observed (hs_report s)"
  using assms
proof (cases rule: hook_rollback_cases)
  case (failed rc s1)
  then show ?thesis using hook_write_target_verdict [OF failed(1)] by (simp add: verdict_def)
next
  case (written s1 rc check s2)
  then show ?thesis
    using hook_write_target_verdict [OF written(1)] hook_read_target_verdict [OF written(2)]
    by (simp add: verdict_def)
qed simp

lemma hook_patch_outcome:
  assumes "truthful_reads k (hc_pid c) mem" "leaves_memory k (hc_pid c) mem"
    and "hook_patch k c s = (applied, s')" "\<not> hc_probe c"
      "\<not> hr_restored (hs_report s) \<and> length (hr_observed (hs_report s)) = kShellUiHookPatchSize"
    and "code_at mem c e = rq_expected (hc_request c)"
  shows "transaction_outcome mem c e applied (hs_report s') (hs_env s')"
proof -
  let ?s = "s\<lparr>hs_report := (hs_report s)\<lparr>hr_expected_matched := True\<rparr>\<rparr>"
  obtain wrc s1 where w: "hook_write_target k c (rq_desired (hc_request c)) ?s = (wrc, s1)"
    by (cases "hook_write_target k c (rq_desired (hc_request c)) ?s")
  let ?s1 = "s1\<lparr>hs_report := (hs_report s1)\<lparr>hr_write_rc := wrc\<rparr>\<rparr>"
  obtain vrc buf s2 where r: "hook_read_target k c ?s1 = (vrc, buf, s2)"
    by (cases "hook_read_target k c ?s1")
  let ?ok = "vrc = 0 \<and> buf = rq_desired (hc_request c)"
  let ?s2 = "s2\<lparr>hs_report := (hs_report s2)\<lparr>hr_verified := ?ok,
      hr_status := (if wrc = 0 then VerifyFailure else WriteFailure)\<rparr>\<rparr>"
  have v: "hr_expected_matched (hs_report s2)" "hr_write_rc (hs_report s2) = wrc" "\<not> hr_restored (hs_report s2)"
    "length (hr_observed (hs_report s2)) = kShellUiHookPatchSize"
    using assms(5) hook_write_target_verdict [OF w] hook_read_target_verdict [OF r] by (simp_all add: verdict_def)
  have t: "mem (hs_env s2) = mem (hs_env s1)" "vrc = 0 \<longrightarrow> buf = code_at mem c (hs_env s1)"
    using hook_read_target_truthful [OF assms(1,2) r] by simp_all
  show ?thesis
  proof (cases "?ok \<and> wrc = 0")
    case True
    then have "applied" "s' = s2\<lparr>hs_report := (hs_report s2)\<lparr>hr_verified := True, hr_status := Success\<rparr>\<rparr>"
      using assms(3) w r by (auto simp: hook_patch_def Let_def)
    then show ?thesis using True v t assms(4,6) by (simp add: transaction_outcome_def code_at_def)
  next
    case False
    then have f: "\<not> applied" "hook_rollback k c vrc buf ?s2 = s'"
      using assms(3) w r by (auto simp: hook_patch_def Let_def)
    have "hr_status (hs_report s') \<noteq> Success" "hr_expected_matched (hs_report s')"
      "length (hr_observed (hs_report s')) = kShellUiHookPatchSize"
      using hook_rollback_verdict [OF f(2)] v by auto
    moreover have "hr_restored (hs_report s') \<Longrightarrow> code_at mem c (hs_env s') = rq_expected (hc_request c)"
      using hook_rollback_restored [OF assms(1,2) _ f(2)] t by (simp add: code_at_def)
    ultimately show ?thesis using f(1) assms(4) by (simp add: transaction_outcome_def)
  qed
qed

lemma hook_transaction_outcome:
  assumes "truthful_reads k (hc_pid c) mem" "leaves_memory k (hc_pid c) mem"
    and "hook_transaction k c s = (applied, s')"
    and fresh: "\<not> hr_restored (hs_report s)" "\<not> hr_expected_matched (hs_report s)"
      "length (hr_observed (hs_report s)) = kShellUiHookPatchSize"
  shows "transaction_outcome mem c (hs_env s) applied (hs_report s') (hs_env s')"
proof -
  obtain rc buf s1 where r: "hook_read_target k c s = (rc, buf, s1)" by (cases "hook_read_target k c s")
  have v: "\<not> hr_restored (hs_report s1)" "\<not> hr_expected_matched (hs_report s1)"
      "length (hr_observed (hs_report s1)) = kShellUiHookPatchSize"
    using fresh hook_read_target_verdict [OF r] by (simp_all add: verdict_def)
  have t: "mem (hs_env s1) = mem (hs_env s)" "rc = 0 \<longrightarrow> buf = code_at mem c (hs_env s)"
    using hook_read_target_truthful [OF assms(1,2) r] by simp_all
  show ?thesis
  proof (cases "\<not> hc_probe c \<and> rc = 0 \<and> buf = rq_expected (hc_request c)")
    case True
    then show ?thesis
      using assms(3) r v t
      by (intro hook_patch_outcome [OF assms(1,2), of "s1\<lparr>hs_report := (hs_report s1)\<lparr>hr_read_rc := rc\<rparr>\<rparr>"])
        (simp_all add: hook_transaction_def Let_def)
  next
    case False
    then show ?thesis
      using assms(3) r v t
      by (auto simp: hook_transaction_def Let_def transaction_outcome_def probe_result_def code_at_def split: if_splits)
  qed
qed

lemma transaction_outcome_cong:
  assumes "transaction_outcome mem c e applied rep e'" "mem e1 = mem e" "mem e1' = mem e'"
    and "verdict rep1 = verdict rep"
  shows "transaction_outcome mem c e1 applied rep1 e1'"
  using assms by (simp add: transaction_outcome_def verdict_def code_at_def)

text \<open>After the transaction only the status can change, and only from an applied patch.\<close>

definition window_outcome ::
  "('e \<Rightarrow> u64 \<Rightarrow> u8) \<Rightarrow> hook_context \<Rightarrow> 'e \<Rightarrow> hook_report \<Rightarrow> 'e \<Rightarrow> bool" where
  "window_outcome mem c e rep e' \<longleftrightarrow>
     (hr_status rep = Success \<and> \<not> hc_probe c \<longrightarrow>
        hr_expected_matched rep \<and> hr_verified rep \<and> hr_write_rc rep = 0 \<and> hr_detached rep \<and> hr_auth_restored rep \<and>
        code_at mem c e = rq_expected (hc_request c) \<and> code_at mem c e' = rq_desired (hc_request c)) \<and>
     (hr_restored rep \<longrightarrow> code_at mem c e' = rq_expected (hc_request c)) \<and>
     (hc_probe c \<or> \<not> hr_expected_matched rep \<longrightarrow> mem e' = mem e) \<and>
     length (hr_observed rep) = kShellUiHookPatchSize \<and>
     (hc_probe c \<longrightarrow> hr_status rep = Success \<longrightarrow> hr_observed rep = code_at mem c e)"

lemma hook_attached_outcome:
  assumes "truthful_reads k (hc_pid c) mem" "leaves_memory k (hc_pid c) mem"
    and "hook_attached k c s = (applied, s')"
    and fresh: "\<not> hr_restored (hs_report s)" "\<not> hr_expected_matched (hs_report s)"
      "length (hr_observed (hs_report s)) = kShellUiHookPatchSize"
  shows "(applied \<longrightarrow> hr_status (hs_report s') \<in> {Success, DetachFailure}
      \<and> (hr_status (hs_report s') = Success \<longrightarrow> hr_detached (hs_report s')))
    \<and> transaction_outcome mem c (hs_env s) applied
        ((hs_report s')\<lparr>hr_status := (if applied then Success else hr_status (hs_report s'))\<rparr>) (hs_env s')"
proof -
  obtain arc e1 where a: "pt_attach k (hc_pid c) (hs_env s) = (arc, e1)"
    by (cases "pt_attach k (hc_pid c) (hs_env s)")
  have m1: "mem e1 = mem (hs_env s)" using leaves_memoryD(5) [OF assms(2) a] .
  show ?thesis
  proof (cases "arc = 0")
    case False
    then show ?thesis using assms(3) a m1 fresh by (auto simp: hook_attached_def transaction_outcome_def)
  next
    case True
    obtain app s1 where t: "hook_transaction k c (s\<lparr>hs_env := e1\<rparr>) = (app, s1)"
      by (cases "hook_transaction k c (s\<lparr>hs_env := e1\<rparr>)")
    obtain drc e2 where d: "pt_detach k (hc_pid c) (hs_env s1) = (drc, e2)"
      by (cases "pt_detach k (hc_pid c) (hs_env s1)")
    have m2: "mem (k_kill_cont k (hc_pid c) e2) = mem (hs_env s1)"
      using leaves_memoryD(6,7) [OF assms(2)] d by metis
    have o: "transaction_outcome mem c (hs_env s) app (hs_report s1) (hs_env s1)"
      using hook_transaction_outcome [OF assms(1,2) t] fresh m1
      by (simp add: transaction_outcome_cong [OF _ m1 [symmetric]])
    then have st: "app \<longrightarrow> hr_status (hs_report s1) = Success" by (simp add: transaction_outcome_def)
    let ?rep = "(hs_report s1)\<lparr>hr_detached := (drc = 0)\<rparr>"
    have s': "app = applied" "s' = s1\<lparr>hs_report := (if drc \<noteq> 0 \<and> app then ?rep\<lparr>hr_status := DetachFailure\<rparr> else ?rep),
        hs_env := k_kill_cont k (hc_pid c) e2\<rparr>"
      using assms(3) by (auto simp: hook_attached_def a True t d Let_def)
    show ?thesis
      unfolding s' using st
      by (intro conjI transaction_outcome_cong [OF o [unfolded s'(1)] refl]) (auto simp: m2 verdict_def s'(1))
  qed
qed

lemma hook_privileged_outcome:
  assumes "truthful_reads k (hc_pid c) mem" "leaves_memory k (hc_pid c) mem"
    and "hook_privileged k c s = s'"
    and fresh: "\<not> hr_restored (hs_report s)" "\<not> hr_expected_matched (hs_report s)"
      "length (hr_observed (hs_report s)) = kShellUiHookPatchSize"
  shows "window_outcome mem c (hs_env s) (hs_report s') (hs_env s')"
proof -
  obtain auth e1 where 1: "k_get_authid k (k_self k) (hs_env s) = (auth, e1)" by (metis prod.collapse)
  obtain src e2 where 2: "k_set_authid k (k_self k) kPtraceAuthId e1 = (src, e2)" by (metis prod.collapse)
  obtain app s1 where 3: "hook_attached k c (s\<lparr>hs_env := e2\<rparr>) = (app, s1)" by (metis prod.collapse)
  obtain rrc e3 where 4: "k_set_authid k (k_self k) auth (hs_env s1) = (rrc, e3)" by (metis prod.collapse)
  obtain now e4 where 5: "k_get_authid k (k_self k) e3 = (now, e4)" by (metis prod.collapse)
  note m = leaves_memoryD(1,2) [OF assms(2)]
  have mem: "mem e1 = mem (hs_env s)" "mem e2 = mem (hs_env s)" "mem e3 = mem (hs_env s1)" "mem e4 = mem (hs_env s1)"
    using m(1) [OF 1] m(2) [OF 2] m(2) [OF 4] m(1) [OF 5] by simp_all
  show ?thesis
  proof (cases "auth = 0 \<or> src \<noteq> 0")
    case True
    then show ?thesis
      using assms(3) mem fresh by (cases "auth = 0") (auto simp: hook_privileged_def window_outcome_def 1 2)
  next
    case False
    have "transaction_outcome mem c (hs_env s) app
        ((hs_report s1)\<lparr>hr_status := (if app then Success else hr_status (hs_report s1))\<rparr>) (hs_env s1)"
      and "app \<longrightarrow> hr_status (hs_report s1) = Success \<longrightarrow> hr_detached (hs_report s1)"
      using hook_attached_outcome [OF assms(1,2) 3] fresh mem
      by (simp_all add: transaction_outcome_cong [OF _ mem(2) [symmetric] refl refl])
    moreover let ?ok = "rrc = 0 \<and> now = auth"
    let ?rep = "(hs_report s1)\<lparr>hr_auth_restored := ?ok\<rparr>"
    have s': "hs_report s' = (if \<not> ?ok \<and> app then ?rep\<lparr>hr_status := AuthRestoreFailure\<rparr> else ?rep)"
        "mem (hs_env s') = mem (hs_env s1)"
      using assms(3) False mem by (cases "rrc = 0"; simp add: hook_privileged_def 1 2 3 4 5 Let_def; fastforce)+
    ultimately show ?thesis
      unfolding s' window_outcome_def transaction_outcome_def code_at_def
      by (cases app; cases ?ok) auto
  qed
qed

section \<open>Properties\<close>

text \<open>Files, the firmware query and the target's memory are independent.\<close>

definition files_leave_memory :: "'e files \<Rightarrow> ('e \<Rightarrow> u64 \<Rightarrow> u8) \<Rightarrow> bool" where
  "files_leave_memory fs mem \<longleftrightarrow>
     (\<forall>p e. mem (snd (f_read fs p e)) = mem e) \<and> (\<forall>p e. mem (snd (f_create fs p e)) = mem e) \<and>
     (\<forall>p b e. mem (snd (f_fill fs p b e)) = mem e) \<and> (\<forall>p q e. mem (snd (f_rename fs p q e)) = mem e) \<and>
     (\<forall>p e. mem (f_unlink fs p e) = mem e)"

lemma write_ack_memory: "files_leave_memory fs mem \<Longrightarrow> mem (write_ack fs r rep e) = mem e"
  unfolding write_ack_def write_exact_file_atomic_def files_leave_memory_def
  by (auto split: prod.splits bool.splits) (metis snd_conv)+

lemma read_exact_file_memory:
  "files_leave_memory fs mem \<Longrightarrow> read_exact_file fs p n e = (r, e') \<Longrightarrow> mem e' = mem e"
  unfolding read_exact_file_def files_leave_memory_def
  by (auto split: prod.splits option.splits) (metis snd_conv)+

lemma hook_context_fields [simp]:
  "hc_request (hook_context_for r pid sdk) = r" "hc_pid (hook_context_for r pid sdk) = pid"
  "hc_probe (hook_context_for r pid sdk) = shellui_hook_request_is_probe r"
  "hc_sdk (hook_context_for r pid sdk) = sdk"
  by (simp_all add: hook_context_for_def Let_def)

lemma hook_process_outcome:
  assumes "truthful_reads k pid mem" "leaves_memory k pid mem" "files_leave_memory fs mem"
    and "hook_process k fs r pid sdk e = (res, rep, e')"
  shows "window_outcome mem (hook_context_for r pid sdk) e rep e'
    \<and> (hr_status rep = Success \<longleftrightarrow> res = Applied)
    \<and> (res = Applied \<longrightarrow> request_is_valid r pid \<and> hc_backend (hook_context_for r pid sdk) \<noteq> Unsupported)"
proof (cases "request_is_valid r pid \<and> hc_backend (hook_context_for r pid sdk) \<noteq> Unsupported")
  case False
  then show ?thesis
    using assms(4) write_ack_memory [OF assms(3)]
    by (auto simp: hook_process_def Let_def window_outcome_def hr_init_def split: if_splits)
next
  case True
  let ?c = "hook_context_for r pid sdk"
  let ?rep = "hr_init\<lparr>hr_sdk_version := sdk, hr_method_address := rq_method_address r,
      hr_displaced_size := rq_displaced_size r, hr_probe := hc_probe ?c, hr_main_thread_guard := hc_guard ?c,
      hr_eta_chain := hc_eta_chain ?c,
      hr_backend := (if hc_fw900_guard_write ?c then ''mdbg-rwx''
                     else if hc_backend ?c = Mdbg then ''mdbg'' else ''ptrace-io'')\<rparr>"
  let ?s = "\<lparr>hs_report = ?rep, hs_guard = gw_init, hs_guard_attempted = False, hs_code_reads = 0, hs_env = e\<rparr>"
  have r: "rep = hs_report (hook_privileged k ?c ?s)" "e' = write_ack fs r rep (hs_env (hook_privileged k ?c ?s))"
      "res = (if hr_status rep = Success then Applied else HookFailed)"
    using assms(4) True by (auto simp: hook_process_def Let_def)
  have "window_outcome mem ?c (hs_env ?s) rep (hs_env (hook_privileged k ?c ?s))"
    unfolding r(1) by (rule hook_privileged_outcome [where k = k]) (simp_all add: assms hr_init_def)
  then show ?thesis
    using True r(2,3) write_ack_memory [OF assms(3)] by (simp add: window_outcome_def code_at_def)
qed

text \<open>
  (C1) A poll that reports a patch as applied has really replaced the code: the request was
  valid for this process and allowed on this firmware, the shell held exactly the expected
  bytes before and holds exactly the desired bytes after, the shell was detached and the
  controller's own authority put back.  A successful probe reports exactly those bytes.  A patch reported as rolled back has left the expected
  bytes.  In every other case that did not match the expected bytes, and for every probe, the
  shell's memory is untouched.  Only truthful reads are assumed of the debugger, nothing of
  its writes.
\<close>

theorem hook_poll_is_transactional:
  assumes "truthful_reads k pid mem" "leaves_memory k pid mem" "files_leave_memory fs mem"
    and "\<forall>e. mem (snd (sdk_version e)) = mem e"
    and "poll_and_apply_shellui_hook k fs sdk_version pid e = (res, rep, e')"
    and "res \<noteq> NoRequest"
  shows "\<exists>bs e1. read_exact_file fs kShellUiHookRequestPath 92 e = (Some bs, e1) \<and>
    (let r = request_of_bytes bs;
         code = (\<lambda>e. read_mem (mem e) (rq_method_address r) kShellUiHookPatchSize)
     in (res = Applied \<longrightarrow> request_is_valid r pid)
      \<and> (res = Applied \<and> \<not> shellui_hook_request_is_probe r \<longrightarrow>
           code e = rq_expected r \<and> code e' = rq_desired r \<and> hr_verified rep \<and> hr_write_rc rep = 0 \<and>
           hr_detached rep \<and> hr_auth_restored rep)
      \<and> (res = Applied \<and> shellui_hook_request_is_probe r \<longrightarrow> hr_observed rep = code e)
      \<and> (hr_restored rep \<longrightarrow> code e' = rq_expected r)
      \<and> (shellui_hook_request_is_probe r \<or> \<not> hr_expected_matched rep \<longrightarrow> mem e' = mem e))"
proof -
  obtain f e1 where f: "read_exact_file fs kShellUiHookRequestPath 92 e = (f, e1)"
    by (cases "read_exact_file fs kShellUiHookRequestPath 92 e")
  with assms(5,6) obtain bs where bs: "f = Some bs"
    by (cases f) (auto simp: poll_and_apply_shellui_hook_def)
  obtain sdk e2 where s: "sdk_version (f_unlink fs kShellUiHookRequestPath e1) = (sdk, e2)"
    by (cases "sdk_version (f_unlink fs kShellUiHookRequestPath e1)")
  have p: "hook_process k fs (request_of_bytes bs) pid sdk e2 = (res, rep, e')"
    using assms(5) f bs s by (simp add: poll_and_apply_shellui_hook_def)
  have m: "mem e2 = mem e"
    using s assms(4) read_exact_file_memory [OF assms(3) f] assms(3)
    unfolding files_leave_memory_def by (metis snd_conv)
  show ?thesis
    using f bs m hook_process_outcome [OF assms(1-3) p] by (auto simp: window_outcome_def code_at_def Let_def)
qed

section \<open>Witness\<close>

definition toy_files :: "bytes \<Rightarrow> 'e files" where
  "toy_files bs =
     \<lparr>f_read = (\<lambda>p e. (Some bs, e)), f_create = (\<lambda>p e. (True, e)), f_fill = (\<lambda>p b e. (True, e)),
      f_rename = (\<lambda>p q e. (True, e)), f_unlink = (\<lambda>p e. e)\<rparr>"

lemma toy_files_memory: "files_leave_memory (toy_files bs) mem"
  by (simp add: files_leave_memory_def toy_files_def)

lemma example_guard_kind:
  "\<not> shellui_hook_request_is_probe example_guard_request"
  "shellui_hook_request_is_main_thread_guard example_guard_request"
  by (simp_all add: shellui_hook_request_is_probe_def shellui_hook_request_is_main_thread_guard_def)

lemma example_guard_context:
  "hook_context_for example_guard_request 42 0x11600001 =
     \<lparr>hc_request = example_guard_request, hc_pid = 42, hc_sdk = 0x11600001, hc_backend = PtraceIo,
      hc_probe = False, hc_guard = True, hc_eta_chain = False\<rparr>"
  by (simp add: hook_context_for_def Let_def example_guard_kind shellui_main_thread_guard_backend_def
      firmware_family_def)

lemma toy_guard_write:
  assumes "tc_prot e = 5"
  shows "\<exists>gw. shellui_write_guard_byte toy_kernel 42 0x200000 b gw_init e = (0, gw, toy_write [b] 0x200000 e)"
  using assms
  by (cases e) (simp add: shellui_write_guard_byte_def toy_kernel_def gw_init_def gw_current_def gw_clear_def gw_window_def
      gw_copy_byte_def gw_restore_def shellui_user_address_def PROT_EXEC_def PROT_READ_WRITE_def EFAULT_def EPERM_def
      toy_write_def fun_eq_iff)

lemma toy_read_target:
  assumes "hc_backend c = PtraceIo"
  shows "\<exists>rep. hook_read_target toy_kernel c s =
     (0, code_at tc_mem c (hs_env s), s\<lparr>hs_report := rep, hs_code_reads := hs_code_reads s + 1\<rparr>)"
  using assms
  by (cases s) (auto simp: hook_read_target_def read_shellui_code_def toy_kernel_def code_at_def
      kShellUiHookPatchSize_def EFAULT_def Let_def)

lemma toy_guard_transaction:
  fixes c defines "c \<equiv> hook_context_for example_guard_request 42 0x11600001"
  assumes "tc_prot e = 5" "tc_mem e = tc_mem toy_start"
  shows "\<exists>s'. hook_transaction toy_kernel c
      \<lparr>hs_report = rep, hs_guard = gw_init, hs_guard_attempted = False, hs_code_reads = 0, hs_env = e\<rparr> = (True, s')
    \<and> hr_status (hs_report s') = Success"
proof -
  have c: "hc_backend c = PtraceIo" "\<not> hc_probe c" "hc_guard c" "hc_fw1160_guard_write c"
      "hc_request c = example_guard_request" "hc_pid c = 42"
    by (simp_all add: c_def example_guard_context hc_fw1160_guard_write_def firmware_is_fw1160_def firmware_family_def)
  have b: "code_at tc_mem c e = 0x55 # replicate 15 0x90"
  proof -
    have "read_mem (tc_mem toy_start) 0x200000 kShellUiHookPatchSize = 0x55 # replicate 15 0x90" by code_simp
    then show ?thesis by (simp add: code_at_def c assms(3))
  qed
  have d: "code_at tc_mem c (toy_write [0xc3] 0x200000 e) = 0xc3 # replicate 15 0x90"
  proof -
    have "read_mem (tc_mem (toy_write [0xc3] 0x200000 toy_start)) 0x200000 kShellUiHookPatchSize
        = 0xc3 # replicate 15 0x90" by code_simp
    moreover have "tc_mem (toy_write [0xc3] 0x200000 e) = tc_mem (toy_write [0xc3] 0x200000 toy_start)"
      by (simp add: toy_write_def assms(3) fun_eq_iff)
    ultimately show ?thesis by (simp add: code_at_def c)
  qed
  obtain gw where w: "shellui_write_guard_byte toy_kernel 42 0x200000 0xc3 gw_init e = (0, gw, toy_write [0xc3] 0x200000 e)"
    using toy_guard_write [OF assms(2)] by blast
  have t: "\<exists>s'. hook_read_target toy_kernel c s = (0, code_at tc_mem c (hs_env s), s')
      \<and> hs_env s' = hs_env s \<and> hs_guard s' = hs_guard s" for s
    using toy_read_target [OF c(1), of s] by fastforce
  let ?s = "\<lparr>hs_report = rep, hs_guard = gw_init, hs_guard_attempted = False, hs_code_reads = 0, hs_env = e\<rparr>"
  obtain s1 where r1: "hook_read_target toy_kernel c ?s = (0, 0x55 # replicate 15 0x90, s1)" "hs_env s1 = e" "hs_guard s1 = gw_init"
    using t [of ?s] b by auto
  let ?s1 = "s1\<lparr>hs_report := (hs_report s1)\<lparr>hr_read_rc := 0, hr_expected_matched := True\<rparr>\<rparr>"
  obtain s2 where r2: "hook_write_target toy_kernel c (0xc3 # replicate 15 0x90) ?s1 = (0, s2)"
      "hs_env s2 = toy_write [0xc3] 0x200000 e"
    using w r1(2,3) by (auto simp: hook_write_target_def c write_fw1160_def Let_def)
  obtain s3 where r3: "hook_read_target toy_kernel c (s2\<lparr>hs_report := (hs_report s2)\<lparr>hr_write_rc := 0\<rparr>\<rparr>)
      = (0, 0xc3 # replicate 15 0x90, s3)"
    using t [of "s2\<lparr>hs_report := (hs_report s2)\<lparr>hr_write_rc := 0\<rparr>\<rparr>"] r2(2) d by auto
  show ?thesis
    using r1(1) r2(1) r3 c by (simp add: hook_transaction_def hook_patch_def)
qed

lemma toy_guard_poll:
  "fst (poll_and_apply_shellui_hook toy_kernel (toy_files (request_bytes example_guard_request))
     (\<lambda>e. (0x11600001, e)) 42 toy_start) = Applied"
proof -
  have bs: "length (request_bytes example_guard_request) = 92"
    by (simp add: request_bytes_def request_body_def)
  let ?c = "hook_context_for example_guard_request 42 0x11600001"
  have start: "tc_prot (toy_start\<lparr>tc_auth := kPtraceAuthId\<rparr>) = 5"
    "tc_mem (toy_start\<lparr>tc_auth := kPtraceAuthId\<rparr>) = tc_mem toy_start" "tc_auth toy_start \<noteq> 0"
    by (simp_all add: toy_start_def)
  have "hr_status (hs_report (hook_privileged toy_kernel ?c \<lparr>hs_report = rep, hs_guard = gw_init,
      hs_guard_attempted = False, hs_code_reads = 0, hs_env = toy_start\<rparr>)) = Success" for rep
    using toy_guard_transaction [OF start(1,2), of rep] start(3)
    by (auto simp: hook_privileged_def hook_attached_def toy_kernel_def Let_def)
  then show ?thesis
    using example_guard_valid bs
    by (simp add: poll_and_apply_shellui_hook_def read_exact_file_def toy_files_def request_of_request_bytes
        hook_process_def request_is_valid_def example_guard_kind example_guard_context Let_def)
qed

theorem hook_poll_is_transactional_witness:
  "\<exists>rep e'. poll_and_apply_shellui_hook toy_kernel (toy_files (request_bytes example_guard_request))
     (\<lambda>e. (0x11600001, e)) 42 toy_start = (Applied, rep, e')
   \<and> read_mem (tc_mem e') 0x200000 16 = 0xc3 # replicate 15 0x90 \<and> hr_detached rep"
proof -
  let ?poll = "poll_and_apply_shellui_hook toy_kernel (toy_files (request_bytes example_guard_request))
     (\<lambda>e. (0x11600001, e)) 42 toy_start"
  obtain rep e' where p: "?poll = (Applied, rep, e')" using toy_guard_poll by (metis prod.collapse)
  have "read_exact_file (toy_files (request_bytes example_guard_request)) kShellUiHookRequestPath 92 toy_start
      = (Some (request_bytes example_guard_request), toy_start)"
    by (simp add: read_exact_file_def toy_files_def request_bytes_def request_body_def)
  with hook_poll_is_transactional [OF toy_reads toy_files_memory _ p] p example_guard_valid(1) show ?thesis
    by (auto simp: request_of_request_bytes kShellUiHookPatchSize_def example_guard_kind Let_def)
qed

end
