(* ===== verification/Hook_Install.thy ===== *)
theory Hook_Install
  imports Renderer Instruction_Decoder Hook_Controller
begin

text \<open>
  The renderer's half of the hook protocol
  (\<^verbatim>\<open>src/ps5/shellui_payload/commonfps_shellui.cpp\<close>): it publishes requests for the
  controller, waits for the acknowledgement, disables the main thread check or chains itself
  into the update method, and decides in \<^verbatim>\<open>initialize_runtime\<close> which of the two to use.
  The addresses of its own functions and its process id are parameters.
\<close>

unbundle bit_operations_syntax

section \<open>Publishing requests\<close>

record self =
  sf_pid :: int
  sf_hook :: u64
  sf_trampoline :: u64

definition write_exact_file :: "'e files \<Rightarrow> string \<Rightarrow> bytes \<Rightarrow> 'e \<Rightarrow> bool \<times> 'e" where
  "write_exact_file fs path v e =
     (case f_create fs path e of
        (False, e1) \<Rightarrow> (False, e1)
      | (True, e1) \<Rightarrow> f_fill fs path v e1)"

text \<open>The renderer's read accepts a longer file and ignores what follows the structure.\<close>

definition read_prefix_file :: "'e files \<Rightarrow> string \<Rightarrow> nat \<Rightarrow> 'e \<Rightarrow> bytes option \<times> 'e" where
  "read_prefix_file fs path sz e =
     (case f_read fs path e of
        (None, e1) \<Rightarrow> (None, e1)
      | (Some bs, e1) \<Rightarrow> (if sz \<le> length bs then Some (take sz bs) else None, e1))"

definition pid_bits :: "int \<Rightarrow> u64" where
  "pid_bits pid = push_bit 32 (of_int pid)"

definition nonzero_nonce :: "u64 \<Rightarrow> u64" where
  "nonzero_nonce n = (if n = 0 then 1 else n)"

definition sealed :: "hook_request \<Rightarrow> hook_request" where
  "sealed r = r\<lparr>rq_checksum := shellui_hook_request_checksum r\<rparr>"

definition make_hook_request :: "self \<Rightarrow> u64 \<Rightarrow> bytes \<Rightarrow> bytes \<Rightarrow> nat \<Rightarrow> u64 \<Rightarrow> hook_request" where
  "make_hook_request sf meth expected desired displaced_size original_call =
     sealed
       \<lparr>rq_magic = kShellUiHookRequestMagic, rq_version = kShellUiHookProtocolVersion,
        rq_pid = of_int (sf_pid sf),
        rq_nonce = nonzero_nonce (meth XOR sf_hook sf XOR original_call XOR pid_bits (sf_pid sf) XOR 0x8d4f23a76c19e502),
        rq_method_address = meth, rq_hook_address = sf_hook sf, rq_original_call_address = original_call,
        rq_patch_size = of_nat kShellUiHookPatchSize, rq_displaced_size = of_nat displaced_size,
        rq_expected = expected, rq_desired = desired, rq_checksum = 0\<rparr>"

definition make_guard_request :: "self \<Rightarrow> u64 \<Rightarrow> bytes \<Rightarrow> hook_request" where
  "make_guard_request sf meth expected =
     sealed
       \<lparr>rq_magic = kShellUiHookRequestMagic, rq_version = kShellUiHookProtocolVersion,
        rq_pid = of_int (sf_pid sf),
        rq_nonce = nonzero_nonce (meth XOR pid_bits (sf_pid sf) XOR 0x6d9bc2f1a54837e0),
        rq_method_address = meth, rq_hook_address = meth, rq_original_call_address = 0,
        rq_patch_size = of_nat kShellUiHookPatchSize, rq_displaced_size = 1,
        rq_expected = expected, rq_desired = expected[0 := 0xc3], rq_checksum = 0\<rparr>"

definition publish_hook_request ::
  "'e files \<Rightarrow> self \<Rightarrow> u64 \<Rightarrow> bytes \<Rightarrow> bytes \<Rightarrow> nat \<Rightarrow> u64 \<Rightarrow> 'e \<Rightarrow> (bool \<times> u64) \<times> 'e" where
  "publish_hook_request fs sf meth expected desired displaced_size original_call e =
     (let r = make_hook_request sf meth expected desired displaced_size original_call
      in case write_exact_file fs kShellUiHookRequestPath (request_bytes r) e of
           (ok, e1) \<Rightarrow> ((ok, rq_nonce r), e1))"

definition publish_main_thread_guard_request :: "'e files \<Rightarrow> self \<Rightarrow> u64 \<Rightarrow> bytes \<Rightarrow> 'e \<Rightarrow> (bool \<times> u64) \<times> 'e" where
  "publish_main_thread_guard_request fs sf meth expected e =
     (let r = make_guard_request sf meth expected
      in case write_exact_file fs kShellUiHookRequestPath (request_bytes r) e of
           (ok, e1) \<Rightarrow> ((ok, rq_nonce r), e1))"

section \<open>Waiting for the acknowledgement\<close>

definition ack_matches :: "int \<Rightarrow> u64 \<Rightarrow> hook_ack \<Rightarrow> bool" where
  "ack_matches pid nonce a \<longleftrightarrow>
     ack_magic a = kShellUiHookAckMagic \<and> ack_version a = kShellUiHookProtocolVersion \<and>
     sint (ack_pid a) = pid \<and> ack_nonce a = nonce \<and> ack_checksum a = shellui_hook_ack_checksum a"

text \<open>A thousand attempts, with a pause of 20 ms after each that fails.\<close>

primrec wait_attempts :: "'e files \<Rightarrow> ('e \<Rightarrow> 'e) \<Rightarrow> int \<Rightarrow> u64 \<Rightarrow> nat \<Rightarrow> 'e \<Rightarrow> hook_ack option \<times> 'e" where
  "wait_attempts fs pause pid nonce 0 e = (None, e)"
| "wait_attempts fs pause pid nonce (Suc n) e =
     (case read_prefix_file fs kShellUiHookAckPath 61 e of
        (Some bs, e1) \<Rightarrow>
          if ack_matches pid nonce (ack_of_bytes bs) then (Some (ack_of_bytes bs), e1)
          else wait_attempts fs pause pid nonce n (pause e1)
      | (None, e1) \<Rightarrow> wait_attempts fs pause pid nonce n (pause e1))"

definition wait_for_native_hook_ack :: "'e files \<Rightarrow> ('e \<Rightarrow> 'e) \<Rightarrow> int \<Rightarrow> u64 \<Rightarrow> 'e \<Rightarrow> hook_ack option \<times> 'e" where
  "wait_for_native_hook_ack fs pause pid nonce e = wait_attempts fs pause pid nonce 1000 e"

definition ack_confirms :: "hook_ack_phase \<Rightarrow> hook_ack \<Rightarrow> bool" where
  "ack_confirms phase a \<longleftrightarrow>
     \<not> (ack_phase a \<noteq> phase_code phase \<or> ack_status a \<noteq> of_int (status_code Success) \<or>
        ack_verified a = 0 \<or> ack_detached a = 0 \<or> ack_auth_restored a = 0)"

definition probe_hook_bytes :: "'e files \<Rightarrow> ('e \<Rightarrow> 'e) \<Rightarrow> self \<Rightarrow> u64 \<Rightarrow> 'e \<Rightarrow> bytes option \<times> 'e" where
  "probe_hook_bytes fs pause sf meth e =
     (let empty = replicate kAtomicPatchSize 0
      in case publish_hook_request fs sf meth empty empty 0 0 e of
           ((ok, nonce), e1) \<Rightarrow>
             if \<not> ok then (None, e1)
             else case wait_for_native_hook_ack fs pause (sf_pid sf) nonce e1 of
                    (None, e2) \<Rightarrow> (None, e2)
                  | (Some a, e2) \<Rightarrow> (if ack_confirms PhaseProbe a then Some (ack_observed a) else None, e2))"

section \<open>The main thread guard\<close>

datatype guard_result = GuardInstalled | GuardUnsupported | GuardFailed

definition guard_request_result :: "hook_ack \<Rightarrow> guard_result" where
  "guard_request_result a =
     (if ack_status a = of_int (status_code UnsupportedFirmware) then GuardUnsupported
      else if ack_confirms PhaseMainThreadGuard a then GuardInstalled else GuardFailed)"

definition install_guard_at :: "'e files \<Rightarrow> ('e \<Rightarrow> 'e) \<Rightarrow> self \<Rightarrow> u64 \<Rightarrow> 'e \<Rightarrow> guard_result \<times> 'e" where
  "install_guard_at fs pause sf address e =
     (case probe_hook_bytes fs pause sf address e of
        (None, e1) \<Rightarrow> (GuardFailed, e1)
      | (Some expected, e1) \<Rightarrow>
          if expected ! 0 = 0xc3 then (GuardInstalled, e1)
          else case publish_main_thread_guard_request fs sf address expected e1 of
                 ((ok, nonce), e2) \<Rightarrow>
                   if \<not> ok then (GuardFailed, e2)
                   else case wait_for_native_hook_ack fs pause (sf_pid sf) nonce e2 of
                          (None, e3) \<Rightarrow> (GuardFailed, e3)
                        | (Some a, e3) \<Rightarrow> (guard_request_result a, e3))"

definition kCoreDll :: string where "kCoreDll = ''/system_ex/common_ex/lib/Sce.PlayStation.Core.dll''"
definition kPuiDll :: string where "kPuiDll = ''/system_ex/common_ex/lib/Sce.PlayStation.PUI.dll''"
definition kAppSystemDll :: string where
  "kAppSystemDll = ''/system_ex/common_ex/lib/Sce.Vsh.ShellUI.AppSystem.dll''"

definition install_main_thread_guard ::
  "'e mono \<Rightarrow> 'e files \<Rightarrow> ('e \<Rightarrow> 'e) \<Rightarrow> self \<Rightarrow> ('e, guard_result) render" where
  "install_main_thread_guard m fs pause sf = do {
     core \<leftarrow> open_image m kCoreDll;
     if core = 0 then done_with GuardFailed
     else do {
       diagnostics \<leftarrow> rt (mono_class_from_name m core ''Sce.PlayStation.Core.Runtime'' ''Diagnostics'');
       check \<leftarrow> (if diagnostics \<noteq> 0
                then rt (mono_class_get_method_from_name m diagnostics ''CheckRunningOnMainThread'' 0)
                else done_with 0);
       if check = 0 then done_with GuardFailed
       else do {
         address \<leftarrow> rt (mono_compile_method m check);
         if address = 0 then done_with GuardFailed else rt (install_guard_at fs pause sf address)
       }
     }
   }"

section \<open>The update hook\<close>

text \<open>
  What the renderer decides from the bytes it probed: it is already in place, it refuses, or it
  asks for a patch with these bytes, displaced size and original target, for a native prologue
  after preparing its trampoline.
\<close>

datatype hook_plan =
  AlreadyOnline
| Refuse
| Patch (plan_desired: bytes) (plan_displaced: nat) (plan_original: u64) (plan_trampoline: "bytes option")

definition hook_desired :: "self \<Rightarrow> bytes \<Rightarrow> nat \<Rightarrow> bytes" where
  "hook_desired sf expected displaced_size =
     (let jumped = encode_absolute_jump (sf_hook sf) @ drop kAbsoluteJumpSize expected
      in map (\<lambda>i. if kAbsoluteJumpSize \<le> i \<and> i < displaced_size then 0x90 else jumped ! i) [0..<length jumped])"

definition plan_update_hook :: "self \<Rightarrow> payload \<Rightarrow> u64 \<Rightarrow> bytes \<Rightarrow> hook_plan" where
  "plan_update_hook sf p address expected =
     (if is_jump expected then
        let previous = get_u64 6 expected
        in if previous = sf_hook sf then
             (if g_application_update_original p \<noteq> 0 \<and> g_hook_install_confirmed p then AlreadyOnline else Refuse)
           else if previous < 0x10000 \<or> 0x0000800000000000 \<le> previous \<or> previous = address then Refuse
           else Patch (hook_desired sf expected kAbsoluteJumpSize) kAbsoluteJumpSize previous None
      else
        let n = native_patch_length expected
        in if n = 0 then Refuse
           else case prepare_trampoline (take n expected) (Some (address + of_nat n)) (g_trampoline p) of
                  None \<Rightarrow> Refuse
                | Some t \<Rightarrow> Patch (hook_desired sf expected n) n (sf_trampoline sf) (Some t))"

definition apply_plan ::
  "'e files \<Rightarrow> ('e \<Rightarrow> 'e) \<Rightarrow> self \<Rightarrow> u64 \<Rightarrow> bytes \<Rightarrow> hook_plan \<Rightarrow> ('e, bool) render" where
  "apply_plan fs pause sf address expected plan =
     (case plan of
        AlreadyOnline \<Rightarrow> done_with True
      | Refuse \<Rightarrow> done_with False
      | Patch desired displaced original trampoline \<Rightarrow> do {
          _ \<leftarrow> glob_put (\<lambda>p. (case trampoline of None \<Rightarrow> p | Some t \<Rightarrow> p\<lparr>g_trampoline := t\<rparr>)
                                \<lparr>g_application_update_original := original\<rparr>);
          r \<leftarrow> rt (publish_hook_request fs sf address expected desired displaced original);
          if \<not> fst r then done_with False
          else do {
            a \<leftarrow> rt (wait_for_native_hook_ack fs pause (sf_pid sf) (snd r));
            (case a of
               None \<Rightarrow> done_with False
             | Some ack \<Rightarrow>
                 if \<not> ack_confirms PhasePatch ack then done_with False
                 else do { _ \<leftarrow> glob_put (\<lambda>p. p\<lparr>g_hook_install_confirmed := True\<rparr>); done_with True })
          }
        })"

definition install_update_hook ::
  "'e mono \<Rightarrow> 'e files \<Rightarrow> ('e \<Rightarrow> 'e) \<Rightarrow> self \<Rightarrow> u64 \<Rightarrow> ('e, bool) render" where
  "install_update_hook m fs pause sf application_class = do {
     update \<leftarrow> (if application_class \<noteq> 0
               then rt (mono_class_get_method_from_name m application_class ''Update'' 0) else done_with 0);
     address \<leftarrow> (if update \<noteq> 0 then rt (mono_compile_method m update) else done_with 0);
     if address = 0 then done_with False
     else do {
       probed \<leftarrow> rt (probe_hook_bytes fs pause sf address);
       (case probed of
          None \<Rightarrow> done_with False
        | Some expected \<Rightarrow> do {
            p \<leftarrow> glob id;
            apply_plan fs pause sf address expected (plan_update_hook sf p address expected)
          })
     }
   }"

section \<open>Starting the renderer\<close>

text \<open>Everything behind the tests for an earlier attempt.\<close>

definition start_runtime :: "'e mono \<Rightarrow> 'e files \<Rightarrow> ('e \<Rightarrow> 'e) \<Rightarrow> self \<Rightarrow> ('e, bool) render" where
  "start_runtime m fs pause sf = do {
     domain \<leftarrow> rt (mono_get_root_domain m);
     _ \<leftarrow> glob_put (\<lambda>p. p\<lparr>g_domain := domain\<rparr>);
     if domain = 0 then done_with False
     else do {
       _ \<leftarrow> rt (mono_thread_attach m domain);
       pui \<leftarrow> open_image m kPuiDll;
       _ \<leftarrow> glob_put (\<lambda>p. p\<lparr>g_pui_image := pui\<rparr>);
       app_system \<leftarrow> open_image m kAppSystemDll;
       if pui = 0 \<or> app_system = 0 then done_with False
       else do {
         layer \<leftarrow> rt (mono_class_from_name m app_system ''Sce.Vsh.ShellUI.AppSystem'' ''LayerManager'');
         find \<leftarrow> (if layer \<noteq> 0
                 then rt (mono_class_get_method_from_name m layer ''FindContainerSceneByPath'' 1) else done_with 0);
         _ \<leftarrow> glob_put (\<lambda>p. p\<lparr>g_find_scene_method := find\<rparr>);
         if find = 0 then done_with False
         else do {
           scene \<leftarrow> refresh_game_scene m;
           if \<not> scene then done_with False
           else do {
             _ \<leftarrow> glob_put (\<lambda>p. p\<lparr>g_hook_attempted := True\<rparr>);
             guard \<leftarrow> install_main_thread_guard m fs pause sf;
             selected \<leftarrow> (case guard of
                 GuardInstalled \<Rightarrow> do {
                   _ \<leftarrow> glob_put (\<lambda>p. p\<lparr>g_background_render_mode := True\<rparr>);
                   done_with True }
               | GuardUnsupported \<Rightarrow> do {
                   application \<leftarrow> rt (mono_class_from_name m pui ''Sce.PlayStation.PUI'' ''Application'');
                   hooked \<leftarrow> (if application = 0 then done_with False
                             else install_update_hook m fs pause sf application);
                   if \<not> hooked then done_with False
                   else do {
                     _ \<leftarrow> glob_put (\<lambda>p. p\<lparr>g_background_render_mode := False\<rparr>);
                     done_with True } }
               | GuardFailed \<Rightarrow> done_with False);
             if \<not> selected then done_with False
             else do { _ \<leftarrow> glob_put (\<lambda>p. p\<lparr>g_runtime_ready := True\<rparr>); done_with True }
           }
         }
       }
     }
   }"

definition initialize_runtime :: "'e mono \<Rightarrow> 'e files \<Rightarrow> ('e \<Rightarrow> 'e) \<Rightarrow> self \<Rightarrow> ('e, bool) render" where
  "initialize_runtime m fs pause sf = do {
     p \<leftarrow> glob id;
     if g_runtime_ready p then done_with True
     else if g_hook_attempted p then done_with False
     else start_runtime m fs pause sf
   }"

section \<open>The controller accepts what the renderer asks for\<close>

lemma sealed_fields [simp]:
  "rq_magic (sealed r) = rq_magic r" "rq_version (sealed r) = rq_version r" "rq_pid (sealed r) = rq_pid r"
  "rq_nonce (sealed r) = rq_nonce r" "rq_method_address (sealed r) = rq_method_address r"
  "rq_hook_address (sealed r) = rq_hook_address r"
  "rq_original_call_address (sealed r) = rq_original_call_address r"
  "rq_patch_size (sealed r) = rq_patch_size r" "rq_displaced_size (sealed r) = rq_displaced_size r"
  "rq_expected (sealed r) = rq_expected r" "rq_desired (sealed r) = rq_desired r"
  "rq_checksum (sealed r) = shellui_hook_request_checksum (sealed r)"
  by (simp_all add: sealed_def shellui_hook_request_checksum_def request_body_def)

lemma make_hook_request_fields [simp]:
  "rq_pid (make_hook_request sf meth ex de n orig) = of_int (sf_pid sf)"
  "rq_method_address (make_hook_request sf meth ex de n orig) = meth"
  "rq_hook_address (make_hook_request sf meth ex de n orig) = sf_hook sf"
  "rq_original_call_address (make_hook_request sf meth ex de n orig) = orig"
  "rq_displaced_size (make_hook_request sf meth ex de n orig) = of_nat n"
  "rq_expected (make_hook_request sf meth ex de n orig) = ex"
  "rq_desired (make_hook_request sf meth ex de n orig) = de"
  by (simp_all add: make_hook_request_def)

lemma make_guard_request_fields [simp]:
  "rq_pid (make_guard_request sf meth ex) = of_int (sf_pid sf)"
  "rq_method_address (make_guard_request sf meth ex) = meth"
  "rq_hook_address (make_guard_request sf meth ex) = meth"
  "rq_original_call_address (make_guard_request sf meth ex) = 0"
  "rq_displaced_size (make_guard_request sf meth ex) = 1"
  "rq_expected (make_guard_request sf meth ex) = ex"
  "rq_desired (make_guard_request sf meth ex) = ex[0 := 0xc3]"
  by (simp_all add: make_guard_request_def)

lemma nonzero_nonce_nonzero [simp]: "nonzero_nonce n \<noteq> 0"
  by (simp add: nonzero_nonce_def)

lemma pid_roundtrip: "0 < pid \<Longrightarrow> pid < 2 ^ 31 \<Longrightarrow> sint (of_int pid :: u32) = pid"
  by (subst sint_sbintrunc') (simp add: signed_take_bit_int_eq_self)

text \<open>What the renderer knows of itself and of the method it patches.\<close>

definition user_code :: "u64 \<Rightarrow> bool" where
  "user_code a \<longleftrightarrow> shellui_user_address a \<and> shellui_user_address (a + 15)"

definition self_ok :: "self \<Rightarrow> bool" where
  "self_ok sf \<longleftrightarrow> 0 < sf_pid sf \<and> sf_pid sf < 2 ^ 31 \<and> shellui_user_address (sf_hook sf) \<and>
     shellui_user_address (sf_trampoline sf) \<and> sf_trampoline sf \<noteq> sf_hook sf"

lemma hook_request_common_valid:
  assumes "self_ok sf" "user_code meth"
  shows "shellui_hook_request_common_is_valid (make_hook_request sf meth expected desired n original) (sf_pid sf)"
    "shellui_hook_request_common_is_valid (make_guard_request sf meth expected) (sf_pid sf)"
  using assms
  by (simp_all add: shellui_hook_request_common_is_valid_def make_hook_request_def make_guard_request_def
      self_ok_def user_code_def pid_roundtrip kShellUiHookPatchSize_def add.commute)

lemma probe_request_valid:
  assumes "self_ok sf" "user_code meth"
  shows "shellui_hook_probe_request_is_valid (make_hook_request sf meth (replicate kAtomicPatchSize 0)
      (replicate kAtomicPatchSize 0) 0 0) (sf_pid sf)"
  using hook_request_common_valid(1) [OF assms]
  by (simp add: shellui_hook_probe_request_is_valid_def shellui_hook_request_is_probe_def
      list_all_upt kAtomicPatchSize_def kShellUiHookPatchSize_def)

lemma guard_request_valid:
  assumes "self_ok sf" "user_code meth" "length expected = 16" "expected ! 0 \<noteq> 0xc3"
  shows "shellui_main_thread_guard_request_is_valid (make_guard_request sf meth expected) (sf_pid sf)"
  using hook_request_common_valid(2) [OF assms(1,2), of expected] assms(3,4)
  by (simp add: shellui_main_thread_guard_request_is_valid_def shellui_hook_request_is_main_thread_guard_def
      list_all_upt)

lemma hook_desired_shape:
  assumes "length expected = 16" "14 \<le> n" "n \<le> 16"
  shows "length (hook_desired sf expected n) = 16" "is_jump (hook_desired sf expected n)"
    "get_u64 6 (hook_desired sf expected n) = sf_hook sf"
    "14 \<le> i \<Longrightarrow> i < n \<Longrightarrow> hook_desired sf expected n ! i = 0x90"
    "n \<le> i \<Longrightarrow> i < 16 \<Longrightarrow> hook_desired sf expected n ! i = expected ! i"
proof -
  let ?jump = "encode_absolute_jump (sf_hook sf)"
  have l: "length ?jump = 14" by (simp add: encode_absolute_jump_def)
  have len: "length (?jump @ drop 14 expected) = 16" using assms(1) l by simp
  have nth: "hook_desired sf expected n ! i =
      (if 14 \<le> i \<and> i < n then 0x90 else (?jump @ drop 14 expected) ! i)" if "i < 16" for i
    using that len by (simp add: hook_desired_def kAbsoluteJumpSize_def Let_def del: length_append)
  show len': "length (hook_desired sf expected n) = 16"
    using len by (simp add: hook_desired_def kAbsoluteJumpSize_def Let_def del: length_append)
  have jump: "take 14 (hook_desired sf expected n) = ?jump"
    using len' l by (intro nth_equalityI) (auto simp: nth nth_append)
  have "take 6 (hook_desired sf expected n) = take 6 (take 14 (hook_desired sf expected n))"
    by (simp add: min_def)
  then show "is_jump (hook_desired sf expected n)"
    by (simp add: jump is_jump_def encode_absolute_jump_def kShellUiAbsoluteJumpPrefix_def)
  have "sub_bytes 6 8 (hook_desired sf expected n) = drop 6 (take 14 (hook_desired sf expected n))"
    by (simp add: sub_bytes_def drop_take)
  then show "get_u64 6 (hook_desired sf expected n) = sf_hook sf"
    by (simp add: get_u64_def jump encode_absolute_jump_def field_fits)
  show "14 \<le> i \<Longrightarrow> i < n \<Longrightarrow> hook_desired sf expected n ! i = 0x90" using nth assms(3) by simp
  show "n \<le> i \<Longrightarrow> i < 16 \<Longrightarrow> hook_desired sf expected n ! i = expected ! i"
    using nth [of i] assms l by (simp add: nth_append)
qed

lemma plan_patch:
  assumes "plan_update_hook sf p address expected = Patch d n orig t" "self_ok sf" "length expected = 16"
    and "sf_trampoline sf \<noteq> address"
  shows "14 \<le> n \<and> n \<le> 16 \<and> d = hook_desired sf expected n \<and> shellui_user_address orig \<and> orig \<noteq> sf_hook sf \<and>
    orig \<noteq> address \<and> (is_jump expected \<longrightarrow> n = 14 \<and> get_u64 6 expected = orig)"
proof (cases "is_jump expected")
  case True
  then show ?thesis
    using assms(1) by (auto simp: plan_update_hook_def Let_def kAbsoluteJumpSize_def shellui_user_address_def split: if_splits)
next
  case False
  then have n: "0 < n" "native_patch_length expected = n" "d = hook_desired sf expected n" "orig = sf_trampoline sf"
    using assms(1) by (auto simp: plan_update_hook_def Let_def split: if_splits option.splits)
  moreover have "14 \<le> n \<and> n \<le> 16"
    using patch_length_from_split [of expected 0 n] n(1,2) assms(3)
    by (simp add: native_patch_length_def kAbsoluteJumpSize_def kAtomicPatchSize_def)
  ultimately show ?thesis using False assms(2,4) by (auto simp: self_ok_def)
qed

lemma patch_request_valid:
  assumes "self_ok sf" "user_code address" "length expected = 16" "sf_trampoline sf \<noteq> address"
    and "plan_update_hook sf p address expected = Patch d n orig t"
  shows "shellui_hook_request_is_valid (make_hook_request sf address expected d n orig) (sf_pid sf)"
proof -
  note f = plan_patch [OF assms(5,1,3,4)]
  have w: "unat (of_nat n :: u32) = n" using f by (simp add: unat_of_nat)
  then have w': "(of_nat n :: u32) \<noteq> 0" "\<not> (of_nat n :: u32) < 14" "\<not> 16 < (of_nat n :: u32)" "(of_nat n :: u32) \<noteq> 1"
    using f by (auto simp: word_less_nat_alt word_unat_eq_iff)
  have d: "d = hook_desired sf expected n" and n: "14 \<le> n" "n \<le> 16" using f by auto
  note shape = hook_desired_shape [OF assms(3) n, where sf = sf]
  have "n = 14 \<Longrightarrow> (of_nat n :: u32) = 14" by simp
  then show ?thesis
    using hook_request_common_valid(1) [OF assms(1,2), of expected d n orig] f shape w w'
    by (auto simp: shellui_hook_request_is_valid_def shellui_hook_request_is_probe_def
        shellui_hook_request_is_main_thread_guard_def shellui_hook_is_eta_chain_def list_all_upt d
        kShellUiHookPatchSize_def)
qed

text \<open>
  (C24) Every request the renderer publishes passes the controller's validation: the probe of a
  method, the guard request for a method not yet disabled, and the patch request for every
  plan the renderer makes, chained or native.  And each is taken for what it is.
\<close>

theorem published_requests_accepted:
  assumes "self_ok sf" "user_code address" "length expected = 16" "sf_trampoline sf \<noteq> address"
  shows "request_is_valid (make_hook_request sf address (replicate kAtomicPatchSize 0)
      (replicate kAtomicPatchSize 0) 0 0) (sf_pid sf)
    \<and> (expected ! 0 \<noteq> 0xc3 \<longrightarrow> request_is_valid (make_guard_request sf address expected) (sf_pid sf))
    \<and> (\<forall>d n orig t. plan_update_hook sf p address expected = Patch d n orig t \<longrightarrow>
        request_is_valid (make_hook_request sf address expected d n orig) (sf_pid sf) \<and>
        \<not> shellui_hook_request_is_probe (make_hook_request sf address expected d n orig) \<and>
        \<not> shellui_hook_request_is_main_thread_guard (make_hook_request sf address expected d n orig))"
proof -
  have "request_is_valid (make_hook_request sf address (replicate kAtomicPatchSize 0)
      (replicate kAtomicPatchSize 0) 0 0) (sf_pid sf)"
    using probe_request_valid [OF assms(1,2)]
    by (simp add: request_is_valid_def shellui_hook_request_is_probe_def)
  moreover have "request_is_valid (make_guard_request sf address expected) (sf_pid sf)" if "expected ! 0 \<noteq> 0xc3"
    using guard_request_valid [OF assms(1-3) that]
    by (simp add: request_is_valid_def shellui_hook_request_is_probe_def shellui_hook_request_is_main_thread_guard_def)
  moreover have "request_is_valid (make_hook_request sf address expected d n orig) (sf_pid sf) \<and>
        \<not> shellui_hook_request_is_probe (make_hook_request sf address expected d n orig) \<and>
        \<not> shellui_hook_request_is_main_thread_guard (make_hook_request sf address expected d n orig)"
    if "plan_update_hook sf p address expected = Patch d n orig t" for d n orig t
    using patch_request_valid [OF assms that]
    by (auto simp: request_is_valid_def shellui_hook_request_is_valid_def)
  ultimately show ?thesis by blast
qed

definition example_self :: self where
  "example_self = \<lparr>sf_pid = 42, sf_hook = 0x300000, sf_trampoline = 0x400000\<rparr>"

lemma example_self_ok: "self_ok example_self" "user_code 0x200000"
  by (simp_all add: self_ok_def user_code_def example_self_def shellui_user_address_def)

theorem published_requests_accepted_witness:
  "\<exists>d t. plan_update_hook example_self toy_payload 0x200000 example_prologue = Patch d 14 0x400000 t
     \<and> request_is_valid (make_hook_request example_self 0x200000 example_prologue d 14 0x400000) 42"
proof -
  have "\<not> is_jump example_prologue"
    by (simp add: is_jump_def example_prologue_def kShellUiAbsoluteJumpPrefix_def)
  then obtain d t where p: "plan_update_hook example_self toy_payload 0x200000 example_prologue = Patch d 14 0x400000 t"
    using example_prologue_length
    by (auto simp: plan_update_hook_def prepare_trampoline_def example_prologue_def kTrampolineCapacity_def
        kAbsoluteJumpSize_def example_self_def Let_def)
  have "length example_prologue = 16" "sf_trampoline example_self \<noteq> 0x200000" "sf_pid example_self = 42"
    by (simp_all add: example_prologue_def example_self_def)
  with published_requests_accepted [OF example_self_ok, of example_prologue toy_payload] p show ?thesis
    by (metis)
qed

section \<open>The renderer understands what the controller answers\<close>

lemma make_ack_fields:
  "ack_magic (make_ack r rep) = kShellUiHookAckMagic" "ack_version (make_ack r rep) = kShellUiHookProtocolVersion"
  "ack_pid (make_ack r rep) = rq_pid r" "ack_nonce (make_ack r rep) = rq_nonce r"
  "ack_status (make_ack r rep) = of_int (status_code (hr_status rep))"
  "ack_verified (make_ack r rep) = (if hr_verified rep then 1 else 0)"
  "ack_detached (make_ack r rep) = (if hr_detached rep then 1 else 0)"
  "ack_auth_restored (make_ack r rep) = (if hr_auth_restored rep then 1 else 0)"
  "ack_phase (make_ack r rep) = phase_code (if hr_probe rep then PhaseProbe
     else if hr_main_thread_guard rep then PhaseMainThreadGuard else PhasePatch)"
  "ack_observed (make_ack r rep) = hr_observed rep"
  "ack_checksum (make_ack r rep) = shellui_hook_ack_checksum (make_ack r rep)"
  by (simp_all add: make_ack_def default_hook_ack_def Let_def shellui_hook_ack_checksum_def ack_body_def)

lemma status_code_inject: "(of_int (status_code s) :: u32) = of_int (status_code t) \<longleftrightarrow> s = t"
  by (cases s; cases t; simp)

lemma phase_code_inject: "phase_code a = phase_code b \<longleftrightarrow> a = b"
  by (cases a; cases b; simp)

text \<open>
  The two halves of the protocol agree: the renderer that sent a request accepts the
  acknowledgement the controller writes for it, reads back the observed bytes, and takes it as
  a confirmation of a phase exactly when the controller's report was a complete success of a
  request of that kind.
\<close>

theorem acknowledgement_understood:
  assumes "sint (rq_pid r) = pid" "length (hr_observed rep) = 16"
  shows "let a = ack_of_bytes (ack_bytes (make_ack r rep))
    in ack_matches pid (rq_nonce r) a \<and> ack_observed a = hr_observed rep
     \<and> (\<forall>phase. ack_confirms phase a \<longleftrightarrow>
          phase = (if hr_probe rep then PhaseProbe
                   else if hr_main_thread_guard rep then PhaseMainThreadGuard else PhasePatch)
          \<and> hr_status rep = Success \<and> hr_verified rep \<and> hr_detached rep \<and> hr_auth_restored rep)
     \<and> (guard_request_result a = GuardUnsupported \<longleftrightarrow> hr_status rep = UnsupportedFirmware)"
proof -
  have a: "ack_of_bytes (ack_bytes (make_ack r rep)) = make_ack r rep"
    by (rule ack_of_ack_bytes) (simp add: ack_wf_def make_ack_fields assms(2))
  have "(of_int (status_code (hr_status rep)) :: u32) = 0 \<longleftrightarrow> hr_status rep = Success"
    using status_code_inject [of "hr_status rep" Success] by simp
  moreover have "(of_int (status_code (hr_status rep)) :: u32) = of_int (status_code UnsupportedFirmware)
      \<longleftrightarrow> hr_status rep = UnsupportedFirmware" by (rule status_code_inject)
  ultimately show ?thesis
    unfolding a Let_def
    by (auto simp: ack_matches_def make_ack_fields assms(1) ack_confirms_def phase_code_inject guard_request_result_def)
qed

theorem acknowledgement_understood_witness:
  "ack_matches 42 7 (ack_of_bytes (ack_bytes (make_ack example_guard_request hr_init)))
   \<and> guard_request_result (ack_of_bytes (ack_bytes (make_ack example_guard_request hr_init))) \<noteq> GuardUnsupported"
  using acknowledgement_understood [of example_guard_request 42 hr_init]
  by (simp add: hr_init_def kShellUiHookPatchSize_def Let_def)

text \<open>
  The renderer chains into the update method only where the controller refused the guard.
  On every firmware that is probed but whose guard is refused, 9.60, a patch of a native
  prologue is refused as well, so with this policy the update hook only ever goes in front of
  an existing jump.
\<close>

theorem native_patch_never_reached:
  assumes "shellui_hook_probe_backend sdk \<noteq> Unsupported" "shellui_main_thread_guard_backend sdk = Unsupported"
  shows "firmware_family sdk = 0x09600000 \<and> shellui_hook_backend sdk False = Unsupported
    \<and> shellui_hook_backend sdk True = PtraceIo"
proof -
  have "firmware_family sdk = 0x09600000"
    using probe_and_guard_backends [of sdk] assms by metis
  then show ?thesis by (simp add: shellui_hook_backend_def Let_def)
qed

theorem native_patch_never_reached_witness: "shellui_hook_backend 0x09600001 False = Unsupported"
proof -
  have "shellui_hook_probe_backend 0x09600001 \<noteq> Unsupported" "shellui_main_thread_guard_backend 0x09600001 = Unsupported"
    by (simp_all add: shellui_hook_probe_backend_def shellui_main_thread_guard_backend_def firmware_family_def)
  from native_patch_never_reached [OF this] show ?thesis by simp
qed

section \<open>Starting once\<close>

definition ready_is :: "bool \<Rightarrow> payload \<times> 'e \<Rightarrow> bool" where
  "ready_is b s \<longleftrightarrow> g_runtime_ready (fst s) = b"

lemma keeps_ready_rt: "keeps (ready_is b) (rt f)"
  by (auto simp: keeps_def triple_def rt_def ready_is_def split: prod.splits)

lemma keeps_ready_put: "(\<And>p. g_runtime_ready (f p) = g_runtime_ready p) \<Longrightarrow> keeps (ready_is b) (glob_put f)"
  by (auto simp: keeps_def triple_def glob_put_def ready_is_def)

lemma keeps_ready_scene: "keeps (ready_is b) (refresh_game_scene m)"
proof -
  have "keeps (same_globals p0) (refresh_game_scene m)" for p0
    unfolding refresh_game_scene_def by (intro frame_rules frame_handles frame_with_pinned frame_slots)
  then have "triple (\<lambda>s. frame_globals (fst s) = frame_globals p0) (refresh_game_scene m)
      (\<lambda>_ s. frame_globals (fst s) = frame_globals p0)" for p0
    by (simp add: keeps_def)
  then show ?thesis unfolding keeps_def triple_def ready_is_def frame_globals_def by (fastforce split: prod.splits)
qed

lemma keeps_ready_install:
  "keeps (ready_is b) (open_image m path)" "keeps (ready_is b) (install_main_thread_guard m fs pause sf)"
  "keeps (ready_is b) (install_update_hook m fs pause sf klass)"
proof -
  show o: "keeps (ready_is b) (open_image m path)" for path
    unfolding open_image_def by (intro keeps_rules keeps_ready_rt)
  show "keeps (ready_is b) (install_main_thread_guard m fs pause sf)"
    unfolding install_main_thread_guard_def by (intro keeps_rules keeps_ready_rt o)
  have "keeps (ready_is b) (apply_plan fs pause sf address expected plan)" for address expected plan
    unfolding apply_plan_def
    by (auto intro!: keeps_rules keeps_ready_rt keeps_ready_put split: hook_plan.split option.splits)
  then show "keeps (ready_is b) (install_update_hook m fs pause sf klass)"
    unfolding install_update_hook_def
    by (auto intro!: keeps_rules keeps_ready_rt split: option.split)
qed

lemma keeps_ready_globals:
  "keeps (ready_is b) (glob_put (\<lambda>p. p\<lparr>g_domain := d\<rparr>))"
  "keeps (ready_is b) (glob_put (\<lambda>p. p\<lparr>g_pui_image := d\<rparr>))"
  "keeps (ready_is b) (glob_put (\<lambda>p. p\<lparr>g_find_scene_method := d\<rparr>))"
  "keeps (ready_is b) (glob_put (\<lambda>p. p\<lparr>g_hook_attempted := c\<rparr>))"
  by (rule keeps_ready_put, simp)+

text \<open>
  The renderer starts at most once and fails closed: it is ready exactly when the call
  succeeded, once ready or once a hook was attempted a further call does nothing, and a
  failed attempt is never repeated, so that no second patch follows a failed one.
\<close>

theorem initialize_runtime_once:
  assumes "run_state (initialize_runtime m fs pause sf) (p, e) = (ok, (p', e'))"
  shows "(ok \<longleftrightarrow> g_runtime_ready p')
    \<and> (g_runtime_ready p \<or> g_hook_attempted p \<longrightarrow> p' = p \<and> e' = e \<and> (ok \<longleftrightarrow> g_runtime_ready p))"
proof (cases "g_runtime_ready p \<or> g_hook_attempted p")
  case True
  then show ?thesis using assms by (auto simp: initialize_runtime_def glob_def split: if_splits)
next
  case False
  have init: "keeps (ready_is False) (case guard of
      GuardInstalled \<Rightarrow> do { _ \<leftarrow> glob_put (\<lambda>p. p\<lparr>g_background_render_mode := True\<rparr>); done_with True }
    | GuardUnsupported \<Rightarrow> do {
        application \<leftarrow> rt (mono_class_from_name m pui ''Sce.PlayStation.PUI'' ''Application'');
        hooked \<leftarrow> (if application = 0 then done_with False else install_update_hook m fs pause sf application);
        if \<not> hooked then done_with False
        else do { _ \<leftarrow> glob_put (\<lambda>p. p\<lparr>g_background_render_mode := False\<rparr>); done_with True } }
    | GuardFailed \<Rightarrow> done_with False)" for guard pui
    by (cases guard) (auto intro!: keeps_rules keeps_ready_rt keeps_ready_put keeps_ready_install)
  have set: "triple (ready_is False) (do { _ \<leftarrow> glob_put (\<lambda>p. p\<lparr>g_runtime_ready := True\<rparr>); done_with True }) ready_is"
    by (simp add: triple_def glob_put_def ready_is_def)
  have start: "triple (ready_is False) (start_runtime m fs pause sf) ready_is"
    unfolding start_runtime_def
    by (intro set triple_keeps_bind [OF keeps_ready_rt] triple_keeps_bind [OF keeps_ready_globals(1)]
        triple_keeps_bind [OF keeps_ready_globals(2)] triple_keeps_bind [OF keeps_ready_globals(3)]
        triple_keeps_bind [OF keeps_ready_globals(4)]
        triple_keeps_bind [OF keeps_ready_install(1)] triple_keeps_bind [OF keeps_ready_install(2)]
        triple_keeps_bind [OF keeps_ready_scene] triple_keeps_bind [OF init] triple_if
        triple_keeps_bind [OF keeps_if [OF keeps_ready_rt keeps_return]] triple_return)
  have run: "run_state (start_runtime m fs pause sf) (p, e) = (ok, (p', e'))"
    using assms False by (simp add: initialize_runtime_def glob_def)
  have "ready_is False (p, e)" using False by (simp add: ready_is_def)
  from tripleD [OF start this run] have "ready_is ok (p', e')" .
  with False show ?thesis by (simp add: ready_is_def)
qed

theorem initialize_runtime_once_witness:
  "run_state (initialize_runtime toy_mono (toy_files []) id example_self) (toy_payload\<lparr>g_runtime_ready := False, g_hook_attempted := True\<rparr>, ({#}, 1))
     = (False, (toy_payload\<lparr>g_runtime_ready := False, g_hook_attempted := True\<rparr>, ({#}, 1)))"
proof -
  let ?s = "(toy_payload\<lparr>g_runtime_ready := False, g_hook_attempted := True\<rparr>, ({#}, 1 :: u32))"
  obtain ok p' e' where r: "run_state (initialize_runtime toy_mono (toy_files []) id example_self) ?s = (ok, (p', e'))"
    by (metis prod.collapse)
  with initialize_runtime_once [OF r] show ?thesis by simp
qed

end
