(* ===== verification/Hook_Handshake.thy ===== *)
theory Hook_Handshake
  imports Hook_Install
begin

text \<open>
  Renderer and controller together: while the renderer waits for its acknowledgement, the
  controller polls.  Both share the files, the controller works on the console with an
  arbitrary kernel, and the disk may fail at any operation.  What the renderer believes after
  the handshake is then true of the memory.
\<close>

section \<open>Kernel operations leave the files alone\<close>

definition kernel_keeps :: "'e kernel \<Rightarrow> ('e \<Rightarrow> 'v) \<Rightarrow> bool" where
  "kernel_keeps k v \<longleftrightarrow>
     (\<forall>p e. v (snd (k_get_authid k p e)) = v e) \<and> (\<forall>p a e. v (snd (k_set_authid k p a e)) = v e) \<and>
     (\<forall>p e. v (snd (k_get_caps k p e)) = v e) \<and> (\<forall>p a e. v (snd (k_set_caps k p a e)) = v e) \<and>
     (\<forall>p a n q e. v (snd (k_mprotect k p a n q e)) = v e) \<and>
     (\<forall>p a n e. v (snd (k_get_protection k p a n e)) = v e) \<and>
     (\<forall>p a n e. v (snd (mdbg_read_call k p a n e)) = v e) \<and>
     (\<forall>p a d e. v (snd (mdbg_write_call k p a d e)) = v e) \<and>
     (\<forall>p a n e. v (snd (mdbg_copyout k p a n e)) = v e) \<and> (\<forall>p d a e. v (snd (mdbg_copyin k p d a e)) = v e) \<and>
     (\<forall>p e. v (snd (pt_attach k p e)) = v e) \<and> (\<forall>p e. v (snd (pt_detach k p e)) = v e) \<and>
     (\<forall>p a n e. v (snd (pt_copyout k p a n e)) = v e) \<and> (\<forall>p d a e. v (snd (pt_copyin k p d a e)) = v e) \<and>
     (\<forall>p e. v (k_kill_cont k p e) = v e)"

lemma kernel_keepsD:
  assumes "kernel_keeps k v"
  shows "k_get_authid k p e = (x1, e') \<Longrightarrow> v e' = v e" "k_set_authid k p a e = (x2, e') \<Longrightarrow> v e' = v e"
    "k_get_caps k p e = (x3, e') \<Longrightarrow> v e' = v e" "k_set_caps k p c e = (x4, e') \<Longrightarrow> v e' = v e"
    "k_mprotect k p a n q e = (x5, e') \<Longrightarrow> v e' = v e" "k_get_protection k p a n e = (x6, e') \<Longrightarrow> v e' = v e"
    "mdbg_read_call k p a n e = (x7, e') \<Longrightarrow> v e' = v e" "mdbg_write_call k p a d e = (x8, e') \<Longrightarrow> v e' = v e"
    "mdbg_copyout k p a n e = (x9, e') \<Longrightarrow> v e' = v e" "mdbg_copyin k p d a e = (x10, e') \<Longrightarrow> v e' = v e"
    "pt_attach k p e = (x11, e') \<Longrightarrow> v e' = v e" "pt_detach k p e = (x12, e') \<Longrightarrow> v e' = v e"
    "pt_copyout k p a n e = (x13, e') \<Longrightarrow> v e' = v e" "pt_copyin k p d a e = (x14, e') \<Longrightarrow> v e' = v e"
    "v (k_kill_cont k p e) = v e"
  using assms unfolding kernel_keeps_def by (metis snd_conv)+

lemma transfer_keeps:
  assumes "\<And>off n e. v (snd (chunk off n e)) = v e"
  shows "transfer_from chunk sz off e = (rc, e') \<Longrightarrow> v e' = v e"
proof (induction "sz - off" arbitrary: off e rule: less_induct)
  case less
  show ?case
  proof (cases "off < sz")
    case False
    then show ?thesis using less.prems by (simp add: transfer_done)
  next
    case True
    let ?r = "chunk off (sz - off) e"
    show ?thesis
    proof (cases "chunk_error (fst ?r) (sz - off) = 0")
      case no: False
      then show ?thesis using less.prems transfer_step [OF True, of chunk e] assms by auto
    next
      case yes: True
      then have "sz - (off + ch_bytes (fst ?r)) < sz - off" using True by (auto simp: chunk_error_0)
      from less.hyps [OF this] yes less.prems show ?thesis
        using transfer_step [OF True, of chunk e] assms by auto
    qed
  qed
qed

lemma mdbg_transfer_keeps:
  assumes "kernel_keeps k v" "mdbg_transfer k rd pid address sz (e, buf) = (rc, (e', buf'))"
  shows "v e' = v e"
proof -
  let ?chunk = "\<lambda>off remaining (e, buf).
    if rd then
      case mdbg_read_call k pid (address + of_nat off) remaining e of
        (r, e') \<Rightarrow> (mdbg_chunk r, (e', overlay_at off (md_data r) buf))
    else
      case mdbg_write_call k pid (address + of_nat off) (sub_bytes off remaining buf) e of
        (r, e') \<Rightarrow> (mdbg_chunk r, (e', buf))"
  have "(v \<circ> fst) (snd (?chunk off n st)) = (v \<circ> fst) st" for off n st
    using kernel_keepsD(7,8) [OF assms(1)] by (auto split: prod.splits)
  from transfer_keeps [where v = "v \<circ> fst" and chunk = ?chunk, OF this] show ?thesis
    using assms(2) by (auto simp: mdbg_transfer_def debugger_transfer_exact_def split: if_splits)
qed

lemma transfer_exact_keeps:
  assumes "kernel_keeps k v" "transfer_exact k rd pid address sz buf e = ((rc, buf'), e')"
  shows "v e' = v e"
  using assms(2) kernel_keepsD(1-4) [OF assms(1)] mdbg_transfer_keeps [OF assms(1)]
  by (auto simp: transfer_exact_def mdbg_privileged_def restore_credentials_def Let_def
      split: prod.splits if_splits)

lemma guard_write_keeps:
  assumes "kernel_keeps k v" "shellui_write_guard_byte k pid address b s e = (rc, s', e')"
  shows "v e' = v e"
proof -
  note K = kernel_keepsD [OF assms(1)]
  have r: "gw_restore k pid address s e = (s', e') \<Longrightarrow> v e' = v e" for s e s' e'
    using K(5,6) by (auto simp: gw_restore_def split: prod.splits if_splits)
  have c: "gw_current k pid address s e = (x, s', e') \<Longrightarrow> v e' = v e" for s e s' e' x
    using K(6) r by (auto simp: gw_current_def split: prod.splits if_splits)
  have b: "gw_copy_byte k pid address b s e = (x, s', e') \<Longrightarrow> v e' = v e" for s e s' e' x
    using K(14) transfer_exact_keeps [OF assms(1)]
    by (auto simp: gw_copy_byte_def shellui_mdbg_write_byte_def Let_def split: prod.splits if_splits)
  have w: "gw_window k pid address b cur s e = (x, s', e') \<Longrightarrow> v e' = v e" for cur s e s' e' x
  proof -
    assume g: "gw_window k pid address b cur s e = (x, s', e')"
    show "v e' = v e"
      using g unfolding gw_window_def Let_def
      by (auto split: prod.splits if_splits dest!: K(5,6) r b)
  qed
  show ?thesis
    using assms(2) c w by (auto simp: shellui_write_guard_byte_def split: option.splits prod.splits if_splits)
qed

lemma read_shellui_code_keeps:
  assumes p: "\<And>n x rc d x'. ptrace_read n x = ((rc, d), x') \<Longrightarrow> v x' = v x"
    and m: "\<And>n x rc d x'. mdbg_read n x = ((rc, d), x') \<Longrightarrow> v x' = v x"
    and r: "read_shellui_code sdk backend sz ptrace_read mdbg_read dest e = ((r, buf), e')"
  shows "v e' = v e"
proof -
  obtain rc1 d1 e1 where 1: "ptrace_read sz e = ((rc1, d1), e1)" by (metis prod.collapse)
  obtain rc2 d2 e2 where 2: "mdbg_read sz e = ((rc2, d2), e2)" by (metis prod.collapse)
  obtain rc3 d3 e3 where 3: "mdbg_read sz e1 = ((rc3, d3), e3)" by (metis prod.collapse)
  show ?thesis
    using r p [OF 1] m [OF 2] m [OF 3] 1 2 3
    by (auto simp: read_shellui_code_def Let_def split: if_splits)
qed

lemma read_target_keeps:
  assumes "kernel_keeps k v" "hook_read_target k c s = (rc, buf, s')"
  shows "v (hs_env s') = v (hs_env s)"
proof -
  let ?pt = "\<lambda>n. pt_copyout k (hc_pid c) (rq_method_address (hc_request c)) n"
  let ?md = "\<lambda>n. if firmware_is_fw1160 (hc_sdk c)
    then shellui_mdbg_read_exact k (hc_pid c) (rq_method_address (hc_request c)) n
    else mdbg_copyout k (hc_pid c) (rq_method_address (hc_request c)) n"
  let ?X = "read_shellui_code (hc_sdk c) (hc_backend c) kShellUiHookPatchSize ?pt ?md
      (replicate kShellUiHookPatchSize 0) (hs_env s)"
  obtain q e' where "?X = (q, e')" by (cases ?X)
  moreover obtain r d where "q = (r, d)" by (cases q)
  ultimately have r: "?X = ((r, d), e')" by simp
  have "?pt n x = ((rc, d), x') \<Longrightarrow> v x' = v x" "?md n x = ((rc, d), x') \<Longrightarrow> v x' = v x" for n x rc d x'
    using kernel_keepsD(9,13) [OF assms(1)] transfer_exact_keeps [OF assms(1)]
    by (auto simp: shellui_mdbg_read_exact_def split: if_splits)
  then have "v e' = v (hs_env s)" by (rule read_shellui_code_keeps [OF _ _ r])
  with r assms(2) show ?thesis by (auto simp: hook_read_target_def Let_def)
qed

lemma write_target_keeps:
  assumes "kernel_keeps k v" "hook_write_target k c code s = (rc, s')"
  shows "v (hs_env s') = v (hs_env s)"
proof -
  have "write_fw900 k c part e = (rc, e') \<Longrightarrow> v e' = v e" for part e rc e'
    using kernel_keepsD(5,10,14) [OF assms(1)]
    by (auto simp: write_fw900_def Let_def split: prod.splits if_splits)
  then show ?thesis
    using assms(2) kernel_keepsD(10,14) [OF assms(1)] guard_write_keeps [OF assms(1)]
    by (auto simp: hook_write_target_def write_fw1160_def Let_def split: prod.splits if_splits)
qed

lemma rollback_keeps:
  assumes "kernel_keeps k v" "hook_rollback k c vrc buf s = s'"
  shows "v (hs_env s') = v (hs_env s)"
  using assms(2)
proof (cases rule: hook_rollback_cases)
  case (failed rc s1)
  then show ?thesis using write_target_keeps [OF assms(1) failed(1)] by simp
next
  case (written s1 rc check s2)
  then show ?thesis
    using write_target_keeps [OF assms(1) written(1)] read_target_keeps [OF assms(1) written(2)] by simp
qed simp

lemma patch_keeps:
  assumes "kernel_keeps k v" "hook_patch k c s = (applied, s')"
  shows "v (hs_env s') = v (hs_env s)"
proof -
  let ?s = "s\<lparr>hs_report := (hs_report s)\<lparr>hr_expected_matched := True\<rparr>\<rparr>"
  obtain wrc s1 where w: "hook_write_target k c (rq_desired (hc_request c)) ?s = (wrc, s1)"
    by (cases "hook_write_target k c (rq_desired (hc_request c)) ?s")
  let ?s1 = "s1\<lparr>hs_report := (hs_report s1)\<lparr>hr_write_rc := wrc\<rparr>\<rparr>"
  obtain vrc buf s2 where r: "hook_read_target k c ?s1 = (vrc, buf, s2)"
    by (cases "hook_read_target k c ?s1")
  have "v (hs_env s2) = v (hs_env s)"
    using write_target_keeps [OF assms(1) w] read_target_keeps [OF assms(1) r] by simp
  then show ?thesis
    using assms(2) w r rollback_keeps [OF assms(1)] by (auto simp: hook_patch_def Let_def split: if_splits)
qed

lemma transaction_keeps:
  assumes "kernel_keeps k v" "hook_transaction k c s = (applied, s')"
  shows "v (hs_env s') = v (hs_env s)"
proof -
  obtain rc buf s1 where r: "hook_read_target k c s = (rc, buf, s1)" by (cases "hook_read_target k c s")
  then show ?thesis
    using assms(2) read_target_keeps [OF assms(1) r] patch_keeps [OF assms(1)]
    by (auto simp: hook_transaction_def Let_def split: if_splits)
qed

lemma privileged_keeps:
  assumes "kernel_keeps k v" "hook_privileged k c s = s'"
  shows "v (hs_env s') = v (hs_env s)"
proof -
  note K = kernel_keepsD [OF assms(1)]
  have a: "hook_attached k c s = (applied, s') \<Longrightarrow> v (hs_env s') = v (hs_env s)" for s s' applied
    using transaction_keeps [OF assms(1)] K(11,12,15)
    by (auto simp: hook_attached_def Let_def split: prod.splits if_splits)
  show ?thesis
    using assms(2) a K(1,2) unfolding hook_privileged_def Let_def
    by (auto split: prod.splits if_splits)
qed

lemma process_files:
  assumes "kernel_keeps k v"
    and "hook_process k fs r pid sdk e = (res, rep, e')"
  shows "\<exists>e1. v e1 = v e \<and> e' = write_ack fs r rep e1"
proof (cases "request_is_valid r pid \<and> hc_backend (hook_context_for r pid sdk) \<noteq> Unsupported")
  case False
  then show ?thesis using assms(2) by (auto simp: hook_process_def Let_def split: if_splits)
next
  case True
  then obtain s where s: "rep = hs_report (hook_privileged k (hook_context_for r pid sdk) s)" "hs_env s = e"
      "e' = write_ack fs r rep (hs_env (hook_privileged k (hook_context_for r pid sdk) s))"
    using assms(2) by (auto simp: hook_process_def Let_def)
  then show ?thesis using privileged_keeps [OF assms(1) refl, of "hook_context_for r pid sdk" s] by auto
qed

section \<open>The kind of a report\<close>

abbreviation kind_of :: "hook_report \<Rightarrow> bool \<times> bool" where
  "kind_of rep \<equiv> (hr_probe rep, hr_main_thread_guard rep)"

lemma verdict_kind: "verdict rep = verdict rep' \<Longrightarrow> kind_of rep = kind_of rep'"
  by (simp add: verdict_def)

lemma patch_kind:
  assumes "hook_patch k c s = (applied, s')"
  shows "kind_of (hs_report s') = kind_of (hs_report s)"
proof -
  let ?s = "s\<lparr>hs_report := (hs_report s)\<lparr>hr_expected_matched := True\<rparr>\<rparr>"
  obtain wrc s1 where w: "hook_write_target k c (rq_desired (hc_request c)) ?s = (wrc, s1)"
    by (cases "hook_write_target k c (rq_desired (hc_request c)) ?s")
  let ?s1 = "s1\<lparr>hs_report := (hs_report s1)\<lparr>hr_write_rc := wrc\<rparr>\<rparr>"
  obtain vrc buf s2 where r: "hook_read_target k c ?s1 = (vrc, buf, s2)"
    by (cases "hook_read_target k c ?s1")
  have k: "kind_of (hs_report s2) = kind_of (hs_report s)"
    using verdict_kind [OF hook_write_target_verdict [OF w]] verdict_kind [OF hook_read_target_verdict [OF r]] by simp
  have b: "kind_of (hs_report (hook_rollback k c vrc buf x)) = kind_of (hs_report x)" for x
  proof (cases rule: hook_rollback_cases [where k = k and c = c and verify_rc = vrc and verified = buf and s = x, OF refl])
    case (2 rc y)
    then show ?thesis using verdict_kind [OF hook_write_target_verdict [OF 2(1)]] by simp
  next
    case (3 y rc check z)
    then show ?thesis
      using verdict_kind [OF hook_write_target_verdict [OF 3(1)]] verdict_kind [OF hook_read_target_verdict [OF 3(2)]]
      by simp
  qed simp
  let ?ok = "vrc = 0 \<and> buf = rq_desired (hc_request c)"
  let ?undo = "s2\<lparr>hs_report := (hs_report s2)
      \<lparr>hr_verified := ?ok, hr_status := (if wrc = 0 then VerifyFailure else WriteFailure)\<rparr>\<rparr>"
  have "s' = (if ?ok \<and> wrc = 0 then s2\<lparr>hs_report := (hs_report s2)\<lparr>hr_verified := True, hr_status := Success\<rparr>\<rparr>
      else hook_rollback k c vrc buf ?undo)"
    using assms unfolding hook_patch_def Let_def w prod.case r by (auto split: if_splits)
  then show ?thesis using k b [of ?undo] by simp
qed

lemma privileged_kind: "kind_of (hs_report (hook_privileged k c s)) = kind_of (hs_report s)"
proof -
  have t: "kind_of (hs_report s') = kind_of (hs_report s)" if "hook_transaction k c s = (applied, s')" for applied s s'
  proof -
    obtain rc buf s1 where r: "hook_read_target k c s = (rc, buf, s1)" by (cases "hook_read_target k c s")
    show ?thesis
      using that r verdict_kind [OF hook_read_target_verdict [OF r]] patch_kind [of k c _ applied s']
      by (auto simp: hook_transaction_def probe_result_def Let_def split: if_splits)
  qed
  have a: "kind_of (hs_report s') = kind_of (hs_report s)" if "hook_attached k c s = (applied, s')" for applied s s'
    using that by (auto simp: hook_attached_def Let_def split: prod.splits if_splits dest!: t)
  show ?thesis
    by (auto simp: hook_privileged_def Let_def split: prod.splits dest!: a)
qed

lemma process_kind:
  assumes "hook_process k fs r pid sdk e = (res, rep, e')"
  shows "kind_of rep = (shellui_hook_request_is_probe r, shellui_hook_request_is_main_thread_guard r)"
proof (cases "request_is_valid r pid \<and> hc_backend (hook_context_for r pid sdk) \<noteq> Unsupported")
  case False
  then show ?thesis
    using assms by (auto simp: hook_process_def Let_def hook_context_for_def split: if_splits)
next
  case True
  then obtain s where s: "rep = hs_report (hook_privileged k (hook_context_for r pid sdk) s)"
      "kind_of (hs_report s) = (shellui_hook_request_is_probe r, hc_guard (hook_context_for r pid sdk))"
    using assms by (auto simp: hook_process_def Let_def)
  then show ?thesis
    using privileged_kind [of k "hook_context_for r pid sdk" s] by (simp add: hook_context_for_def Let_def)
qed

section \<open>The shared world\<close>

text \<open>
  Two views of the world: the files that exist, and the memory of the shell.  Files behave like
  a disk whose operations may fail; they leave the memory alone.
\<close>

definition disk_like :: "'e files \<Rightarrow> ('e \<Rightarrow> string \<Rightarrow> bytes option) \<Rightarrow> bool" where
  "disk_like fs v \<longleftrightarrow>
     (\<forall>p e. f_read fs p e = (v e p, snd (f_read fs p e)) \<and> v (snd (f_read fs p e)) = v e) \<and>
     (\<forall>p e ok e'. f_create fs p e = (ok, e') \<longrightarrow> v e' = (if ok then (v e)(p \<mapsto> []) else v e)) \<and>
     (\<forall>p bs e ok e'. f_fill fs p bs e = (ok, e') \<longrightarrow>
        (if ok then v e' = (v e)(p \<mapsto> bs) else \<exists>n. v e' = (v e)(p \<mapsto> take n bs))) \<and>
     (\<forall>p q e ok e'. f_rename fs p q e = (ok, e') \<longrightarrow> v e' = (if ok then (v e)(q := v e p, p := None) else v e)) \<and>
     (\<forall>p e. v (f_unlink fs p e) = (v e)(p := None))"

lemma disk_files_disk_like: "disk_like disk_files dk_files"
  by (auto simp: disk_like_def disk_files_def dk_next_def split: list.splits option.splits prod.splits)

lemma protocol_paths:
  "kShellUiHookAckTempPath \<noteq> kShellUiHookAckPath" "kShellUiHookAckTempPath \<noteq> kShellUiHookRequestPath"
  "kShellUiHookAckPath \<noteq> kShellUiHookRequestPath"
  by (simp_all add: kShellUiHookAckTempPath_def kShellUiHookAckPath_def kShellUiHookRequestPath_def)

lemma write_ack_files:
  assumes "disk_like fs v"
  shows "v (write_ack fs r rep e) kShellUiHookAckPath \<in> {v e kShellUiHookAckPath, Some (ack_bytes (make_ack r rep))}
    \<and> v (write_ack fs r rep e) kShellUiHookRequestPath = v e kShellUiHookRequestPath"
proof -
  note D = assms [unfolded disk_like_def]
  obtain ok e1 where 1: "f_create fs kShellUiHookAckTempPath e = (ok, e1)" by fastforce
  obtain ok2 e2 where 2: "f_fill fs kShellUiHookAckTempPath (ack_bytes (make_ack r rep)) e1 = (ok2, e2)" by fastforce
  obtain ok3 e3 where 3: "f_rename fs kShellUiHookAckTempPath kShellUiHookAckPath e2 = (ok3, e3)" by fastforce
  have v1: "v e1 = (if ok then (v e)(kShellUiHookAckTempPath \<mapsto> []) else v e)" using D 1 by blast
  have v2: "if ok2 then v e2 = (v e1)(kShellUiHookAckTempPath \<mapsto> ack_bytes (make_ack r rep))
      else \<exists>n. v e2 = (v e1)(kShellUiHookAckTempPath \<mapsto> take n (ack_bytes (make_ack r rep)))" using D 2 by blast
  have v3: "v e3 = (if ok3 then (v e2)(kShellUiHookAckPath := v e2 kShellUiHookAckTempPath,
      kShellUiHookAckTempPath := None) else v e2)" using D 3 by blast
  have u: "v (f_unlink fs p x) = (v x)(p := None)" for p x using D by blast
  show ?thesis
    unfolding write_ack_def write_exact_file_atomic_def 1 2 3
    using v1 v2 v3 u protocol_paths by (auto simp: 1 2 3 split: bool.splits if_splits)
qed

definition shared_world ::
  "'e kernel \<Rightarrow> 'e files \<Rightarrow> int \<Rightarrow> ('e \<Rightarrow> u64 \<Rightarrow> u8) \<Rightarrow> ('e \<Rightarrow> string \<Rightarrow> bytes option) \<Rightarrow> bool" where
  "shared_world k fs pid mem v \<longleftrightarrow>
     truthful_reads k pid mem \<and> leaves_memory k pid mem \<and> files_leave_memory fs mem \<and>
     kernel_keeps k v \<and> disk_like fs v"

text \<open>The renderer's pause, during which the controller polls once.\<close>

definition controller_poll :: "'e kernel \<Rightarrow> 'e files \<Rightarrow> u32 \<Rightarrow> int \<Rightarrow> 'e \<Rightarrow> 'e" where
  "controller_poll k fs sdk pid e = snd (snd (poll_and_apply_shellui_hook k fs (\<lambda>e. (sdk, e)) pid e))"

lemma poll_idle:
  assumes "shared_world k fs pid mem v" "v e kShellUiHookRequestPath = None"
  shows "v (controller_poll k fs sdk pid e) = v e \<and> mem (controller_poll k fs sdk pid e) = mem e"
proof -
  obtain e1 where f: "f_read fs kShellUiHookRequestPath e = (None, e1)" "v e1 = v e"
    using assms unfolding shared_world_def disk_like_def by (metis prod.collapse)
  have "mem e1 = mem e" using assms(1) f(1) unfolding shared_world_def files_leave_memory_def by (metis snd_conv)
  with f show ?thesis by (simp add: controller_poll_def poll_and_apply_shellui_hook_def read_exact_file_def)
qed

lemma poll_request:
  assumes w: "shared_world k fs pid mem v"
    and "v e kShellUiHookRequestPath = Some (request_bytes r)" "request_wf r"
    and e': "e' = controller_poll k fs sdk pid e"
  shows "v e' kShellUiHookRequestPath = None \<and>
    (\<exists>rep. v e' kShellUiHookAckPath \<in> {v e kShellUiHookAckPath, Some (ack_bytes (make_ack r rep))} \<and>
       window_outcome mem (hook_context_for r pid sdk) e rep e' \<and>
       kind_of rep = (shellui_hook_request_is_probe r, shellui_hook_request_is_main_thread_guard r))"
proof -
  obtain e1 where f: "f_read fs kShellUiHookRequestPath e = (Some (request_bytes r), e1)" "v e1 = v e"
    using assms unfolding shared_world_def disk_like_def by (metis prod.collapse)
  let ?e2 = "f_unlink fs kShellUiHookRequestPath e1"
  have m: "mem ?e2 = mem e"
    using w f(1) unfolding shared_world_def files_leave_memory_def by (metis snd_conv)
  have v2: "v ?e2 = (v e)(kShellUiHookRequestPath := None)"
    using w f(2) unfolding shared_world_def disk_like_def by simp
  have len: "length (request_bytes r) = 92" by (rule request.enc_length [OF assms(3)])
  obtain res rep x where p: "hook_process k fs r pid sdk ?e2 = (res, rep, x)" by (metis prod_cases3)
  have x: "x = e'"
    using e' f(1) len p by (simp add: controller_poll_def poll_and_apply_shellui_hook_def read_exact_file_def
        request_of_request_bytes [OF assms(3)])
  obtain e3 where e3: "v e3 = v ?e2" "x = write_ack fs r rep e3"
    using process_files [OF _ p] w unfolding shared_world_def by blast
  have "window_outcome mem (hook_context_for r pid sdk) ?e2 rep x"
    using hook_process_outcome [OF _ _ _ p] w unfolding shared_world_def by blast
  then have "window_outcome mem (hook_context_for r pid sdk) e rep e'"
    using m x by (simp add: window_outcome_def code_at_def)
  moreover have "v x kShellUiHookAckPath \<in> {v e3 kShellUiHookAckPath, Some (ack_bytes (make_ack r rep))}
      \<and> v x kShellUiHookRequestPath = v e3 kShellUiHookRequestPath"
    unfolding e3(2) by (rule write_ack_files) (use w in \<open>simp add: shared_world_def\<close>)
  moreover have "v e3 kShellUiHookAckPath = v e kShellUiHookAckPath" "v e3 kShellUiHookRequestPath = None"
    using protocol_paths(3) by (simp_all add: e3(1) v2)
  ultimately have "v e' kShellUiHookRequestPath = None"
    "v e' kShellUiHookAckPath \<in> {v e kShellUiHookAckPath, Some (ack_bytes (make_ack r rep))}"
    "window_outcome mem (hook_context_for r pid sdk) e rep e'"
    unfolding x by simp_all
  with process_kind [OF p] show ?thesis by blast
qed

section \<open>The handshake\<close>

lemma read_prefix_views:
  assumes "shared_world k fs pid mem v" "read_prefix_file fs path sz e = (res, e')"
  shows "v e' = v e \<and> mem e' = mem e \<and> (res = Some bs \<longrightarrow> (\<exists>all. v e path = Some all \<and> sz \<le> length all \<and> bs = take sz all))"
proof -
  obtain e1 where f: "f_read fs path e = (v e path, e1)" "v e1 = v e"
    using assms(1) unfolding shared_world_def disk_like_def by (metis prod.collapse)
  have "mem e1 = mem e" using assms(1) f(1) unfolding shared_world_def files_leave_memory_def by (metis snd_conv)
  with f assms(2) show ?thesis by (auto simp: read_prefix_file_def split: option.splits if_splits)
qed

lemma write_exact_views:
  assumes "shared_world k fs pid mem v" "write_exact_file fs path bs e = (True, e')"
  shows "v e' = (v e)(path \<mapsto> bs) \<and> mem e' = mem e"
proof -
  have w: "disk_like fs v" "files_leave_memory fs mem" using assms(1) by (simp_all add: shared_world_def)
  obtain e1 where 1: "f_create fs path e = (True, e1)" "f_fill fs path bs e1 = (True, e')"
    using assms(2) by (auto simp: write_exact_file_def split: prod.splits bool.splits)
  have "v e1 = (v e)(path \<mapsto> [])" "v e' = (v e1)(path \<mapsto> bs)"
    using w(1) 1 unfolding disk_like_def by (metis (full_types))+
  moreover have "mem e' = mem e"
    using w(2) 1 unfolding files_leave_memory_def by (metis snd_conv)
  ultimately show ?thesis by simp
qed

text \<open>Whatever holds before and is kept by reads and polls holds when the wait ends.\<close>

lemma wait_attempts_views:
  assumes "shared_world k fs pid mem v"
    and cong: "\<And>e e'. J e \<Longrightarrow> v e' = v e \<Longrightarrow> mem e' = mem e \<Longrightarrow> J e'"
    and step: "\<And>e. J e \<Longrightarrow> J (pause e)"
  shows "J e \<Longrightarrow> wait_attempts fs pause p nonce n e = (res, e') \<Longrightarrow>
    J e' \<and> (\<forall>a. res = Some a \<longrightarrow> (\<exists>all. v e' kShellUiHookAckPath = Some all \<and> a = ack_of_bytes (take 61 all)))"
proof (induction n arbitrary: e)
  case (Suc n)
  obtain r e1 where r: "read_prefix_file fs kShellUiHookAckPath 61 e = (r, e1)"
    by (cases "read_prefix_file fs kShellUiHookAckPath 61 e")
  note views = read_prefix_views [OF assms(1) r]
  have J1: "J e1" using cong [OF Suc.prems(1)] views by blast
  show ?case
  proof (cases "\<exists>bs. r = Some bs \<and> ack_matches p nonce (ack_of_bytes bs)")
    case True
    then obtain bs where "r = Some bs" "res = Some (ack_of_bytes bs)" "e' = e1"
      using Suc.prems(2) r by (auto split: if_splits)
    with views [of bs] J1 show ?thesis by auto
  next
    case False
    then have "wait_attempts fs pause p nonce n (pause e1) = (res, e')"
      using Suc.prems(2) r by (auto split: option.splits if_splits)
    from Suc.IH [OF step [OF J1] this] show ?thesis .
  qed
qed simp

lemma take_ack: "length (hr_observed rep) = 16 \<Longrightarrow>
    ack_of_bytes (take 61 (ack_bytes (make_ack r rep))) = make_ack r rep"
  using ack_of_ack_bytes [of "make_ack r rep"] ack.enc_length [of "make_ack r rep"]
  by (simp add: ack_wf_def make_ack_fields)

text \<open>What an acknowledgement of a request of one kind says of the memory.\<close>

definition tells :: "(hook_report \<Rightarrow> bool) \<Rightarrow> hook_request \<Rightarrow> bytes \<Rightarrow> bool" where
  "tells P r bs \<longleftrightarrow> (\<exists>rep. bs = ack_bytes (make_ack r rep) \<and> length (hr_observed rep) = 16 \<and> P rep)"

lemma handshake:
  assumes w: "shared_world k fs pid mem v" and "request_wf r"
    and "write_exact_file fs kShellUiHookRequestPath (request_bytes r) e = (True, e1)"
    and "\<forall>bs. v e kShellUiHookAckPath = Some bs \<longrightarrow> old bs"
    and "wait_for_native_hook_ack fs (controller_poll k fs sdk pid) p nonce e1 = (Some a, e2)"
    and P: "\<And>rep x. window_outcome mem (hook_context_for r pid sdk) e rep x \<Longrightarrow>
      kind_of rep = (shellui_hook_request_is_probe r, shellui_hook_request_is_main_thread_guard r) \<Longrightarrow> P (mem x) rep"
  shows "\<exists>bs. v e2 kShellUiHookAckPath = Some bs \<and> a = ack_of_bytes (take 61 bs) \<and> (old bs \<or> tells (P (mem e2)) r bs)"
proof -
  define J where "J x \<longleftrightarrow> (v x kShellUiHookRequestPath = Some (request_bytes r) \<and> mem x = mem e \<and>
      (\<forall>bs. v x kShellUiHookAckPath = Some bs \<longrightarrow> old bs)) \<or>
    (v x kShellUiHookRequestPath = None \<and>
      (\<forall>bs. v x kShellUiHookAckPath = Some bs \<longrightarrow> old bs \<or> tells (P (mem x)) r bs))" for x
  have start: "J e1"
    using write_exact_views [OF w assms(3)] assms(4) protocol_paths(3) by (simp add: J_def)
  have step: "J (controller_poll k fs sdk pid x)" if J: "J x" for x
    using J [unfolded J_def]
  proof (elim disjE conjE)
    assume a: "v x kShellUiHookRequestPath = Some (request_bytes r)" "mem x = mem e"
      "\<forall>bs. v x kShellUiHookAckPath = Some bs \<longrightarrow> old bs"
    let ?y = "controller_poll k fs sdk pid x"
    obtain rep where y: "v ?y kShellUiHookRequestPath = None"
      "v ?y kShellUiHookAckPath \<in> {v x kShellUiHookAckPath, Some (ack_bytes (make_ack r rep))}"
      "window_outcome mem (hook_context_for r pid sdk) x rep ?y"
      "kind_of rep = (shellui_hook_request_is_probe r, shellui_hook_request_is_main_thread_guard r)"
      using poll_request [OF w a(1) assms(2) refl] by blast
    have out: "window_outcome mem (hook_context_for r pid sdk) e rep ?y"
      using y(3) a(2) by (simp add: window_outcome_def code_at_def)
    have "tells (P (mem ?y)) r (ack_bytes (make_ack r rep))"
      using P [OF out y(4)] out by (auto simp: tells_def window_outcome_def kShellUiHookPatchSize_def)
    then show ?thesis unfolding J_def using y(1,2) a(3) by auto
  next
    assume a: "v x kShellUiHookRequestPath = None"
      "\<forall>bs. v x kShellUiHookAckPath = Some bs \<longrightarrow> old bs \<or> tells (P (mem x)) r bs"
    then show ?thesis unfolding J_def using poll_idle [OF w a(1), of sdk] by simp
  qed
  have cong: "J y" if "J x" "v y = v x" "mem y = mem x" for x y using that by (simp add: J_def)
  have "J e2 \<and> (\<forall>x. Some a = Some x \<longrightarrow>
      (\<exists>all. v e2 kShellUiHookAckPath = Some all \<and> x = ack_of_bytes (take 61 all)))"
    by (rule wait_attempts_views [OF w, where pause = "controller_poll k fs sdk pid"])
      (erule (2) cong, erule step, rule start, rule assms(5) [unfolded wait_for_native_hook_ack_def])
  then obtain bs where bs: "v e2 kShellUiHookAckPath = Some bs" "a = ack_of_bytes (take 61 bs)" "J e2"
    by blast
  then have "old bs \<or> tells (P (mem e2)) r bs" unfolding J_def by auto
  with bs show ?thesis by blast
qed

lemma make_hook_request_wf: "length ex = 16 \<Longrightarrow> length de = 16 \<Longrightarrow> request_wf (make_hook_request sf meth ex de n orig)"
  by (simp add: request_wf_def)

lemma make_guard_request_wf: "length ex = 16 \<Longrightarrow> request_wf (make_guard_request sf meth ex)"
  by (simp add: request_wf_def)

lemma ack_confirms_make:
  assumes "ack_confirms phase (make_ack r rep)"
  shows "phase = (if hr_probe rep then PhaseProbe
      else if hr_main_thread_guard rep then PhaseMainThreadGuard else PhasePatch)
    \<and> hr_status rep = Success"
  using assms status_code_inject [of "hr_status rep" Success]
  by (auto simp: ack_confirms_def make_ack_fields phase_code_inject)

lemma probe_truthful:
  assumes w: "shared_world k fs pid mem v" and "v e kShellUiHookAckPath = None"
    and "probe_hook_bytes fs (controller_poll k fs sdk pid) sf address e = (Some expected, e')"
  shows "expected = read_mem (mem e) address 16 \<and> mem e' = mem e
    \<and> (\<forall>bs. v e' kShellUiHookAckPath = Some bs \<longrightarrow> (\<exists>r. tells hr_probe r bs))"
proof -
  let ?z = "replicate kAtomicPatchSize (0 :: u8)"
  let ?r = "make_hook_request sf address ?z ?z 0 0"
  let ?P = "\<lambda>m rep. hr_probe rep \<and> m = mem e \<and> (hr_status rep = Success \<longrightarrow> hr_observed rep = read_mem (mem e) address 16)"
  obtain e1 a where h: "write_exact_file fs kShellUiHookRequestPath (request_bytes ?r) e = (True, e1)"
    "wait_for_native_hook_ack fs (controller_poll k fs sdk pid) (sf_pid sf) (rq_nonce ?r) e1 = (Some a, e')"
    "ack_confirms PhaseProbe a" "expected = ack_observed a"
    using assms(3) by (auto simp: probe_hook_bytes_def publish_hook_request_def Let_def split: prod.splits if_splits option.splits)
  have wf: "request_wf ?r" by (rule make_hook_request_wf) (simp_all add: kAtomicPatchSize_def)
  have probe: "shellui_hook_request_is_probe ?r" by (simp add: shellui_hook_request_is_probe_def)
  have "?P (mem x) rep" if "window_outcome mem (hook_context_for ?r pid sdk) e rep x"
      "kind_of rep = (shellui_hook_request_is_probe ?r, shellui_hook_request_is_main_thread_guard ?r)" for rep x
    using that probe by (auto simp: window_outcome_def code_at_def kShellUiHookPatchSize_def)
  from handshake [OF w wf h(1) _ h(2), where old = "\<lambda>_. False" and P = ?P, OF _ this] assms(2)
  obtain bs where bs: "v e' kShellUiHookAckPath = Some bs" "a = ack_of_bytes (take 61 bs)" "tells (?P (mem e')) ?r bs"
    by auto
  then obtain rep where rep: "bs = ack_bytes (make_ack ?r rep)" "length (hr_observed rep) = 16" "?P (mem e') rep"
    by (auto simp: tells_def)
  have "a = make_ack ?r rep" using bs(2) rep(1) take_ack [OF rep(2)] by simp
  with h(3,4) rep(3) ack_confirms_make [of PhaseProbe ?r rep]
  have "expected = read_mem (mem e) address 16" "mem e' = mem e" by (simp_all add: make_ack_fields)
  moreover have "\<exists>r. tells hr_probe r bs" using rep by (auto simp: tells_def)
  ultimately show ?thesis using bs(1) by simp
qed

section \<open>Properties\<close>

text \<open>
  (C2) When the renderer concludes from the handshake that its guard is installed, it is: the
  16 bytes of the method in the shell's memory are what they were before, with a return
  instruction in the first place.  Whatever operation of the disk or the kernel fails, a failed
  or foreign answer is never taken for a confirmation.  Only truthful reads are assumed of the
  debugger, and that no acknowledgement is there when the renderer starts, which is what the
  controller's cleanup before the injection establishes.
\<close>

theorem guard_handshake_sound:
  assumes w: "shared_world k fs (sf_pid sf) mem v" and "v e kShellUiHookAckPath = None"
    and "install_guard_at fs (controller_poll k fs sdk (sf_pid sf)) sf address e = (GuardInstalled, e')"
  shows "read_mem (mem e') address 16 = (read_mem (mem e) address 16)[0 := 0xc3]"
proof -
  let ?pause = "controller_poll k fs sdk (sf_pid sf)"
  obtain expected e1 where p: "probe_hook_bytes fs ?pause sf address e = (Some expected, e1)"
    using assms(3) by (auto simp: install_guard_at_def split: prod.splits option.splits)
  note probe = probe_truthful [OF w assms(2) p]
  show ?thesis
  proof (cases "expected ! 0 = 0xc3")
    case True
    then have "e' = e1" using assms(3) p by (simp add: install_guard_at_def)
    moreover have "expected[0 := 0xc3] = expected" using True by (metis list_update_id)
    ultimately show ?thesis using probe by simp
  next
    case False
    let ?r = "make_guard_request sf address expected"
    let ?P = "\<lambda>m rep. hr_main_thread_guard rep \<and> (hr_status rep = Success \<longrightarrow> read_mem m address 16 = rq_desired ?r)"
    obtain e2 a where h: "write_exact_file fs kShellUiHookRequestPath (request_bytes ?r) e1 = (True, e2)"
      "wait_for_native_hook_ack fs ?pause (sf_pid sf) (rq_nonce ?r) e2 = (Some a, e')"
      "guard_request_result a = GuardInstalled"
      using assms(3) p False
      by (auto simp: install_guard_at_def publish_main_thread_guard_request_def Let_def
          split: prod.splits if_splits option.splits)
    have wf: "request_wf ?r" by (rule make_guard_request_wf) (simp add: probe)
    have kind: "\<not> shellui_hook_request_is_probe ?r" "shellui_hook_request_is_main_thread_guard ?r"
      by (simp_all add: shellui_hook_request_is_probe_def shellui_hook_request_is_main_thread_guard_def)
    have P: "?P (mem x) rep" if "window_outcome mem (hook_context_for ?r (sf_pid sf) sdk) e1 rep x"
        "kind_of rep = (shellui_hook_request_is_probe ?r, shellui_hook_request_is_main_thread_guard ?r)" for rep x
      using that kind by (auto simp: window_outcome_def code_at_def kShellUiHookPatchSize_def)
    obtain bs where bs: "a = ack_of_bytes (take 61 bs)" "(\<exists>r. tells hr_probe r bs) \<or> tells (?P (mem e')) ?r bs"
      using handshake [OF w wf h(1) _ h(2), where old = "\<lambda>bs. \<exists>r. tells hr_probe r bs" and P = ?P, OF _ P] probe by blast
    have c: "ack_confirms PhaseMainThreadGuard a"
      using h(3) by (auto simp: guard_request_result_def split: if_splits)
    from bs(2) show ?thesis
    proof
      assume "\<exists>r. tells hr_probe r bs"
      then obtain r rep where "bs = ack_bytes (make_ack r rep)" "length (hr_observed rep) = 16" "hr_probe rep"
        by (auto simp: tells_def)
      with c bs(1) take_ack [of rep r] ack_confirms_make [of PhaseMainThreadGuard r rep] show ?thesis by simp
    next
      assume "tells (?P (mem e')) ?r bs"
      then obtain rep where "bs = ack_bytes (make_ack ?r rep)" "length (hr_observed rep) = 16" "?P (mem e') rep"
        by (auto simp: tells_def)
      with c bs(1) take_ack [of rep ?r] ack_confirms_make [of PhaseMainThreadGuard ?r rep] probe show ?thesis by simp
    qed
  qed
qed

section \<open>Witness\<close>

definition on_console :: "('c \<Rightarrow> 'a \<times> 'c) \<Rightarrow> 'c \<times> 'd \<Rightarrow> 'a \<times> ('c \<times> 'd)" where
  "on_console f = (\<lambda>(c, d). case f c of (r, c') \<Rightarrow> (r, (c', d)))"

definition on_disk :: "('d \<Rightarrow> 'a \<times> 'd) \<Rightarrow> 'c \<times> 'd \<Rightarrow> 'a \<times> ('c \<times> 'd)" where
  "on_disk f = (\<lambda>(c, d). case f d of (r, d') \<Rightarrow> (r, (c, d')))"

definition console_kernel :: "'c kernel \<Rightarrow> ('c \<times> 'd) kernel" where
  "console_kernel k =
     \<lparr>k_self = k_self k, k_get_authid = (\<lambda>p. on_console (k_get_authid k p)),
      k_set_authid = (\<lambda>p a. on_console (k_set_authid k p a)), k_get_caps = (\<lambda>p. on_console (k_get_caps k p)),
      k_set_caps = (\<lambda>p c. on_console (k_set_caps k p c)),
      k_mprotect = (\<lambda>p a n q. on_console (k_mprotect k p a n q)),
      k_get_protection = (\<lambda>p a n. on_console (k_get_protection k p a n)),
      mdbg_read_call = (\<lambda>p a n. on_console (mdbg_read_call k p a n)),
      mdbg_write_call = (\<lambda>p a d. on_console (mdbg_write_call k p a d)),
      mdbg_copyout = (\<lambda>p a n. on_console (mdbg_copyout k p a n)),
      mdbg_copyin = (\<lambda>p d a. on_console (mdbg_copyin k p d a)),
      pt_attach = (\<lambda>p. on_console (pt_attach k p)), pt_detach = (\<lambda>p. on_console (pt_detach k p)),
      pt_copyout = (\<lambda>p a n. on_console (pt_copyout k p a n)), pt_copyin = (\<lambda>p d a. on_console (pt_copyin k p d a)),
      k_kill_cont = (\<lambda>p (c, d). (k_kill_cont k p c, d))\<rparr>"

definition disk_of_world :: "('c \<times> disk) files" where
  "disk_of_world =
     \<lparr>f_read = (\<lambda>p. on_disk (f_read disk_files p)), f_create = (\<lambda>p. on_disk (f_create disk_files p)),
      f_fill = (\<lambda>p bs. on_disk (f_fill disk_files p bs)), f_rename = (\<lambda>p q. on_disk (f_rename disk_files p q)),
      f_unlink = (\<lambda>p (c, d). (c, f_unlink disk_files p d))\<rparr>"

lemma toy_world: "shared_world (console_kernel toy_kernel) disk_of_world pid (tc_mem \<circ> fst) (dk_files \<circ> snd)"
proof -
  have "truthful_reads (console_kernel toy_kernel) pid (tc_mem \<circ> fst)"
    "leaves_memory (console_kernel toy_kernel) pid (tc_mem \<circ> fst)"
    by (auto simp: truthful_reads_def leaves_memory_def console_kernel_def on_console_def toy_kernel_def read_mem_def)
  moreover have "files_leave_memory disk_of_world (tc_mem \<circ> fst)"
    by (auto simp: files_leave_memory_def disk_of_world_def on_disk_def split: prod.splits)
  moreover have "kernel_keeps (console_kernel toy_kernel) (dk_files \<circ> snd)"
    by (auto simp: kernel_keeps_def console_kernel_def on_console_def split: prod.splits)
  moreover have "disk_like disk_of_world (dk_files \<circ> snd)"
    by (auto simp: disk_like_def disk_of_world_def on_disk_def disk_files_def dk_next_def
        split: list.splits option.splits prod.splits)
  ultimately show ?thesis by (simp add: shared_world_def)
qed


definition toy_world_start :: "toy_console \<times> disk" where
  "toy_world_start = (toy_start\<lparr>tc_mem := (\<lambda>x. if x = toy_base then 0xc3 else 0x90)\<rparr>, \<lparr>dk_files = Map.empty, dk_oracle = []\<rparr>)"

lemma toy_probe:
  fixes r defines "r \<equiv> make_hook_request example_self 0x200000 (replicate kAtomicPatchSize 0) (replicate kAtomicPatchSize 0) 0 0"
  assumes "dk_oracle d = []" "dk_files d kShellUiHookRequestPath = Some (request_bytes r)" "tc_auth c \<noteq> 0"
  shows "\<exists>rep c' d'. controller_poll (console_kernel toy_kernel) disk_of_world 0x11600001 42 (c, d) = (c', d')
   \<and> dk_files d' kShellUiHookAckPath = Some (ack_bytes (make_ack r rep))
   \<and> hr_status rep = Success \<and> hr_probe rep \<and> hr_verified rep \<and> hr_detached rep \<and> hr_auth_restored rep
   \<and> hr_observed rep = read_mem (tc_mem c) 0x200000 16"
proof -
  have wf: "request_wf r" unfolding r_def by (rule make_hook_request_wf) (simp_all add: kAtomicPatchSize_def)
  have len: "length (request_bytes r) = 92" by (rule request.enc_length [OF wf])
  have v: "request_is_valid r 42"
    using probe_request_valid [OF example_self_ok] unfolding r_def
    by (simp add: request_is_valid_def shellui_hook_request_is_probe_def example_self_def)
  have c: "hook_context_for r 42 0x11600001 = \<lparr>hc_request = r, hc_pid = 42, hc_sdk = 0x11600001,
      hc_backend = PtraceIo, hc_probe = True, hc_guard = False, hc_eta_chain = False\<rparr>"
    by (simp add: hook_context_for_def Let_def shellui_hook_probe_backend_def firmware_family_def
        shellui_hook_request_is_probe_def shellui_hook_request_is_main_thread_guard_def r_def)
  have m: "rq_method_address r = 0x200000" by (simp add: r_def)
  show ?thesis
    using assms(2-) protocol_paths wf len v c m
    by (simp add: controller_poll_def poll_and_apply_shellui_hook_def read_exact_file_def disk_of_world_def on_disk_def
     disk_files_def request_of_request_bytes hook_process_def Let_def hook_privileged_def hook_attached_def hook_transaction_def
     hook_read_target_def read_shellui_code_def console_kernel_def on_console_def toy_kernel_def write_ack_def
     write_exact_file_atomic_def dk_next_def probe_result_def kShellUiHookPatchSize_def EFAULT_def
     hc_fw900_guard_write_def) (intro exI conjI, rule refl, simp_all)
qed

lemma wait_found_second:
  assumes "read_prefix_file fs kShellUiHookAckPath 61 e = (None, e)"
    and "read_prefix_file fs kShellUiHookAckPath 61 (pause e) = (Some bs, e1)" "ack_matches p nonce (ack_of_bytes bs)"
  shows "wait_for_native_hook_ack fs pause p nonce e = (Some (ack_of_bytes bs), e1)"
proof -
  have "wait_attempts fs pause p nonce (Suc (Suc 998)) e = (Some (ack_of_bytes bs), e1)"
    by (simp only: wait_attempts.simps assms option.case prod.case if_True)
  moreover have "Suc (Suc 998) = (1000 :: nat)" by simp
  ultimately show ?thesis by (simp only: wait_for_native_hook_ack_def)
qed

theorem guard_handshake_sound_witness:
  "\<exists>e'. install_guard_at disk_of_world (controller_poll (console_kernel toy_kernel) disk_of_world 0x11600001 42)
      example_self 0x200000 toy_world_start = (GuardInstalled, e')
    \<and> read_mem (tc_mem (fst e')) 0x200000 16 = (read_mem (tc_mem (fst toy_world_start)) 0x200000 16)[0 := 0xc3]"
proof -
  let ?pause = "controller_poll (console_kernel toy_kernel) disk_of_world 0x11600001 42"
  let ?z = "replicate kAtomicPatchSize (0 :: u8)"
  let ?r = "make_hook_request example_self 0x200000 ?z ?z 0 0"
  obtain c d where s: "toy_world_start = (c, d)" by (cases toy_world_start)
  have cd: "dk_oracle d = []" "dk_files d = Map.empty" "tc_auth c \<noteq> 0" "tc_mem c 0x200000 = 0xc3"
    using s by (auto simp: toy_world_start_def toy_start_def toy_base_def)
  let ?d1 = "d\<lparr>dk_files := (dk_files d)(kShellUiHookRequestPath \<mapsto> request_bytes ?r)\<rparr>"
  obtain rep c' d' where p: "?pause (c, ?d1) = (c', d')" "dk_files d' kShellUiHookAckPath = Some (ack_bytes (make_ack ?r rep))"
    "hr_status rep = Success" "hr_probe rep" "hr_verified rep" "hr_detached rep" "hr_auth_restored rep"
    "hr_observed rep = read_mem (tc_mem c) 0x200000 16"
    using toy_probe [of ?d1 c] cd by auto
  have len: "length (hr_observed rep) = 16" by (simp add: p)
  have ack: "length (ack_bytes (make_ack ?r rep)) = 61"
    by (rule ack.enc_length) (simp add: ack_wf_def make_ack_fields len)
  have match: "ack_matches 42 (rq_nonce ?r) (make_ack ?r rep)"
    by (simp add: ack_matches_def make_ack_fields example_self_def)
  have r1: "read_prefix_file disk_of_world kShellUiHookAckPath 61 (c, ?d1) = (None, (c, ?d1))"
    using cd protocol_paths by (simp add: read_prefix_file_def disk_of_world_def on_disk_def disk_files_def)
  have r2: "read_prefix_file disk_of_world kShellUiHookAckPath 61 (?pause (c, ?d1))
      = (Some (ack_bytes (make_ack ?r rep)), (c', d'))"
    unfolding p(1) using p(2) ack by (simp add: read_prefix_file_def disk_of_world_def on_disk_def disk_files_def)
  have parsed: "ack_of_bytes (ack_bytes (make_ack ?r rep)) = make_ack ?r rep" using take_ack [OF len, of ?r] ack by simp
  have "wait_for_native_hook_ack disk_of_world ?pause 42 (rq_nonce ?r) (c, ?d1) = (Some (make_ack ?r rep), (c', d'))"
    using wait_found_second [where pause = ?pause, OF r1 r2] match unfolding parsed by simp
  moreover have "write_exact_file disk_of_world kShellUiHookRequestPath (request_bytes ?r) (c, d) = (True, (c, ?d1))"
    using cd by (simp add: write_exact_file_def disk_of_world_def on_disk_def disk_files_def dk_next_def)
  moreover have "ack_confirms PhaseProbe (make_ack ?r rep)"
    using p by (simp add: ack_confirms_def make_ack_fields)
  moreover have "hr_observed rep ! 0 = 0xc3" by (simp add: p cd read_mem_def)
  ultimately have i: "install_guard_at disk_of_world ?pause example_self 0x200000 (c, d) = (GuardInstalled, (c', d'))"
    by (simp add: install_guard_at_def probe_hook_bytes_def publish_hook_request_def Let_def make_ack_fields example_self_def)
  have "(dk_files \<circ> snd) (c, d) kShellUiHookAckPath = None" by (simp add: cd)
  moreover have "install_guard_at disk_of_world
      (controller_poll (console_kernel toy_kernel) disk_of_world 0x11600001 (sf_pid example_self))
      example_self 0x200000 (c, d) = (GuardInstalled, (c', d'))"
    using i by (simp add: example_self_def)
  ultimately have "read_mem ((tc_mem \<circ> fst) (c', d')) 0x200000 16 = (read_mem ((tc_mem \<circ> fst) (c, d)) 0x200000 16)[0 := 0xc3]"
    by (rule guard_handshake_sound [OF toy_world])
  with i s show ?thesis by simp
qed

end
