(* ===== verification/Process_List.thy ===== *)
theory Process_List
  imports Codec
begin

text \<open>
  The kernel's process list and the three readers of it: the controller's look for the shell
  (\<^verbatim>\<open>observe_shellui_once\<close> of \<^verbatim>\<open>src/ps5/commonfps_ps5_main.cpp\<close>), the
  sampler's look for the game (\<^verbatim>\<open>src/ps5/stable_sampler/process_sysctl.cpp\<close>) and
  the diagnostic view of a record (\<^verbatim>\<open>include/common_fps/preflight_process_view.hpp\<close>).
  A list is a buffer of records that each start with their own length; a cursor into the
  buffer is the list of the bytes from there on.  The \<^verbatim>\<open>errno\<close> values kept for the
  log are left out.
\<close>

section \<open>Records\<close>

definition kPidOffset :: nat where "kPidOffset = 72"
definition kTdnameOffset :: nat where "kTdnameOffset = 447"

text \<open>A name as it stands in a record, with its terminator.\<close>

definition c_name :: "string \<Rightarrow> bytes" where
  "c_name name = map (\<lambda>c. of_nat (of_char c)) name @ [0]"

definition kShellUiName :: bytes where "kShellUiName = c_name ''SceShellUI''"
definition kGameName :: bytes where "kGameName = c_name ''eboot.bin''"

definition record_name_equals :: "bytes \<Rightarrow> bytes \<Rightarrow> nat \<Rightarrow> bool" where
  "record_name_equals name cursor record_size \<longleftrightarrow>
     kTdnameOffset + length name \<le> record_size \<and> sub_bytes kTdnameOffset (length name) cursor = name"

text \<open>The pid of a matching record; \<open>None\<close> is no match, a non-positive pid or the caller itself.\<close>

definition record_candidate :: "bytes \<Rightarrow> int \<Rightarrow> bytes \<Rightarrow> nat \<Rightarrow> int option" where
  "record_candidate name self cursor record_size =
     (if kPidOffset + 4 \<le> record_size \<and> record_name_equals name cursor record_size then
        let candidate = get_i32 kPidOffset cursor
        in if 0 < candidate \<and> candidate \<noteq> self then Some candidate else None
      else None)"

record process_lookup =
  lk_pid :: int
  lk_bytes :: nat
  lk_records :: u32
  lk_malformed :: u32

definition lookup_init :: process_lookup where
  "lookup_init = \<lparr>lk_pid = -1, lk_bytes = 0, lk_records = 0, lk_malformed = 0\<rparr>"

section \<open>The walk\<close>

text \<open>
  The two walks are the same but for the match: the controller stops at its first one, the
  sampler goes on and keeps the last.
\<close>

function walk_records :: "bool \<Rightarrow> bytes \<Rightarrow> int \<Rightarrow> bytes \<Rightarrow> process_lookup \<Rightarrow> process_lookup" where
  "walk_records stop name self cursor res =
     (if cursor = [] then res
      else if length cursor < 4 then res\<lparr>lk_malformed := lk_malformed res + 1\<rparr>
      else
        let record_size = get_i32 0 cursor
        in if record_size \<le> 0 \<or> int (length cursor) < record_size
           then res\<lparr>lk_malformed := lk_malformed res + 1\<rparr>
           else
             let res1 = res\<lparr>lk_records := lk_records res + 1\<rparr>; n = nat record_size
             in case record_candidate name self cursor n of
                  None \<Rightarrow> walk_records stop name self (drop n cursor) res1
                | Some pid \<Rightarrow>
                    if stop then res1\<lparr>lk_pid := pid\<rparr>
                    else walk_records stop name self (drop n cursor) (res1\<lparr>lk_pid := pid\<rparr>))"
  by auto

termination walk_records
  by (relation "measure (\<lambda>(stop, name, self, cursor, res). length cursor)") auto

declare walk_records.simps [simp del]

text \<open>
  The queries: the size of the list, an allocation and the list itself, into a buffer of so
  many bytes; the reply holds the buffer after the call and the length the kernel reports.
\<close>

record 'e process_api =
  pa_self :: int
  pa_size :: "'e \<Rightarrow> (int \<times> nat) \<times> 'e"
  pa_alloc :: "nat \<Rightarrow> 'e \<Rightarrow> bool \<times> 'e"
  pa_data :: "nat \<Rightarrow> 'e \<Rightarrow> (int \<times> nat \<times> bytes) \<times> 'e"

definition lookup_process :: "bool \<Rightarrow> bytes \<Rightarrow> 'e process_api \<Rightarrow> 'e \<Rightarrow> process_lookup \<times> 'e" where
  "lookup_process stop name pa e =
     (case pa_size pa e of
        ((rc, required), e1) \<Rightarrow>
          if rc \<noteq> 0 \<or> required = 0 then (lookup_init, e1)
          else
            let capacity = required + required div 4 + 4096
            in case pa_alloc pa capacity e1 of
                 (False, e2) \<Rightarrow> (lookup_init, e2)
               | (True, e2) \<Rightarrow>
                   (case pa_data pa capacity e2 of
                      ((rc2, count, buffer), e3) \<Rightarrow>
                        if rc2 \<noteq> 0 \<or> capacity < count then (lookup_init\<lparr>lk_bytes := count\<rparr>, e3)
                        else (walk_records stop name (pa_self pa) (take count buffer)
                                (lookup_init\<lparr>lk_bytes := count\<rparr>), e3)))"

definition observe_shellui_once :: "'e process_api \<Rightarrow> 'e \<Rightarrow> process_lookup \<times> 'e" where
  "observe_shellui_once = lookup_process True kShellUiName"

definition find_game_process_sysctl :: "'e process_api \<Rightarrow> 'e \<Rightarrow> process_lookup \<times> 'e" where
  "find_game_process_sysctl = lookup_process False kGameName"

section \<open>The diagnostic view\<close>

record process_view =
  pv_size :: nat
  pv_pid :: int
  pv_ppid :: int
  pv_legacy_name :: bytes
  pv_game_name_offset :: int
  pv_shellui_name_offset :: int

text \<open>The first place where the name stands at the start or behind a zero byte.\<close>

definition name_at :: "bytes \<Rightarrow> bytes \<Rightarrow> nat \<Rightarrow> bool" where
  "name_at bs name i \<longleftrightarrow> (i = 0 \<or> bs ! (i - 1) = 0) \<and> sub_bytes i (length name) bs = name"

definition preflight_name_offset :: "bytes \<Rightarrow> nat \<Rightarrow> bytes \<Rightarrow> int" where
  "preflight_name_offset bs sz name =
     (if sz < length name then -1
      else case find (name_at bs name) [0..<sz - length name + 1] of None \<Rightarrow> -1 | Some i \<Rightarrow> int i)"

definition legacy_name :: "bytes \<Rightarrow> nat \<Rightarrow> bytes" where
  "legacy_name bs sz =
     (if kTdnameOffset < sz
      then map (\<lambda>c. if 32 \<le> c \<and> c \<le> 126 then c else 46)
             (takeWhile (\<lambda>c. c \<noteq> 0) (sub_bytes kTdnameOffset (min (sz - kTdnameOffset) 32) bs))
      else [])"

definition preflight_process_view :: "bytes \<Rightarrow> process_view option" where
  "preflight_process_view bs =
     (if length bs < 4 then None
      else
        let len = get_i32 0 bs
        in if len < 80 \<or> int (length bs) < len \<or> 64 * 1024 < len then None
           else
             let n = nat len
             in Some \<lparr>pv_size = n, pv_pid = get_i32 72 bs, pv_ppid = get_i32 76 bs,
                      pv_legacy_name = legacy_name bs n,
                      pv_game_name_offset = preflight_name_offset bs n kGameName,
                      pv_shellui_name_offset = preflight_name_offset bs n kShellUiName\<rparr>)"

section \<open>A reference parser\<close>

text \<open>The well-formed records at the front of a buffer, as a list of slices.\<close>

function split_records :: "bytes \<Rightarrow> bytes list" where
  "split_records cursor =
     (if length cursor < 4 \<or> get_i32 0 cursor \<le> 0 \<or> int (length cursor) < get_i32 0 cursor then []
      else take (nat (get_i32 0 cursor)) cursor # split_records (drop (nat (get_i32 0 cursor)) cursor))"
  by auto

termination split_records
  by (relation "measure length") auto

declare split_records.simps [simp del]

definition named_pid :: "bytes \<Rightarrow> int \<Rightarrow> bytes \<Rightarrow> int option" where
  "named_pid name self r = record_candidate name self r (length r)"

text \<open>What a walk should answer.\<close>

definition first_match :: "bytes \<Rightarrow> int \<Rightarrow> bytes list \<Rightarrow> int" where
  "first_match name self rs = (case List.map_filter (named_pid name self) rs of [] \<Rightarrow> -1 | p # _ \<Rightarrow> p)"

definition last_match :: "bytes \<Rightarrow> int \<Rightarrow> bytes list \<Rightarrow> int" where
  "last_match name self rs = (case rev (List.map_filter (named_pid name self) rs) of [] \<Rightarrow> -1 | p # _ \<Rightarrow> p)"

section \<open>Facts\<close>

lemma sub_bytes_take: "off + n \<le> m \<Longrightarrow> sub_bytes off n (take m bs) = sub_bytes off n bs"
  by (simp add: sub_bytes_def drop_take min_def)

text \<open>A match looks at nothing behind its own record.\<close>

lemma record_candidate_local:
  assumes "n \<le> length cursor"
  shows "record_candidate name self cursor n = named_pid name self (take n cursor)"
proof -
  have "get_i32 kPidOffset (take n cursor) = get_i32 kPidOffset cursor" if "kPidOffset + 4 \<le> n"
    using that by (simp add: get_i32_def get_u32_def sub_bytes_take)
  moreover have "record_name_equals name (take n cursor) n = record_name_equals name cursor n"
    by (auto simp: record_name_equals_def sub_bytes_take)
  ultimately show ?thesis using assms
    by (auto simp: record_candidate_def named_pid_def Let_def)
qed

lemma split_records_prefix: "\<exists>rest. concat (split_records cursor) @ rest = cursor"
proof (induction cursor rule: split_records.induct)
  case (1 cursor)
  show ?case
  proof (cases "length cursor < 4 \<or> get_i32 0 cursor \<le> 0 \<or> int (length cursor) < get_i32 0 cursor")
    case False
    from 1 [OF False] obtain rest where
      r: "concat (split_records (drop (nat (get_i32 0 cursor)) cursor)) @ rest = drop (nat (get_i32 0 cursor)) cursor" by blast
    have "take (nat (get_i32 0 cursor)) cursor @ (concat (split_records (drop (nat (get_i32 0 cursor)) cursor)) @ rest) = cursor"
      unfolding r by simp
    then show ?thesis using False by (subst split_records.simps) (auto intro: exI [of _ rest])
  qed (simp add: split_records.simps)
qed

lemma walk_step:
  assumes "\<not> (length cursor < 4 \<or> get_i32 0 cursor \<le> 0 \<or> int (length cursor) < get_i32 0 cursor)"
  shows "walk_records stop name self cursor res =
     (let n = nat (get_i32 0 cursor); res1 = res\<lparr>lk_records := lk_records res + 1\<rparr>
      in case named_pid name self (take n cursor) of
           None \<Rightarrow> walk_records stop name self (drop n cursor) res1
         | Some pid \<Rightarrow> if stop then res1\<lparr>lk_pid := pid\<rparr>
                       else walk_records stop name self (drop n cursor) (res1\<lparr>lk_pid := pid\<rparr>))"
proof -
  have "record_candidate name self cursor (nat (get_i32 0 cursor)) = named_pid name self (take (nat (get_i32 0 cursor)) cursor)"
    using assms by (intro record_candidate_local) auto
  then show ?thesis using assms by (subst walk_records.simps) (auto simp: Let_def)
qed

lemma walk_stops:
  assumes "length cursor < 4 \<or> get_i32 0 cursor \<le> 0 \<or> int (length cursor) < get_i32 0 cursor"
  shows "lk_pid (walk_records stop name self cursor res) = lk_pid res"
  using assms by (subst walk_records.simps) (auto simp: Let_def)

lemma walk_first:
  "lk_pid (walk_records True name self cursor res) =
     (case List.map_filter (named_pid name self) (split_records cursor) of [] \<Rightarrow> lk_pid res | p # _ \<Rightarrow> p)"
proof (induction cursor arbitrary: res rule: split_records.induct)
  case (1 cursor)
  show ?case
  proof (cases "length cursor < 4 \<or> get_i32 0 cursor \<le> 0 \<or> int (length cursor) < get_i32 0 cursor")
    case True
    then show ?thesis using walk_stops [OF True] by (simp add: split_records.simps [of cursor] map_filter_simps)
  next
    case False
    show ?thesis using 1 [OF False]
      by (simp add: walk_step [OF False] split_records.simps [of cursor] False map_filter_simps Let_def
          split: option.split list.split)
  qed
qed

lemma walk_last:
  "lk_pid (walk_records False name self cursor res) =
     (case rev (List.map_filter (named_pid name self) (split_records cursor)) of [] \<Rightarrow> lk_pid res | p # _ \<Rightarrow> p)"
proof (induction cursor arbitrary: res rule: split_records.induct)
  case (1 cursor)
  show ?case
  proof (cases "length cursor < 4 \<or> get_i32 0 cursor \<le> 0 \<or> int (length cursor) < get_i32 0 cursor")
    case True
    then show ?thesis using walk_stops [OF True] by (simp add: split_records.simps [of cursor] map_filter_simps)
  next
    case False
    show ?thesis using 1 [OF False]
      by (simp add: walk_step [OF False] split_records.simps [of cursor] False map_filter_simps Let_def
          split: option.split list.split)
  qed
qed

text \<open>A list for examples: two records, the second is the game.\<close>

definition toy_record :: "string \<Rightarrow> nat \<Rightarrow> bytes" where
  "toy_record name pid =
     to_le 4 480 @ replicate 68 0 @ to_le 4 pid @ replicate 371 0 @
     take 33 (c_name name @ replicate 33 0)"

definition toy_processes :: "bytes process_api" where
  "toy_processes =
     \<lparr>pa_self = 7, pa_size = (\<lambda>e. ((0, length e), e)), pa_alloc = (\<lambda>n e. (True, e)),
      pa_data = (\<lambda>n e. ((0, length e, e), e))\<rparr>"

text \<open>
  (C15) The process lookups are exactly first match and last match over the records of the
  list: the shell is the first record of its name and the game the last one, never the caller
  and never a non-positive pid, the records are slices of what the kernel returned, and
  nothing behind a malformed record or the reported length is read.
\<close>

theorem process_lookups_correct:
  assumes "pa_size pa e = ((0, required), e1)" "0 < required"
    and "pa_alloc pa (required + required div 4 + 4096) e1 = (True, e2)"
    and "pa_data pa (required + required div 4 + 4096) e2 = ((0, count, buffer), e3)"
    and "count \<le> required + required div 4 + 4096"
  shows "let rs = split_records (take count buffer); self = pa_self pa;
      shell = lk_pid (fst (observe_shellui_once pa e)); game = lk_pid (fst (find_game_process_sysctl pa e))
    in shell = first_match kShellUiName self rs \<and> game = last_match kGameName self rs
     \<and> (shell = -1 \<or> 0 < shell \<and> shell \<noteq> self) \<and> (game = -1 \<or> 0 < game \<and> game \<noteq> self)
     \<and> (\<exists>rest. concat rs @ rest = take count buffer)"
proof -
  let ?rs = "split_records (take count buffer)"
  have run: "lk_pid (fst (lookup_process stop name pa e))
      = lk_pid (walk_records stop name (pa_self pa) (take count buffer) (lookup_init\<lparr>lk_bytes := count\<rparr>))" for stop name
    using assms by (simp add: lookup_process_def)
  have init: "lk_pid (lookup_init\<lparr>lk_bytes := count\<rparr>) = -1" by (simp add: lookup_init_def)
  have pids: "0 < p \<and> p \<noteq> pa_self pa" if "p \<in> set (List.map_filter (named_pid name (pa_self pa)) rs)" for p name rs
    using that by (auto simp: List.map_filter_def named_pid_def record_candidate_def Let_def split: if_splits)
  have first: "first_match name (pa_self pa) rs = -1 \<or> 0 < first_match name (pa_self pa) rs \<and> first_match name (pa_self pa) rs \<noteq> pa_self pa"
    for name rs using pids [of _ name rs] by (auto simp: first_match_def split: list.split)
  have last: "last_match name (pa_self pa) rs = -1 \<or> 0 < last_match name (pa_self pa) rs \<and> last_match name (pa_self pa) rs \<noteq> pa_self pa"
    for name rs
  proof (cases "rev (List.map_filter (named_pid name (pa_self pa)) rs)")
    case (Cons q qs)
    then have "q \<in> set (List.map_filter (named_pid name (pa_self pa)) rs)" by (metis list.set_intros(1) set_rev)
    from pids [OF this] Cons show ?thesis by (simp add: last_match_def)
  qed (simp add: last_match_def)
  have "lk_pid (fst (observe_shellui_once pa e)) = first_match kShellUiName (pa_self pa) ?rs"
    "lk_pid (fst (find_game_process_sysctl pa e)) = last_match kGameName (pa_self pa) ?rs"
    by (simp_all add: observe_shellui_once_def find_game_process_sysctl_def run walk_first walk_last init first_match_def last_match_def
        split: list.split)
  moreover note first [of kShellUiName ?rs] last [of kGameName ?rs] split_records_prefix [of "take count buffer"]
  ultimately show ?thesis by (simp only: Let_def)
qed

definition toy_list :: bytes where
  "toy_list = toy_record ''SceShellUI'' 40 @ toy_record ''eboot.bin'' 41"

lemma toy_game: "lk_pid (fst (find_game_process_sysctl toy_processes toy_list)) = 41"
  by code_simp

theorem process_lookups_correct_witness:
  "last_match kGameName 7 (split_records toy_list) = 41 \<and> first_match kShellUiName 7 (split_records toy_list) \<noteq> 7"
proof -
  have q: "pa_size toy_processes toy_list = ((0, length toy_list), toy_list)"
    "pa_alloc toy_processes n toy_list = (True, toy_list)"
    "pa_data toy_processes n toy_list = ((0, length toy_list, toy_list), toy_list)" for n
    by (simp_all add: toy_processes_def)
  have l: "length toy_list = 960" "pa_self toy_processes = 7" by code_simp+
  from process_lookups_correct [OF q(1) _ q(2) q(3)] show ?thesis
    using toy_game by (auto simp: Let_def l)
qed

end
