(* ===== verification/Page_Walk.thy ===== *)
theory Page_Walk
  imports Prelude
begin

text \<open>
  The direct map reader of firmware 9.60 (\<^verbatim>\<open>src/ps5/stable_sampler/proc_rw_v960.cpp\<close>):
  the walk over the kernel's process list, the walk over the four levels of a process's page
  tables, and the read of a range page by page.  \<^verbatim>\<open>kernel_copyout\<close> is a parameter:
  a snapshot of kernel memory that answers the bytes at an address or fails.  An address of
  zero is a failure, as in the source.
\<close>

unbundle bit_operations_syntax

section \<open>Constants\<close>

definition kFw960 :: u32 where "kFw960 = 0x09600000"
definition kAllprocFromKdata :: u64 where "kAllprocFromKdata = 0x02755D50"
definition kProcPid :: u64 where "kProcPid = 0xBC"
definition kProcVmspace :: u64 where "kProcVmspace = 0x200"
definition kProcNext :: u64 where "kProcNext = 0"
definition kVmspacePmap :: u64 where "kVmspacePmap = 0x1D8"
definition kPmapPml4Virtual :: u64 where "kPmapPml4Virtual = 0x20"
definition kPmapPml4Physical :: u64 where "kPmapPml4Physical = 0x28"
definition kFixedDmapBase :: u64 where "kFixedDmapBase = 0xFFFF873B00000000"
definition kMask4K :: u64 where "kMask4K = 0x000FFFFFFFFFF000"
definition kMask2M :: u64 where "kMask2M = 0x000FFFFFFFE00000"
definition kMask1G :: u64 where "kMask1G = 0x000FFFFFC0000000"
definition kPage4K :: u64 where "kPage4K = 0x1000"
definition kPage2M :: u64 where "kPage2M = 0x200000"
definition kPage1G :: u64 where "kPage1G = 0x40000000"
definition kMaxProcWalk :: nat where "kMaxProcWalk = 1024"

section \<open>The kernel\<close>

text \<open>
  \<open>kn_copyout\<close> is the snapshot, \<open>kn_data_base\<close> the address of the kernel's data
  (\<^verbatim>\<open>KERNEL_ADDRESS_DATA_BASE\<close>), \<open>kn_sdk\<close> the answer of
  \<^verbatim>\<open>firmware_sdk_version\<close>.
\<close>

record kernel_view =
  kn_copyout :: "u64 \<Rightarrow> nat \<Rightarrow> bytes option"
  kn_data_base :: u64
  kn_sdk :: u32

definition read_kernel :: "kernel_view \<Rightarrow> u64 \<Rightarrow> nat \<Rightarrow> bytes option" where
  "read_kernel k address n = (if address \<noteq> 0 \<and> n \<noteq> 0 then kn_copyout k address n else None)"

definition read_kernel_u32 :: "kernel_view \<Rightarrow> u64 \<Rightarrow> u32 option" where
  "read_kernel_u32 k address = map_option (get_u32 0) (read_kernel k address 4)"

definition read_kernel_u64 :: "kernel_view \<Rightarrow> u64 \<Rightarrow> u64 option" where
  "read_kernel_u64 k address = map_option (get_u64 0) (read_kernel k address 8)"

definition firmware_is_960 :: "kernel_view \<Rightarrow> bool" where
  "firmware_is_960 k \<longleftrightarrow> kn_sdk k AND 0xFFFF0000 = kFw960"

section \<open>Finding a process\<close>

text \<open>The loop is bounded; the bound is its fuel.\<close>

primrec walk_procs :: "kernel_view \<Rightarrow> u32 \<Rightarrow> nat \<Rightarrow> u64 \<Rightarrow> u64 option" where
  "walk_procs k pid 0 current = None"
| "walk_procs k pid (Suc i) current =
     (if current = 0 then None
      else case read_kernel_u32 k (current + kProcPid) of
             None \<Rightarrow> None
           | Some candidate_pid \<Rightarrow>
               if candidate_pid = pid then Some current
               else (case read_kernel_u64 k (current + kProcNext) of
                       None \<Rightarrow> None
                     | Some nxt \<Rightarrow> if nxt = current then None else walk_procs k pid i nxt))"

definition find_proc :: "kernel_view \<Rightarrow> int \<Rightarrow> u64 option" where
  "find_proc k pid =
     (if pid \<le> 0 \<or> \<not> firmware_is_960 k \<or> kn_data_base k = 0 then None
      else case read_kernel_u64 k (kn_data_base k + kAllprocFromKdata) of
             None \<Rightarrow> None
           | Some first \<Rightarrow> walk_procs k (of_int pid) kMaxProcWalk first)"

section \<open>Page tables\<close>

text \<open>The base of the direct map, decided once: a state of the module, zero at first.\<close>

definition choose_dmap :: "u64 \<Rightarrow> u64 \<Rightarrow> u64 \<Rightarrow> u64" where
  "choose_dmap g_dmap pml4_virtual pml4_physical =
     (if g_dmap \<noteq> 0 then g_dmap
      else
        let candidate = pml4_virtual - pml4_physical;
            g = (if pml4_physical < pml4_virtual \<and> pml4_physical < push_bit 40 1 \<and> drop_bit 48 candidate \<noteq> 0
                 then candidate else 0)
        in if g = 0 then kFixedDmapBase else g)"

definition dmap_base :: "u64 \<Rightarrow> u64" where
  "dmap_base g_dmap = (if g_dmap \<noteq> 0 then g_dmap else kFixedDmapBase)"

definition read_page_entry :: "kernel_view \<Rightarrow> u64 \<Rightarrow> u64 option" where
  "read_page_entry k address =
     (case read_kernel_u64 k address of
        None \<Rightarrow> None | Some entry \<Rightarrow> if entry AND 1 \<noteq> 0 then Some entry else None)"

definition large_page :: "u64 \<Rightarrow> bool" where
  "large_page entry \<longleftrightarrow> entry AND push_bit 7 1 \<noteq> 0"

definition table_index :: "u64 \<Rightarrow> nat \<Rightarrow> u64" where
  "table_index remote shift = drop_bit shift remote AND 0x1FF"

text \<open>The physical address and the size of the page, from the top table down.\<close>

definition walk_tables :: "kernel_view \<Rightarrow> u64 \<Rightarrow> u64 \<Rightarrow> u64 \<Rightarrow> (u64 \<times> u64) option" where
  "walk_tables k dmap pml4_virtual remote =
     (case read_page_entry k (pml4_virtual + table_index remote 39 * 8) of
        None \<Rightarrow> None
      | Some pml4e \<Rightarrow>
          (case read_page_entry k (dmap + (pml4e AND kMask4K) + table_index remote 30 * 8) of
             None \<Rightarrow> None
           | Some pdpte \<Rightarrow>
               if large_page pdpte then Some ((pdpte AND kMask1G) OR (remote AND (kPage1G - 1)), kPage1G)
               else (case read_page_entry k (dmap + (pdpte AND kMask4K) + table_index remote 21 * 8) of
                       None \<Rightarrow> None
                     | Some pde \<Rightarrow>
                         if large_page pde then Some ((pde AND kMask2M) OR (remote AND (kPage2M - 1)), kPage2M)
                         else (case read_page_entry k (dmap + (pde AND kMask4K) + table_index remote 12 * 8) of
                                 None \<Rightarrow> None
                               | Some pte \<Rightarrow> Some ((pte AND kMask4K) OR (remote AND (kPage4K - 1)), kPage4K)))))"

definition nonzero :: "u64 option \<Rightarrow> u64 option" where
  "nonzero x = (case x of Some v \<Rightarrow> if v = 0 then None else Some v | None \<Rightarrow> None)"

text \<open>The tables of a process: the virtual and the physical address of the top one.\<close>

definition page_root :: "kernel_view \<Rightarrow> int \<Rightarrow> (u64 \<times> u64) option" where
  "page_root k pid =
     (case find_proc k pid of
        None \<Rightarrow> None
      | Some process \<Rightarrow>
          (case nonzero (read_kernel_u64 k (process + kProcVmspace)) of
             None \<Rightarrow> None
           | Some vmspace \<Rightarrow>
               (case nonzero (read_kernel_u64 k (vmspace + kVmspacePmap)) of
                  None \<Rightarrow> None
                | Some pmap \<Rightarrow>
                    (case nonzero (read_kernel_u64 k (pmap + kPmapPml4Virtual)) of
                       None \<Rightarrow> None
                     | Some pml4_virtual \<Rightarrow>
                         (case nonzero (read_kernel_u64 k (pmap + kPmapPml4Physical)) of
                            None \<Rightarrow> None
                          | Some pml4_physical \<Rightarrow> Some (pml4_virtual, pml4_physical))))))"

definition translate :: "kernel_view \<Rightarrow> int \<Rightarrow> u64 \<Rightarrow> u64 \<Rightarrow> (u64 \<times> u64) option \<times> u64" where
  "translate k pid remote g_dmap =
     (case page_root k pid of
        None \<Rightarrow> (None, g_dmap)
      | Some (pml4_virtual, pml4_physical) \<Rightarrow>
          let dmap = choose_dmap g_dmap pml4_virtual pml4_physical
          in (walk_tables k dmap pml4_virtual remote, dmap))"

section \<open>Reading a range\<close>

text \<open>
  One page at a time.  A page of size zero cannot come out of \<open>translate\<close>; the code tests
  for it and so does the model, which makes the recursion end.
\<close>

definition page_chunk :: "u64 \<Rightarrow> u64 \<Rightarrow> nat \<Rightarrow> nat" where
  "page_chunk remote page_size remaining = min remaining (unat (page_size - (remote AND (page_size - 1))))"

function read_pages :: "kernel_view \<Rightarrow> int \<Rightarrow> u64 \<Rightarrow> nat \<Rightarrow> u64 \<Rightarrow> bytes option \<times> u64" where
  "read_pages k pid remote remaining g_dmap =
     (if remaining = 0 then (Some [], g_dmap)
      else case translate k pid remote g_dmap of
             (None, g) \<Rightarrow> (None, g)
           | (Some (physical, page_size), g) \<Rightarrow>
               let chunk = page_chunk remote page_size remaining
               in if physical = 0 \<or> page_size = 0 \<or> chunk = 0 then (None, g)
                  else case kn_copyout k (dmap_base g + physical) chunk of
                         None \<Rightarrow> (None, g)
                       | Some bs \<Rightarrow>
                           (case read_pages k pid (remote + of_nat chunk) (remaining - chunk) g of
                              (None, g') \<Rightarrow> (None, g') | (Some rest, g') \<Rightarrow> (Some (bs @ rest), g')))"
  by auto
termination
  by (relation "measure (\<lambda>(k, pid, remote, remaining, g). remaining)") (auto simp: page_chunk_def)

declare read_pages.simps [simp del]

definition proc_read :: "kernel_view \<Rightarrow> int \<Rightarrow> u64 \<Rightarrow> nat \<Rightarrow> u64 \<Rightarrow> bytes option \<times> u64" where
  "proc_read k pid remote n g_dmap =
     (if n = 0 then (Some [], g_dmap)
      else if pid \<le> 0 \<or> remote = 0 then (None, g_dmap)
      else read_pages k pid remote n g_dmap)"

section \<open>Inside a page\<close>

lemma and_mask_eq: "(w :: u64) AND (push_bit s 1 - 1) = take_bit s w"
  by (simp add: take_bit_eq_mask mask_eq_exp_minus_1 push_bit_of_1)

lemma page_sizes:
  "kPage4K = push_bit 12 1" "kPage2M = push_bit 21 1" "kPage1G = push_bit 30 1"
  by (simp_all add: kPage4K_def kPage2M_def kPage1G_def)

lemma page_offsets:
  "w AND (kPage4K - 1) = take_bit 12 w" "w AND (kPage2M - 1) = take_bit 21 w" "w AND (kPage1G - 1) = take_bit 30 w"
  by (simp_all only: page_sizes and_mask_eq)

lemma offset_advance:
  assumes "unat (take_bit s remote :: u64) + j < 2 ^ s" "s < 64"
  shows "unat (remote + of_nat j) = unat remote + j"
proof -
  let ?r = "unat remote"
  have t: "unat (take_bit s remote) = ?r mod 2 ^ s"
    by (simp only: unsigned_take_bit_eq take_bit_eq_mod [where 'a = nat])
  have r64: "?r < 2 ^ 64" using unsigned_less [of remote, where 'a = nat] by simp
  have p: "(2 :: nat) ^ 64 = 2 ^ (64 - s) * 2 ^ s" using assms(2) by (simp flip: power_add)
  have "?r div 2 ^ s < 2 ^ (64 - s)" using r64 p by (simp add: div_less_iff_less_mult)
  then have "(?r div 2 ^ s + 1) * 2 ^ s \<le> 2 ^ (64 - s) * 2 ^ s" by (intro mult_le_mono1) simp
  with p have "?r div 2 ^ s * 2 ^ s + 2 ^ s \<le> 2 ^ 64" by simp
  moreover have "?r = ?r div 2 ^ s * 2 ^ s + ?r mod 2 ^ s" by (rule div_mult_mod_eq [symmetric])
  ultimately have "?r + j < 2 ^ 64" using assms(1) t by linarith
  then show ?thesis by (simp add: unat_word_ariths unat_of_nat)
qed

lemma page_local:
  assumes "unat (take_bit s remote :: u64) + j < 2 ^ s" "s < 64"
  shows "take_bit s (remote + of_nat j) = take_bit s remote + of_nat j"
    and "s \<le> t \<Longrightarrow> drop_bit t (remote + of_nat j) = drop_bit t remote"
proof -
  let ?r = "unat remote"
  have t: "unat (take_bit s w) = unat w mod 2 ^ s" for w :: u64
    by (simp only: unsigned_take_bit_eq take_bit_eq_mod [where 'a = nat])
  have d: "unat (drop_bit n w) = unat w div 2 ^ n" for w :: u64 and n
    by (simp only: unsigned_drop_bit_eq drop_bit_eq_div [where 'a = nat] take_bit_nat_eq_self unsigned_less)
  note adv = offset_advance [OF assms]
  have lt: "?r mod 2 ^ s + j < 2 ^ s" using assms(1) by (simp add: t)
  have split: "?r + j = ?r div 2 ^ s * 2 ^ s + (?r mod 2 ^ s + j)"
    by (simp only: add.assoc [symmetric] div_mult_mod_eq)
  have m: "(?r + j) mod 2 ^ s = ?r mod 2 ^ s + j" using lt by (subst split) simp
  have q: "(?r + j) div 2 ^ s = ?r div 2 ^ s" using lt by (subst split) simp
  have "unat (take_bit s remote + of_nat j) = ?r mod 2 ^ s + j"
  proof -
    have "(2 :: nat) ^ s < 2 ^ 64" using assms(2) by (intro power_strict_increasing) auto
    with lt have "?r mod 2 ^ s + j < 2 ^ 64" by linarith
    then show ?thesis by (simp add: unat_word_ariths unat_of_nat t)
  qed
  then show "take_bit s (remote + of_nat j) = take_bit s remote + of_nat j"
    by (intro word_unat_eq_iff [THEN iffD2]) (simp add: t adv m)
  show "drop_bit t (remote + of_nat j) = drop_bit t remote" if "s \<le> t"
  proof -
    have "(?r + j) div 2 ^ t = (?r + j) div 2 ^ s div 2 ^ (t - s)"
      using that by (simp flip: div_mult2_eq power_add)
    also have "\<dots> = ?r div 2 ^ t" using that by (simp only: q) (simp flip: div_mult2_eq power_add)
    finally show ?thesis by (intro word_unat_eq_iff [THEN iffD2]) (simp add: d adv)
  qed
qed

lemma or_page_offset:
  assumes "take_bit s (base :: u64) = 0" "unat (take_bit s remote :: u64) + j < 2 ^ s" "s < 64"
  shows "base OR take_bit s (remote + of_nat j) = (base OR take_bit s remote) + of_nat j"
proof -
  have add: "base OR take_bit s w = base + take_bit s w" for w
  proof (rule disjunctive_add [symmetric])
    fix n
    have "\<not> bit (take_bit s base) n" using assms(1) by simp
    then show "\<not> bit base n \<or> \<not> bit (take_bit s w) n" by (auto simp: bit_take_bit_iff)
  qed
  show ?thesis by (simp only: add) (simp only: page_local(1) [OF assms(2,3)] add.assoc)
qed

lemma frame_aligned:
  "take_bit 12 (e AND kMask4K) = 0" "take_bit 21 (e AND kMask2M) = 0" "take_bit 30 (e AND kMask1G) = 0"
  by (simp_all add: take_bit_and kMask4K_def kMask2M_def kMask1G_def)

text \<open>Inside a page the walk of the tables is the walk of the page's first address, moved.\<close>

lemma page_result:
  assumes "s \<in> {12, 21, 30}" "page_size = push_bit s (1 :: u64)"
    and "\<And>j. unat (take_bit s remote) + j < 2 ^ s \<Longrightarrow> f (remote + of_nat j) = Some (physical + of_nat j :: u64, page_size)"
  shows "\<exists>s\<in>{12, 21, 30}. page_size = push_bit s 1 \<and> remote AND (page_size - 1) = take_bit s remote \<and>
      (\<forall>j. unat (take_bit s remote) + j < 2 ^ s \<longrightarrow> f (remote + of_nat j) = Some (physical + of_nat j, page_size))"
  using assms(1,3) unfolding assms(2) and_mask_eq by blast

lemma walk_tables_page:
  assumes "walk_tables k dmap root remote = Some (physical, page_size)"
  shows "\<exists>s\<in>{12, 21, 30}. page_size = push_bit s 1 \<and> remote AND (page_size - 1) = take_bit s remote \<and>
      (\<forall>j. unat (take_bit s remote) + j < 2 ^ s \<longrightarrow>
         walk_tables k dmap root (remote + of_nat j) = Some (physical + of_nat j, page_size))"
proof -
  have idx: "table_index (remote + of_nat j) t = table_index remote t"
    if "unat (take_bit s remote) + j < 2 ^ s" "s < 64" "s \<le> t" for s j t
    using page_local(2) [OF that] by (simp add: table_index_def)
  note steps = walk_tables_def page_offsets
  from assms obtain e1 e2 where e1: "read_page_entry k (root + table_index remote 39 * 8) = Some e1"
    and e2: "read_page_entry k (dmap + (e1 AND kMask4K) + table_index remote 30 * 8) = Some e2"
    by (auto simp: steps split: option.splits)
  show ?thesis
  proof (cases "large_page e2")
    case True
    have "walk_tables k dmap root (remote + of_nat j) = Some (physical + of_nat j, page_size)"
      if "unat (take_bit 30 remote) + j < 2 ^ 30" for j
      using assms e1 e2 True or_page_offset [OF frame_aligned(3) that] by (simp add: steps idx [OF that])
    moreover have "page_size = push_bit 30 1" using assms e1 e2 True by (simp only: walk_tables_def option.case if_True if_False) (simp add: page_sizes)
      ultimately show ?thesis by (intro page_result [of 30]) simp_all
  next
    case False
    then obtain e3 where e3: "read_page_entry k (dmap + (e2 AND kMask4K) + table_index remote 21 * 8) = Some e3"
      using assms e1 e2 by (auto simp: steps split: option.splits)
    show ?thesis
    proof (cases "large_page e3")
      case True
      have "walk_tables k dmap root (remote + of_nat j) = Some (physical + of_nat j, page_size)"
        if "unat (take_bit 21 remote) + j < 2 ^ 21" for j
        using assms e1 e2 e3 False True or_page_offset [OF frame_aligned(2) that] by (simp add: steps idx [OF that])
      moreover have "page_size = push_bit 21 1" using assms e1 e2 e3 False True by (simp only: walk_tables_def option.case if_True if_False) (simp add: page_sizes)
      ultimately show ?thesis by (intro page_result [of 21]) simp_all
    next
      case small: False
      then obtain e4 where e4: "read_page_entry k (dmap + (e3 AND kMask4K) + table_index remote 12 * 8) = Some e4"
        using assms e1 e2 e3 False by (auto simp: steps split: option.splits)
      have "walk_tables k dmap root (remote + of_nat j) = Some (physical + of_nat j, page_size)"
        if "unat (take_bit 12 remote) + j < 2 ^ 12" for j
        using assms e1 e2 e3 e4 False small or_page_offset [OF frame_aligned(1) that] by (simp add: steps idx [OF that])
      moreover have "page_size = push_bit 12 1" using assms e1 e2 e3 e4 False small by (simp only: walk_tables_def option.case if_True if_False) (simp add: page_sizes)
      ultimately show ?thesis by (intro page_result [of 12]) simp_all
    qed
  qed
qed

section \<open>A read is the bytes of the pages\<close>

text \<open>
  What a faithful snapshot answers: the bytes of kernel memory.  \<open>mapped_byte\<close> is the
  specification of one byte of a process: the byte the tables map its address to.
\<close>

definition faithful_snapshot :: "kernel_view \<Rightarrow> (u64 \<Rightarrow> u8) \<Rightarrow> bool" where
  "faithful_snapshot k m \<longleftrightarrow> (\<forall>a n bs. kn_copyout k a n = Some bs \<longrightarrow> bs = read_mem m a n)"

definition mapped_byte :: "kernel_view \<Rightarrow> (u64 \<Rightarrow> u8) \<Rightarrow> u64 \<Rightarrow> u64 \<Rightarrow> u64 \<Rightarrow> u8 option" where
  "mapped_byte k m dmap root address =
     map_option (\<lambda>(physical, page_size). m (dmap + physical)) (walk_tables k dmap root address)"

lemma choose_dmap_nonzero: "choose_dmap g v p \<noteq> 0" "dmap_base (choose_dmap g v p) = choose_dmap g v p"
proof -
  show "choose_dmap g v p \<noteq> 0" by (auto simp: choose_dmap_def kFixedDmapBase_def Let_def)
  then show "dmap_base (choose_dmap g v p) = choose_dmap g v p" by (simp add: dmap_base_def)
qed

lemma choose_dmap_stable: "g \<noteq> 0 \<Longrightarrow> choose_dmap g v p = g"
  by (simp add: choose_dmap_def)

lemma page_chunk_inside:
  assumes "remote AND (page_size - 1) = take_bit s remote" "page_size = push_bit s (1 :: u64)" "s \<in> {12, 21, 30}"
  shows "i < page_chunk remote page_size n \<Longrightarrow> unat (take_bit s remote) + i < 2 ^ s"
proof -
  have t: "unat (take_bit s remote) = unat remote mod 2 ^ s"
    by (simp only: unsigned_take_bit_eq take_bit_eq_mod [where 'a = nat])
  have p: "unat page_size = 2 ^ s" using assms(2,3) by auto
  have "unat (page_size - take_bit s remote) = 2 ^ s - unat (take_bit s remote)"
    by (subst unat_sub) (simp_all add: word_le_nat_alt p t order_less_imp_le)
  then show "i < page_chunk remote page_size n \<Longrightarrow> unat (take_bit s remote) + i < 2 ^ s"
    by (auto simp: page_chunk_def assms(1))
qed

lemma read_pages_bytes:
  assumes "read_pages k pid remote n g = (Some bs, g')" "faithful_snapshot k m" "page_root k pid = Some (root, phys_root)"
  shows "length bs = n \<and> (0 < n \<longrightarrow> g' = choose_dmap g root phys_root) \<and>
    (\<forall>i<n. mapped_byte k m (choose_dmap g root phys_root) root (remote + of_nat i) = Some (bs ! i))"
  using assms
proof (induction k pid remote n g arbitrary: bs g' rule: read_pages.induct)
  case (1 k pid remote n g)
  let ?d = "choose_dmap g root phys_root"
  show ?case
  proof (cases "n = 0")
    case False
    have tr: "translate k pid remote g = (walk_tables k ?d root remote, ?d)"
      using "1.prems"(3) by (simp add: translate_def Let_def)
    obtain physical page_size where w: "walk_tables k ?d root remote = Some (physical, page_size)"
      using "1.prems"(1) False by (subst (asm) read_pages.simps) (auto simp: tr split: option.splits)
    let ?c = "page_chunk remote page_size n"
    have ok: "\<not> (physical = 0 \<or> page_size = 0 \<or> ?c = 0)"
      using "1.prems"(1) False by (subst (asm) read_pages.simps) (auto simp: tr w Let_def split: if_splits)
    obtain hd_bytes where h: "kn_copyout k (?d + physical) ?c = Some hd_bytes"
      using "1.prems"(1) False ok
      by (subst (asm) read_pages.simps) (auto simp: tr w choose_dmap_nonzero Let_def split: option.splits)
    obtain rest where r: "read_pages k pid (remote + of_nat ?c) (n - ?c) ?d = (Some rest, g')" and bs: "bs = hd_bytes @ rest"
      using "1.prems"(1) False ok h
      by (subst (asm) read_pages.simps) (auto simp: tr w choose_dmap_nonzero Let_def split: option.splits prod.splits)
    have IH: "length rest = n - ?c \<and> (0 < n - ?c \<longrightarrow> g' = choose_dmap ?d root phys_root) \<and>
        (\<forall>i<n - ?c. mapped_byte k m (choose_dmap ?d root phys_root) root (remote + of_nat ?c + of_nat i) = Some (rest ! i))"
      by (rule "1.IH" [OF _ tr [unfolded w, symmetric] refl refl refl _ _ r "1.prems"(2,3)])
        (use False ok h in \<open>simp_all add: choose_dmap_nonzero\<close>)
    have d: "choose_dmap ?d root phys_root = ?d" by (rule choose_dmap_stable [OF choose_dmap_nonzero(1)])
    have hd_bytes: "hd_bytes = read_mem m (?d + physical) ?c" using h "1.prems"(2) by (simp add: faithful_snapshot_def)
    have c: "?c \<le> n" by (simp add: page_chunk_def)
    obtain s where s: "s \<in> {12, 21, 30}" "page_size = push_bit s 1" "remote AND (page_size - 1) = take_bit s remote"
      and page: "\<And>j. unat (take_bit s remote) + j < 2 ^ s \<Longrightarrow> walk_tables k ?d root (remote + of_nat j) = Some (physical + of_nat j, page_size)"
      using walk_tables_page [OF w] by blast
    have first: "mapped_byte k m ?d root (remote + of_nat i) = Some (hd_bytes ! i)" if "i < ?c" for i
      using page [OF page_chunk_inside [OF s(3,2,1) that]] that
      by (simp add: mapped_byte_def hd_bytes read_mem_def add.assoc)
    have last: "mapped_byte k m ?d root (remote + of_nat i) = Some (rest ! (i - ?c))" if "\<not> i < ?c" "i < n" for i
    proof -
      have eq: "remote + of_nat i = remote + of_nat ?c + of_nat (i - ?c)"
        using that by (simp flip: of_nat_add add: add.assoc)
      have "i - ?c < n - ?c" using that by simp
      with IH d show ?thesis by (simp only: eq)
    qed
    have "length hd_bytes = ?c" by (simp add: hd_bytes read_mem_def)
    moreover have "g' = ?d"
    proof (cases "n - ?c = 0")
      case True
      with r show ?thesis by (simp add: read_pages.simps)
    qed (use IH d in simp)
    ultimately show ?thesis using IH first last c by (auto simp: bs nth_append)
  qed (use "1.prems" in \<open>simp add: read_pages.simps\<close>)
qed

lemma proc_read_bytes:
  assumes "proc_read k pid remote n g = (Some bs, g')" "0 < n" "faithful_snapshot k m"
  shows "length bs = n \<and> 0 < pid \<and> (\<exists>root phys_root. page_root k pid = Some (root, phys_root) \<and>
    g' = choose_dmap g root phys_root \<and>
    (\<forall>i<n. mapped_byte k m g' root (remote + of_nat i) = Some (bs ! i)))"
proof -
  have pid: "0 < pid" and read: "read_pages k pid remote n g = (Some bs, g')"
    using assms(1,2) by (auto simp: proc_read_def split: if_splits)
  obtain root phys_root where root: "page_root k pid = Some (root, phys_root)"
    using read assms(2) by (subst (asm) read_pages.simps) (auto simp: translate_def split: option.splits)
  show ?thesis using read_pages_bytes [OF read assms(3) root] pid root assms(2) by auto
qed

text \<open>
  (C14) A successful read of the process is byte for byte the mapped memory
  and it decides the base of the direct map once.
\<close>

theorem proc_read_is_mapped_memory:
  assumes "proc_read k pid remote n g = (Some bs, g')" "0 < n" "faithful_snapshot k m"
  shows "length bs = n \<and> 0 < pid \<and> (\<exists>root phys_root. page_root k pid = Some (root, phys_root) \<and>
    g' = choose_dmap g root phys_root \<and>
    (\<forall>i<n. mapped_byte k m g' root (remote + of_nat i) = Some (bs ! i)))"
  by (rule proc_read_bytes [OF assms])

text \<open>
  A small kernel: one process, number 7, whose first gigabyte is mapped with one large page.
\<close>

definition demo_memory :: "u64 \<Rightarrow> u8" where
  "demo_memory a =
     (case map_of [(0x02756D52, 0x10), (0x1000BC, 7), (0x100202, 0x20), (0x2001DA, 0x30), (0x300022, 0x40), (0x300028, 1),
        (0x400000, 1), (0x400002, 0x50), (0xFFFF873B00500000, 0x81), (0xFFFF873B00500003, 0x40),
        (0xFFFF873B40000008, 0xAA), (0xFFFF873B40000009, 0xBB)] a of
        None \<Rightarrow> 0 | Some b \<Rightarrow> b)"

definition demo_kernel :: kernel_view where
  "demo_kernel = \<lparr>kn_copyout = \<lambda>a n. Some (read_mem demo_memory a n), kn_data_base = 0x1000, kn_sdk = 0x09600000\<rparr>"

lemma demo_words:
  "read_kernel_u64 demo_kernel 0x02756D50 = Some 0x100000"
  "read_kernel_u32 demo_kernel 0x1000BC = Some 7"
  "read_kernel_u64 demo_kernel 0x100200 = Some 0x200000"
  "read_kernel_u64 demo_kernel 0x2001D8 = Some 0x300000"
  "read_kernel_u64 demo_kernel 0x300020 = Some 0x400000"
  "read_kernel_u64 demo_kernel 0x300028 = Some 1"
  "read_kernel_u64 demo_kernel 0x400000 = Some 0x500001"
  "read_kernel_u64 demo_kernel 0xFFFF873B00500000 = Some 0x40000081"
  by (simp_all add: read_kernel_u64_def read_kernel_u32_def read_kernel_def demo_kernel_def read_mem_def demo_memory_def get_u64_def get_u32_def sub_bytes_def upt_rec)

lemma demo_root: "page_root demo_kernel 7 = Some (0x400000, 1)"
proof -
  have [simp]: "kn_data_base demo_kernel = 0x1000" "firmware_is_960 demo_kernel"
    by (simp_all add: demo_kernel_def firmware_is_960_def kFw960_def)
  have "walk_procs demo_kernel 7 (Suc i) 0x100000 = Some 0x100000" for i by (simp add: kProcPid_def demo_words)
  from this [of 1023] have "walk_procs demo_kernel 7 1024 0x100000 = Some 0x100000" by simp
  then have "find_proc demo_kernel 7 = Some 0x100000"
    by (simp add: find_proc_def kAllprocFromKdata_def kMaxProcWalk_def demo_words)
  then show ?thesis
    by (simp add: page_root_def kProcVmspace_def kVmspacePmap_def kPmapPml4Virtual_def kPmapPml4Physical_def demo_words nonzero_def)
qed

lemma demo_read: "proc_read demo_kernel 7 8 2 0 = (Some [0xAA, 0xBB], kFixedDmapBase)"
proof -
  have d: "choose_dmap 0 0x400000 1 = kFixedDmapBase" by (simp add: choose_dmap_def Let_def)
  have w: "walk_tables demo_kernel kFixedDmapBase 0x400000 8 = Some (0x40000008, kPage1G)"
    by (simp add: walk_tables_def table_index_def read_page_entry_def demo_words kFixedDmapBase_def kMask4K_def large_page_def kMask1G_def kPage1G_def)
  have c: "page_chunk 8 kPage1G 2 = 2" by (simp add: page_chunk_def kPage1G_def)
  have b: "kn_copyout demo_kernel (kFixedDmapBase + 0x40000008) 2 = Some [0xAA, 0xBB]" by (simp add: demo_kernel_def read_mem_def demo_memory_def kFixedDmapBase_def upt_rec)
  show ?thesis
    by (simp add: proc_read_def read_pages.simps translate_def demo_root d w c b dmap_base_def)
      (simp add: kFixedDmapBase_def kPage1G_def)
qed

theorem proc_read_is_mapped_memory_witness:
  "\<exists>root phys_root. page_root demo_kernel 7 = Some (root, phys_root) \<and>
     mapped_byte demo_kernel demo_memory kFixedDmapBase root 9 = Some 0xBB"
proof -
  have "faithful_snapshot demo_kernel demo_memory" by (simp add: faithful_snapshot_def demo_kernel_def)
  from proc_read_is_mapped_memory [OF demo_read _ this]
  obtain root phys_root where "page_root demo_kernel 7 = Some (root, phys_root)"
    "\<forall>i<2. mapped_byte demo_kernel demo_memory kFixedDmapBase root (8 + of_nat i) = Some ([0xAA, 0xBB] ! i)" by auto
  then show ?thesis by (intro exI [of _ root] exI [of _ phys_root]) (auto dest: spec [of _ 1])
qed
end
