(* ===== verification/Ps5_Platform.thy ===== *)
theory Ps5_Platform
  imports Fps_Sampler Process_List Page_Walk
begin

text \<open>
  The platform of the console: \<^verbatim>\<open>src/ps5/ps5_platform.cpp\<close> and the module search of
  \<^verbatim>\<open>src/ps5/stable_sampler/videoout_module.cpp\<close>.  It is an instance of the
  \<open>platform\<close> record over its own state and the environment of its system calls, which are
  parameters.  Log lines are left out; the fields that only steer them are kept.
\<close>

section \<open>System calls\<close>

text \<open>
  \<open>pp_dl_list\<close> has the capacity of the handle array and answers the return code, the count
  and the array after the call; \<open>pp_dl_info\<close> answers the file name and the address of the
  first section; \<open>pp_kernel\<close> is the snapshot of kernel memory for direct map reads;
  \<open>pp_time\<close> is the return code, the seconds and the nanoseconds of the clock.
\<close>

record 'e ps5_api =
  pp_processes :: "'e process_api"
  pp_self_ucred :: "'e \<Rightarrow> u64 \<times> 'e"
  pp_copyout :: "u64 \<Rightarrow> 'e \<Rightarrow> u64 option \<times> 'e"
  pp_copyin :: "u64 \<Rightarrow> u64 \<Rightarrow> 'e \<Rightarrow> int \<times> 'e"
  pp_dl_list :: "int \<Rightarrow> nat \<Rightarrow> 'e \<Rightarrow> (int \<times> nat \<times> u64 list) \<times> 'e"
  pp_dl_info :: "int \<Rightarrow> u64 \<Rightarrow> 'e \<Rightarrow> (int \<times> bytes \<times> u64) \<times> 'e"
  pp_calloc :: "nat \<Rightarrow> 'e \<Rightarrow> bool \<times> 'e"
  pp_mdbg :: "int \<Rightarrow> u64 \<Rightarrow> nat \<Rightarrow> 'e \<Rightarrow> (int \<times> bytes) \<times> 'e"
  pp_kernel :: "'e \<Rightarrow> kernel_view"
  pp_fw_version :: "'e \<Rightarrow> u32 \<times> 'e"
  pp_sdk_sysctl :: "'e \<Rightarrow> (int \<times> u32 \<times> nat) \<times> 'e"
  pp_time :: "'e \<Rightarrow> (int \<times> u64 \<times> u64) \<times> 'e"
  pp_usleep :: "u32 \<Rightarrow> 'e \<Rightarrow> 'e"

section \<open>The module search\<close>

definition kVideoOutModule :: string where "kVideoOutModule = ''libSceVideoOut.sprx''"
definition kDebuggerAuthId :: u64 where "kDebuggerAuthId = 0x4800000000000006"
definition kAuthIdOffset :: u64 where "kAuthIdOffset = 0x58"
definition kExpectedSizeQueryRc :: int where "kExpectedSizeQueryRc = 12"
definition kModuleNameLength :: nat where "kModuleNameLength = 128"

record videoout_module =
  vm_base :: u64
  vm_auth_read :: bool
  vm_auth_changed :: bool
  vm_restore_attempted :: bool
  vm_auth_restored :: bool
  vm_size_rc :: int
  vm_fill_rc :: int
  vm_last_info_rc :: int
  vm_requested :: nat
  vm_returned :: nat
  vm_info_successes :: u32

definition vm_init :: videoout_module where
  "vm_init = \<lparr>vm_base = 0, vm_auth_read = False, vm_auth_changed = False, vm_restore_attempted = False,
     vm_auth_restored = False, vm_size_rc = -1, vm_fill_rc = -1, vm_last_info_rc = -1, vm_requested = 0,
     vm_returned = 0, vm_info_successes = 0\<rparr>"

text \<open>The name up to its terminator, which is forced into the last byte of the field.\<close>

definition info_name :: "bytes \<Rightarrow> bytes" where
  "info_name filename = takeWhile (\<lambda>b. b \<noteq> 0) (take (kModuleNameLength - 1) filename)"

fun scan_modules :: "'e ps5_api \<Rightarrow> int \<Rightarrow> u64 list \<Rightarrow> videoout_module \<Rightarrow> 'e \<Rightarrow> videoout_module \<times> 'e" where
  "scan_modules api pid [] res e = (res, e)"
| "scan_modules api pid (h # hs) res e =
     (case pp_dl_info api pid h e of
        ((rc, filename, vaddr), e1) \<Rightarrow>
          let res1 = res\<lparr>vm_last_info_rc := rc\<rparr>
          in if rc \<noteq> 0 then scan_modules api pid hs res1 e1
             else
               let res2 = res1\<lparr>vm_info_successes := vm_info_successes res1 + 1\<rparr>
               in if info_name filename = map (\<lambda>c. of_nat (of_char c)) kVideoOutModule \<and> vaddr \<noteq> 0
                  then (res2\<lparr>vm_base := vaddr\<rparr>, e1)
                  else scan_modules api pid hs res2 e1)"

text \<open>The part of the search inside the window of raised credentials.\<close>

definition list_modules :: "'e ps5_api \<Rightarrow> int \<Rightarrow> videoout_module \<Rightarrow> 'e \<Rightarrow> videoout_module \<times> 'e" where
  "list_modules api pid res e =
     (case pp_dl_list api pid 0 e of
        ((rc, requested, _), e1) \<Rightarrow>
          let res1 = res\<lparr>vm_size_rc := rc, vm_requested := requested\<rparr>
          in if (rc = 0 \<or> rc = kExpectedSizeQueryRc) \<and> 0 < requested \<and> requested < 1024 then
               case pp_calloc api requested e1 of
                 (False, e2) \<Rightarrow> (res1, e2)
               | (True, e2) \<Rightarrow>
                   (case pp_dl_list api pid requested e2 of
                      ((rc2, returned, handles), e3) \<Rightarrow>
                        let res2 = res1\<lparr>vm_fill_rc := rc2, vm_returned := returned\<rparr>
                        in if rc2 = 0 \<and> returned \<le> requested
                           then scan_modules api pid (take returned handles) res2 e3
                           else (res2, e3))
             else (res1, e1))"

definition find_videoout_module :: "'e ps5_api \<Rightarrow> int \<Rightarrow> 'e \<Rightarrow> videoout_module \<times> 'e" where
  "find_videoout_module api pid e =
     (if pid \<le> 0 then (vm_init, e)
      else case pp_self_ucred api e of
             (self_ucred, e1) \<Rightarrow>
               if self_ucred = 0 then (vm_init, e1)
               else case pp_copyout api (self_ucred + kAuthIdOffset) e1 of
                      (None, e2) \<Rightarrow> (vm_init, e2)
                    | (Some saved_auth, e2) \<Rightarrow>
                        let res = vm_init\<lparr>vm_auth_read := True\<rparr>
                        in case pp_copyin api kDebuggerAuthId (self_ucred + kAuthIdOffset) e2 of
                             (rc, e3) \<Rightarrow>
                               if rc \<noteq> 0 then (res, e3)
                               else case list_modules api pid (res\<lparr>vm_auth_changed := True\<rparr>) e3 of
                                      (res1, e4) \<Rightarrow>
                                        (case pp_copyin api saved_auth (self_ucred + kAuthIdOffset) e4 of
                                           (rc2, e5) \<Rightarrow>
                                             (res1\<lparr>vm_restore_attempted := True, vm_auth_restored := (rc2 = 0),
                                                   vm_base := (if rc2 = 0 then vm_base res1 else 0)\<rparr>, e5)))"

section \<open>The platform\<close>

record ps5_state =
  p5_observed_pid :: int
  p5_attempt_pid :: int
  p5_videoout_base :: u64
  p5_empty_lookups :: u32
  p5_attempts :: u32
  p5_read_failures :: u32
  p5_table_logged :: bool
  p5_root_logged :: bool
  p5_counter_logged :: bool
  p5_backend_logged :: bool
  p5_dmap :: u64

definition ps5_init :: ps5_state where
  "ps5_init = \<lparr>p5_observed_pid = -1, p5_attempt_pid = -1, p5_videoout_base = 0, p5_empty_lookups = 0,
     p5_attempts = 0, p5_read_failures = 0, p5_table_logged = False, p5_root_logged = False,
     p5_counter_logged = False, p5_backend_logged = False, p5_dmap = 0\<rparr>"

definition ps5_unlogged :: "ps5_state \<Rightarrow> ps5_state" where
  "ps5_unlogged s = s\<lparr>p5_table_logged := False, p5_root_logged := False, p5_counter_logged := False,
     p5_backend_logged := False\<rparr>"

definition ps5_find_game_process :: "'e ps5_api \<Rightarrow> ps5_state \<times> 'e \<Rightarrow> int option \<times> (ps5_state \<times> 'e)" where
  "ps5_find_game_process api st =
     (case st of (s, e) \<Rightarrow>
      case find_game_process_sysctl (pp_processes api) e of
        (lookup, e1) \<Rightarrow>
          if 0 < lk_pid lookup then
            let s1 = s\<lparr>p5_empty_lookups := 0\<rparr>
            in (Some (lk_pid lookup),
                if p5_observed_pid s1 \<noteq> lk_pid lookup
                then ps5_unlogged (s1\<lparr>p5_observed_pid := lk_pid lookup, p5_attempt_pid := -1, p5_attempts := 0,
                       p5_videoout_base := 0, p5_read_failures := 0\<rparr>)
                else s1, e1)
          else (None, s\<lparr>p5_empty_lookups := p5_empty_lookups s + 1, p5_observed_pid := -1\<rparr>, e1))"

definition ps5_process_alive :: "'e ps5_api \<Rightarrow> int \<Rightarrow> ps5_state \<times> 'e \<Rightarrow> bool \<times> (ps5_state \<times> 'e)" where
  "ps5_process_alive api pid st =
     (case st of (s, e) \<Rightarrow>
      case find_game_process_sysctl (pp_processes api) e of
        (lookup, e1) \<Rightarrow>
          if lk_pid lookup = pid then (True, s, e1)
          else (False, ps5_unlogged (s\<lparr>p5_observed_pid := lk_pid lookup, p5_attempt_pid := -1, p5_videoout_base := 0\<rparr>), e1))"

definition ps5_find_module ::
  "'e ps5_api \<Rightarrow> int \<Rightarrow> string \<Rightarrow> ps5_state \<times> 'e \<Rightarrow> module_info option \<times> (ps5_state \<times> 'e)" where
  "ps5_find_module api pid name st =
     (case st of (s, e) \<Rightarrow>
        if name \<noteq> kVideoOutModule then (None, s, e)
        else
          let s1 = (if p5_attempt_pid s \<noteq> pid then s\<lparr>p5_attempt_pid := pid, p5_attempts := 0\<rparr> else s);
              s2 = s1\<lparr>p5_attempts := p5_attempts s1 + 1\<rparr>
          in case find_videoout_module api pid e of
               (res, e1) \<Rightarrow>
                 if \<not> (vm_base res \<noteq> 0 \<and> vm_auth_restored res) then (None, s2, e1)
                 else (Some \<lparr>mod_base = vm_base res, mod_name = kVideoOutModule\<rparr>,
                       if p5_videoout_base s2 \<noteq> vm_base res
                       then ps5_unlogged (s2\<lparr>p5_videoout_base := vm_base res, p5_read_failures := 0\<rparr>) else s2, e1))"

text \<open>The firmware: the kernel's own version first, the sysctl when there is none.\<close>

definition ps5_firmware :: "'e ps5_api \<Rightarrow> 'e \<Rightarrow> u32 \<times> 'e" where
  "ps5_firmware api e =
     (case pp_fw_version api e of
        (physical_sdk, e1) \<Rightarrow>
          if physical_sdk \<noteq> 0 then (physical_sdk, e1)
          else case pp_sdk_sysctl api e1 of
                 ((rc, sdk, sdk_len), e2) \<Rightarrow> (if rc \<noteq> 0 \<or> sdk_len \<noteq> 4 then 0 else sdk, e2))"

text \<open>The two readers: the bytes and whether the direct map was used.\<close>

definition ps5_read :: "'e ps5_api \<Rightarrow> int \<Rightarrow> u64 \<Rightarrow> nat \<Rightarrow> u64 \<Rightarrow> 'e \<Rightarrow> (bytes \<times> bool) option \<times> u64 \<times> 'e" where
  "ps5_read api pid address n dmap e =
     (case ps5_firmware api e of
        (sdk, e1) \<Rightarrow>
      case pp_mdbg api pid address n e1 of
        ((rc, bs), e2) \<Rightarrow>
          if rc = 0 then (Some (bs, False), dmap, e2)
          else if sdk AND 0xffff0000 = 0x09600000 then
            case proc_read ((pp_kernel api e2)\<lparr>kn_sdk := sdk\<rparr>) pid address n dmap of
              (None, dmap1) \<Rightarrow> (None, dmap1, e2)
            | (Some bs1, dmap1) \<Rightarrow> (Some (bs1, True), dmap1, e2)
          else (None, dmap, e2))"

definition kProbeTableSize :: nat where "kProbeTableSize = kVideoOutProbeEntryCount * kVideoOutProbeEntrySize"

definition ps5_read_memory ::
  "'e ps5_api \<Rightarrow> int \<Rightarrow> u64 \<Rightarrow> nat \<Rightarrow> ps5_state \<times> 'e \<Rightarrow> bytes option \<times> (ps5_state \<times> 'e)" where
  "ps5_read_memory api pid address n st =
     (case st of (s, e) \<Rightarrow>
        if n = 0 then (None, s, e)
        else case ps5_read api pid address n (p5_dmap s) e of
               (None, dmap, e1) \<Rightarrow> (None, s\<lparr>p5_dmap := dmap, p5_read_failures := p5_read_failures s + 1\<rparr>, e1)
             | (Some (bs, _), dmap, e1) \<Rightarrow>
                 let s1 = s\<lparr>p5_dmap := dmap, p5_read_failures := 0, p5_backend_logged := True\<rparr>
                 in (Some bs,
                     if n = kProbeTableSize \<and> address = p5_videoout_base s1 + kVideoOutProbeTableOffset \<and> \<not> p5_table_logged s1
                     then s1\<lparr>p5_table_logged := True\<rparr>
                     else if n = 8 \<and> \<not> p5_root_logged s1 then s1\<lparr>p5_root_logged := (get_u64 0 bs \<noteq> 0)\<rparr>
                     else if n = 4 \<and> \<not> p5_counter_logged s1 then s1\<lparr>p5_counter_logged := True\<rparr>
                     else s1, e1))"

definition ps5_monotonic_us :: "'e ps5_api \<Rightarrow> 'e \<Rightarrow> u64 \<times> 'e" where
  "ps5_monotonic_us api e =
     (case pp_time api e of
        ((rc, seconds, nanoseconds), e1) \<Rightarrow>
          (if rc \<noteq> 0 then 0 else seconds * 1000000 + nanoseconds div 1000, e1))"

definition ps5_platform :: "'e ps5_api \<Rightarrow> (ps5_state \<times> 'e) platform" where
  "ps5_platform api =
     \<lparr>find_game_process = ps5_find_game_process api, process_alive = ps5_process_alive api,
      find_module = ps5_find_module api, read_memory = ps5_read_memory api,
      firmware_sdk_version = (\<lambda>(s, e). case ps5_firmware api e of (v, e1) \<Rightarrow> (v, s, e1)),
      monotonic_us = (\<lambda>(s, e). case ps5_monotonic_us api e of (t, e1) \<Rightarrow> (t, s, e1)),
      sleep_ms = (\<lambda>ms (s, e). (s, pp_usleep api (of_nat ms * 1000) e))\<rparr>"

section \<open>Credentials\<close>

text \<open>
  What the search relies on: the authority is one word of the credential structure, reads and
  queries leave it alone, and a write changes it exactly when it reports success.
\<close>

definition holds_auth :: "'e ps5_api \<Rightarrow> u64 \<Rightarrow> ('e \<Rightarrow> u64) \<Rightarrow> bool" where
  "holds_auth api ucred auth \<longleftrightarrow>
     (\<forall>e. fst (pp_self_ucred api e) \<in> {0, ucred} \<and> auth (snd (pp_self_ucred api e)) = auth e) \<and>
     (\<forall>e. fst (pp_copyout api (ucred + kAuthIdOffset) e) \<in> {None, Some (auth e)} \<and>
          auth (snd (pp_copyout api (ucred + kAuthIdOffset) e)) = auth e) \<and>
     (\<forall>v e. auth (snd (pp_copyin api v (ucred + kAuthIdOffset) e)) =
          (if fst (pp_copyin api v (ucred + kAuthIdOffset) e) = 0 then v else auth e)) \<and>
     (\<forall>pid n e. auth (snd (pp_dl_list api pid n e)) = auth e) \<and>
     (\<forall>pid h e. auth (snd (pp_dl_info api pid h e)) = auth e) \<and>
     (\<forall>n e. auth (snd (pp_calloc api n e)) = auth e)"

lemma auth_laws:
  assumes "holds_auth api ucred auth"
  shows "pp_self_ucred api e = (u, e') \<Longrightarrow> (u = 0 \<or> u = ucred) \<and> auth e' = auth e"
    and "pp_copyout api (ucred + kAuthIdOffset) e = (r, e') \<Longrightarrow> (r = None \<or> r = Some (auth e)) \<and> auth e' = auth e"
    and "pp_copyin api v (ucred + kAuthIdOffset) e = (rc, e') \<Longrightarrow> auth e' = (if rc = 0 then v else auth e)"
    and "pp_dl_list api pid n e = (l, e') \<Longrightarrow> auth e' = auth e"
    and "pp_dl_info api pid h e = (i, e') \<Longrightarrow> auth e' = auth e"
    and "pp_calloc api n e = (b, e') \<Longrightarrow> auth e' = auth e"
  using assms unfolding holds_auth_def by (metis fst_conv snd_conv insertE singletonD)+

lemma scan_modules_auth:
  assumes "holds_auth api ucred auth"
  shows "scan_modules api pid hs res e = (res', e') \<Longrightarrow> auth e' = auth e"
proof (induction hs arbitrary: res e)
  case (Cons h hs)
  obtain rc f v e1 where i: "pp_dl_info api pid h e = ((rc, f, v), e1)" by (metis prod_cases3 prod.collapse)
  have "auth e1 = auth e" by (rule auth_laws(5) [OF assms i])
  then show ?case using Cons.prems Cons.IH by (auto simp: i Let_def split: if_splits)
qed simp

lemma list_modules_auth:
  assumes h: "holds_auth api ucred auth" and "list_modules api pid res e = (res', e')"
  shows "auth e' = auth e"
proof -
  obtain rc n l e1 where 1: "pp_dl_list api pid 0 e = ((rc, n, l), e1)" by (metis prod_cases3 prod.collapse)
  obtain b e2 where 2: "pp_calloc api n e1 = (b, e2)" by (cases "pp_calloc api n e1")
  obtain rc2 m hs e3 where 3: "pp_dl_list api pid n e2 = ((rc2, m, hs), e3)" by (metis prod_cases3 prod.collapse)
  have k: "auth e1 = auth e" "auth e2 = auth e1" "auth e3 = auth e2"
    by (rule auth_laws(4) [OF h 1] auth_laws(6) [OF h 2] auth_laws(4) [OF h 3])+
  show ?thesis
  proof (cases "(rc = 0 \<or> rc = kExpectedSizeQueryRc) \<and> 0 < n \<and> n < 1024")
    case False
    then show ?thesis using assms(2) k by (auto simp: list_modules_def 1 Let_def)
  next
    case True
    show ?thesis
    proof (cases b)
      case False
      then show ?thesis using assms(2) k True by (simp add: list_modules_def 1 2 Let_def)
    next
      case b: True
      then show ?thesis using assms(2) k True scan_modules_auth [OF h]
        by (auto simp: list_modules_def 1 2 3 Let_def split: if_splits)
    qed
  qed
qed

lemma find_videoout_module_auth:
  assumes h: "holds_auth api ucred auth" and run: "find_videoout_module api pid e = (res, e')"
  shows "(vm_base res \<noteq> 0 \<longrightarrow> vm_auth_restored res) \<and> (vm_auth_restored res \<longrightarrow> auth e' = auth e) \<and>
    (auth e' = auth e \<or> auth e' = kDebuggerAuthId)"
proof -
  obtain u e1 where 1: "pp_self_ucred api e = (u, e1)" by (cases "pp_self_ucred api e")
  note a1 = auth_laws(1) [OF h 1]
  show ?thesis
  proof (cases "pid \<le> 0 \<or> u = 0")
    case True
    then have "res = vm_init" "e' = e \<or> e' = e1"
      using run by (cases "pid \<le> 0"; simp add: find_videoout_module_def 1)+
    then show ?thesis using a1 by (auto simp: vm_init_def)
  next
    case False
    then have u: "u = ucred" using a1 by simp
    obtain r e2 where 2: "pp_copyout api (ucred + kAuthIdOffset) e1 = (r, e2)"
      by (cases "pp_copyout api (ucred + kAuthIdOffset) e1")
    note a2 = auth_laws(2) [OF h 2]
    show ?thesis
    proof (cases r)
      case None
      then show ?thesis using run False a1 a2 by (auto simp: find_videoout_module_def 1 2 u vm_init_def)
    next
      case (Some saved)
      then have saved: "saved = auth e" using a1 a2 by simp
      obtain rc e3 where 3: "pp_copyin api kDebuggerAuthId (ucred + kAuthIdOffset) e2 = (rc, e3)"
        by (cases "pp_copyin api kDebuggerAuthId (ucred + kAuthIdOffset) e2")
      note a3 = auth_laws(3) [OF h 3]
      obtain res1 e4 where 4: "list_modules api pid (vm_init\<lparr>vm_auth_read := True, vm_auth_changed := True\<rparr>) e3 = (res1, e4)"
        by (cases "list_modules api pid (vm_init\<lparr>vm_auth_read := True, vm_auth_changed := True\<rparr>) e3")
      note a4 = list_modules_auth [OF h 4]
      obtain rc2 e5 where 5: "pp_copyin api saved (ucred + kAuthIdOffset) e4 = (rc2, e5)"
        by (cases "pp_copyin api saved (ucred + kAuthIdOffset) e4")
      note a5 = auth_laws(3) [OF h 5]
      have "(res, e') = (if rc \<noteq> 0 then (vm_init\<lparr>vm_auth_read := True\<rparr>, e3)
          else (res1\<lparr>vm_restore_attempted := True, vm_auth_restored := (rc2 = 0),
                     vm_base := (if rc2 = 0 then vm_base res1 else 0)\<rparr>, e5))"
        using run False by (simp add: find_videoout_module_def 1 2 3 4 5 u Some Let_def split: if_splits)
      then show ?thesis using a1 a2 a3 a4 a5 saved by (auto simp: vm_init_def split: if_splits)
    qed
  qed
qed

text \<open>
  When the search for the VideoOut module gives the sampler a module, the credentials of
  the controller are exactly those from before, so that no read of the game runs with raised
  ones; when it gives none they are those or, after a failed restore, the debugger's.
\<close>

theorem module_search_restores_credentials:
  assumes "holds_auth api ucred auth" "find_module (ps5_platform api) pid name (s, e) = (r, (s', e'))"
  shows "case r of
      Some m \<Rightarrow> mod_base m \<noteq> 0 \<and> name = kVideoOutModule \<and> auth e' = auth e
    | None \<Rightarrow> auth e' = auth e \<or> auth e' = kDebuggerAuthId"
proof (cases "name = kVideoOutModule")
  case True
  obtain res e1 where f: "find_videoout_module api pid e = (res, e1)" by (cases "find_videoout_module api pid e")
  show ?thesis
    using assms(2) True find_videoout_module_auth [OF assms(1) f]
    by (auto simp: ps5_platform_def ps5_find_module_def f Let_def split: if_splits)
next
  case False
  then show ?thesis using assms(2) by (auto simp: ps5_platform_def ps5_find_module_def)
qed

text \<open>
  A console for examples: its environment is the authority, its list has one module, and the
  queries are answered only to the debugger.
\<close>

definition demo_ps5 :: "u64 ps5_api" where
  "demo_ps5 =
     \<lparr>pp_processes = \<lparr>pa_self = 7, pa_size = \<lambda>e. ((-1, 0), e), pa_alloc = \<lambda>n e. (True, e), pa_data = \<lambda>n e. ((-1, 0, []), e)\<rparr>,
      pp_self_ucred = \<lambda>e. (0x9000, e), pp_copyout = \<lambda>a e. (Some e, e), pp_copyin = \<lambda>v a e. (0, v),
      pp_dl_list = \<lambda>pid n e. ((if e = kDebuggerAuthId then 0 else -1, 1, [3]), e),
      pp_dl_info = \<lambda>pid h e. ((0, c_name kVideoOutModule @ replicate 109 0, 0x800000), e),
      pp_calloc = \<lambda>n e. (True, e), pp_mdbg = \<lambda>pid a n e. ((-1, []), e),
      pp_kernel = \<lambda>e. \<lparr>kn_copyout = \<lambda>a n. None, kn_data_base = 0, kn_sdk = 0\<rparr>,
      pp_fw_version = \<lambda>e. (0, e), pp_sdk_sysctl = \<lambda>e. ((-1, 0, 0), e), pp_time = \<lambda>e. ((0, 1, 0), e),
      pp_usleep = \<lambda>n e. e\<rparr>"

lemma demo_holds_auth: "holds_auth demo_ps5 0x9000 id"
  by (simp add: holds_auth_def demo_ps5_def)

lemma demo_module_name:
  "info_name (c_name kVideoOutModule @ replicate 109 0) = map (\<lambda>c. of_nat (of_char c)) kVideoOutModule"
  by code_simp

theorem module_search_restores_credentials_witness:
  "\<exists>m s' e'. find_module (ps5_platform demo_ps5) 41 kVideoOutModule (ps5_init, 5) = (Some m, (s', e'))
     \<and> mod_base m = 0x800000 \<and> e' = 5"
proof -
  have "find_videoout_module demo_ps5 41 5 =
      (vm_init\<lparr>vm_base := 0x800000, vm_auth_read := True, vm_auth_changed := True, vm_restore_attempted := True,
         vm_auth_restored := True, vm_size_rc := 0, vm_fill_rc := 0, vm_last_info_rc := 0, vm_requested := 1,
         vm_returned := 1, vm_info_successes := 1\<rparr>, 5)"
    by (simp add: find_videoout_module_def list_modules_def demo_ps5_def demo_module_name vm_init_def Let_def)
  then obtain m s' e' where f: "find_module (ps5_platform demo_ps5) 41 kVideoOutModule (ps5_init, 5) = (Some m, (s', e'))"
      and m: "mod_base m = 0x800000"
    by (auto simp: ps5_platform_def ps5_find_module_def Let_def)
  from module_search_restores_credentials [OF demo_holds_auth f] have "e' = 5" by simp
  with f m show ?thesis by blast
qed

end
