(* ===== verification/Elf_Loader.thy ===== *)
theory Elf_Loader
  imports Code_Read
begin

text \<open>
  The loader of the embedded renderer (\<^verbatim>\<open>src/ps5/stable_elfldr_bridge.c\<close>): the checks on
  the image, the relocation of a local mirror and its transfer into the shell.  The pinned loader
  it includes (segment copy, page macros), ptrace and the kernel's symbol lookup are parameters.
  The ELF structures are read at their standard offsets; the image is a buffer of bytes.
\<close>

unbundle bit_operations_syntax

section \<open>The image\<close>

record elf_phdr =
  ph_type :: u32
  ph_flags :: u32
  ph_offset :: u64
  ph_vaddr :: u64
  ph_filesz :: u64
  ph_memsz :: u64

record elf_shdr =
  sh_type :: u32
  sh_offset :: u64
  sh_size :: u64
  sh_link :: u32
  sh_entsize :: u64

record elf_rela =
  ra_offset :: u64
  ra_info :: u64
  ra_addend :: u64

record elf_sym =
  sy_name :: u32
  sy_shndx :: u16
  sy_value :: u64

definition e_type :: "bytes \<Rightarrow> u16" where "e_type elf = get_u16 16 elf"
definition e_machine :: "bytes \<Rightarrow> u16" where "e_machine elf = get_u16 18 elf"
definition e_entry :: "bytes \<Rightarrow> u64" where "e_entry elf = get_u64 24 elf"
definition e_phoff :: "bytes \<Rightarrow> u64" where "e_phoff elf = get_u64 32 elf"
definition e_shoff :: "bytes \<Rightarrow> u64" where "e_shoff elf = get_u64 40 elf"
definition e_phentsize :: "bytes \<Rightarrow> u16" where "e_phentsize elf = get_u16 54 elf"
definition e_phnum :: "bytes \<Rightarrow> u16" where "e_phnum elf = get_u16 56 elf"
definition e_shnum :: "bytes \<Rightarrow> u16" where "e_shnum elf = get_u16 60 elf"

definition read_phdr :: "bytes \<Rightarrow> nat \<Rightarrow> elf_phdr" where
  "read_phdr elf off =
     \<lparr>ph_type = get_u32 off elf, ph_flags = get_u32 (off + 4) elf, ph_offset = get_u64 (off + 8) elf,
      ph_vaddr = get_u64 (off + 16) elf, ph_filesz = get_u64 (off + 32) elf, ph_memsz = get_u64 (off + 40) elf\<rparr>"

definition read_shdr :: "bytes \<Rightarrow> nat \<Rightarrow> elf_shdr" where
  "read_shdr elf off =
     \<lparr>sh_type = get_u32 (off + 4) elf, sh_offset = get_u64 (off + 24) elf, sh_size = get_u64 (off + 32) elf,
      sh_link = get_u32 (off + 40) elf, sh_entsize = get_u64 (off + 56) elf\<rparr>"

definition read_rela :: "bytes \<Rightarrow> nat \<Rightarrow> elf_rela" where
  "read_rela elf off =
     \<lparr>ra_offset = get_u64 off elf, ra_info = get_u64 (off + 8) elf, ra_addend = get_u64 (off + 16) elf\<rparr>"

definition read_sym :: "bytes \<Rightarrow> nat \<Rightarrow> elf_sym" where
  "read_sym elf off =
     \<lparr>sy_name = get_u32 off elf, sy_shndx = get_u16 (off + 6) elf, sy_value = get_u64 (off + 8) elf\<rparr>"

definition elf_phdrs :: "bytes \<Rightarrow> elf_phdr list" where
  "elf_phdrs elf = map (\<lambda>i. read_phdr elf (unat (e_phoff elf) + 56 * i)) [0..<unat (e_phnum elf)]"

definition elf_shdrs :: "bytes \<Rightarrow> elf_shdr list" where
  "elf_shdrs elf = map (\<lambda>i. read_shdr elf (unat (e_shoff elf) + 64 * i)) [0..<unat (e_shnum elf)]"

text \<open>Constants of the format.\<close>

definition PT_LOAD :: u32 where "PT_LOAD = 1"
definition PT_DYNAMIC :: u32 where "PT_DYNAMIC = 2"
definition PT_INTERP :: u32 where "PT_INTERP = 3"
definition PF_X :: u32 where "PF_X = 1"
definition SHT_SYMTAB :: u32 where "SHT_SYMTAB = 2"
definition SHT_STRTAB :: u32 where "SHT_STRTAB = 3"
definition SHT_RELA :: u32 where "SHT_RELA = 4"
definition SHT_DYNSYM :: u32 where "SHT_DYNSYM = 11"
definition R_X86_64_NONE :: u32 where "R_X86_64_NONE = 0"
definition R_X86_64_64 :: u32 where "R_X86_64_64 = 1"
definition R_X86_64_GLOB_DAT :: u32 where "R_X86_64_GLOB_DAT = 6"
definition R_X86_64_RELATIVE :: u32 where "R_X86_64_RELATIVE = 8"
definition SHN_UNDEF :: u16 where "SHN_UNDEF = 0"
definition SHN_ABS :: u16 where "SHN_ABS = 0xfff1"
definition DT_NULL :: u64 where "DT_NULL = 0"
definition DT_FLAGS_1 :: u64 where "DT_FLAGS_1 = 0x6ffffffb"
definition DF_1_PIE :: u64 where "DF_1_PIE = 0x08000000"

section \<open>Validation\<close>

text \<open>The dynamic section up to its terminator asks for a position independent executable.\<close>

fun dynamic_pie :: "(u64 \<times> u64) list \<Rightarrow> bool" where
  "dynamic_pie [] = False"
| "dynamic_pie ((tag, val) # ds) =
     (if tag = DT_NULL then False
      else if tag = DT_FLAGS_1 \<and> val AND DF_1_PIE \<noteq> 0 then True
      else dynamic_pie ds)"

definition dynamic_entries :: "bytes \<Rightarrow> elf_phdr \<Rightarrow> (u64 \<times> u64) list" where
  "dynamic_entries elf ph =
     map (\<lambda>j. (get_u64 (unat (ph_offset ph) + 16 * j) elf, get_u64 (unat (ph_offset ph) + 16 * j + 8) elf))
       [0..<unat (ph_filesz ph) div 16]"

definition entry_inside :: "u64 \<Rightarrow> elf_phdr \<Rightarrow> bool" where
  "entry_inside entry ph \<longleftrightarrow> ph_flags ph AND PF_X \<noteq> 0 \<and> ph_vaddr ph \<le> entry \<and> entry - ph_vaddr ph < ph_memsz ph"

fun validate_segments :: "bytes \<Rightarrow> elf_phdr list \<Rightarrow> bool \<Rightarrow> bool \<Rightarrow> bool" where
  "validate_segments elf [] have_load executable = (have_load \<and> executable)"
| "validate_segments elf (ph # phs) have_load executable =
     (if ph_type ph = PT_INTERP then False
      else if ph_type ph = PT_LOAD
      then validate_segments elf phs True (executable \<or> entry_inside (e_entry elf) ph)
      else if ph_type ph \<noteq> PT_DYNAMIC then validate_segments elf phs have_load executable
      else if dynamic_pie (dynamic_entries elf ph) then False
      else validate_segments elf phs have_load executable)"

definition validate_shared_renderer :: "bytes \<Rightarrow> bool" where
  "validate_shared_renderer elf \<longleftrightarrow>
     \<not> (e_type elf \<noteq> 3 \<or> e_machine elf \<noteq> 62 \<or> e_phentsize elf \<noteq> 56 \<or> e_phnum elf = 0) \<and>
     validate_segments elf (elf_phdrs elf) False False"

definition elf_magic_ok :: "bytes \<Rightarrow> bool" where
  "elf_magic_ok elf \<longleftrightarrow> take 4 elf = [0x7f, 0x45, 0x4c, 0x46] \<and> elf ! 4 = 2 \<and> elf ! 5 = 1"

section \<open>The interface\<close>

text \<open>
  \<open>lo_pt_load\<close> copies a segment into the mirror, \<open>lo_pflags\<close>, \<open>lo_trunc_pg\<close> and
  \<open>lo_round_pg\<close> are the loader's macros, \<open>lo_local_mmap\<close> is the mapping of the mirror.
\<close>

record 'e loader_api =
  lo_pt_load :: "bytes \<Rightarrow> elf_phdr \<Rightarrow> bytes \<Rightarrow> bytes option"
  lo_pflags :: "u32 \<Rightarrow> int"
  lo_trunc_pg :: "u64 \<Rightarrow> u64"
  lo_round_pg :: "u64 \<Rightarrow> u64"
  lo_pt_mmap :: "int \<Rightarrow> u64 \<Rightarrow> 'e \<Rightarrow> u64 \<times> 'e"
  lo_pt_munmap :: "int \<Rightarrow> u64 \<Rightarrow> u64 \<Rightarrow> 'e \<Rightarrow> int \<times> 'e"
  lo_local_mmap :: "u64 \<Rightarrow> 'e \<Rightarrow> bool \<times> 'e"
  lo_local_munmap :: "u64 \<Rightarrow> 'e \<Rightarrow> 'e"
  lo_pt_continue :: "int \<Rightarrow> 'e \<Rightarrow> int \<times> 'e"
  lo_kill_stop :: "int \<Rightarrow> 'e \<Rightarrow> int \<times> 'e"
  lo_waitpid :: "int \<Rightarrow> 'e \<Rightarrow> int \<times> 'e"
  lo_dynlib_handle :: "int \<Rightarrow> string \<Rightarrow> 'e \<Rightarrow> (int \<times> u32) \<times> 'e"
  lo_dlsym :: "int \<Rightarrow> u32 \<Rightarrow> bytes \<Rightarrow> 'e \<Rightarrow> u64 \<times> 'e"
  lo_pt_copyin :: "int \<Rightarrow> bytes \<Rightarrow> u64 \<Rightarrow> 'e \<Rightarrow> int \<times> 'e"
  lo_kernel_mprotect :: "int \<Rightarrow> u64 \<Rightarrow> u64 \<Rightarrow> int \<Rightarrow> 'e \<Rightarrow> int \<times> 'e"
  lo_pt_mprotect :: "int \<Rightarrow> u64 \<Rightarrow> u64 \<Rightarrow> int \<Rightarrow> 'e \<Rightarrow> int \<times> 'e"
  lo_pt_msync :: "int \<Rightarrow> u64 \<Rightarrow> u64 \<Rightarrow> 'e \<Rightarrow> int \<times> 'e"

text \<open>
  The variables of the file and the mirror.  The source stores relocated words without comparing
  their offset with the size of the mirror; \<open>ld_overrun\<close> says that one went beside it.  What
  that does to the controller's memory is outside the model.
\<close>

record load_state =
  ld_continued :: bool
  ld_stopped :: bool
  ld_resolved :: u32
  ld_unresolved :: u32
  ld_first_unresolved :: bytes
  ld_mirror :: bytes
  ld_overrun :: bool

definition ld_init :: load_state where
  "ld_init = \<lparr>ld_continued = False, ld_stopped = False, ld_resolved = 0, ld_unresolved = 0,
     ld_first_unresolved = [], ld_mirror = [], ld_overrun = False\<rparr>"

definition commonfps_trace_continue :: "'e loader_api \<Rightarrow> int \<Rightarrow> load_state \<Rightarrow> 'e \<Rightarrow> bool \<times> load_state \<times> 'e" where
  "commonfps_trace_continue lo pid t e =
     (case lo_pt_continue lo pid e of
        (rc, e1) \<Rightarrow> if rc \<noteq> 0 then (False, t, e1) else (True, t\<lparr>ld_continued := True\<rparr>, e1))"

definition commonfps_trace_stop :: "'e loader_api \<Rightarrow> int \<Rightarrow> load_state \<Rightarrow> 'e \<Rightarrow> bool \<times> load_state \<times> 'e" where
  "commonfps_trace_stop lo pid t e =
     (if \<not> ld_continued t \<or> ld_stopped t then (True, t, e)
      else case lo_kill_stop lo pid e of
             (rc, e1) \<Rightarrow>
               if rc \<noteq> 0 then (False, t, e1)
               else case lo_waitpid lo pid e1 of
                      (rc2, e2) \<Rightarrow> if rc2 < 0 then (False, t, e2) else (True, t\<lparr>ld_stopped := True\<rparr>, e2))"

section \<open>Relocation\<close>

definition g_resolve_libraries :: "string list" where
  "g_resolve_libraries =
     [''libkernel_sys.sprx'', ''libkernel.sprx'', ''libSceLibcInternal.sprx'', ''libmonosgen-2.0.sprx'',
      ''libmonosgen-2.0.0.sprx'', ''libSceNet.sprx'', ''libSceSystemService.sprx'', ''libSceSysmodule.sprx'',
      ''libSceUserService.sprx'']"

fun resolve_in :: "'e loader_api \<Rightarrow> int \<Rightarrow> bytes \<Rightarrow> string list \<Rightarrow> 'e \<Rightarrow> u64 \<times> 'e" where
  "resolve_in lo pid name [] e = (0, e)"
| "resolve_in lo pid name (lib # libs) e =
     (case lo_dynlib_handle lo pid lib e of
        ((rc, handle), e1) \<Rightarrow>
          if rc < 0 \<or> handle = 0 then resolve_in lo pid name libs e1
          else case lo_dlsym lo pid handle name e1 of
                 (address, e2) \<Rightarrow> if address \<noteq> 0 then (address, e2) else resolve_in lo pid name libs e2)"

definition commonfps_resolve_external :: "'e loader_api \<Rightarrow> int \<Rightarrow> bytes \<Rightarrow> 'e \<Rightarrow> u64 \<times> 'e" where
  "commonfps_resolve_external lo pid name e =
     (if name = [] then (0, e) else resolve_in lo pid name g_resolve_libraries e)"

text \<open>The symbol and string tables of a relocation section, as offsets and sizes.\<close>

record symbol_tables =
  st_symbols :: nat
  st_count :: nat
  st_strings :: nat
  st_strsize :: u64

definition symbol_tables_of :: "elf_shdr list \<Rightarrow> elf_shdr \<Rightarrow> symbol_tables option" where
  "symbol_tables_of shs sec =
     (if unat (sh_link sec) < length shs then
        let symsec = shs ! unat (sh_link sec)
        in if (sh_type symsec = SHT_DYNSYM \<or> sh_type symsec = SHT_SYMTAB) \<and> sh_entsize symsec = 24 \<and>
              unat (sh_link symsec) < length shs
           then let strsec = shs ! unat (sh_link symsec)
                in if sh_type strsec = SHT_STRTAB
                   then Some \<lparr>st_symbols = unat (sh_offset symsec), st_count = unat (sh_size symsec) div 24,
                              st_strings = unat (sh_offset strsec), st_strsize = sh_size strsec\<rparr>
                   else None
           else None
      else None)"

definition rela_type :: "elf_rela \<Rightarrow> u32" where
  "rela_type r = ucast (ra_info r AND 0xffffffff)"

definition rela_sym :: "elf_rela \<Rightarrow> u32" where
  "rela_sym r = ucast (drop_bit 32 (ra_info r))"

definition c_string_at :: "bytes \<Rightarrow> nat \<Rightarrow> bytes" where
  "c_string_at elf off = takeWhile (\<lambda>b. b \<noteq> 0) (drop off elf)"

definition store_word :: "u64 \<Rightarrow> u64 \<Rightarrow> load_state \<Rightarrow> load_state" where
  "store_word off v t =
     (if unat off + 8 \<le> length (ld_mirror t)
      then t\<lparr>ld_mirror := overlay_at (unat off) (to_le 8 (unat v)) (ld_mirror t)\<rparr>
      else t\<lparr>ld_overrun := True\<rparr>)"

text \<open>The value of a symbol; an import is looked up in the running shell.\<close>

definition resolve_symbol ::
  "'e loader_api \<Rightarrow> int \<Rightarrow> u64 \<Rightarrow> elf_sym \<Rightarrow> bytes \<Rightarrow> load_state \<Rightarrow> 'e \<Rightarrow> u64 option \<times> load_state \<times> 'e" where
  "resolve_symbol lo pid base symbol name t e =
     (if sy_shndx symbol = SHN_ABS then (Some (sy_value symbol), t, e)
      else if sy_shndx symbol \<noteq> SHN_UNDEF then (Some (base + sy_value symbol), t, e)
      else case commonfps_resolve_external lo pid name e of
             (resolved, e1) \<Rightarrow>
               if resolved = 0
               then (None, t\<lparr>ld_unresolved := ld_unresolved t + 1,
                             ld_first_unresolved := (if ld_first_unresolved t = [] then take 127 name
                                                     else ld_first_unresolved t)\<rparr>, e1)
               else (Some resolved, t\<lparr>ld_resolved := ld_resolved t + 1\<rparr>, e1))"

definition apply_rela ::
  "'e loader_api \<Rightarrow> int \<Rightarrow> u64 \<Rightarrow> bytes \<Rightarrow> symbol_tables option \<Rightarrow> elf_rela \<Rightarrow> load_state \<Rightarrow> 'e \<Rightarrow>
     bool \<times> load_state \<times> 'e" where
  "apply_rela lo pid base elf tables r t e =
     (if rela_type r = R_X86_64_RELATIVE then (True, store_word (ra_offset r) (base + ra_addend r) t, e)
      else if rela_type r = R_X86_64_NONE then (True, t, e)
      else if rela_type r \<noteq> R_X86_64_64 \<and> rela_type r \<noteq> R_X86_64_GLOB_DAT then (False, t, e)
      else case tables of
             None \<Rightarrow> (False, t, e)
           | Some st \<Rightarrow>
               if st_count st \<le> unat (rela_sym r) then (False, t, e)
               else
                 let symbol = read_sym elf (st_symbols st + 24 * unat (rela_sym r))
                 in if st_strsize st \<le> ucast (sy_name symbol) then (False, t, e)
                    else case resolve_symbol lo pid base symbol (c_string_at elf (st_strings st + unat (sy_name symbol))) t e of
                           (None, t1, e1) \<Rightarrow> (False, t1, e1)
                         | (Some v, t1, e1) \<Rightarrow> (True, store_word (ra_offset r) (v + ra_addend r) t1, e1))"

fun apply_relas ::
  "'e loader_api \<Rightarrow> int \<Rightarrow> u64 \<Rightarrow> bytes \<Rightarrow> symbol_tables option \<Rightarrow> elf_rela list \<Rightarrow> load_state \<Rightarrow> 'e \<Rightarrow>
     bool \<times> load_state \<times> 'e" where
  "apply_relas lo pid base elf tables [] t e = (True, t, e)"
| "apply_relas lo pid base elf tables (r # rs) t e =
     (case apply_rela lo pid base elf tables r t e of
        (False, t1, e1) \<Rightarrow> (False, t1, e1)
      | (True, t1, e1) \<Rightarrow> apply_relas lo pid base elf tables rs t1 e1)"

definition section_relas :: "bytes \<Rightarrow> elf_shdr \<Rightarrow> elf_rela list" where
  "section_relas elf sec = map (\<lambda>j. read_rela elf (unat (sh_offset sec) + 24 * j)) [0..<unat (sh_size sec) div 24]"

fun apply_sections ::
  "'e loader_api \<Rightarrow> int \<Rightarrow> u64 \<Rightarrow> bytes \<Rightarrow> elf_shdr list \<Rightarrow> elf_shdr list \<Rightarrow> load_state \<Rightarrow> 'e \<Rightarrow>
     bool \<times> load_state \<times> 'e" where
  "apply_sections lo pid base elf shs [] t e = (True, t, e)"
| "apply_sections lo pid base elf shs (sec # secs) t e =
     (if sh_type sec \<noteq> SHT_RELA \<or> sh_entsize sec = 0 then apply_sections lo pid base elf shs secs t e
      else case apply_relas lo pid base elf (symbol_tables_of shs sec) (section_relas elf sec) t e of
             (False, t1, e1) \<Rightarrow> (False, t1, e1)
           | (True, t1, e1) \<Rightarrow> apply_sections lo pid base elf shs secs t1 e1)"

definition commonfps_apply_relocations ::
  "'e loader_api \<Rightarrow> int \<Rightarrow> u64 \<Rightarrow> bytes \<Rightarrow> load_state \<Rightarrow> 'e \<Rightarrow> bool \<times> load_state \<times> 'e" where
  "commonfps_apply_relocations lo pid base elf t e = apply_sections lo pid base elf (elf_shdrs elf) (elf_shdrs elf) t e"

section \<open>Loading\<close>

definition load_bounds :: "elf_phdr list \<Rightarrow> u64 \<times> u64" where
  "load_bounds phs =
     fold (\<lambda>ph (lo, hi). (min (ph_vaddr ph) lo, max (ph_vaddr ph + ph_memsz ph) hi))
       (filter (\<lambda>ph. ph_type ph = PT_LOAD) phs) (-1, 0)"

definition load_size :: "'e loader_api \<Rightarrow> bytes \<Rightarrow> u64" where
  "load_size lo elf =
     (case load_bounds (elf_phdrs elf) of (min_vaddr, max_vaddr) \<Rightarrow> lo_round_pg lo max_vaddr - lo_trunc_pg lo min_vaddr)"

fun load_segments :: "'e loader_api \<Rightarrow> bytes \<Rightarrow> elf_phdr list \<Rightarrow> bytes \<Rightarrow> bytes option" where
  "load_segments lo elf [] mirror = Some mirror"
| "load_segments lo elf (ph # phs) mirror =
     (if ph_type ph = PT_LOAD then
        case lo_pt_load lo elf ph mirror of
          None \<Rightarrow> None | Some mirror1 \<Rightarrow> load_segments lo elf phs mirror1
      else load_segments lo elf phs mirror)"

fun protect_segments :: "'e loader_api \<Rightarrow> int \<Rightarrow> u64 \<Rightarrow> elf_phdr list \<Rightarrow> 'e \<Rightarrow> bool \<times> 'e" where
  "protect_segments lo pid base [] e = (True, e)"
| "protect_segments lo pid base (ph # phs) e =
     (if ph_type ph \<noteq> PT_LOAD \<or> ph_memsz ph = 0 then protect_segments lo pid base phs e
      else
        case (if ph_flags ph AND PF_X \<noteq> 0
              then lo_kernel_mprotect lo pid (base + ph_vaddr ph) (lo_round_pg lo (ph_memsz ph)) (lo_pflags lo (ph_flags ph)) e
              else lo_pt_mprotect lo pid (base + ph_vaddr ph) (lo_round_pg lo (ph_memsz ph)) (lo_pflags lo (ph_flags ph)) e) of
          (rc, e1) \<Rightarrow> if rc \<noteq> 0 then (False, e1) else protect_segments lo pid base phs e1)"

text \<open>The mirror is filled and relocated while the shell runs.\<close>

definition prepare_mirror ::
  "'e loader_api \<Rightarrow> int \<Rightarrow> u64 \<Rightarrow> bytes \<Rightarrow> load_state \<Rightarrow> 'e \<Rightarrow> bool \<times> load_state \<times> 'e" where
  "prepare_mirror lo pid base elf t e =
     (case load_segments lo elf (elf_phdrs elf) (replicate (unat (load_size lo elf)) 0) of
        None \<Rightarrow> (False, t, e)
      | Some mirror \<Rightarrow> commonfps_apply_relocations lo pid base elf (t\<lparr>ld_mirror := mirror\<rparr>) e)"

text \<open>The transfer into the stopped shell.\<close>

definition commit_image :: "'e loader_api \<Rightarrow> int \<Rightarrow> u64 \<Rightarrow> bytes \<Rightarrow> load_state \<Rightarrow> 'e \<Rightarrow> bool \<times> 'e" where
  "commit_image lo pid base elf t e =
     (case lo_pt_copyin lo pid (ld_mirror t) base e of
        (rc, e1) \<Rightarrow>
          if rc \<noteq> 0 then (False, e1)
          else case protect_segments lo pid base (elf_phdrs elf) e1 of
                 (False, e2) \<Rightarrow> (False, e2)
               | (True, e2) \<Rightarrow> (case lo_pt_msync lo pid base (load_size lo elf) e2 of (rc2, e3) \<Rightarrow> (rc2 = 0, e3)))"

text \<open>A failure answers \<open>None\<close>, the zero of the source.\<close>

definition commonfps_stable_elfldr_load :: "'e loader_api \<Rightarrow> int \<Rightarrow> bytes \<Rightarrow> 'e \<Rightarrow> u64 option \<times> load_state \<times> 'e" where
  "commonfps_stable_elfldr_load lo pid elf e =
     (if \<not> elf_magic_ok elf \<or> \<not> validate_shared_renderer elf then (None, ld_init, e)
      else
        let sz = load_size lo elf
        in case lo_pt_mmap lo pid sz e of
             (base, e1) \<Rightarrow>
               if base = -1 then (None, ld_init, e1)
               else case commonfps_trace_continue lo pid ld_init e1 of
                      (continued, t1, e2) \<Rightarrow>
                    case lo_local_mmap lo sz e2 of
                      (mapped, e3) \<Rightarrow>
                    case (if continued \<and> mapped then prepare_mirror lo pid base elf t1 e3 else (False, t1, e3)) of
                      (prepared, t2, e4) \<Rightarrow>
                    case commonfps_trace_stop lo pid t2 e4 of
                      (stopped, t3, e5) \<Rightarrow>
                    case (if prepared \<and> stopped then commit_image lo pid base elf t3 e5 else (False, e5)) of
                      (committed, e6) \<Rightarrow>
                        let e7 = (if mapped then lo_local_munmap lo sz e6 else e6)
                        in if committed then (Some (base + e_entry elf), t3, e7)
                           else case (if ld_continued t3 \<and> \<not> ld_stopped t3
                                      then commonfps_trace_stop lo pid t3 e7 else (True, t3, e7)) of
                                  (_, t4, e8) \<Rightarrow> (None, t4, snd (lo_pt_munmap lo pid base sz e8)))"

section \<open>Relocations by value\<close>

text \<open>
  The specification of one entry: the word it must leave at its offset, given what imports
  resolve to; \<open>None\<close> for an entry that changes nothing or cannot be applied.
\<close>

definition rela_value :: "(bytes \<Rightarrow> u64) \<Rightarrow> u64 \<Rightarrow> bytes \<Rightarrow> symbol_tables option \<Rightarrow> elf_rela \<Rightarrow> u64 option" where
  "rela_value imports base elf tables r =
     (if rela_type r = R_X86_64_RELATIVE then Some (base + ra_addend r)
      else if rela_type r \<noteq> R_X86_64_64 \<and> rela_type r \<noteq> R_X86_64_GLOB_DAT then None
      else case tables of
             None \<Rightarrow> None
           | Some st \<Rightarrow>
               let symbol = read_sym elf (st_symbols st + 24 * unat (rela_sym r));
                   name = c_string_at elf (st_strings st + unat (sy_name symbol))
               in Some (ra_addend r +
                    (if sy_shndx symbol = SHN_ABS then sy_value symbol
                     else if sy_shndx symbol \<noteq> SHN_UNDEF then base + sy_value symbol
                     else imports name)))"

text \<open>The symbol lookup answers the same address for a name every time.\<close>

definition stable_imports :: "'e loader_api \<Rightarrow> int \<Rightarrow> (bytes \<Rightarrow> u64) \<Rightarrow> bool" where
  "stable_imports lo pid imports \<longleftrightarrow> (\<forall>name e. fst (commonfps_resolve_external lo pid name e) = imports name)"

text \<open>One word in the mirror; a word beside it changes nothing there.\<close>

definition store_inside :: "nat \<Rightarrow> u64 \<times> u64 \<Rightarrow> bool" where
  "store_inside n w \<longleftrightarrow> unat (fst w) + 8 \<le> n"

definition store_value :: "u64 \<times> u64 \<Rightarrow> bytes \<Rightarrow> bytes" where
  "store_value w m = (if store_inside (length m) w then overlay_at (unat (fst w)) (to_le 8 (unat (snd w))) m else m)"

lemma store_word_effect:
  "ld_mirror (store_word off v t) = store_value (off, v) (ld_mirror t)"
  "ld_overrun (store_word off v t) \<longleftrightarrow> ld_overrun t \<or> \<not> store_inside (length (ld_mirror t)) (off, v)"
  by (simp_all add: store_word_def store_value_def store_inside_def)

lemma length_store [simp]: "length (store_value w m) = length m"
  by (simp add: store_value_def store_inside_def)

definition rela_store :: "(bytes \<Rightarrow> u64) \<Rightarrow> u64 \<Rightarrow> bytes \<Rightarrow> symbol_tables option \<Rightarrow> elf_rela \<Rightarrow> (u64 \<times> u64) option" where
  "rela_store imports base elf tables r = map_option (Pair (ra_offset r)) (rela_value imports base elf tables r)"

text \<open>What a list of words leaves in the mirror and of the flag.\<close>

definition stores_effect :: "(u64 \<times> u64) list \<Rightarrow> load_state \<Rightarrow> load_state \<Rightarrow> bool" where
  "stores_effect ws t t' \<longleftrightarrow> ld_mirror t' = fold store_value ws (ld_mirror t) \<and>
     (ld_overrun t' \<longleftrightarrow> ld_overrun t \<or> (\<exists>w\<in>set ws. \<not> store_inside (length (ld_mirror t)) w))"

lemma fold_stores_length [simp]: "length (fold store_value ws m) = length m"
  by (induction ws arbitrary: m) auto

lemma stores_effect_append:
  "stores_effect ws t t1 \<Longrightarrow> stores_effect xs t1 t' \<Longrightarrow> stores_effect (ws @ xs) t t'"
  by (auto simp: stores_effect_def)

lemma apply_rela_effect:
  assumes "stable_imports lo pid imports" "apply_rela lo pid base elf tables r t e = (True, t', e')"
  shows "stores_effect (case rela_store imports base elf tables r of None \<Rightarrow> [] | Some w \<Rightarrow> [w]) t t'"
proof (cases "rela_type r = R_X86_64_RELATIVE \<or> rela_type r = R_X86_64_NONE")
  case True
  then show ?thesis using assms(2)
    by (auto simp: apply_rela_def rela_store_def rela_value_def store_word_effect stores_effect_def R_X86_64_NONE_def R_X86_64_64_def
        R_X86_64_GLOB_DAT_def R_X86_64_RELATIVE_def)
next
  case False
  then have ty: "rela_type r = R_X86_64_64 \<or> rela_type r = R_X86_64_GLOB_DAT"
    using assms(2) by (auto simp: apply_rela_def split: if_splits)
  obtain st where st: "tables = Some st" "\<not> st_count st \<le> unat (rela_sym r)"
    using assms(2) False ty by (cases tables) (auto simp: apply_rela_def split: if_splits)
  define symbol where "symbol = read_sym elf (st_symbols st + 24 * unat (rela_sym r))"
  define name where "name = c_string_at elf (st_strings st + unat (sy_name symbol))"
  obtain v t1 e1 where rs: "resolve_symbol lo pid base symbol name t e = (v, t1, e1)" by (metis prod_cases3)
  have run: "v \<noteq> None \<and> t' = store_word (ra_offset r) (the v + ra_addend r) t1"
    using assms(2) False ty st rs
    by (auto simp: apply_rela_def Let_def symbol_def name_def split: if_splits option.splits)
  obtain a e2 where ext: "commonfps_resolve_external lo pid name e = (a, e2)"
    by (cases "commonfps_resolve_external lo pid name e")
  then have a: "a = imports name" using assms(1) unfolding stable_imports_def by (metis fst_conv)
  have "ld_mirror t1 = ld_mirror t \<and> ld_overrun t1 = ld_overrun t \<and> the v = (if sy_shndx symbol = SHN_ABS then sy_value symbol
      else if sy_shndx symbol \<noteq> SHN_UNDEF then base + sy_value symbol else imports name)"
    using rs run ext a by (auto simp: resolve_symbol_def split: if_splits)
  moreover have "rela_value imports base elf tables r = Some (ra_addend r + (if sy_shndx symbol = SHN_ABS then sy_value symbol
      else if sy_shndx symbol \<noteq> SHN_UNDEF then base + sy_value symbol else imports name))"
    using False ty by (simp add: rela_value_def st Let_def symbol_def name_def)
  ultimately show ?thesis using run by (simp add: rela_store_def stores_effect_def store_word_effect add.commute)
qed

text \<open>All words the relocation of an image stores, in the order of the code.\<close>

definition section_stores :: "(bytes \<Rightarrow> u64) \<Rightarrow> u64 \<Rightarrow> bytes \<Rightarrow> elf_shdr list \<Rightarrow> elf_shdr \<Rightarrow> (u64 \<times> u64) list" where
  "section_stores imports base elf shs sec =
     (if sh_type sec \<noteq> SHT_RELA \<or> sh_entsize sec = 0 then []
      else List.map_filter (rela_store imports base elf (symbol_tables_of shs sec)) (section_relas elf sec))"

definition relocation_stores :: "(bytes \<Rightarrow> u64) \<Rightarrow> u64 \<Rightarrow> bytes \<Rightarrow> (u64 \<times> u64) list" where
  "relocation_stores imports base elf = concat (map (section_stores imports base elf (elf_shdrs elf)) (elf_shdrs elf))"

lemma apply_relas_stores:
  assumes "stable_imports lo pid imports"
  shows "apply_relas lo pid base elf tables rs t e = (True, t', e') \<Longrightarrow>
    stores_effect (List.map_filter (rela_store imports base elf tables) rs) t t'"
proof (induction rs arbitrary: t e)
  case (Cons r rs)
  obtain ok t1 e1 where 1: "apply_rela lo pid base elf tables r t e = (ok, t1, e1)" by (metis prod_cases3)
  with Cons.prems have ok: ok and rest: "apply_relas lo pid base elf tables rs t1 e1 = (True, t', e')"
    by (cases ok; simp)+
  from stores_effect_append [OF apply_rela_effect [OF assms 1 [unfolded eqTrueI [OF ok]]] Cons.IH [OF rest]]
  show ?case by (cases "rela_store imports base elf tables r") (simp_all add: map_filter_simps)
qed (simp add: map_filter_simps stores_effect_def)

lemma apply_sections_stores:
  assumes "stable_imports lo pid imports"
  shows "apply_sections lo pid base elf shs secs t e = (True, t', e') \<Longrightarrow>
    stores_effect (concat (map (section_stores imports base elf shs) secs)) t t'"
proof (induction secs arbitrary: t e)
  case (Cons sec secs)
  show ?case
  proof (cases "sh_type sec \<noteq> SHT_RELA \<or> sh_entsize sec = 0")
    case True
    then show ?thesis using Cons by (simp add: section_stores_def)
  next
    case False
    obtain ok t1 e1 where 1: "apply_relas lo pid base elf (symbol_tables_of shs sec) (section_relas elf sec) t e = (ok, t1, e1)"
      by (metis prod_cases3)
    with Cons.prems False have ok: ok and rest: "apply_sections lo pid base elf shs secs t1 e1 = (True, t', e')"
      by (cases ok; simp)+
    show ?thesis
      using stores_effect_append [OF apply_relas_stores [OF assms 1 [unfolded eqTrueI [OF ok]]] Cons.IH [OF rest]] False
      by (simp add: section_stores_def)
  qed
qed (simp add: stores_effect_def)

subsection \<open>The bytes of the relocated mirror\<close>

text \<open>A byte is that of the last word stored over it, or the one it was.\<close>

definition store_covers :: "nat \<Rightarrow> u64 \<times> u64 \<Rightarrow> bool" where
  "store_covers i w \<longleftrightarrow> unat (fst w) \<le> i \<and> i < unat (fst w) + 8"

definition relocated_byte :: "(u64 \<times> u64) list \<Rightarrow> bytes \<Rightarrow> nat \<Rightarrow> u8" where
  "relocated_byte ws m i =
     (case find (store_covers i) (rev ws) of
        None \<Rightarrow> m ! i | Some w \<Rightarrow> to_le 8 (unat (snd w)) ! (i - unat (fst w)))"

definition stores_apart :: "u64 \<times> u64 \<Rightarrow> u64 \<times> u64 \<Rightarrow> bool" where
  "stores_apart w x \<longleftrightarrow> unat (fst w) + 8 \<le> unat (fst x) \<or> unat (fst x) + 8 \<le> unat (fst w)"

lemma nth_store:
  assumes "store_inside (length m) w" "i < length m"
  shows "store_value w m ! i = (if store_covers i w then to_le 8 (unat (snd w)) ! (i - unat (fst w)) else m ! i)"
  using assms by (auto simp: store_value_def store_inside_def store_covers_def overlay_at_def nth_append min_def)

lemma fold_stores_nth:
  "list_all (store_inside (length m)) ws \<Longrightarrow> i < length m \<Longrightarrow> fold store_value ws m ! i = relocated_byte ws m i"
  by (induction ws rule: rev_induct) (auto simp: relocated_byte_def nth_store)

lemma sub_bytes_ext:
  assumes "length a = length b" "\<And>i. off \<le> i \<Longrightarrow> i < off + n \<Longrightarrow> i < length a \<Longrightarrow> a ! i = b ! i"
  shows "sub_bytes off n a = sub_bytes off n b"
  using assms by (intro nth_equalityI) (auto simp: sub_bytes_def)

lemma get_stored:
  assumes "store_inside (length m) w"
  shows "get_u64 (unat (fst w)) (store_value w m) = snd w"
proof -
  have "sub_bytes (unat (fst w)) 8 (store_value w m) = to_le 8 (unat (snd w))"
    using assms by (intro nth_equalityI) (auto simp: sub_bytes_def nth_store store_covers_def, auto simp: store_inside_def)
  moreover have "unat (snd w) < 256 ^ 8" using unat_u64 [of "snd w"] by simp
  ultimately show ?thesis by (simp add: get_u64_def)
qed

lemma get_stored_apart:
  assumes "store_inside (length m) w" "stores_apart x w"
  shows "get_u64 (unat (fst x)) (store_value w m) = get_u64 (unat (fst x)) m"
proof -
  have "sub_bytes (unat (fst x)) 8 (store_value w m) = sub_bytes (unat (fst x)) 8 m"
    using assms by (intro sub_bytes_ext) (auto simp: nth_store stores_apart_def store_covers_def)
  then show ?thesis by (simp add: get_u64_def)
qed

lemma fold_stores_apart:
  "list_all (store_inside (length m)) ws \<Longrightarrow> list_all (stores_apart x) ws \<Longrightarrow>
   get_u64 (unat (fst x)) (fold store_value ws m) = get_u64 (unat (fst x)) m"
proof (induction ws arbitrary: m)
  case (Cons y ws)
  then have "get_u64 (unat (fst x)) (fold store_value ws (store_value y m)) = get_u64 (unat (fst x)) (store_value y m)"
    by simp
  also have "\<dots> = get_u64 (unat (fst x)) m" using Cons.prems by (intro get_stored_apart) auto
  finally show ?case by simp
qed simp

lemma fold_stores_get:
  assumes "list_all (store_inside (length m)) (xs @ w # ys)" "list_all (stores_apart w) ys"
  shows "get_u64 (unat (fst w)) (fold store_value (xs @ w # ys) m) = snd w"
proof -
  let ?m = "store_value w (fold store_value xs m)"
  have "get_u64 (unat (fst w)) (fold store_value ys ?m) = get_u64 (unat (fst w)) ?m"
    using assms by (intro fold_stores_apart) simp_all
  also have "\<dots> = snd w" using assms(1) by (intro get_stored) simp
  finally show ?thesis by simp
qed

text \<open>
  (C13) Relocation by value: when it succeeds, either some entry's word went beside the mirror,
  which the code does not check and the flag tells, or every byte of the mirror is that of the
  last entry whose word covers it (the base plus its addend, or the symbol plus its addend, with
  imports at the one address the shell's libraries give for the name) and the byte of the
  segments where no entry's word lies; the word of an entry that no later one overlaps is there
  as a whole.
\<close>

theorem relocation_by_value:
  assumes "stable_imports lo pid imports"
    and "commonfps_apply_relocations lo pid base elf t e = (True, t', e')" "\<not> ld_overrun t"
  shows "(ld_overrun t' \<longleftrightarrow> \<not> list_all (store_inside (length (ld_mirror t))) (relocation_stores imports base elf))
    \<and> (\<not> ld_overrun t' \<longrightarrow> length (ld_mirror t') = length (ld_mirror t)
        \<and> (\<forall>i<length (ld_mirror t). ld_mirror t' ! i = relocated_byte (relocation_stores imports base elf) (ld_mirror t) i)
        \<and> (\<forall>xs w ys. relocation_stores imports base elf = xs @ w # ys \<and> list_all (stores_apart w) ys \<longrightarrow>
             get_u64 (unat (fst w)) (ld_mirror t') = snd w))"
proof -
  have "stores_effect (relocation_stores imports base elf) t t'"
    using apply_sections_stores [OF assms(1)] assms(2)
    by (simp add: commonfps_apply_relocations_def relocation_stores_def)
  then have e: "ld_mirror t' = fold store_value (relocation_stores imports base elf) (ld_mirror t)"
    "ld_overrun t' \<longleftrightarrow> \<not> list_all (store_inside (length (ld_mirror t))) (relocation_stores imports base elf)"
    using assms(3) by (auto simp: stores_effect_def list_all_iff)
  have "length (ld_mirror t') = length (ld_mirror t)" by (simp add: e(1))
  moreover note fold_stores_nth [of "ld_mirror t" "relocation_stores imports base elf", folded e(1)]
  moreover have "get_u64 (unat (fst w)) (ld_mirror t') = snd w"
    if "list_all (store_inside (length (ld_mirror t))) (relocation_stores imports base elf)"
      "relocation_stores imports base elf = xs @ w # ys" "list_all (stores_apart w) ys" for xs w ys
    using fold_stores_get [of "ld_mirror t" xs w ys] that e(1) by simp
  ultimately show ?thesis unfolding e(2) by blast
qed

section \<open>The shell while it is loaded\<close>

text \<open>
  What matters of the shell: whether it runs, whether it was ever written to while it ran, the
  mappings made in it through the debugger, and how often it refused to take one back.  The
  contract says what each call does to that.  A request through the debugger works only on a
  stopped process, so a mapping is not taken back while the shell runs, and it may fail for other
  reasons; a signal to stop may stop the shell although waiting for it fails.
\<close>

record shell_view =
  sv_running :: bool
  sv_torn :: bool
  sv_maps :: "u64 set"
  sv_refused :: nat

definition written :: "shell_view \<Rightarrow> shell_view" where
  "written v = v\<lparr>sv_torn := (sv_torn v \<or> sv_running v)\<rparr>"

definition kept_or_stopped :: "shell_view \<Rightarrow> shell_view \<Rightarrow> bool" where
  "kept_or_stopped v v' \<longleftrightarrow> v' = v \<or> v' = v\<lparr>sv_running := False\<rparr>"

definition maps_calls :: "'e loader_api \<Rightarrow> ('e \<Rightarrow> shell_view) \<Rightarrow> bool" where
  "maps_calls lo view \<longleftrightarrow>
     (\<forall>pid n e b e'. lo_pt_mmap lo pid n e = (b, e') \<longrightarrow>
        (if b = -1 then view e' = view e
         else view e' = (view e)\<lparr>sv_maps := insert b (sv_maps (view e))\<rparr> \<and> b \<notin> sv_maps (view e))) \<and>
     (\<forall>pid b n e rc e'. lo_pt_munmap lo pid b n e = (rc, e') \<longrightarrow>
        (if rc = 0 then view e' = (view e)\<lparr>sv_maps := sv_maps (view e) - {b}\<rparr> \<and> \<not> sv_running (view e)
         else view e' = (view e)\<lparr>sv_refused := Suc (sv_refused (view e))\<rparr>)) \<and>
     (\<forall>n e. view (snd (lo_local_mmap lo n e)) = view e \<and> view (lo_local_munmap lo n e) = view e)"

definition trace_calls :: "'e loader_api \<Rightarrow> ('e \<Rightarrow> shell_view) \<Rightarrow> bool" where
  "trace_calls lo view \<longleftrightarrow>
     (\<forall>pid e rc e'. lo_pt_continue lo pid e = (rc, e') \<longrightarrow> view e' = (if rc = 0 then (view e)\<lparr>sv_running := True\<rparr> else view e)) \<and>
     (\<forall>pid e rc e'. lo_kill_stop lo pid e = (rc, e') \<longrightarrow> kept_or_stopped (view e) (view e')) \<and>
     (\<forall>pid e rc e'. lo_waitpid lo pid e = (rc, e') \<longrightarrow>
        (if rc < 0 then kept_or_stopped (view e) (view e') else view e' = (view e)\<lparr>sv_running := False\<rparr>)) \<and>
     (\<forall>pid lib e. view (snd (lo_dynlib_handle lo pid lib e)) = view e) \<and>
     (\<forall>pid h name e. view (snd (lo_dlsym lo pid h name e)) = view e)"

definition write_calls :: "'e loader_api \<Rightarrow> ('e \<Rightarrow> shell_view) \<Rightarrow> bool" where
  "write_calls lo view \<longleftrightarrow>
     (\<forall>pid bs a e. view (snd (lo_pt_copyin lo pid bs a e)) = written (view e)) \<and>
     (\<forall>pid a n p e. view (snd (lo_kernel_mprotect lo pid a n p e)) = written (view e)) \<and>
     (\<forall>pid a n p e. view (snd (lo_pt_mprotect lo pid a n p e)) = written (view e)) \<and>
     (\<forall>pid a n e. view (snd (lo_pt_msync lo pid a n e)) = written (view e))"

definition loader_contract :: "'e loader_api \<Rightarrow> ('e \<Rightarrow> shell_view) \<Rightarrow> bool" where
  "loader_contract lo view \<longleftrightarrow> maps_calls lo view \<and> trace_calls lo view \<and> write_calls lo view"

lemma written_stopped: "\<not> sv_running v \<Longrightarrow> written v = v"
  by (simp add: written_def)

lemma trace_continue_view:
  assumes "loader_contract lo view" "commonfps_trace_continue lo pid t e = (ok, t', e')"
  shows "view e' = (if ok then (view e)\<lparr>sv_running := True\<rparr> else view e)"
    and "t' = (if ok then t\<lparr>ld_continued := True\<rparr> else t)"
  using assms by (auto simp: loader_contract_def trace_calls_def commonfps_trace_continue_def split: prod.splits if_splits)

lemma trace_stop_view:
  assumes c: "loader_contract lo view" and run: "commonfps_trace_stop lo pid t e = (ok, t', e')"
  shows "if ld_continued t \<and> \<not> ld_stopped t
      then if ok then view e' = (view e)\<lparr>sv_running := False\<rparr> \<and> t' = t\<lparr>ld_stopped := True\<rparr>
           else kept_or_stopped (view e) (view e') \<and> t' = t
      else ok \<and> t' = t \<and> e' = e"
proof -
  obtain rc e1 where 1: "lo_kill_stop lo pid e = (rc, e1)" by (cases "lo_kill_stop lo pid e")
  obtain rc2 e2 where 2: "lo_waitpid lo pid e1 = (rc2, e2)" by (cases "lo_waitpid lo pid e1")
  have v: "kept_or_stopped (view e) (view e1)"
    "if rc2 < 0 then kept_or_stopped (view e1) (view e2) else view e2 = (view e1)\<lparr>sv_running := False\<rparr>"
    using c 1 2 unfolding loader_contract_def trace_calls_def by blast+
  then have "if rc2 < 0 then kept_or_stopped (view e) (view e2) else view e2 = (view e)\<lparr>sv_running := False\<rparr>"
    by (auto simp: kept_or_stopped_def)
  then show ?thesis
    using run v(1) by (auto simp: commonfps_trace_stop_def 1 2 split: if_splits)
qed

lemma resolve_view:
  assumes "loader_contract lo view"
  shows "commonfps_resolve_external lo pid name e = (a, e') \<Longrightarrow> view e' = view e"
proof -
  have "resolve_in lo pid name libs e = (a, e') \<Longrightarrow> view e' = view e" for libs
  proof (induction libs arbitrary: e)
    case (Cons lib libs)
    obtain rc h e1 where 1: "lo_dynlib_handle lo pid lib e = ((rc, h), e1)" by (metis prod.collapse)
    obtain b e2 where 2: "lo_dlsym lo pid h name e1 = (b, e2)" by (cases "lo_dlsym lo pid h name e1")
    have "view e1 = view e" "view e2 = view e1"
      using assms 1 2 unfolding loader_contract_def trace_calls_def by (metis snd_conv)+
    with Cons show ?case by (auto simp: 1 2 split: if_splits)
  qed simp
  then show "commonfps_resolve_external lo pid name e = (a, e') \<Longrightarrow> view e' = view e"
    by (auto simp: commonfps_resolve_external_def split: if_splits)
qed

text \<open>Relocation touches neither the shell nor the trace flags.\<close>

definition same_trace :: "load_state \<Rightarrow> load_state \<Rightarrow> bool" where
  "same_trace t t' \<longleftrightarrow> ld_continued t' = ld_continued t \<and> ld_stopped t' = ld_stopped t"

lemma apply_rela_view:
  assumes "loader_contract lo view" "apply_rela lo pid base elf tables r t e = (ok, t', e')"
  shows "view e' = view e \<and> same_trace t t'"
proof -
  have "view e' = view e \<and> same_trace t t'" if "resolve_symbol lo pid base symbol name t e = (v, t', e')" for symbol name v t' e'
    using that resolve_view [OF assms(1)]
    by (auto simp: resolve_symbol_def same_trace_def split: if_splits prod.splits)
  then show ?thesis using assms(2)
    by (auto simp: apply_rela_def store_word_def same_trace_def Let_def split: if_splits option.splits prod.splits)
qed

lemma relocations_view:
  assumes "loader_contract lo view"
  shows "commonfps_apply_relocations lo pid base elf t e = (ok, t', e') \<Longrightarrow> view e' = view e \<and> same_trace t t'"
proof -
  have relas: "apply_relas lo pid base elf tables rs t e = (ok, t', e') \<Longrightarrow> view e' = view e \<and> same_trace t t'" for tables rs t e ok t' e'
  proof (induction rs arbitrary: t e)
    case (Cons r rs)
    obtain ok1 t1 e1 where 1: "apply_rela lo pid base elf tables r t e = (ok1, t1, e1)" by (metis prod_cases3)
    then show ?case using Cons apply_rela_view [OF assms 1] by (cases ok1) (auto simp: same_trace_def)
  qed (simp add: same_trace_def)
  have "apply_sections lo pid base elf shs secs t e = (ok, t', e') \<Longrightarrow> view e' = view e \<and> same_trace t t'" for shs secs
  proof (induction secs arbitrary: t e)
    case (Cons sec secs)
    obtain ok1 t1 e1 where 1: "apply_relas lo pid base elf (symbol_tables_of shs sec) (section_relas elf sec) t e = (ok1, t1, e1)"
      by (metis prod_cases3)
    then show ?case using Cons relas [OF 1] by (cases ok1) (auto simp: same_trace_def split: if_splits)
  qed (simp add: same_trace_def)
  then show "commonfps_apply_relocations lo pid base elf t e = (ok, t', e') \<Longrightarrow> view e' = view e \<and> same_trace t t'"
    by (simp add: commonfps_apply_relocations_def)
qed

lemma commit_view:
  assumes c: "loader_contract lo view" and "\<not> sv_running (view e)"
    and "commit_image lo pid base elf t e = (ok, e')"
  shows "view e' = view e"
proof -
  have w: "view (snd (lo_kernel_mprotect lo pid a n p e)) = view e" "view (snd (lo_pt_mprotect lo pid a n p e)) = view e"
      "view (snd (lo_pt_msync lo pid a n e)) = view e" "view (snd (lo_pt_copyin lo pid bs a e)) = view e"
    if "\<not> sv_running (view e)" for a n p bs e
    using c that by (simp_all add: loader_contract_def write_calls_def written_stopped)
  have protect: "protect_segments lo pid base phs e = (b, e') \<Longrightarrow> \<not> sv_running (view e) \<Longrightarrow> view e' = view e" for phs e b e'
  proof (induction phs arbitrary: e)
    case (Cons ph phs)
    obtain rc e1 where 1: "(if ph_flags ph AND PF_X \<noteq> 0
              then lo_kernel_mprotect lo pid (base + ph_vaddr ph) (lo_round_pg lo (ph_memsz ph)) (lo_pflags lo (ph_flags ph)) e
              else lo_pt_mprotect lo pid (base + ph_vaddr ph) (lo_round_pg lo (ph_memsz ph)) (lo_pflags lo (ph_flags ph)) e) = (rc, e1)"
      by fastforce
    then have "view e1 = view e" using w(1,2) [OF Cons.prems(2)] by (metis snd_conv)
    then show ?case using Cons 1 by (auto split: if_splits)
  qed simp
  obtain rc e1 where 1: "lo_pt_copyin lo pid (ld_mirror t) base e = (rc, e1)" by (cases "lo_pt_copyin lo pid (ld_mirror t) base e")
  obtain b e2 where 2: "protect_segments lo pid base (elf_phdrs elf) e1 = (b, e2)" by (cases "protect_segments lo pid base (elf_phdrs elf) e1")
  obtain rc2 e3 where 3: "lo_pt_msync lo pid base (load_size lo elf) e2 = (rc2, e3)" by (cases "lo_pt_msync lo pid base (load_size lo elf) e2")
  have v1: "view e1 = view e" using w(4) [OF assms(2)] 1 by (metis snd_conv)
  then have v2: "view e2 = view e" using protect [OF 2] assms(2) by simp
  then have "view e3 = view e" using w(3) [of e2] 3 assms(2) by (metis snd_conv)
  then show ?thesis using assms(3) v1 v2 by (cases b) (auto simp: commit_image_def 1 2 3 split: if_splits)
qed

lemma prepare_view:
  assumes "loader_contract lo view" "prepare_mirror lo pid base elf t e = (ok, t', e')"
  shows "view e' = view e \<and> same_trace t t'"
  using assms(2) relocations_view [OF assms(1)]
  by (auto simp: prepare_mirror_def same_trace_def split: option.splits)

text \<open>What a call of the loader may leave of its own mapping.\<close>

definition map_settled :: "shell_view \<Rightarrow> shell_view \<Rightarrow> bool" where
  "map_settled v v' \<longleftrightarrow>
     sv_maps v' = sv_maps v \<and> sv_refused v' = sv_refused v \<or>
     sv_refused v' = Suc (sv_refused v) \<and> (\<exists>base. base \<notin> sv_maps v \<and> sv_maps v' = insert base (sv_maps v))"

lemma load_correct:
  assumes c: "loader_contract lo view" and idle: "\<not> sv_running (view e)" "\<not> sv_torn (view e)"
    and run: "commonfps_stable_elfldr_load lo pid elf e = (r, t, e')"
  shows "\<not> sv_torn (view e') \<and>
    (case r of
       None \<Rightarrow> map_settled (view e) (view e') \<and>
         (sv_running (view e') \<longrightarrow> ld_continued t \<and> \<not> ld_stopped t \<and> sv_refused (view e') \<noteq> sv_refused (view e))
     | Some entry \<Rightarrow> validate_shared_renderer elf \<and> \<not> sv_running (view e') \<and> ld_continued t \<and> ld_stopped t \<and>
         (\<exists>base. base \<notin> sv_maps (view e) \<and> sv_maps (view e') = insert base (sv_maps (view e)) \<and> entry = base + e_entry elf))"
proof (cases "\<not> elf_magic_ok elf \<or> \<not> validate_shared_renderer elf")
  case True
  then show ?thesis using run idle by (auto simp: commonfps_stable_elfldr_load_def map_settled_def)
next
  case False
  let ?n = "load_size lo elf"
  obtain base e1 where 1: "lo_pt_mmap lo pid ?n e = (base, e1)" by (cases "lo_pt_mmap lo pid ?n e")
  have m: "if base = -1 then view e1 = view e
      else view e1 = (view e)\<lparr>sv_maps := insert base (sv_maps (view e))\<rparr> \<and> base \<notin> sv_maps (view e)"
    using c 1 unfolding loader_contract_def maps_calls_def by blast
  show ?thesis
  proof (cases "base = -1")
    case True
    then have "r = None" "e' = e1" using run False by (auto simp: commonfps_stable_elfldr_load_def 1 Let_def)
    then show ?thesis using m True idle by (simp add: map_settled_def)
  next
    case mapped: False
    define v1 where "v1 = (view e)\<lparr>sv_maps := insert base (sv_maps (view e))\<rparr>"
    have v1: "view e1 = v1" "base \<notin> sv_maps (view e)" "\<not> sv_running v1" "\<not> sv_torn v1"
      using m mapped idle by (simp_all add: v1_def)
    obtain ok t1 e2 where 2: "commonfps_trace_continue lo pid ld_init e1 = (ok, t1, e2)" by (metis prod_cases3)
    note s2 = trace_continue_view [OF c 2]
    obtain lm e3 where 3: "lo_local_mmap lo ?n e2 = (lm, e3)" by (cases "lo_local_mmap lo ?n e2")
    have v3: "view e3 = view e2" using c 3 unfolding loader_contract_def maps_calls_def by (metis snd_conv)
    obtain pr t2 e4 where 4: "(if ok \<and> lm then prepare_mirror lo pid base elf t1 e3 else (False, t1, e3)) = (pr, t2, e4)"
      by (metis prod_cases3)
    have s4: "view e4 = view e3 \<and> same_trace t1 t2 \<and> (pr \<longrightarrow> ok)"
      using 4 prepare_view [OF c, of pid base elf t1 e3 pr t2 e4] by (auto simp: same_trace_def split: if_splits)
    obtain st t3 e5 where 5: "commonfps_trace_stop lo pid t2 e4 = (st, t3, e5)" by (metis prod_cases3)
    note s5 = trace_stop_view [OF c 5]
    obtain cm e6 where 6: "(if pr \<and> st then commit_image lo pid base elf t3 e5 else (False, e5)) = (cm, e6)" by fastforce
    have flags: "ld_continued t2 = ok" "\<not> ld_stopped t2"
      using s4 s2(2) by (simp_all add: same_trace_def ld_init_def)
    have v4: "view e4 = (if ok then v1\<lparr>sv_running := True\<rparr> else v1)" using s4 v3 s2(1) v1(1) by simp
    have v5: "view e5 = v1 \<or> \<not> st \<and> view e5 = v1\<lparr>sv_running := True\<rparr>" "ld_continued t3 = ok" "ld_stopped t3 = (ok \<and> st)"
      "\<not> st \<Longrightarrow> ok"
      using s5 flags v4 v1(3) by (auto simp: kept_or_stopped_def split: if_splits)
    have v6: "view e6 = view e5"
    proof (cases "pr \<and> st")
      case True
      then have "\<not> sv_running (view e5)" using v5(1) v1(3) by auto
      then show ?thesis using True 6 commit_view [OF c] by simp
    qed (use 6 in auto)
    define e7 where "e7 = (if lm then lo_local_munmap lo ?n e6 else e6)"
    have v7: "view e7 = view e6" using c by (simp add: e7_def loader_contract_def maps_calls_def)
    obtain z t4 e8 where 8: "(if ld_continued t3 \<and> \<not> ld_stopped t3 then commonfps_trace_stop lo pid t3 e7 else (True, t3, e7)) = (z, t4, e8)"
      by (metis prod_cases3)
    obtain rc e9 where 9: "lo_pt_munmap lo pid base ?n e8 = (rc, e9)" by (cases "lo_pt_munmap lo pid base ?n e8")
    have res: "(r, t, e') = (if cm then (Some (base + e_entry elf), t3, e7) else (None, t4, e9))"
      using run False mapped by (auto simp: commonfps_stable_elfldr_load_def 1 2 3 4 5 6 8 [unfolded e7_def] 9 e7_def Let_def)
    show ?thesis
    proof (cases cm)
      case True
      then have "pr \<and> st" using 6 by (auto split: if_splits)
      then have "ok" "st" "view e7 = v1" using s4 v5(1) v6 v7 by auto
      then show ?thesis using True res v5(2,3) v1(2-4) False by (auto simp: v1_def)
    next
      case failed: False
      have v8: "view e8 = v1 \<or> view e8 = v1\<lparr>sv_running := True\<rparr> \<and> ld_continued t4 \<and> \<not> ld_stopped t4"
        using trace_stop_view [OF c, of pid t3 e7 z t4 e8] 8 v5 v6 v7 v1(3)
        by (auto simp: kept_or_stopped_def split: if_splits)
      have m9: "if rc = 0 then view e9 = (view e8)\<lparr>sv_maps := sv_maps (view e8) - {base}\<rparr> \<and> \<not> sv_running (view e8)
          else view e9 = (view e8)\<lparr>sv_refused := Suc (sv_refused (view e8))\<rparr>"
        using c 9 unfolding loader_contract_def maps_calls_def by blast
      have "r = None" "t = t4" "e' = e9" using failed res by simp_all
      then show ?thesis using m9 v8 v1(2-4) by (auto simp: v1_def map_settled_def split: if_splits)
    qed
  qed
qed

text \<open>
  (C3) The loader never writes to a running shell.  When it succeeds the image was a shared
  object with its entry in executable code, exactly one mapping was added, the entry is the new
  image's base plus the entry of the file, and the shell is stopped again.  When it fails, either
  the mappings are those from before and the shell is stopped, or the loader's one mapping is
  still there because the shell refused to take it back, a result the code throws away; a shell
  that is still running after a failure could not be stopped and has refused.
\<close>

theorem loader_never_tears:
  assumes "loader_contract lo view" "\<not> sv_running (view e)" "\<not> sv_torn (view e)"
    and "commonfps_stable_elfldr_load lo pid elf e = (r, t, e')"
  shows "\<not> sv_torn (view e') \<and>
    (case r of
       None \<Rightarrow>
         (sv_maps (view e') = sv_maps (view e) \<and> sv_refused (view e') = sv_refused (view e) \<and> \<not> sv_running (view e') \<or>
          sv_refused (view e') = Suc (sv_refused (view e)) \<and>
            (\<exists>base. base \<notin> sv_maps (view e) \<and> sv_maps (view e') = insert base (sv_maps (view e)))) \<and>
         (sv_running (view e') \<longrightarrow> ld_continued t \<and> \<not> ld_stopped t)
     | Some entry \<Rightarrow> validate_shared_renderer elf \<and> \<not> sv_running (view e') \<and> ld_continued t \<and> ld_stopped t \<and>
         (\<exists>base. base \<notin> sv_maps (view e) \<and> sv_maps (view e') = insert base (sv_maps (view e)) \<and> entry = base + e_entry elf))"
  using load_correct [OF assms] by (auto simp: map_settled_def split: option.splits)

section \<open>An example\<close>

text \<open>A small image: one executable segment and one relative relocation.\<close>

definition demo_elf :: bytes where
  "demo_elf =
     [
      127, 69, 76, 70, 2, 1, 0, 0, 0, 0, 0, 0, 0, 0, 0, 0, 3, 0, 62, 0, 1, 0, 0, 0, 16, 0,
      0, 0, 0, 0, 0, 0, 64, 0, 0, 0, 0, 0, 0, 0, 120, 0, 0, 0, 0, 0, 0, 0, 0, 0, 0, 0,
      64, 0, 56, 0, 1, 0, 64, 0, 1, 0, 0, 0, 1, 0, 0, 0, 5, 0, 0, 0, 0, 0, 0, 0, 0, 0,
      0, 0, 0, 0, 0, 0, 0, 0, 0, 0, 0, 0, 0, 0, 0, 0, 0, 0, 0, 0, 0, 0, 0, 0, 0, 0,
      64, 0, 0, 0, 0, 0, 0, 0, 0, 16, 0, 0, 0, 0, 0, 0, 0, 0, 0, 0, 4, 0, 0, 0, 0, 0,
      0, 0, 0, 0, 0, 0, 0, 0, 0, 0, 0, 0, 0, 0, 184, 0, 0, 0, 0, 0, 0, 0, 24, 0, 0, 0,
      0, 0, 0, 0, 0, 0, 0, 0, 0, 0, 0, 0, 8, 0, 0, 0, 0, 0, 0, 0, 24, 0, 0, 0, 0, 0,
      0, 0, 8, 0, 0, 0, 0, 0, 0, 0, 8, 0, 0, 0, 0, 0, 0, 0, 52, 18, 0, 0, 0, 0, 0, 0]"

lemmas elf_reads = get_u16_def get_u32_def get_u64_def sub_bytes_def demo_elf_def

lemma demo_elf_header:
  "e_type demo_elf = 3" "e_machine demo_elf = 62" "e_phentsize demo_elf = 56" "e_phnum demo_elf = 1" "e_entry demo_elf = 0x10"
  "e_phoff demo_elf = 64" "e_shoff demo_elf = 120" "e_shnum demo_elf = 1" "elf_magic_ok demo_elf"
  by (simp_all add: e_type_def e_machine_def e_phentsize_def e_phnum_def e_entry_def e_phoff_def e_shoff_def e_shnum_def
      elf_magic_ok_def elf_reads)

lemma demo_elf_tables:
  "read_phdr demo_elf 64 = \<lparr>ph_type = 1, ph_flags = 5, ph_offset = 0, ph_vaddr = 0, ph_filesz = 0, ph_memsz = 0x40\<rparr>"
  "read_shdr demo_elf 120 = \<lparr>sh_type = 4, sh_offset = 184, sh_size = 24, sh_link = 0, sh_entsize = 24\<rparr>"
  "read_rela demo_elf 184 = \<lparr>ra_offset = 8, ra_info = 8, ra_addend = 0x1234\<rparr>"
  by (simp_all add: read_phdr_def read_shdr_def read_rela_def elf_reads)

lemma demo_elf_parts:
  "elf_phdrs demo_elf = [\<lparr>ph_type = 1, ph_flags = 5, ph_offset = 0, ph_vaddr = 0, ph_filesz = 0, ph_memsz = 0x40\<rparr>]"
  "elf_shdrs demo_elf = [\<lparr>sh_type = 4, sh_offset = 184, sh_size = 24, sh_link = 0, sh_entsize = 24\<rparr>]"
  by (simp_all add: elf_phdrs_def elf_shdrs_def demo_elf_header demo_elf_tables)

lemma demo_stores: "relocation_stores imports base demo_elf = [(8, base + 0x1234)]"
  by (simp add: relocation_stores_def section_stores_def demo_elf_parts section_relas_def demo_elf_header demo_elf_tables SHT_RELA_def
     rela_store_def rela_value_def rela_type_def R_X86_64_RELATIVE_def map_filter_simps)

lemma demo_valid: "validate_shared_renderer demo_elf"
  by (simp add: validate_shared_renderer_def demo_elf_parts demo_elf_header demo_elf_tables PT_LOAD_def PT_INTERP_def entry_inside_def PF_X_def)

definition demo_loader :: "shell_view loader_api" where
  "demo_loader =
     \<lparr>lo_pt_load = \<lambda>elf ph m. Some m, lo_pflags = \<lambda>f. 5, lo_trunc_pg = id, lo_round_pg = id,
      lo_pt_mmap = \<lambda>pid n v. if 0x1000 \<in> sv_maps v then (-1, v) else (0x1000, v\<lparr>sv_maps := insert 0x1000 (sv_maps v)\<rparr>),
      lo_pt_munmap = \<lambda>pid b n v. if sv_running v then (-1, v\<lparr>sv_refused := Suc (sv_refused v)\<rparr>)
        else (0, v\<lparr>sv_maps := sv_maps v - {b}\<rparr>),
      lo_local_mmap = \<lambda>n v. (True, v), lo_local_munmap = \<lambda>n v. v,
      lo_pt_continue = \<lambda>pid v. (0, v\<lparr>sv_running := True\<rparr>), lo_kill_stop = \<lambda>pid v. (0, v),
      lo_waitpid = \<lambda>pid v. (pid, if pid < 0 then v else v\<lparr>sv_running := False\<rparr>),
      lo_dynlib_handle = \<lambda>pid lib v. ((-1, 0), v), lo_dlsym = \<lambda>pid h name v. (0, v),
      lo_pt_copyin = \<lambda>pid bs a v. (0, written v), lo_kernel_mprotect = \<lambda>pid a n p v. (0, written v),
      lo_pt_mprotect = \<lambda>pid a n p v. (0, written v), lo_pt_msync = \<lambda>pid a n v. (0, written v)\<rparr>"

lemma demo_calls:
  "lo_pt_load demo_loader elf ph m = Some m" "lo_trunc_pg demo_loader = id" "lo_round_pg demo_loader = id"
  "lo_pt_mmap demo_loader pid n v = (if 0x1000 \<in> sv_maps v then (-1, v) else (0x1000, v\<lparr>sv_maps := insert 0x1000 (sv_maps v)\<rparr>))"
  "lo_local_mmap demo_loader n2 v = (True, v)" "lo_local_munmap demo_loader n2 v = v"
  "lo_pt_continue demo_loader pid v = (0, v\<lparr>sv_running := True\<rparr>)" "lo_kill_stop demo_loader pid v = (0, v)"
  "lo_waitpid demo_loader pid v = (pid, if pid < 0 then v else v\<lparr>sv_running := False\<rparr>)"
  "lo_pt_copyin demo_loader pid bs a v = (0, written v)" "lo_kernel_mprotect demo_loader pid a n p v = (0, written v)"
  "lo_pt_msync demo_loader pid a n v = (0, written v)"
  by (simp_all add: demo_loader_def)

lemma demo_contract: "loader_contract demo_loader id"
  by (auto simp: loader_contract_def maps_calls_def trace_calls_def write_calls_def demo_loader_def kept_or_stopped_def split: if_splits)

lemma demo_imports: "stable_imports demo_loader pid (\<lambda>name. 0)"
proof -
  have "fst (resolve_in demo_loader pid name libs v) = 0" for name libs v
    by (induction libs arbitrary: v) (simp_all add: demo_loader_def)
  then show ?thesis by (simp add: stable_imports_def commonfps_resolve_external_def)
qed

lemma demo_relocated:
  "commonfps_apply_relocations demo_loader pid base demo_elf t v = (True, store_word 8 (base + 0x1234) t, v)"
  by (simp add: commonfps_apply_relocations_def demo_elf_parts section_relas_def demo_elf_header demo_elf_tables SHT_RELA_def
     apply_rela_def rela_type_def R_X86_64_RELATIVE_def)

theorem relocation_by_value_witness:
  "get_u64 8 (ld_mirror (store_word 8 (0x1000 + 0x1234) (ld_init\<lparr>ld_mirror := replicate 64 0\<rparr>))) = 0x2234"
proof -
  let ?t = "ld_init\<lparr>ld_mirror := replicate 64 0\<rparr>"
  have "\<not> ld_overrun ?t" by (simp add: ld_init_def)
  from relocation_by_value [OF demo_imports demo_relocated [of 7 "0x1000" ?t] this] show ?thesis
    by (auto simp: demo_stores store_inside_def store_word_effect ld_init_def dest: spec [of _ "[]"])
qed

definition demo_idle :: shell_view where
  "demo_idle = \<lparr>sv_running = False, sv_torn = False, sv_maps = {}, sv_refused = 0\<rparr>"

theorem loader_never_tears_witness:
  "\<exists>t v. commonfps_stable_elfldr_load demo_loader 40 demo_elf demo_idle = (Some 0x1010, t, v) \<and> \<not> sv_torn v \<and> sv_maps v = {0x1000}"
proof -
  have "load_size demo_loader demo_elf = 0x40"
    by (simp add: load_size_def load_bounds_def demo_elf_parts PT_LOAD_def demo_calls)
  then have r: "fst (commonfps_stable_elfldr_load demo_loader 40 demo_elf demo_idle) = Some 0x1010"
    by (simp add: commonfps_stable_elfldr_load_def demo_elf_header demo_elf_tables demo_valid demo_idle_def prepare_mirror_def demo_elf_parts
        demo_relocated commonfps_trace_continue_def commonfps_trace_stop_def commit_image_def PT_LOAD_def PF_X_def store_word_def
        demo_calls written_def ld_init_def Let_def)
  then obtain t v where run: "commonfps_stable_elfldr_load demo_loader 40 demo_elf demo_idle = (Some 0x1010, t, v)"
    by (cases "commonfps_stable_elfldr_load demo_loader 40 demo_elf demo_idle") simp
  from loader_never_tears [OF demo_contract _ _ run] have "\<not> sv_torn v" "\<exists>base. sv_maps v = {base} \<and> 0x1010 = base + 0x10"
    by (auto simp: demo_idle_def demo_elf_header demo_elf_tables)
  then show ?thesis using run by (auto simp: eq_diff_eq [symmetric])
qed
end
