(* ===== verification/Injection.thy ===== *)
theory Injection
  imports Hook_Controller Elf_Loader
begin

text \<open>
  The injection of the renderer into the shell: the call on the stopped thread's own stack
  (\<^verbatim>\<open>src/ps5/remote_call.cpp\<close>) and the sequence from raised credentials to the remote
  thread and back (\<^verbatim>\<open>src/ps5/stable_shellui_injector.cpp\<close>).  Kernel, debugger and loader
  are the interfaces of their theories; the symbol encoding, register access, the payload
  arguments of the pinned loader and the machine code of the stager are parameters.
\<close>

section \<open>The call\<close>

record cpu_regs =
  rg_rip :: u64
  rg_rdi :: u64
  rg_rsi :: u64
  rg_rdx :: u64
  rg_rcx :: u64
  rg_r8 :: u64
  rg_r9 :: u64
  rg_rax :: u64
  rg_others :: "u64 list"

record 'e inject_api =
  in_getregs :: "int \<Rightarrow> 'e \<Rightarrow> (int \<times> cpu_regs) \<times> 'e"
  in_setregs :: "int \<Rightarrow> cpu_regs \<Rightarrow> 'e \<Rightarrow> int \<times> 'e"
  in_nid :: "string \<Rightarrow> bytes option"
  in_resolve :: "int \<Rightarrow> bytes \<Rightarrow> 'e \<Rightarrow> u64 \<times> 'e"
  in_payload_args :: "int \<Rightarrow> 'e \<Rightarrow> u64 \<times> 'e"
  in_stager :: bytes

text \<open>A failure is \<open>None\<close>, the minus one of the source.\<close>

definition call_until_breakpoint_on_target_stack ::
  "'e loader_api \<Rightarrow> 'e inject_api \<Rightarrow> int \<Rightarrow> u64 \<Rightarrow> u64 list \<Rightarrow> 'e \<Rightarrow> u64 option \<times> 'e" where
  "call_until_breakpoint_on_target_stack lo ij pid address args e =
     (if pid \<le> 0 \<or> address = 0 then (None, e)
      else case in_getregs ij pid e of
             ((rc, original), e1) \<Rightarrow>
               if rc \<noteq> 0 then (None, e1)
               else
                 let remote = original\<lparr>rg_rip := address, rg_rdi := args ! 0, rg_rsi := args ! 1, rg_rdx := args ! 2,
                       rg_rcx := args ! 3, rg_r8 := args ! 4, rg_r9 := args ! 5\<rparr>
                 in case in_setregs ij pid remote e1 of
                      (rc1, e2) \<Rightarrow>
                        if rc1 \<noteq> 0 then (None, e2)
                        else case lo_pt_continue lo pid e2 of
                               (rc2, e3) \<Rightarrow>
                                 if rc2 \<noteq> 0 then (None, snd (in_setregs ij pid original e3))
                                 else case lo_waitpid lo pid e3 of
                                        (rc3, e4) \<Rightarrow>
                                          if rc3 < 0 then (None, snd (in_setregs ij pid original e4))
                                          else case in_getregs ij pid e4 of
                                                 ((rc4, stopped), e5) \<Rightarrow>
                                                   if rc4 \<noteq> 0 then (None, snd (in_setregs ij pid original e5))
                                                   else case in_setregs ij pid original e5 of
                                                          (rc5, e6) \<Rightarrow> (if rc5 \<noteq> 0 then None else Some (rg_rax stopped), e6))"

section \<open>The injection\<close>

definition kPthreadCreateSkippedRc :: int where "kPthreadCreateSkippedRc = -778"

record stable_injection =
  si_auth_changed :: bool
  si_auth_restored :: bool
  si_attached :: bool
  si_elf_loaded :: bool
  si_payload_args_ready :: bool
  si_remote_stager_ready :: bool
  si_remote_functions_ready :: bool
  si_target_stack_preserved :: bool
  si_bootstrap_started :: bool
  si_thread_start_requested :: bool
  si_pthread_create_ok :: bool
  si_detached :: bool
  si_trace_continue_seen :: bool
  si_trace_stop_seen :: bool
  si_pthread_create_rc :: int
  si_imports_resolved :: u32
  si_imports_unresolved :: u32
  si_first_unresolved :: bytes

definition si_init :: stable_injection where
  "si_init = \<lparr>si_auth_changed = False, si_auth_restored = False, si_attached = False, si_elf_loaded = False,
     si_payload_args_ready = False, si_remote_stager_ready = False, si_remote_functions_ready = False,
     si_target_stack_preserved = False, si_bootstrap_started = False, si_thread_start_requested = False,
     si_pthread_create_ok = False, si_detached = False, si_trace_continue_seen = False, si_trace_stop_seen = False,
     si_pthread_create_rc = -1, si_imports_resolved = 0, si_imports_unresolved = 0, si_first_unresolved = []\<rparr>"

text \<open>What the stager leaves as the result, from the argument block and the thread creation.\<close>

definition commonfps_stable_stager :: "bytes \<Rightarrow> (u64 \<Rightarrow> u64 \<Rightarrow> int) \<Rightarrow> int" where
  "commonfps_stable_stager functions pthread_create =
     (if get_u32 0x24 functions \<noteq> 0 then pthread_create (get_u64 0x08 functions) (get_u64 0x10 functions)
      else kPthreadCreateSkippedRc)"

text \<open>The argument block of the stager, field by field.\<close>

definition bootstrap_functions :: "u64 \<Rightarrow> u64 \<Rightarrow> u64 \<Rightarrow> bool \<Rightarrow> bytes" where
  "bootstrap_functions entry payload_args pthread_create start =
     to_le 8 0 @ to_le 8 (unat entry) @ to_le 8 (unat payload_args) @ to_le 8 (unat pthread_create) @
     to_le 4 (unat (of_int (-777) :: u32)) @ to_le 4 (if start then 1 else 0)"

definition resolve_remote :: "'e inject_api \<Rightarrow> int \<Rightarrow> string \<Rightarrow> 'e \<Rightarrow> u64 \<times> 'e" where
  "resolve_remote ij pid symbol e =
     (case in_nid ij symbol of None \<Rightarrow> (0, e) | Some nid \<Rightarrow> in_resolve ij pid nid e)"

definition stager_size :: "'e inject_api \<Rightarrow> nat" where
  "stager_size ij = length (in_stager ij)"

text \<open>The remote copy of the stager: mapped, made executable, written.\<close>

definition place_stager :: "'e kernel \<Rightarrow> 'e loader_api \<Rightarrow> 'e inject_api \<Rightarrow> int \<Rightarrow> 'e \<Rightarrow> u64 option \<times> 'e" where
  "place_stager k lo ij pid e =
     (if stager_size ij = 0 then (None, e)
      else case lo_pt_mmap lo pid (of_nat (stager_size ij)) e of
             (remote_stager, e1) \<Rightarrow>
               if sint remote_stager \<le> 0 then (None, e1)
               else case k_mprotect k pid remote_stager (stager_size ij) 7 e1 of
                      (rc, e2) \<Rightarrow>
                        if rc \<noteq> 0 then (None, e2)
                        else case pt_copyin k pid (in_stager ij) remote_stager e2 of
                               ((rc2, _), e3) \<Rightarrow> (if rc2 \<noteq> 0 then None else Some remote_stager, e3))"

definition place_functions :: "'e kernel \<Rightarrow> 'e loader_api \<Rightarrow> int \<Rightarrow> bytes \<Rightarrow> 'e \<Rightarrow> u64 option \<times> 'e" where
  "place_functions k lo pid functions e =
     (case lo_pt_mmap lo pid 0x28 e of
        (remote_functions, e1) \<Rightarrow>
          if sint remote_functions \<le> 0 then (None, e1)
          else case pt_copyin k pid functions remote_functions e1 of
                 ((rc, _), e2) \<Rightarrow> (if rc \<noteq> 0 then None else Some remote_functions, e2))"

text \<open>The call and what it left in the block.\<close>

definition run_stager ::
  "'e kernel \<Rightarrow> 'e loader_api \<Rightarrow> 'e inject_api \<Rightarrow> int \<Rightarrow> u64 \<Rightarrow> u64 \<Rightarrow> stable_injection \<Rightarrow> 'e \<Rightarrow> stable_injection \<times> 'e" where
  "run_stager k lo ij pid remote_stager remote_functions res e =
     (let res1 = res\<lparr>si_target_stack_preserved := True\<rparr>
      in case call_until_breakpoint_on_target_stack lo ij pid remote_stager [remote_functions, 0, 0, 0, 0, 0] e of
           (_, e1) \<Rightarrow>
             (case pt_copyout k pid remote_functions 0x28 e1 of
                ((rc, readback), e2) \<Rightarrow>
                  if rc = 0 \<and> get_i32 0x20 readback \<noteq> -777
                  then (res1\<lparr>si_bootstrap_started := True, si_pthread_create_rc := get_i32 0x20 readback,
                             si_pthread_create_ok := (si_thread_start_requested res1 \<and> get_i32 0x20 readback = 0)\<rparr>, e2)
                  else (res1, e2)))"

definition start_image ::
  "'e kernel \<Rightarrow> 'e loader_api \<Rightarrow> 'e inject_api \<Rightarrow> int \<Rightarrow> u64 \<Rightarrow> u64 \<Rightarrow> stable_injection \<Rightarrow> 'e \<Rightarrow> stable_injection \<times> 'e" where
  "start_image k lo ij pid pthread_create entry res e =
     (case in_payload_args ij pid e of
        (payload_args, e1) \<Rightarrow>
          if sint payload_args \<le> 0 then (res, e1)
          else
            let res1 = res\<lparr>si_payload_args_ready := True\<rparr>
            in case place_stager k lo ij pid e1 of
                 (None, e2) \<Rightarrow> (res1, e2)
               | (Some remote_stager, e2) \<Rightarrow>
                   let res2 = res1\<lparr>si_remote_stager_ready := True\<rparr>
                   in case place_functions k lo pid
                             (bootstrap_functions entry payload_args pthread_create (si_thread_start_requested res2)) e2 of
                        (None, e3) \<Rightarrow> (res2, e3)
                      | (Some remote_functions, e3) \<Rightarrow>
                          run_stager k lo ij pid remote_stager remote_functions
                            (res2\<lparr>si_remote_functions_ready := True\<rparr>) e3)"

text \<open>The steps of the attached controller; leaving early is the break of the source.\<close>

definition inject_attached ::
  "'e kernel \<Rightarrow> 'e loader_api \<Rightarrow> 'e inject_api \<Rightarrow> int \<Rightarrow> bytes \<Rightarrow> stable_injection \<Rightarrow> 'e \<Rightarrow> stable_injection \<times> 'e" where
  "inject_attached k lo ij pid elf res e =
     (case resolve_remote ij pid ''pthread_create'' e of
        (pthread_create, e1) \<Rightarrow>
          if pthread_create = 0 then (res, e1)
          else case commonfps_stable_elfldr_load lo pid elf e1 of
                 (entry, t, e2) \<Rightarrow>
                   let res1 = res\<lparr>si_trace_continue_seen := ld_continued t, si_trace_stop_seen := ld_stopped t,
                         si_imports_resolved := ld_resolved t, si_imports_unresolved := ld_unresolved t,
                         si_first_unresolved := ld_first_unresolved t\<rparr>
                   in case entry of
                        None \<Rightarrow> (res1, e2)
                      | Some address \<Rightarrow>
                          if sint address \<le> 0 then (res1, e2)
                          else start_image k lo ij pid pthread_create address (res1\<lparr>si_elf_loaded := True\<rparr>) e2)"

definition inject_shellui_stable ::
  "'e kernel \<Rightarrow> 'e loader_api \<Rightarrow> 'e inject_api \<Rightarrow> int \<Rightarrow> bytes \<Rightarrow> bool \<Rightarrow> 'e \<Rightarrow> stable_injection \<times> 'e" where
  "inject_shellui_stable k lo ij shellui_pid elf start e =
     (let res = si_init\<lparr>si_thread_start_requested := start\<rparr>
      in if shellui_pid \<le> 0 \<or> length elf < 64 then (res, e)
         else case k_get_authid k (k_self k) e of
                (original_auth, e1) \<Rightarrow>
                  if original_auth = 0 then (res, e1)
                  else case k_set_authid k (k_self k) kPtraceAuthId e1 of
                         (rc, e2) \<Rightarrow>
                           if rc \<noteq> 0 then (res, e2)
                           else
                             let res1 = res\<lparr>si_auth_changed := True\<rparr>
                             in case pt_attach k shellui_pid e2 of
                                  (rc1, e3) \<Rightarrow>
                                    (case (if rc1 = 0 then
                                             case inject_attached k lo ij shellui_pid elf (res1\<lparr>si_attached := True\<rparr>) e3 of
                                               (res2, e4) \<Rightarrow>
                                                 (case pt_detach k shellui_pid e4 of
                                                    (rc2, e5) \<Rightarrow>
                                                      (res2\<lparr>si_detached := (rc2 = 0)\<rparr>, k_kill_cont k shellui_pid e5))
                                           else (res1, e3)) of
                                       (res3, e6) \<Rightarrow>
                                         (case k_set_authid k (k_self k) original_auth e6 of
                                            (rc3, e7) \<Rightarrow>
                                              if rc3 = 0 then
                                                case k_get_authid k (k_self k) e7 of
                                                  (a, e8) \<Rightarrow> (res3\<lparr>si_auth_restored := (a = original_auth)\<rparr>, e8)
                                              else (res3, e7))))"

section \<open>Facts\<close>

text \<open>The argument block says what the stager reads from it.\<close>

lemma stager_starts_image:
  "commonfps_stable_stager (bootstrap_functions entry args create True) pthread_create = pthread_create entry args"
  "commonfps_stable_stager (bootstrap_functions entry args create False) pthread_create = kPthreadCreateSkippedRc"
  using unat_u64 [of entry] unat_u64 [of args]
  by (simp_all add: commonfps_stable_stager_def bootstrap_functions_def get_u32_def get_u64_def bytes_simps)

text \<open>What the kernel and the debugger do to the credentials and to the shell.\<close>

definition same_maps :: "shell_view \<Rightarrow> shell_view \<Rightarrow> bool" where
  "same_maps v v' \<longleftrightarrow> sv_maps v' = sv_maps v \<and> sv_refused v' = sv_refused v"

definition debugger_contract :: "'e kernel \<Rightarrow> 'e inject_api \<Rightarrow> ('e \<Rightarrow> u64) \<Rightarrow> ('e \<Rightarrow> shell_view) \<Rightarrow> bool" where
  "debugger_contract k ij auth view \<longleftrightarrow>
     (\<forall>e a e'. k_get_authid k (k_self k) e = (a, e') \<longrightarrow> a = auth e \<and> auth e' = auth e \<and> view e' = view e) \<and>
     (\<forall>a e. view (snd (k_set_authid k (k_self k) a e)) = view e) \<and>
     (\<forall>pid e rc e'. pt_attach k pid e = (rc, e') \<longrightarrow> same_maps (view e) (view e') \<and>
        sv_torn (view e') = sv_torn (view e) \<and> (rc = 0 \<longrightarrow> \<not> sv_running (view e'))) \<and>
     (\<forall>pid e rc e'. pt_detach k pid e = (rc, e') \<longrightarrow> same_maps (view e) (view e')) \<and>
     (\<forall>pid e. same_maps (view e) (view (k_kill_cont k pid e))) \<and>
     (\<forall>pid nid e. view (snd (in_resolve ij pid nid e)) = view e)"

lemma debugger_contractD:
  assumes "debugger_contract k ij auth view"
  shows "k_get_authid k (k_self k) e = (a, e') \<Longrightarrow> a = auth e \<and> auth e' = auth e \<and> view e' = view e"
    and "k_set_authid k (k_self k) a e = (rc, e') \<Longrightarrow> view e' = view e"
    and "pt_attach k pid e = (rc, e') \<Longrightarrow> same_maps (view e) (view e') \<and>
      sv_torn (view e') = sv_torn (view e) \<and> (rc = 0 \<longrightarrow> \<not> sv_running (view e'))"
    and "pt_detach k pid e = (rc, e') \<Longrightarrow> same_maps (view e) (view e')"
    and "same_maps (view e) (view (k_kill_cont k pid e))"
    and "in_resolve ij pid nid e = (x, e') \<Longrightarrow> view e' = view e"
proof -
  note c = assms [unfolded debugger_contract_def]
  show "k_get_authid k (k_self k) e = (a, e') \<Longrightarrow> a = auth e \<and> auth e' = auth e \<and> view e' = view e"
    using conjunct1 [OF c] by simp
  show "k_set_authid k (k_self k) a e = (rc, e') \<Longrightarrow> view e' = view e"
    using conjunct1 [OF conjunct2 [OF c], rule_format, of a e] by simp
  show "pt_attach k pid e = (rc, e') \<Longrightarrow> same_maps (view e) (view e') \<and>
      sv_torn (view e') = sv_torn (view e) \<and> (rc = 0 \<longrightarrow> \<not> sv_running (view e'))"
    using conjunct1 [OF conjunct2 [OF conjunct2 [OF c]]] by simp
  show "pt_detach k pid e = (rc, e') \<Longrightarrow> same_maps (view e) (view e')"
    using conjunct1 [OF conjunct2 [OF conjunct2 [OF conjunct2 [OF c]]]] by simp
  show "same_maps (view e) (view (k_kill_cont k pid e))" using c by simp
  show "in_resolve ij pid nid e = (x, e') \<Longrightarrow> view e' = view e"
    using conjunct2 [OF conjunct2 [OF conjunct2 [OF conjunct2 [OF conjunct2 [OF c]]]], rule_format, of pid nid e] by simp
qed

text \<open>Images are mapped where addresses are positive numbers.\<close>

definition user_image :: "'e loader_api \<Rightarrow> bytes \<Rightarrow> bool" where
  "user_image lo elf \<longleftrightarrow> (\<forall>pid n e. fst (lo_pt_mmap lo pid n e) \<noteq> -1 \<longrightarrow> 0 < sint (fst (lo_pt_mmap lo pid n e) + e_entry elf))"

lemma load_entry_positive:
  assumes "user_image lo elf" "commonfps_stable_elfldr_load lo pid elf e = (Some entry, t, e')"
  shows "0 < sint entry"
proof -
  obtain base e1 where m: "lo_pt_mmap lo pid (load_size lo elf) e = (base, e1)" by (cases "lo_pt_mmap lo pid (load_size lo elf) e")
  have "base \<noteq> -1 \<and> entry = base + e_entry elf"
    using assms(2) m by (auto simp: commonfps_stable_elfldr_load_def Let_def split: if_splits prod.splits)
  then show ?thesis using assms(1) m unfolding user_image_def by (metis fst_conv)
qed

text \<open>Flags once set stay set.\<close>

lemma run_stager_flags:
  "run_stager k lo ij pid a b res e = (res', e') \<Longrightarrow>
   si_elf_loaded res' = si_elf_loaded res \<and> si_auth_restored res' = si_auth_restored res \<and> (si_pthread_create_ok res' \<longrightarrow> si_pthread_create_ok res \<or> si_bootstrap_started res' \<and>
     si_pthread_create_rc res' = 0 \<and> si_thread_start_requested res)"
  by (auto simp: run_stager_def Let_def split: prod.splits if_splits)

lemma start_image_flags:
  assumes "start_image k lo ij pid pc entry res e = (res', e')"
  shows "si_elf_loaded res' = si_elf_loaded res \<and> si_auth_restored res' = si_auth_restored res \<and> (si_pthread_create_ok res' \<longrightarrow> si_pthread_create_ok res \<or> si_bootstrap_started res' \<and>
     si_pthread_create_rc res' = 0 \<and> si_thread_start_requested res)"
  using assms by (auto simp: start_image_def Let_def split: prod.splits if_splits option.splits dest!: run_stager_flags)

lemma inject_attached_restored:
  assumes "inject_attached k lo ij pid elf res e = (res', e')"
  shows "si_auth_restored res' = si_auth_restored res"
  using assms by (auto simp: inject_attached_def Let_def split: prod.splits if_splits option.splits dest!: start_image_flags)

text \<open>The steps of the attached controller: without an image the shell has no new mapping.\<close>

lemma inject_attached_clean:
  assumes c: "loader_contract lo view" "debugger_contract k ij auth view" and u: "user_image lo elf"
    and idle: "\<not> sv_running (view e)" "\<not> sv_torn (view e)"
    and run: "inject_attached k lo ij pid elf res e = (res', e')" and "\<not> si_elf_loaded res" "\<not> si_pthread_create_ok res"
  shows "\<not> si_elf_loaded res' \<Longrightarrow> map_settled (view e) (view e')"
    and "si_pthread_create_ok res' \<Longrightarrow> si_elf_loaded res' \<and> si_bootstrap_started res' \<and> si_pthread_create_rc res' = 0 \<and>
      si_thread_start_requested res"
proof -
  obtain pc e1 where 1: "resolve_remote ij pid ''pthread_create'' e = (pc, e1)" by (cases "resolve_remote ij pid ''pthread_create'' e")
  have v1: "view e1 = view e" using 1 debugger_contractD(6) [OF c(2)] by (auto simp: resolve_remote_def split: option.splits)
  obtain entry t e2 where 2: "commonfps_stable_elfldr_load lo pid elf e1 = (entry, t, e2)" by (metis prod_cases3)
  have l: "case entry of None \<Rightarrow> map_settled (view e1) (view e2) | Some a \<Rightarrow> 0 < sint a"
    using load_correct [OF c(1) _ _ 2] load_entry_positive [OF u] 2 idle v1 by (auto split: option.splits)
  have "(\<not> si_elf_loaded res' \<longrightarrow> map_settled (view e) (view e')) \<and> (si_pthread_create_ok res' \<longrightarrow>
      si_elf_loaded res' \<and> si_bootstrap_started res' \<and> si_pthread_create_rc res' = 0 \<and> si_thread_start_requested res)"
  proof (cases "pc = 0")
    case True
    then have "res' = res \<and> e' = e1" using run by (simp add: inject_attached_def 1)
    then show ?thesis using v1 assms(7,8) by (simp add: map_settled_def)
  next
    case pc: False
    define res1 where "res1 = res\<lparr>si_trace_continue_seen := ld_continued t, si_trace_stop_seen := ld_stopped t,
         si_imports_resolved := ld_resolved t, si_imports_unresolved := ld_unresolved t,
         si_first_unresolved := ld_first_unresolved t\<rparr>"
    show ?thesis
    proof (cases entry)
      case None
      then have "res' = res1 \<and> e' = e2" using run pc by (simp add: inject_attached_def 1 2 Let_def res1_def)
      then show ?thesis using l v1 assms(7,8) None by (simp add: res1_def)
    next
      case (Some a)
      then have "start_image k lo ij pid pc a (res1\<lparr>si_elf_loaded := True\<rparr>) e2 = (res', e')"
        using run pc l by (simp add: inject_attached_def 1 2 Let_def res1_def)
      then show ?thesis using assms(8) by (auto simp: res1_def dest!: start_image_flags)
    qed
  qed
  then show "\<not> si_elf_loaded res' \<Longrightarrow> map_settled (view e) (view e')"
    "si_pthread_create_ok res' \<Longrightarrow> si_elf_loaded res' \<and> si_bootstrap_started res' \<and> si_pthread_create_rc res' = 0 \<and>
      si_thread_start_requested res" by blast+
qed

lemma inject_clean:
  assumes c: "loader_contract lo view" "debugger_contract k ij auth view" and u: "user_image lo elf"
    and whole: "\<not> sv_torn (view e)" and run: "inject_shellui_stable k lo ij pid elf start e = (res, e')"
  shows "(\<not> si_elf_loaded res \<longrightarrow> map_settled (view e) (view e')) \<and>
    (si_auth_restored res \<longrightarrow> auth e' = auth e) \<and>
    (si_pthread_create_ok res \<longrightarrow> si_elf_loaded res \<and> si_bootstrap_started res \<and> si_pthread_create_rc res = 0 \<and> start)"
proof -
  obtain a e1 where 1: "k_get_authid k (k_self k) e = (a, e1)" by (cases "k_get_authid k (k_self k) e")
  have v1: "a = auth e" "view e1 = view e" using debugger_contractD(1) [OF c(2) 1] by simp_all
  obtain rc e2 where 2: "k_set_authid k (k_self k) kPtraceAuthId e1 = (rc, e2)" by (cases "k_set_authid k (k_self k) kPtraceAuthId e1")
  have v2: "view e2 = view e1" using debugger_contractD(2) [OF c(2) 2] .
  show ?thesis
  proof (cases "pid \<le> 0 \<or> length elf < 64 \<or> a = 0 \<or> rc \<noteq> 0")
    case True
    have r: "pid \<le> 0 \<or> length elf < 64 \<Longrightarrow> (res, e') = (si_init\<lparr>si_thread_start_requested := start\<rparr>, e)"
      "\<not> (pid \<le> 0 \<or> length elf < 64) \<Longrightarrow> a = 0 \<Longrightarrow> (res, e') = (si_init\<lparr>si_thread_start_requested := start\<rparr>, e1)"
      "\<not> (pid \<le> 0 \<or> length elf < 64) \<Longrightarrow> a \<noteq> 0 \<Longrightarrow> rc \<noteq> 0 \<Longrightarrow>
        (res, e') = (si_init\<lparr>si_thread_start_requested := start\<rparr>, e2)"
      using run by (simp_all only: inject_shellui_stable_def 1 2 Let_def prod.case if_True if_False simp_thms)
    then have "\<exists>f. (res, e') = (si_init\<lparr>si_thread_start_requested := start\<rparr>, f) \<and> view f = view e"
      using True v1(2) v2 by metis
    then have "\<not> si_auth_restored res \<and> \<not> si_pthread_create_ok res \<and> view e' = view e"
      by (auto simp: si_init_def)
    then show ?thesis by (simp add: map_settled_def)
  next
    case go: False
    define res1 where "res1 = si_init\<lparr>si_thread_start_requested := start, si_auth_changed := True\<rparr>"
    obtain rc1 e3 where 3: "pt_attach k pid e2 = (rc1, e3)" by (cases "pt_attach k pid e2")
    have v3: "same_maps (view e2) (view e3)" "sv_torn (view e3) = sv_torn (view e2)" "rc1 = 0 \<Longrightarrow> \<not> sv_running (view e3)"
      using debugger_contractD(3) [OF c(2) 3] by simp_all
    obtain res2 e4 where 4: "inject_attached k lo ij pid elf (res1\<lparr>si_attached := True\<rparr>) e3 = (res2, e4)"
      by (cases "inject_attached k lo ij pid elf (res1\<lparr>si_attached := True\<rparr>) e3")
    obtain rc2 e5 where 5: "pt_detach k pid e4 = (rc2, e5)" by (cases "pt_detach k pid e4")
    obtain res3 e6 where 6: "(if rc1 = 0 then (res2\<lparr>si_detached := (rc2 = 0)\<rparr>, k_kill_cont k pid e5) else (res1, e3)) = (res3, e6)"
      by fastforce
    obtain rc3 e7 where 7: "k_set_authid k (k_self k) a e6 = (rc3, e7)" by (cases "k_set_authid k (k_self k) a e6")
    obtain b e8 where 8: "k_get_authid k (k_self k) e7 = (b, e8)" by (cases "k_get_authid k (k_self k) e7")
    have v78: "view e7 = view e6" "b = auth e7" "auth e8 = auth e7" "view e8 = view e7"
      using debugger_contractD(2) [OF c(2) 7] debugger_contractD(1) [OF c(2) 8] by simp_all
    have res: "(res, e') = (if rc3 = 0 then (res3\<lparr>si_auth_restored := (b = a)\<rparr>, e8) else (res3, e7))"
      using run go 6 7 8 by (simp add: inject_shellui_stable_def 1 2 3 4 [unfolded res1_def] 5 Let_def split: if_splits) (auto simp: res1_def)
    have "(\<not> si_elf_loaded res3 \<longrightarrow> map_settled (view e) (view e6)) \<and> \<not> si_auth_restored res1 \<and>
        (si_pthread_create_ok res3 \<longrightarrow> si_elf_loaded res3 \<and> si_bootstrap_started res3 \<and> si_pthread_create_rc res3 = 0 \<and> start)"
    proof (cases "rc1 = 0")
      case True
      have "\<not> sv_running (view e3)" "\<not> sv_torn (view e3)" using True v3 v2 v1 whole by simp_all
      note ia = inject_attached_clean [OF c u this 4]
      have d: "same_maps (view e4) (view (k_kill_cont k pid e5))"
        using debugger_contractD(4) [OF c(2) 5] debugger_contractD(5) [OF c(2), of e5 pid] by (simp add: same_maps_def)
      have "res3 = res2\<lparr>si_detached := (rc2 = 0)\<rparr>" "e6 = k_kill_cont k pid e5" using 6 True by auto
      then show ?thesis using ia d v3(1) v2 v1(2) by (simp add: res1_def si_init_def map_settled_def same_maps_def)
    next
      case False
      then show ?thesis using 6 v3(1) v2 v1 by (auto simp: res1_def si_init_def map_settled_def same_maps_def)
    qed
    moreover have "\<not> si_auth_restored res3"
      using inject_attached_restored [OF 4] 6 by (auto simp: res1_def si_init_def split: if_splits)
    ultimately show ?thesis using res v78 v1 by (auto split: if_splits)
  qed
qed

section \<open>Properties\<close>

text \<open>
  (C12) The injection cleans up after itself.  When no image was loaded, whatever step failed, the
  shell has exactly the mappings it had, unless it refused to take the one of the image back, a
  result the loader throws away: then it has that one more.  When the credentials are reported as
  restored, the controller has the identifier it started with.  A thread is reported as created
  only in a loaded image whose stager ran and answered zero to a request to start it.
\<close>

theorem injection_clean:
  assumes "loader_contract lo view" "debugger_contract k ij auth view" "user_image lo elf" "\<not> sv_torn (view e)"
    and "inject_shellui_stable k lo ij pid elf start e = (res, e')"
  shows "(\<not> si_elf_loaded res \<longrightarrow>
      sv_maps (view e') = sv_maps (view e) \<and> sv_refused (view e') = sv_refused (view e) \<or>
      sv_refused (view e') = Suc (sv_refused (view e)) \<and>
        (\<exists>base. base \<notin> sv_maps (view e) \<and> sv_maps (view e') = insert base (sv_maps (view e)))) \<and>
    (si_auth_restored res \<longrightarrow> auth e' = auth e) \<and>
    (si_pthread_create_ok res \<longrightarrow> si_elf_loaded res \<and> si_bootstrap_started res \<and> si_pthread_create_rc res = 0 \<and> start)"
  using inject_clean [OF assms] by (simp add: map_settled_def)

section \<open>An example\<close>

text \<open>The debugger beside the loader of the example: the environment is the identifier and the shell.\<close>

type_synonym demo_world = "u64 \<times> shell_view"

definition in_shell :: "(shell_view \<Rightarrow> 'a \<times> shell_view) \<Rightarrow> demo_world \<Rightarrow> 'a \<times> demo_world" where
  "in_shell f w = (case f (snd w) of (r, v) \<Rightarrow> (r, (fst w, v)))"

definition world_loader :: "demo_world loader_api" where
  "world_loader =
     \<lparr>lo_pt_load = lo_pt_load demo_loader, lo_pflags = lo_pflags demo_loader, lo_trunc_pg = id, lo_round_pg = id,
      lo_pt_mmap = \<lambda>pid n. in_shell (lo_pt_mmap demo_loader pid n),
      lo_pt_munmap = \<lambda>pid b n. in_shell (lo_pt_munmap demo_loader pid b n),
      lo_local_mmap = \<lambda>n. in_shell (lo_local_mmap demo_loader n), lo_local_munmap = \<lambda>n w. w,
      lo_pt_continue = \<lambda>pid. in_shell (lo_pt_continue demo_loader pid), lo_kill_stop = \<lambda>pid. in_shell (lo_kill_stop demo_loader pid),
      lo_waitpid = \<lambda>pid. in_shell (lo_waitpid demo_loader pid),
      lo_dynlib_handle = \<lambda>pid lib. in_shell (lo_dynlib_handle demo_loader pid lib),
      lo_dlsym = \<lambda>pid h name. in_shell (lo_dlsym demo_loader pid h name),
      lo_pt_copyin = \<lambda>pid bs a. in_shell (lo_pt_copyin demo_loader pid bs a),
      lo_kernel_mprotect = \<lambda>pid a n p. in_shell (lo_kernel_mprotect demo_loader pid a n p),
      lo_pt_mprotect = \<lambda>pid a n p. in_shell (lo_pt_mprotect demo_loader pid a n p),
      lo_pt_msync = \<lambda>pid a n. in_shell (lo_pt_msync demo_loader pid a n)\<rparr>"

definition world_kernel :: "demo_world kernel" where
  "world_kernel =
     \<lparr>k_self = 1, k_get_authid = \<lambda>pid w. (fst w, w), k_set_authid = \<lambda>pid a w. (0, (a, snd w)),
      k_get_caps = \<lambda>pid w. ((0, []), w), k_set_caps = \<lambda>pid caps w. (0, w),
      k_mprotect = \<lambda>pid a n p w. (0, w), k_get_protection = \<lambda>pid a n w. (5, w),
      mdbg_read_call = \<lambda>pid a n w. (\<lparr>md_rc = -1, md_errno = 0, md_status = 0, md_length = 0, md_data = []\<rparr>, w),
      mdbg_write_call = \<lambda>pid a d w. (\<lparr>md_rc = -1, md_errno = 0, md_status = 0, md_length = 0, md_data = []\<rparr>, w),
      mdbg_copyout = \<lambda>pid a n w. ((-1, []), w), mdbg_copyin = \<lambda>pid d a w. (-1, w),
      pt_attach = \<lambda>pid w. (0, (fst w, (snd w)\<lparr>sv_running := False\<rparr>)),
      pt_detach = \<lambda>pid w. (0, (fst w, (snd w)\<lparr>sv_running := True\<rparr>)),
      pt_copyout = \<lambda>pid a n w. ((0, replicate n 0), w), pt_copyin = \<lambda>pid d a w. ((0, 0), w),
      k_kill_cont = \<lambda>pid w. w\<rparr>"

definition world_injector :: "demo_world inject_api" where
  "world_injector =
     \<lparr>in_getregs = \<lambda>pid w. ((0, \<lparr>rg_rip = 1, rg_rdi = 0, rg_rsi = 0, rg_rdx = 0, rg_rcx = 0, rg_r8 = 0, rg_r9 = 0, rg_rax = 0,
        rg_others = []\<rparr>), w), in_setregs = \<lambda>pid r w. (0, w),
      in_nid = \<lambda>s. Some [1], in_resolve = \<lambda>pid nid w. (0x400, w), in_payload_args = \<lambda>pid w. (0x800, w), in_stager = [0xcc]\<rparr>"

lemma world_calls:
  "lo_pt_mmap world_loader pid n w =
     (if 0x1000 \<in> sv_maps (snd w) then (-1, w) else (0x1000, (fst w, (snd w)\<lparr>sv_maps := insert 0x1000 (sv_maps (snd w))\<rparr>)))"
  "k_get_authid world_kernel pid w = (fst w, w)" "k_set_authid world_kernel pid a w = (0, (a, snd w))"
  "pt_attach world_kernel pid w = (0, (fst w, (snd w)\<lparr>sv_running := False\<rparr>))"
  "pt_detach world_kernel pid w = (0, (fst w, (snd w)\<lparr>sv_running := True\<rparr>))"
  "k_kill_cont world_kernel pid w = w" "in_nid world_injector s = Some [1]" "in_resolve world_injector pid nid w = (0x400, w)"
  by (auto simp: world_loader_def world_kernel_def world_injector_def demo_loader_def in_shell_def split: prod.splits)

lemma world_contracts:
  "loader_contract world_loader snd" "debugger_contract world_kernel world_injector fst snd" "user_image world_loader demo_elf"
proof -
  have "maps_calls world_loader snd" "trace_calls world_loader snd" "write_calls world_loader snd"
    by (auto simp: maps_calls_def trace_calls_def write_calls_def world_loader_def demo_loader_def in_shell_def kept_or_stopped_def split: if_splits)
  then show "loader_contract world_loader snd" by (simp add: loader_contract_def)
  show "debugger_contract world_kernel world_injector fst snd"
    by (auto simp: debugger_contract_def world_calls same_maps_def)
  show "user_image world_loader demo_elf" by (auto simp: user_image_def world_calls demo_elf_header)
qed

text \<open>A second copy of the image finds no place: nothing is mapped and the identifier is back.\<close>

theorem injection_clean_witness:
  "\<exists>res w. inject_shellui_stable world_kernel world_loader world_injector 40 demo_elf True
      (0x1234, \<lparr>sv_running = True, sv_torn = False, sv_maps = {0x1000}, sv_refused = 0\<rparr>) = (res, w)
    \<and> \<not> si_elf_loaded res \<and> sv_maps (snd w) = {0x1000} \<and> fst w = 0x1234"
proof -
  let ?run = "inject_shellui_stable world_kernel world_loader world_injector 40 demo_elf True
      (0x1234, \<lparr>sv_running = True, sv_torn = False, sv_maps = {0x1000}, sv_refused = 0\<rparr>)"
  have l: "fst (commonfps_stable_elfldr_load world_loader 40 demo_elf (a, \<lparr>sv_running = False, sv_torn = False, sv_maps = {0x1000}, sv_refused = 0\<rparr>)) = None
      \<and> snd (snd (commonfps_stable_elfldr_load world_loader 40 demo_elf (a, \<lparr>sv_running = False, sv_torn = False, sv_maps = {0x1000}, sv_refused = 0\<rparr>))) =
        (a, \<lparr>sv_running = False, sv_torn = False, sv_maps = {0x1000}, sv_refused = 0\<rparr>)" for a
    by (simp add: commonfps_stable_elfldr_load_def demo_elf_header demo_valid world_calls Let_def)
  have n: "length demo_elf = 208" by (simp add: demo_elf_def)
  have r: "\<not> si_elf_loaded (fst ?run) \<and> si_auth_restored (fst ?run) \<and> sv_refused (snd (snd ?run)) = 0"
    using l [of kPtraceAuthId]
    by (cases "commonfps_stable_elfldr_load world_loader 40 demo_elf (kPtraceAuthId, \<lparr>sv_running = False, sv_torn = False, sv_maps = {0x1000}, sv_refused = 0\<rparr>)")
      (simp add: inject_shellui_stable_def inject_attached_def resolve_remote_def n world_calls si_init_def Let_def)
  obtain res w where run: "?run = (res, w)" by (cases ?run)
  from injection_clean [OF world_contracts _ run] r run show ?thesis by auto
qed

end
