(* ===== verification/Text_Format.thy ===== *)
theory Text_Format
  imports Decimal Floats
begin

text \<open>
  The text services of the C and C++ standard library that the configuration file and the
  settings page use: white space, lines, cutting at a character, hexadecimal digits,
  \<^verbatim>\<open>strtof\<close> and the float output of a stream in its default state.  Text is a
  list of characters; a character above 127 is neither white space nor a digit, as in the C
  locale.
\<close>

section \<open>Characters and lines\<close>

definition isspace :: "char \<Rightarrow> bool" where
  "isspace c \<longleftrightarrow> c \<in> {CHR 0x09, CHR 0x0A, CHR 0x0B, CHR 0x0C, CHR 0x0D, CHR '' ''}"

definition trim :: "string \<Rightarrow> string" where
  "trim value = rev (dropWhile isspace (rev (dropWhile isspace value)))"

text \<open>The part before the first \<open>c\<close> and the part behind it.\<close>

definition cut_at :: "char \<Rightarrow> string \<Rightarrow> (string \<times> string) option" where
  "cut_at c s = (if c \<in> set s then Some (takeWhile (\<lambda>x. x \<noteq> c) s, tl (dropWhile (\<lambda>x. x \<noteq> c) s)) else None)"

text \<open>What repeated \<^verbatim>\<open>std::getline\<close> yields: a last line without a line feed counts.\<close>

function text_lines :: "string \<Rightarrow> string list" where
  "text_lines s =
     (if s = [] then []
      else case cut_at (CHR 0x0A) s of None \<Rightarrow> [s] | Some (l, r) \<Rightarrow> l # text_lines r)"
  by auto

lemma cut_at_shorter: "cut_at c s = Some (a, b) \<Longrightarrow> length b < length s"
proof -
  assume cut: "cut_at c s = Some (a, b)"
  then have "c \<in> set s" and b: "b = tl (dropWhile (\<lambda>x. x \<noteq> c) s)"
    by (auto simp: cut_at_def split: if_splits)
  then have "dropWhile (\<lambda>x. x \<noteq> c) s \<noteq> []" by (simp add: dropWhile_eq_Nil_conv)
  with b have "length b < length (dropWhile (\<lambda>x. x \<noteq> c) s)" by simp
  also have "\<dots> \<le> length s" by (rule length_dropWhile_le)
  finally show ?thesis .
qed

termination text_lines
  by (relation "measure length") (auto dest: cut_at_shorter)

declare text_lines.simps [simp del]

text \<open>The characters up to a NUL: what a C function sees of a string.\<close>

definition c_str :: "string \<Rightarrow> string" where
  "c_str s = takeWhile (\<lambda>c. c \<noteq> CHR 0x00) s"

section \<open>Hexadecimal digits\<close>

text \<open>The value of a hexadecimal digit, or -1.\<close>

definition hex :: "char \<Rightarrow> int" where
  "hex c =
     (let n = int (of_char c)
      in if 48 \<le> n \<and> n \<le> 57 then n - 48
         else if 97 \<le> n \<and> n \<le> 102 then n - 97 + 10
         else if 65 \<le> n \<and> n \<le> 70 then n - 65 + 10
         else -1)"

definition is_hex :: "char \<Rightarrow> bool" where
  "is_hex c \<longleftrightarrow> 0 \<le> hex c"

text \<open>The value of a run of digits in a base.\<close>

definition base_value :: "nat \<Rightarrow> string \<Rightarrow> nat" where
  "base_value base s = foldl (\<lambda>n c. base * n + nat (hex c)) 0 s"

definition hex_char :: "nat \<Rightarrow> char" where
  "hex_char d = (if d < 10 then char_of (48 + d) else char_of (65 + d - 10))"

text \<open>\<^verbatim>\<open>std::hex << std::uppercase\<close>, and a field of fixed width filled with zeros.\<close>

fun hex_text :: "nat \<Rightarrow> string" where
  "hex_text n = (if n < 16 then [hex_char n] else hex_text (n div 16) @ [hex_char (n mod 16)])"

declare hex_text.simps [simp del]

definition zero_filled :: "nat \<Rightarrow> string \<Rightarrow> string" where
  "zero_filled w s = replicate (w - length s) (CHR ''0'') @ s"

section \<open>Reading a float\<close>

text \<open>Digits with an optional point, at least one digit.\<close>

definition scan_mantissa :: "(char \<Rightarrow> bool) \<Rightarrow> string \<Rightarrow> (string \<times> string \<times> string) option" where
  "scan_mantissa digit s =
     (let whole = takeWhile digit s; r = dropWhile digit s;
          (fraction, r') = (if r \<noteq> [] \<and> hd r = CHR ''.'' then (takeWhile digit (tl r), dropWhile digit (tl r))
                            else ([], r))
      in if whole = [] \<and> fraction = [] then None else Some (whole, fraction, r'))"

text \<open>An exponent counts only when a digit follows its mark and sign.\<close>

definition scan_exponent :: "char list \<Rightarrow> string \<Rightarrow> int \<times> string" where
  "scan_exponent marks s =
     (if s \<noteq> [] \<and> hd s \<in> set marks then
        let r = tl s;
            neg = (r \<noteq> [] \<and> hd r = CHR ''-'');
            r1 = (if r \<noteq> [] \<and> (hd r = CHR ''-'' \<or> hd r = CHR ''+'') then tl r else r);
            ds = takeWhile is_digit r1
        in if ds = [] then (0, s)
           else ((if neg then - int (digits_value ds) else int (digits_value ds)), dropWhile is_digit r1)
      else (0, s))"

definition lower :: "char \<Rightarrow> char" where
  "lower c = (let n = of_char c :: nat in if 65 \<le> n \<and> n \<le> 90 then char_of (n + 32) else c)"

definition has_prefix :: "string \<Rightarrow> string \<Rightarrow> bool" where
  "has_prefix p s \<longleftrightarrow> map lower (take (length p) s) = p"

text \<open>A number without its sign: the exact value, rounded once.  \<open>None\<close> is no number.\<close>

definition scan_decimal :: "bool \<Rightarrow> string \<Rightarrow> (fl \<times> string) option" where
  "scan_decimal neg s =
     (case scan_mantissa is_digit s of
        None \<Rightarrow> None
      | Some (whole, fraction, r) \<Rightarrow>
          (case scan_exponent ''eE'' r of
             (x, r') \<Rightarrow>
               Some (round32 neg (of_nat (digits_value (whole @ fraction)) * 10 powi (x - int (length fraction))), r')))"

definition scan_hexadecimal :: "bool \<Rightarrow> string \<Rightarrow> (fl \<times> string) option" where
  "scan_hexadecimal neg s =
     (case scan_mantissa is_hex s of
        None \<Rightarrow> None
      | Some (whole, fraction, r) \<Rightarrow>
          (case scan_exponent ''pP'' r of
             (x, r') \<Rightarrow>
               Some (round32 neg (of_nat (base_value 16 (whole @ fraction)) * 2 powi (x - 4 * int (length fraction))), r')))"

definition strtof :: "string \<Rightarrow> (fl \<times> string) option" where
  "strtof text =
     (let s = dropWhile isspace text;
          neg = (s \<noteq> [] \<and> hd s = CHR ''-'');
          s1 = (if s \<noteq> [] \<and> (hd s = CHR ''-'' \<or> hd s = CHR ''+'') then tl s else s)
      in if has_prefix ''infinity'' s1 then Some (Infinity neg, drop 8 s1)
         else if has_prefix ''inf'' s1 then Some (Infinity neg, drop 3 s1)
         else if has_prefix ''nan'' s1 then Some (NaN, drop 3 s1)
         else if has_prefix ''0x'' s1 \<and> scan_hexadecimal neg (drop 2 s1) \<noteq> None
         then scan_hexadecimal neg (drop 2 s1)
         else scan_decimal neg s1)"

section \<open>Writing a float\<close>

text \<open>
  The decimal exponent of a positive magnitude; the search covers every value a float can
  have, \<open>2 powi -149\<close> to \<open>2 powi 128\<close>.
\<close>

definition decimal_exponent :: "rat \<Rightarrow> int" where
  "decimal_exponent m =
     (case find (\<lambda>x. 10 powi x \<le> m) (rev [-60..60]) of Some x \<Rightarrow> x | None \<Rightarrow> -60)"

definition without_zeros :: "string \<Rightarrow> string" where
  "without_zeros s = rev (dropWhile (\<lambda>c. c = CHR ''0'') (rev s))"

definition with_fraction :: "string \<Rightarrow> string \<Rightarrow> string" where
  "with_fraction whole fraction =
     (let f = without_zeros fraction in if f = [] then whole else whole @ CHR ''.'' # f)"

text \<open>Six significant digits in the shorter of the two notations, as \<^verbatim>\<open>%g\<close>.\<close>

definition magnitude_text :: "rat \<Rightarrow> string" where
  "magnitude_text m =
     (if m = 0 then ''0''
      else
        let x0 = decimal_exponent m;
            n0 = nat (round_half_even (m * 10 powi (5 - x0)));
            (n, x) = (if n0 = 1000000 then (100000, x0 + 1) else (n0, x0));
            ds = decimal n
        in if 0 \<le> x \<and> x < 6 then with_fraction (take (nat x + 1) ds) (drop (nat x + 1) ds)
           else if -4 \<le> x \<and> x < 0 then with_fraction ''0'' (replicate (nat (- x) - 1) (CHR ''0'') @ ds)
           else with_fraction (take 1 ds) (drop 1 ds) @ ''e'' @ (if x < 0 then ''-'' else ''+'')
                @ zero_filled 2 (decimal (nat \<bar>x\<bar>)))"

fun float_text :: "fl \<Rightarrow> string" where
  "float_text NaN = ''nan''"
| "float_text (Infinity s) = (if s then ''-inf'' else ''inf'')"
| "float_text (Fin s m) = (if s then ''-'' else []) @ magnitude_text m"

section \<open>Facts: text\<close>

lemma trim_id: "s = [] \<or> \<not> isspace (hd s) \<and> \<not> isspace (last s) \<Longrightarrow> trim s = s"
proof (cases s rule: rev_cases)
  case (snoc ys y)
  assume "s = [] \<or> \<not> isspace (hd s) \<and> \<not> isspace (last s)"
  with snoc have "dropWhile isspace s = s" "\<not> isspace y" by (auto simp: dropWhile_eq_self_iff)
  with snoc show ?thesis by (simp add: trim_def)
qed (simp add: trim_def)

lemma cut_at_append: "c \<notin> set a \<Longrightarrow> cut_at c (a @ c # b) = Some (a, b)"
proof -
  assume "c \<notin> set a"
  then have "\<forall>x\<in>set a. x \<noteq> c" by auto
  then have "takeWhile (\<lambda>x. x \<noteq> c) (a @ c # b) = a" "dropWhile (\<lambda>x. x \<noteq> c) (a @ c # b) = c # b"
    by (auto simp: takeWhile_append dropWhile_append)
  then show ?thesis by (simp add: cut_at_def)
qed

lemma cut_at_parts: "cut_at c s = Some (a, b) \<Longrightarrow> s = a @ c # b \<and> c \<notin> set a"
proof -
  assume cut: "cut_at c s = Some (a, b)"
  then have c: "c \<in> set s" and ab: "a = takeWhile (\<lambda>x. x \<noteq> c) s" "b = tl (dropWhile (\<lambda>x. x \<noteq> c) s)"
    by (auto simp: cut_at_def split: if_splits)
  then have ne: "dropWhile (\<lambda>x. x \<noteq> c) s \<noteq> []" by (simp add: dropWhile_eq_Nil_conv)
  then have "hd (dropWhile (\<lambda>x. x \<noteq> c) s) = c" using hd_dropWhile [of "\<lambda>x. x \<noteq> c" s] by simp
  with ne ab have "dropWhile (\<lambda>x. x \<noteq> c) s = c # b" by (metis list.collapse)
  then have "s = a @ c # b" using ab takeWhile_dropWhile_id [of "\<lambda>x. x \<noteq> c" s] by simp
  moreover have "c \<notin> set a" unfolding ab by (auto dest: set_takeWhileD)
  ultimately show ?thesis by simp
qed

lemma text_lines_Nil [simp]: "text_lines [] = []"
  by (simp add: text_lines.simps)

lemma text_lines_cons: "CHR 0x0A \<notin> set l \<Longrightarrow> text_lines (l @ CHR 0x0A # r) = l # text_lines r"
  by (subst text_lines.simps) (simp add: cut_at_append)

section \<open>Facts: digits\<close>

lemma of_char_less: "(of_char c :: nat) < 256"
  by (metis of_char_mod_256 mod_less_divisor zero_less_numeral)

lemma char_eq_of_char: "c = d \<longleftrightarrow> (of_char c :: nat) = of_char d"
  by (metis of_char_eq_iff)

lemma is_digit_not:
  assumes "is_digit c" shows "\<not> isspace c" "c \<noteq> CHR ''-''" "c \<noteq> CHR ''+''" "c \<noteq> CHR ''.''" "c \<noteq> CHR ''x''" "c \<noteq> CHR 0x0A"
    "c \<noteq> CHR 0x00" "c \<noteq> CHR ''#''"
  using assms by (auto simp: is_digit_def isspace_def)

lemma decimal_base: "n < 10 \<Longrightarrow> decimal n = [digit_char n]"
  by (simp add: decimal.simps [of n])

lemma decimal_step: "10 \<le> n \<Longrightarrow> decimal n = decimal (n div 10) @ [digit_char (n mod 10)]"
  by (simp add: decimal.simps [of n])

lemma decimal_nonempty [simp]: "decimal n \<noteq> []"
  using decimal_digits by blast

lemma decimal_is_digit: "c \<in> set (decimal n) \<Longrightarrow> is_digit c"
  using decimal_digits [of n] by (simp add: list_all_iff)

lemma digit_char_zero: "digit_char 0 = CHR ''0''"
  by code_simp

lemma decimal_times_power: "0 < n \<Longrightarrow> decimal (n * 10 ^ j) = decimal n @ replicate j (CHR ''0'')"
proof (induction j)
  case (Suc j)
  have "decimal (n * 10 ^ j * 10) = decimal (n * 10 ^ j) @ [digit_char 0]"
    using Suc.prems by (subst decimal_step) auto
  then show ?case using Suc
    by (simp add: digit_char_zero replicate_append_same ac_simps)
qed simp

lemma decimal_length: "0 < n \<Longrightarrow> 10 ^ (length (decimal n) - 1) \<le> n \<and> n < 10 ^ length (decimal n)"
proof (induction n rule: decimal.induct)
  case (1 n)
  show ?case
  proof (cases "n < 10")
    case False
    let ?k = "length (decimal (n div 10))"
    have "0 < ?k" by simp
    have b: "10 ^ (?k - 1) \<le> n div 10" "n div 10 < 10 ^ ?k" using 1 False by auto
    from b(1) have "10 ^ (?k - 1) * 10 \<le> n" by (simp add: less_eq_div_iff_mult_less_eq)
    moreover from b(2) have "n < 10 ^ ?k * 10" by (simp add: div_less_iff_less_mult)
    moreover have "(10 :: nat) ^ (?k - 1) * 10 = 10 ^ ?k"
      using power_minus_mult [OF \<open>0 < ?k\<close>, of "10 :: nat"] .
    ultimately show ?thesis using False by (simp add: decimal_step mult.commute)
  qed (use 1 in \<open>simp add: decimal_base\<close>)
qed

lemma hex_char_facts: "d < 16 \<Longrightarrow> hex (hex_char d) = int d"
  by (auto simp: hex_def hex_char_def of_char_of)

lemma hex_digit_not:
  assumes "is_hex c" shows "\<not> isspace c" "c \<noteq> CHR ''#''" "c \<noteq> CHR 0x0A" "c \<noteq> CHR 0x00"
  using assms by (auto simp: is_hex_def hex_def isspace_def)

lemma hex_text_digits: "list_all is_hex (hex_text n) \<and> hex_text n \<noteq> []"
proof (induction n rule: hex_text.induct)
  case (1 n)
  have "is_hex (hex_char (n mod 16))" "n < 16 \<Longrightarrow> is_hex (hex_char n)" by (simp_all add: is_hex_def hex_char_facts)
  with 1 show ?case by (subst (1 2) hex_text.simps) simp
qed

lemma hex_text_value: "base_value 16 (hex_text n) = n"
proof (induction n rule: hex_text.induct)
  case (1 n)
  then show ?case by (subst hex_text.simps) (auto simp: base_value_def hex_char_facts)
qed

lemma hex_text_length: "n < 16 ^ k \<Longrightarrow> 0 < k \<Longrightarrow> length (hex_text n) \<le> k"
proof (induction k arbitrary: n)
  case (Suc k)
  show ?case
  proof (cases "n < 16")
    case False
    then have "n div 16 < 16 ^ k" using Suc.prems by (simp add: div_less_iff_less_mult mult.commute)
    moreover from this False have "0 < k" by (cases k) auto
    ultimately have "length (hex_text (n div 16)) \<le> k" by (rule Suc.IH)
    then show ?thesis using False by (subst hex_text.simps) simp
  qed (simp add: hex_text.simps)
qed simp

lemma zero_filled_hex:
  assumes "n < 16 ^ w" "0 < w"
  shows "length (zero_filled w (hex_text n)) = w" "list_all is_hex (zero_filled w (hex_text n))"
    "base_value 16 (zero_filled w (hex_text n)) = n"
proof -
  have zeros: "foldl (\<lambda>n c. 16 * n + nat (hex c)) 0 (replicate k (CHR ''0'')) = 0" for k
    by (induction k) (simp_all add: hex_def)
  show "base_value 16 (zero_filled w (hex_text n)) = n"
    using hex_text_value [of n] by (simp add: base_value_def zero_filled_def zeros)
qed (use hex_text_length [OF assms] hex_text_digits [of n] in \<open>auto simp: zero_filled_def list_all_iff is_hex_def hex_def\<close>)


section \<open>Facts: floats\<close>

lemma round32_nat:
  assumes "n \<le> 16777216" shows "round32 False (of_nat n) = Fin False (of_nat n)"
proof -
  have m: "round_mag 24 (-126) (of_nat n) = of_nat n"
    by (rule round_mag_nat) (use assms in simp_all)
  have "floor_log2 (of_nat n) \<le> 127" if "n \<noteq> 0"
  proof -
    have "(of_nat n :: rat) \<le> of_nat 16777216" using assms by (simp only: of_nat_le_iff)
    also have "\<dots> < 2 powi 25" by (simp add: power_int_def)
    finally have "floor_log2 (of_nat n) < 25" using that by (intro floor_log2_less) simp_all
    then show ?thesis by simp
  qed
  then show ?thesis by (auto simp: round32_def round_to_def m Let_def)
qed

lemma round32_zero: "round32 s 0 = Fin s 0"
  by (simp add: round32_def round_to_def)

lemma scan_digits:
  assumes "list_all is_digit ds" "ds \<noteq> []"
  shows "scan_mantissa is_digit ds = Some (ds, [], [])"
  using assms by (simp add: scan_mantissa_def list_all_iff takeWhile_eq_all_conv [THEN iffD2] dropWhile_eq_Nil_conv [THEN iffD2])

lemma lower_digit: "is_digit c \<Longrightarrow> lower c = c"
  by (auto simp: lower_def is_digit_def Let_def)

lemma strtof_digits:
  assumes "list_all is_digit ds" "ds \<noteq> []"
  shows "strtof ds = Some (round32 False (of_nat (digits_value ds)), [])"
proof -
  obtain c cs where ds: "ds = c # cs" using assms(2) by (cases ds) auto
  then have c: "is_digit c" using assms(1) by simp
  have prefix: "\<not> has_prefix ''infinity'' ds" "\<not> has_prefix ''inf'' ds" "\<not> has_prefix ''nan'' ds"
    using c by (auto simp: ds has_prefix_def lower_digit is_digit_def)
  have hex: "\<not> has_prefix ''0x'' ds"
    using assms(1) by (cases cs) (auto simp: ds has_prefix_def lower_digit is_digit_def)
  have skip: "dropWhile isspace ds = ds" "hd ds \<noteq> CHR ''-''" "hd ds \<noteq> CHR ''+''"
    using is_digit_not [OF c] by (simp_all add: ds)
  show ?thesis
    by (simp add: strtof_def Let_def skip prefix hex scan_decimal_def scan_digits [OF assms] scan_exponent_def)
qed

lemma find_split: "\<forall>y\<in>set xs. \<not> P y \<Longrightarrow> P z \<Longrightarrow> find P (xs @ z # zs) = Some z"
  by (induction xs) auto

lemma decimal_exponent_eq:
  assumes "10 powi x \<le> m" "m < 10 powi (x + 1)" "-60 \<le> x" "x \<le> 60"
  shows "decimal_exponent m = x"
proof -
  have "[-60..60] = [-60..x - 1] @ x # [x + 1..60]"
    using assms(3,4) upto_split2 [of "-60" x 60] upto_rec2 [of "-60" x] by simp
  then have "rev [-60..60] = rev [x + 1..60] @ x # rev [-60..x - 1]" by simp
  moreover have "\<not> 10 powi y \<le> m" if "y \<in> set (rev [x + 1..60])" for y
  proof -
    have "(10 :: rat) powi (x + 1) \<le> 10 powi y" using that by (intro power_int_increasing) auto
    with assms(2) show ?thesis by simp
  qed
  ultimately have "find (\<lambda>x. 10 powi x \<le> m) (rev [-60..60]) = Some x"
    using assms(1) by (metis find_split)
  then show ?thesis by (simp add: decimal_exponent_def)
qed

lemma without_zeros_replicate [simp]: "without_zeros (replicate k (CHR ''0'')) = []"
  by (simp add: without_zeros_def)

lemma magnitude_text_nat:
  assumes "n < 1000000" shows "magnitude_text (of_nat n) = decimal n"
proof (cases "n = 0")
  case False
  define k where "k = length (decimal n)"
  have b: "10 ^ (k - 1) \<le> n" "n < 10 ^ k" using decimal_length [of n] False by (auto simp: k_def)
  have k: "1 \<le> k" by (simp add: k_def Suc_leI)
  have "(10 :: nat) ^ (k - 1) < 10 ^ 6" using b(1) assms by simp
  then have "k - 1 < 6" by (rule power_less_imp_less_exp [rotated]) simp
  then have k6: "k \<le> 6" by simp
  have x: "decimal_exponent (of_nat n) = int k - 1"
  proof (rule decimal_exponent_eq)
    have "(10 :: rat) powi (int k - 1) = of_nat (10 ^ (k - 1))"
      using k by (simp add: power_int_def nat_diff_distrib)
    then show "10 powi (int k - 1) \<le> (of_nat n :: rat)" using b(1) by (simp only: of_nat_le_iff)
    have "(10 :: rat) powi (int k - 1 + 1) = of_nat (10 ^ k)" by (simp add: power_int_def)
    then show "(of_nat n :: rat) < 10 powi (int k - 1 + 1)" using b(2) by (simp only: of_nat_less_iff)
  qed (use k k6 in auto)
  have "of_nat n * 10 powi (6 - int k) = (of_int (int (n * 10 ^ (6 - k))) :: rat)"
    using k6 by (simp add: power_int_def nat_diff_distrib)
  then have r: "nat (round_half_even (of_nat n * 10 powi (6 - int k))) = n * 10 ^ (6 - k)"
    by (simp only: round_half_even_int nat_int)
  have "n * 10 ^ (6 - k) < 10 ^ k * 10 ^ (6 - k)" using b(2) by simp
  also have "\<dots> = 1000000" using k6 by (simp flip: power_add)
  finally have "n * 10 ^ (6 - k) \<noteq> 1000000" by simp
  then have "magnitude_text (of_nat n) = with_fraction (take k (decimal (n * 10 ^ (6 - k)))) (drop k (decimal (n * 10 ^ (6 - k))))"
    using False k k6 by (simp add: magnitude_text_def Let_def r x nat_diff_distrib)
  then show ?thesis using False by (simp add: decimal_times_power with_fraction_def k_def)
qed (simp add: magnitude_text_def decimal_base digit_char_zero)

end
