(* ===== verification/Injector.thy ===== *)
theory Injector
  imports Injection Process_List Decimal Text_Format
begin

text \<open>
  The controller's side of the injection (\<^verbatim>\<open>src/ps5/shellui_injector.cpp\<close>, the
  standard and the load-only build): the look for the shell, the marker the renderer leaves, and
  \<^verbatim>\<open>ensure_shellui_renderer\<close>, whose static variables are the state.  The log lines
  are left out; an answer carries what the injection of the call reported, if there was one.
\<close>

section \<open>The shell\<close>

text \<open>The name of the record and its terminator.\<close>

definition exact_process_name :: "bytes \<Rightarrow> nat \<Rightarrow> bool" where
  "exact_process_name field field_size \<longleftrightarrow>
     10 < field_size \<and> sub_bytes 0 10 field = take 10 kShellUiName \<and> field ! 10 = 0"

definition shellui_candidate :: "int \<Rightarrow> bytes \<Rightarrow> nat \<Rightarrow> int option" where
  "shellui_candidate self cursor usable =
     (let candidate_pid = (if kTdnameOffset + 11 \<le> usable then get_i32 kPidOffset cursor else -1)
      in if 0 < candidate_pid \<and> candidate_pid \<noteq> self \<and>
            exact_process_name (drop kTdnameOffset cursor) (usable - kTdnameOffset)
         then Some candidate_pid else None)"

datatype lookup_path = NoPath | SysctlThreadName | KernelAllprocFallback

text \<open>
  The walk is the one of the other readers of the list, whose match is this one's
  (\<open>shellui_candidate_eq\<close>); here the length the kernel reports is taken as it is, and when
  the walk finds nothing the list of the kernel is searched.
\<close>

definition find_shellui_pid ::
  "'e process_api \<Rightarrow> ('e \<Rightarrow> int option \<times> 'e) \<Rightarrow> 'e \<Rightarrow> (process_lookup \<times> lookup_path) \<times> 'e" where
  "find_shellui_pid pa find_proc_by_name e =
     (case (case pa_size pa e of
              ((rc, required), e1) \<Rightarrow>
                if rc = 0 \<and> required \<noteq> 0 then
                  let capacity = required + required div 4 + 4096
                  in case pa_alloc pa capacity e1 of
                       (False, e2) \<Rightarrow> (lookup_init, e2)
                     | (True, e2) \<Rightarrow>
                         (case pa_data pa capacity e2 of
                            ((rc2, count, buffer), e3) \<Rightarrow>
                              if rc2 = 0
                              then (walk_records True kShellUiName (pa_self pa) (take count buffer)
                                      (lookup_init\<lparr>lk_bytes := count\<rparr>), e3)
                              else (lookup_init\<lparr>lk_bytes := count\<rparr>, e3))
                else (lookup_init, e1)) of
        (res, e4) \<Rightarrow>
          if 0 < lk_pid res then ((res, SysctlThreadName), e4)
          else case find_proc_by_name e4 of
                 (Some pid, e5) \<Rightarrow> ((res\<lparr>lk_pid := pid\<rparr>, KernelAllprocFallback), e5)
               | (None, e5) \<Rightarrow> ((res, NoPath), e5))"

section \<open>The marker\<close>

definition kMarker :: string where "kMarker = ''/system_tmp/commonfps_shellui.pid''"
definition kShellUiStagePath :: string where "kShellUiStagePath = ''/system_tmp/commonfps_shellui.stage''"

definition text_of_bytes :: "bytes \<Rightarrow> string" where
  "text_of_bytes bs = map (\<lambda>b. char_of (unat b)) bs"

text \<open>A decimal number after blanks, as \<^verbatim>\<open>fscanf\<close> reads it; no number is \<open>None\<close>.\<close>

definition scan_int :: "string \<Rightarrow> (int \<times> string) option" where
  "scan_int s =
     (let rest = dropWhile isspace s;
          (negative, body) = (case rest of c # cs \<Rightarrow> if c = CHR ''-'' then (True, cs)
                                else if c = CHR ''+'' then (False, cs) else (False, rest) | [] \<Rightarrow> (False, []));
          digits = takeWhile is_digit body
      in if digits = [] then None
         else Some (if negative then - int (digits_value digits) else int (digits_value digits), dropWhile is_digit body))"

definition marker_matches :: "'e files \<Rightarrow> int \<Rightarrow> 'e \<Rightarrow> bool \<times> 'e" where
  "marker_matches fs pid e =
     (case f_read fs kMarker e of
        (None, e1) \<Rightarrow> (False, e1)
      | (Some bs, e1) \<Rightarrow>
          (case scan_int (text_of_bytes bs) of None \<Rightarrow> False | Some (marked_pid, _) \<Rightarrow> marked_pid = pid, e1))"

text \<open>The stage the renderer of this process recorded last.\<close>

definition last_stage_for :: "'e files \<Rightarrow> int \<Rightarrow> 'e \<Rightarrow> string \<times> 'e" where
  "last_stage_for fs pid e =
     (case f_read fs kShellUiStagePath e of
        (None, e1) \<Rightarrow> (''unavailable'', e1)
      | (Some bs, e1) \<Rightarrow>
          (case scan_int (text_of_bytes bs) of
             None \<Rightarrow> ''unavailable''
           | Some (recorded_pid, rest) \<Rightarrow>
               let stage = take 47 (takeWhile (\<lambda>c. \<not> isspace c) (dropWhile isspace rest))
               in if stage \<noteq> [] \<and> recorded_pid = pid then stage else ''unavailable'', e1))"

section \<open>The renderer\<close>

record 'e injector_api =
  ia_processes :: "'e process_api"
  ia_find_proc_by_name :: "'e \<Rightarrow> int option \<times> 'e"
  ia_kernel :: "'e kernel"
  ia_loader :: "'e loader_api"
  ia_inject :: "'e inject_api"
  ia_files :: "'e files"
  ia_sdk_version :: "'e \<Rightarrow> u32 \<times> 'e"
  ia_usleep :: "nat \<Rightarrow> 'e \<Rightarrow> 'e"
  ia_elf :: bytes

definition ia_find :: "'e injector_api \<Rightarrow> 'e \<Rightarrow> (process_lookup \<times> lookup_path) \<times> 'e" where
  "ia_find ia = find_shellui_pid (ia_processes ia) (ia_find_proc_by_name ia)"

record injector =
  ij_attempted_pid :: int
  ij_attempted_result :: bool
  ij_retry_allowed :: bool
  ij_retry_delay_ticks :: u32
  ij_discovery_failures :: u32
  ij_renderer_quarantined :: bool
  ij_last_shellui_pid :: int

definition injector_init :: injector where
  "injector_init = \<lparr>ij_attempted_pid = -1, ij_attempted_result = False, ij_retry_allowed = True, ij_retry_delay_ticks = 0,
     ij_discovery_failures = 0, ij_renderer_quarantined = False, ij_last_shellui_pid = -1\<rparr>"

datatype wait_end = Online | Changed | TimedOut

text \<open>The wait for the marker: \<open>i\<close> counts the polls, \<open>n\<close> those that are left.\<close>

fun wait_marker :: "'e injector_api \<Rightarrow> int \<Rightarrow> nat \<Rightarrow> nat \<Rightarrow> 'e \<Rightarrow> wait_end \<times> 'e" where
  "wait_marker ia pid i 0 e = (TimedOut, e)"
| "wait_marker ia pid i (Suc n) e =
     (case marker_matches (ia_files ia) pid e of
        (True, e1) \<Rightarrow> (Online, e1)
      | (False, e1) \<Rightarrow>
          (case (if i \<noteq> 0 \<and> i mod 50 = 0 then
                   (case ia_find ia e1 of
                      ((observed, _), e2) \<Rightarrow> (0 < lk_pid observed \<and> lk_pid observed \<noteq> pid, e2))
                 else (False, e1)) of
             (True, e2) \<Rightarrow> (Changed, snd (last_stage_for (ia_files ia) pid e2))
           | (False, e2) \<Rightarrow>
               (case poll_and_apply_shellui_hook (ia_kernel ia) (ia_files ia) (ia_sdk_version ia) pid e2 of
                  (_, _, e3) \<Rightarrow> wait_marker ia pid (Suc i) n (ia_usleep ia 20000 e3))))"

definition quarantine :: "injector \<Rightarrow> injector" where
  "quarantine s = s\<lparr>ij_renderer_quarantined := True, ij_retry_allowed := False\<rparr>"

text \<open>The injection, with the files of an earlier one out of the way.\<close>

definition start_injection :: "'e injector_api \<Rightarrow> bool \<Rightarrow> int \<Rightarrow> 'e \<Rightarrow> stable_injection \<times> 'e" where
  "start_injection ia start_thread pid e =
     inject_shellui_stable (ia_kernel ia) (ia_loader ia) (ia_inject ia) pid (ia_elf ia) start_thread
       (f_unlink (ia_files ia) kShellUiStagePath (clear_shellui_hook_protocol_files (ia_files ia) e))"

text \<open>The injection and the wait, once the call has decided to inject.\<close>

definition inject_renderer ::
  "'e injector_api \<Rightarrow> int \<Rightarrow> injector \<Rightarrow> 'e \<Rightarrow> (bool \<times> stable_injection) \<times> injector \<times> 'e" where
  "inject_renderer ia pid s e =
     (case start_injection ia True pid e of
        (injected, e1) \<Rightarrow>
          if \<not> si_pthread_create_ok injected \<or> \<not> si_auth_restored injected then
            let allowed = \<not> si_elf_loaded injected
            in ((False, injected), s\<lparr>ij_retry_allowed := allowed, ij_retry_delay_ticks := (if allowed then 5 else 0)\<rparr>, e1)
          else case wait_marker ia pid 0 3500 e1 of
                 (Online, e2) \<Rightarrow> ((True, injected), s\<lparr>ij_attempted_result := True\<rparr>, e2)
               | (Changed, e2) \<Rightarrow> ((False, injected), quarantine s, e2)
               | (TimedOut, e2) \<Rightarrow> ((False, injected), quarantine s, snd (last_stage_for (ia_files ia) pid e2)))"

text \<open>
  What the load-only build does instead: the image is mapped and the call exercised, but no
  thread is started.
\<close>

definition load_only_complete :: "stable_injection \<Rightarrow> bool" where
  "load_only_complete r \<longleftrightarrow>
     si_auth_changed r \<and> si_auth_restored r \<and> si_attached r \<and> si_elf_loaded r \<and> si_payload_args_ready r \<and>
     si_remote_stager_ready r \<and> si_remote_functions_ready r \<and> si_target_stack_preserved r \<and> si_bootstrap_started r \<and>
     \<not> si_thread_start_requested r \<and> \<not> si_pthread_create_ok r \<and> si_pthread_create_rc r = kPthreadCreateSkippedRc \<and>
     si_detached r \<and> si_trace_continue_seen r \<and> si_trace_stop_seen r \<and> si_imports_unresolved r = 0"

definition load_only_renderer ::
  "'e injector_api \<Rightarrow> int \<Rightarrow> injector \<Rightarrow> 'e \<Rightarrow> (bool \<times> stable_injection) \<times> injector \<times> 'e" where
  "load_only_renderer ia pid s e =
     (case start_injection ia False pid e of
        (injected, e1) \<Rightarrow>
          if \<not> load_only_complete injected then
            let allowed = \<not> si_elf_loaded injected
            in ((False, injected), s\<lparr>ij_retry_allowed := allowed, ij_retry_delay_ticks := (if allowed then 5 else 0)\<rparr>, e1)
          else ((True, injected), s\<lparr>ij_attempted_result := True, ij_retry_allowed := False\<rparr>, e1))"

text \<open>
  The checks in front of it: \<open>Inl\<close> is the answer of a call that does not inject, \<open>Inr\<close>
  the state of one that does.
\<close>

definition attempt_gate :: "int \<Rightarrow> injector \<Rightarrow> (bool \<times> injector) + injector" where
  "attempt_gate pid s =
     (if ij_attempted_pid s \<noteq> pid then
        Inr (s\<lparr>ij_attempted_pid := pid, ij_attempted_result := False, ij_retry_allowed := True, ij_retry_delay_ticks := 0\<rparr>)
      else if ij_attempted_result s then Inl (True, s)
      else if \<not> ij_retry_allowed s then Inl (False, s)
      else if ij_retry_delay_ticks s \<noteq> 0 then Inl (False, s\<lparr>ij_retry_delay_ticks := ij_retry_delay_ticks s - 1\<rparr>)
      else Inr (s\<lparr>ij_attempted_result := False\<rparr>))"

text \<open>What a call saw and did.\<close>

record ensure_call =
  en_pid :: "int option"
  en_ok :: bool
  en_marked :: bool
  en_injected :: "stable_injection option"

definition no_call :: ensure_call where
  "no_call = \<lparr>en_pid = None, en_ok = False, en_marked = False, en_injected = None\<rparr>"

definition ensure_shellui_renderer :: "'e injector_api \<Rightarrow> injector \<Rightarrow> 'e \<Rightarrow> ensure_call \<times> injector \<times> 'e" where
  "ensure_shellui_renderer ia s e =
     (if ij_renderer_quarantined s then (no_call, s, e)
      else case ia_find ia e of
             ((lookup, _), e1) \<Rightarrow>
               if lk_pid lookup \<le> 0 then (no_call, s\<lparr>ij_discovery_failures := ij_discovery_failures s + 1\<rparr>, e1)
               else
                 let pid = lk_pid lookup; s1 = s\<lparr>ij_discovery_failures := 0, ij_last_shellui_pid := pid\<rparr>
                 in case marker_matches (ia_files ia) pid e1 of
                      (True, e2) \<Rightarrow> (no_call\<lparr>en_pid := Some pid, en_ok := True, en_marked := True\<rparr>, s1, e2)
                    | (False, e2) \<Rightarrow>
                        (case attempt_gate pid s1 of
                           Inl (ok, s2) \<Rightarrow> (no_call\<lparr>en_pid := Some pid, en_ok := ok\<rparr>, s2, e2)
                         | Inr s2 \<Rightarrow>
                             (case inject_renderer ia pid s2 e2 of
                                ((ok, injected), s3, e3) \<Rightarrow>
                                  (\<lparr>en_pid = Some pid, en_ok = ok, en_marked = False, en_injected = Some injected\<rparr>, s3, e3))))"

definition observe_shellui_pid :: "'e injector_api \<Rightarrow> injector \<Rightarrow> 'e \<Rightarrow> int \<times> injector \<times> 'e" where
  "observe_shellui_pid ia s e =
     (case ia_find ia e of ((lookup, _), e1) \<Rightarrow> (lk_pid lookup, s\<lparr>ij_last_shellui_pid := lk_pid lookup\<rparr>, e1))"

definition shellui_renderer_pid :: "injector \<Rightarrow> int" where
  "shellui_renderer_pid s = ij_last_shellui_pid s"

text \<open>Calls, with anything between them.\<close>

fun ensure_runs :: "'e injector_api \<Rightarrow> (nat \<Rightarrow> 'e \<Rightarrow> 'e) \<Rightarrow> nat \<Rightarrow> injector \<Rightarrow> 'e \<Rightarrow> ensure_call list \<times> injector \<times> 'e" where
  "ensure_runs ia between 0 s e = ([], s, e)"
| "ensure_runs ia between (Suc n) s e =
     (case ensure_runs ia between n s e of
        (cs, s1, e1) \<Rightarrow>
          case ensure_shellui_renderer ia s1 (between n e1) of (c, s2, e2) \<Rightarrow> (cs @ [c], s2, e2))"

section \<open>The match of the walk\<close>

lemma shellui_name_split: "sub_bytes 447 11 cursor = kShellUiName \<longleftrightarrow>
    sub_bytes 0 10 (drop 447 cursor) = take 10 kShellUiName \<and> drop 447 cursor ! 10 = 0"
  if "458 \<le> length cursor"
proof -
  have "take 11 (drop 447 cursor) = take 10 (drop 447 cursor) @ [drop 447 cursor ! 10]"
    using that by (simp add: take_Suc_conv_app_nth [of 10, simplified])
  moreover have "kShellUiName = take 10 kShellUiName @ [0]" by (simp add: kShellUiName_def c_name_def)
  ultimately show ?thesis using that unfolding sub_bytes_def by (metis append1_eq_conv drop0)
qed

lemma shellui_candidate_eq:
  assumes "n \<le> length cursor"
  shows "shellui_candidate self cursor n = record_candidate kShellUiName self cursor n"
proof -
  have l: "length kShellUiName = 11" by (simp add: kShellUiName_def c_name_def)
  show ?thesis
  proof (cases "458 \<le> n")
    case True
    then show ?thesis using assms l shellui_name_split [of cursor]
      by (auto simp: shellui_candidate_def record_candidate_def record_name_equals_def exact_process_name_def kTdnameOffset_def
          kPidOffset_def Let_def)
  next
    case False
    then show ?thesis using l
      by (simp add: shellui_candidate_def record_candidate_def record_name_equals_def kTdnameOffset_def)
  qed
qed

section \<open>Calls\<close>

text \<open>A shell that has its image, or must not be tried again.\<close>

definition spent :: "int \<Rightarrow> injector \<Rightarrow> bool" where
  "spent pid s \<longleftrightarrow> ij_renderer_quarantined s \<or>
     ij_attempted_pid s = pid \<and> (ij_attempted_result s \<or> \<not> ij_retry_allowed s)"

lemma inject_renderer_cases:
  assumes "inject_renderer ia pid s e = ((ok, r), s', e')"
  shows "\<not> (si_pthread_create_ok r \<and> si_auth_restored r) \<and> \<not> ok \<and> s' = s\<lparr>ij_retry_allowed := \<not> si_elf_loaded r,
      ij_retry_delay_ticks := (if si_elf_loaded r then 0 else 5)\<rparr> \<or>
    si_pthread_create_ok r \<and> si_auth_restored r \<and> ok \<and> s' = s\<lparr>ij_attempted_result := True\<rparr> \<or>
    si_pthread_create_ok r \<and> si_auth_restored r \<and> \<not> ok \<and> s' = quarantine s"
  using assms by (auto simp: inject_renderer_def Let_def split: prod.splits if_splits wait_end.splits)

lemma attempt_gate_cases:
  "attempt_gate pid s = Inl (ok, s') \<Longrightarrow> ij_attempted_pid s = pid \<and> ok = ij_attempted_result s \<and>
     (s' = s \<or> \<not> ij_attempted_result s \<and> s' = s\<lparr>ij_retry_delay_ticks := ij_retry_delay_ticks s - 1\<rparr>)"
  "attempt_gate pid s = Inr s' \<Longrightarrow> \<not> (ij_attempted_pid s = pid \<and> (ij_attempted_result s \<or> \<not> ij_retry_allowed s)) \<and>
     ij_attempted_pid s' = pid \<and> ij_renderer_quarantined s' = ij_renderer_quarantined s"
  by (auto simp: attempt_gate_def split: if_splits)

text \<open>The five ways a call can go.\<close>

lemma ensure_cases:
  assumes "ensure_shellui_renderer ia s e = (c, s', e')"
  obtains (quarantined) "ij_renderer_quarantined s" "c = no_call" "s' = s"
  | (lost) "\<not> ij_renderer_quarantined s" "c = no_call" "s' = s\<lparr>ij_discovery_failures := ij_discovery_failures s + 1\<rparr>"
  | (marked) pid where "\<not> ij_renderer_quarantined s" "c = no_call\<lparr>en_pid := Some pid, en_ok := True, en_marked := True\<rparr>"
      "s' = s\<lparr>ij_discovery_failures := 0, ij_last_shellui_pid := pid\<rparr>"
  | (gated) pid ok where "\<not> ij_renderer_quarantined s" "c = no_call\<lparr>en_pid := Some pid, en_ok := ok\<rparr>"
      "attempt_gate pid (s\<lparr>ij_discovery_failures := 0, ij_last_shellui_pid := pid\<rparr>) = Inl (ok, s')"
  | (injected) pid ok r s2 e2 where "\<not> ij_renderer_quarantined s"
      "c = \<lparr>en_pid = Some pid, en_ok = ok, en_marked = False, en_injected = Some r\<rparr>"
      "attempt_gate pid (s\<lparr>ij_discovery_failures := 0, ij_last_shellui_pid := pid\<rparr>) = Inr s2"
      "inject_renderer ia pid s2 e2 = ((ok, r), s', e')"
proof (cases "ij_renderer_quarantined s")
  case True
  then have "c = no_call" "s' = s" using assms by (simp_all add: ensure_shellui_renderer_def)
  then show thesis by (rule quarantined [OF True])
next
  case False
  obtain lookup path e1 where 1: "ia_find ia e = ((lookup, path), e1)" by (metis prod.collapse)
  let ?pid = "lk_pid lookup"
  let ?s1 = "s\<lparr>ij_discovery_failures := 0, ij_last_shellui_pid := ?pid\<rparr>"
  show thesis
  proof (cases "?pid \<le> 0")
    case True
    then have "c = no_call" "s' = s\<lparr>ij_discovery_failures := ij_discovery_failures s + 1\<rparr>"
      using assms False 1 by (simp_all add: ensure_shellui_renderer_def)
    then show thesis by (rule lost [OF False])
  next
    case found: False
    obtain m e2 where 2: "marker_matches (ia_files ia) ?pid e1 = (m, e2)" by (cases "marker_matches (ia_files ia) ?pid e1")
    show thesis
    proof (cases m)
      case True
      then have "c = no_call\<lparr>en_pid := Some ?pid, en_ok := True, en_marked := True\<rparr>" "s' = ?s1"
        using assms False found 1 2 by (simp_all add: ensure_shellui_renderer_def Let_def)
      then show thesis by (rule marked [OF False])
    next
      case unmarked: False
      show thesis
      proof (cases "attempt_gate ?pid ?s1")
        case (Inl a)
        then obtain ok s2 where 3: "attempt_gate ?pid ?s1 = Inl (ok, s2)" by (cases a) simp
        have "c = no_call\<lparr>en_pid := Some ?pid, en_ok := ok\<rparr>" "s2 = s'"
          using assms False found 1 2 3 unmarked by (simp_all add: ensure_shellui_renderer_def Let_def)
        then show thesis using 3 by (auto intro: gated [OF False])
      next
        case (Inr s2)
        obtain ok r s3 e3 where 3: "inject_renderer ia ?pid s2 e2 = ((ok, r), s3, e3)" by (metis prod.collapse)
        have c: "c = \<lparr>en_pid = Some ?pid, en_ok = ok, en_marked = False, en_injected = Some r\<rparr>" and "s3 = s'" "e3 = e'"
          using assms False found 1 2 3 unmarked Inr by (simp_all add: ensure_shellui_renderer_def Let_def)
        then show thesis using 3 by (auto intro: injected [OF False c Inr])
      qed
    qed
  qed
qed

lemma spent_call:
  assumes "ensure_shellui_renderer ia s e = (c, s', e')" "spent pid s" "en_pid c = None \<or> en_pid c = Some pid"
  shows "spent pid s' \<and> en_injected c = None"
  using assms(1)
proof (cases rule: ensure_cases)
  case (gated p ok)
  then show ?thesis using assms(2,3) attempt_gate_cases(1) [OF gated(3)] by (auto simp: spent_def no_call_def)
next
  case (injected p ok r s2 e2)
  then show ?thesis using assms(2,3) attempt_gate_cases(2) [OF injected(3)] by (auto simp: spent_def)
qed (use assms(2,3) in \<open>auto simp: spent_def no_call_def\<close>)

lemma loaded_call:
  assumes "ensure_shellui_renderer ia s e = (c, s', e')" "en_injected c = Some r" "si_elf_loaded r"
  shows "\<exists>pid. en_pid c = Some pid \<and> spent pid s'"
  using assms(1)
proof (cases rule: ensure_cases)
  case (injected p ok r' s2 e2)
  then show ?thesis
    using assms(2,3) attempt_gate_cases(2) [OF injected(3)] inject_renderer_cases [OF injected(4)]
    by (auto simp: spent_def quarantine_def)
qed (use assms(2) in \<open>auto simp: no_call_def\<close>)

lemma runs_length: "ensure_runs ia between n s e = (cs, s', e') \<Longrightarrow> length cs = n"
  by (induction n arbitrary: cs s' e') (fastforce split: prod.splits)+

lemma runs_split:
  assumes "ensure_runs ia between n s e = (cs, s', e')" "i < n"
  shows "\<exists>s1 e1 s2 e2. ensure_runs ia between i s e = (take i cs, s1, e1) \<and>
    ensure_shellui_renderer ia s1 (between i e1) = (cs ! i, s2, e2) \<and> ensure_runs ia between (Suc i) s e = (take (Suc i) cs, s2, e2)"
  using assms
proof (induction n arbitrary: cs s' e')
  case (Suc n)
  obtain ds s1 e1 where 1: "ensure_runs ia between n s e = (ds, s1, e1)" by (metis prod.collapse)
  obtain c s2 e2 where 2: "ensure_shellui_renderer ia s1 (between n e1) = (c, s2, e2)" by (metis prod.collapse)
  have l: "length ds = n" by (rule runs_length [OF 1])
  have cs: "cs = ds @ [c]" using Suc.prems(1) by (simp add: 1 2)
  show ?case
  proof (cases "i = n")
    case True
    then show ?thesis using 1 2 l by (simp add: cs nth_append)
  next
    case False
    then show ?thesis using Suc.IH [OF 1] Suc.prems(2) l by (simp add: cs nth_append)
  qed
qed simp

section \<open>Runs of calls\<close>

lemma spent_runs:
  assumes "ensure_runs ia between n s e = (cs, s', e')" "i < n" "en_injected (cs ! i) = Some r" "si_elf_loaded r"
    "en_pid (cs ! i) = pid" "\<forall>k. i < k \<and> k < n \<longrightarrow> en_pid (cs ! k) = None \<or> en_pid (cs ! k) = pid"
  shows "\<exists>p. pid = Some p \<and> spent p s' \<and> (\<forall>k. i < k \<and> k < n \<longrightarrow> en_injected (cs ! k) = None)"
  using assms
proof (induction n arbitrary: cs s' e')
  case (Suc n)
  obtain ds s1 e1 where 1: "ensure_runs ia between n s e = (ds, s1, e1)" by (metis prod.collapse)
  obtain c s2 e2 where 2: "ensure_shellui_renderer ia s1 (between n e1) = (c, s2, e2)" by (metis prod.collapse)
  have l: "length ds = n" by (rule runs_length [OF 1])
  have cs: "cs = ds @ [c]" "s' = s2" using Suc.prems(1) by (simp_all add: 1 2)
  show ?case
  proof (cases "i = n")
    case True
    then have "cs ! i = c" using l cs by (simp add: nth_append)
    then show ?thesis using loaded_call [OF 2, of r] Suc.prems(3,4,5) True cs by auto
  next
    case False
    then have i: "i < n" "cs ! i = ds ! i" using Suc.prems(2) l cs by (auto simp: nth_append)
    have "\<forall>k. i < k \<and> k < n \<longrightarrow> en_pid (ds ! k) = None \<or> en_pid (ds ! k) = pid"
      using Suc.prems(6) l cs by (auto simp: nth_append)
    then obtain p where p: "pid = Some p" "spent p s1" "\<forall>k. i < k \<and> k < n \<longrightarrow> en_injected (ds ! k) = None"
      using Suc.IH [OF 1 i(1)] Suc.prems(3,4,5) i(2) by auto
    have "en_pid c = None \<or> en_pid c = Some p" using Suc.prems(6) i(1) l cs p(1) by (auto dest: spec [of _ n])
    from spent_call [OF 2 p(2) this] show ?thesis using p l cs by (auto simp: nth_append less_Suc_eq)
  qed
qed simp

text \<open>
  (C4) A shell gets one image: when a call has loaded the image into a process, whatever became
  of it afterwards, no later call injects into that process again, unless a call in between saw
  the shell under another process.
\<close>

theorem one_image_per_shell:
  assumes "ensure_runs ia between n s e = (cs, s', e')" "i < j" "j < n"
    and "en_injected (cs ! i) = Some r" "si_elf_loaded r"
    and "en_injected (cs ! j) \<noteq> None" "en_pid (cs ! j) = en_pid (cs ! i)"
  shows "\<exists>k. i < k \<and> k < j \<and> en_pid (cs ! k) \<noteq> None \<and> en_pid (cs ! k) \<noteq> en_pid (cs ! i)"
proof (rule ccontr)
  assume "\<not> ?thesis"
  then have same: "\<forall>k. i < k \<and> k < j \<longrightarrow> en_pid (cs ! k) = None \<or> en_pid (cs ! k) = en_pid (cs ! i)" by blast
  obtain s1 e1 where run: "ensure_runs ia between (Suc j) s e = (take (Suc j) cs, s1, e1)"
    using runs_split [OF assms(1,3)] by blast
  have "\<exists>p. en_pid (cs ! i) = Some p \<and> spent p s1 \<and> (\<forall>k. i < k \<and> k < Suc j \<longrightarrow> en_injected (take (Suc j) cs ! k) = None)"
    using spent_runs [OF run, of i r "en_pid (cs ! i)"] assms(2,4,5,7) same by (auto simp: less_Suc_eq)
  then show False using assms(2,6) by auto
qed

text \<open>How long a shell is left alone: the ticks that are left and the calls that used one up.\<close>

definition used_tick :: "int \<Rightarrow> ensure_call \<Rightarrow> bool" where
  "used_tick pid c \<longleftrightarrow> en_pid c = Some pid \<and> \<not> en_marked c"

definition resting :: "int \<Rightarrow> nat \<Rightarrow> injector \<Rightarrow> bool" where
  "resting pid m s \<longleftrightarrow> ij_attempted_pid s = pid \<and> \<not> ij_attempted_result s \<and> unat (ij_retry_delay_ticks s) + m = 5"

lemma resting_call:
  assumes "ensure_shellui_renderer ia s e = (c, s', e')" "resting pid m s" "m < 5" "en_pid c = None \<or> en_pid c = Some pid"
    and "ij_retry_allowed s"
  shows "en_injected c = None \<and> ij_retry_allowed s' \<and> resting pid (if used_tick pid c then Suc m else m) s'"
  using assms(1)
proof (cases rule: ensure_cases)
  case (gated p ok)
  let ?d = "ij_retry_delay_ticks s"
  have d: "?d \<noteq> 0" using assms(2,3) by (auto simp: resting_def)
  then have "0 < unat ?d" by (simp add: unat_gt_0)
  then have "unat (?d - 1) = unat ?d - 1" using d by (simp add: unat_minus_one)
  then show ?thesis using gated assms(2-5) d \<open>0 < unat ?d\<close>
    by (auto simp: attempt_gate_def resting_def used_tick_def no_call_def split: if_splits)
next
  case (injected p ok r s2 e2)
  then show ?thesis using assms(2-5) by (auto simp: attempt_gate_def resting_def split: if_splits)
qed (use assms(2-5) in \<open>auto simp: resting_def used_tick_def no_call_def\<close>)

lemma resting_runs:
  assumes "ensure_runs ia between n s e = (cs, s', e')" "i < n" "en_injected (cs ! i) = Some r" "\<not> si_elf_loaded r"
    "\<not> si_pthread_create_ok r" "en_pid (cs ! i) = pid" "\<forall>k. i < k \<and> k < n \<longrightarrow> en_pid (cs ! k) = None \<or> en_pid (cs ! k) = pid"
    "length (filter (used_tick (the pid)) (drop (Suc i) cs)) < 5"
  shows "\<exists>p. pid = Some p \<and> ij_retry_allowed s' \<and> resting p (length (filter (used_tick p) (drop (Suc i) cs))) s' \<and>
    (\<forall>k. i < k \<and> k < n \<longrightarrow> en_injected (cs ! k) = None)"
  using assms
proof (induction n arbitrary: cs s' e')
  case (Suc n)
  obtain ds s1 e1 where 1: "ensure_runs ia between n s e = (ds, s1, e1)" by (metis prod.collapse)
  obtain c s2 e2 where 2: "ensure_shellui_renderer ia s1 (between n e1) = (c, s2, e2)" by (metis prod.collapse)
  have l: "length ds = n" by (rule runs_length [OF 1])
  have cs: "cs = ds @ [c]" "s' = s2" using Suc.prems(1) by (simp_all add: 1 2)
  show ?case
  proof (cases "i = n")
    case True
    then have c: "cs ! i = c" using l cs by (simp add: nth_append)
    show ?thesis using 2
    proof (cases rule: ensure_cases)
      case (injected p ok r' t f)
      then have "s2 = t\<lparr>ij_retry_allowed := True, ij_retry_delay_ticks := 5\<rparr>"
        using inject_renderer_cases [OF injected(4)] Suc.prems(3-5) c by auto
      moreover have "ij_attempted_pid t = p" "\<not> ij_attempted_result t"
        using injected(3) by (auto simp: attempt_gate_def split: if_splits)
      ultimately show ?thesis using injected(2) Suc.prems(6) c True l cs by (auto simp: resting_def)
    qed (use Suc.prems(3) c in \<open>auto simp: no_call_def\<close>)
  next
    case False
    then have i: "i < n" "cs ! i = ds ! i" using Suc.prems(2) l cs by (auto simp: nth_append)
    have d: "drop (Suc i) cs = drop (Suc i) ds @ [c]" using i(1) l cs by simp
    have "\<forall>k. i < k \<and> k < n \<longrightarrow> en_pid (ds ! k) = None \<or> en_pid (ds ! k) = pid"
      using Suc.prems(7) l cs by (auto simp: nth_append)
    moreover have "length (filter (used_tick (the pid)) (drop (Suc i) ds)) < 5" using Suc.prems(8) d by (simp split: if_splits)
    ultimately obtain p where p: "pid = Some p" "ij_retry_allowed s1" "resting p (length (filter (used_tick p) (drop (Suc i) ds))) s1"
      "\<forall>k. i < k \<and> k < n \<longrightarrow> en_injected (ds ! k) = None"
      using Suc.IH [OF 1 i(1)] Suc.prems(3-6) i(2) by auto
    have "en_pid c = None \<or> en_pid c = Some p" using Suc.prems(7) i(1) l cs p(1) by (auto dest: spec [of _ n] simp: nth_append)
    moreover have "length (filter (used_tick p) (drop (Suc i) ds)) < 5" using Suc.prems(8) d p(1) by (simp split: if_splits)
    ultimately have "en_injected c = None \<and> ij_retry_allowed s2 \<and>
        resting p (if used_tick p c then Suc (length (filter (used_tick p) (drop (Suc i) ds))) else length (filter (used_tick p) (drop (Suc i) ds))) s2"
      using resting_call [OF 2 p(3)] p(2) by blast
    then show ?thesis using p l cs d by (auto simp: nth_append less_Suc_eq)
  qed
qed simp

text \<open>
  An injection that failed before the image was loaded is not repeated at once: before the
  next injection into the same process at least five calls have seen that process without a
  marker and let a tick pass, unless the shell was seen under another process in between.
\<close>

theorem failed_injection_rests:
  assumes "ensure_runs ia between n s e = (cs, s', e')" "i < j" "j < n"
    and "en_injected (cs ! i) = Some r" "\<not> si_elf_loaded r" "\<not> si_pthread_create_ok r"
    and "en_injected (cs ! j) \<noteq> None" "en_pid (cs ! i) = Some pid" "en_pid (cs ! j) = Some pid"
    and same: "\<forall>k. i < k \<and> k < j \<longrightarrow> en_pid (cs ! k) = None \<or> en_pid (cs ! k) = Some pid"
  shows "5 \<le> card {k. i < k \<and> k < j \<and> used_tick pid (cs ! k)}"
proof (rule ccontr)
  assume few: "\<not> ?thesis"
  obtain s1 e1 s2 e2 where run: "ensure_runs ia between j s e = (take j cs, s1, e1)"
      "ensure_shellui_renderer ia s1 (between j e1) = (cs ! j, s2, e2)"
    using runs_split [OF assms(1,3)] by blast
  have "{k. i < k \<and> k < j \<and> used_tick pid (cs ! k)} = (+) (Suc i) ` {k. k < length (drop (Suc i) (take j cs)) \<and> used_tick pid (drop (Suc i) (take j cs) ! k)}"
  proof (rule set_eqI, rule iffI)
    fix k
    assume k: "k \<in> {k. i < k \<and> k < j \<and> used_tick pid (cs ! k)}"
    then have "k = Suc i + (k - Suc i)" "k - Suc i < length (drop (Suc i) (take j cs))"
      "drop (Suc i) (take j cs) ! (k - Suc i) = cs ! k"
      using assms(2,3) runs_length [OF assms(1)] by auto
    then show "k \<in> (+) (Suc i) ` {k. k < length (drop (Suc i) (take j cs)) \<and> used_tick pid (drop (Suc i) (take j cs) ! k)}"
      using k by (metis (mono_tags, lifting) image_eqI mem_Collect_eq)
  qed (use assms(3) runs_length [OF assms(1)] in auto)
  then have "card {k. i < k \<and> k < j \<and> used_tick pid (cs ! k)} = length (filter (used_tick pid) (drop (Suc i) (take j cs)))"
    by (simp only: length_filter_conv_card) (rule card_image, simp add: inj_on_def)
  then have "length (filter (used_tick (the (Some pid))) (drop (Suc i) (take j cs))) < 5" using few by simp
  with resting_runs [OF run(1), of i r "Some pid"] assms(2,4-6,8) same
  have r: "ij_retry_allowed s1" "resting pid (length (filter (used_tick pid) (drop (Suc i) (take j cs)))) s1" by auto
  from resting_call [OF run(2) r(2)] r(1) \<open>length _ < 5\<close> assms(7,9) show False by auto
qed

text \<open>A quarantined injector stays as it is and answers every call with nothing.\<close>

lemma quarantined_for_good:
  assumes "ensure_runs ia between n s e = (cs, s', e')" "i < j" "j < n"
    and "en_injected (cs ! i) = Some r" "si_pthread_create_ok r" "si_auth_restored r" "\<not> en_ok (cs ! i)"
  shows "cs ! j = no_call \<and> (\<exists>t f. ensure_runs ia between j s e = (take j cs, t, f) \<and>
    ensure_shellui_renderer ia t (between j f) = (no_call, t, between j f))"
proof -
  obtain s1 e1 s2 e2 where i: "ensure_shellui_renderer ia s1 (between i e1) = (cs ! i, s2, e2)"
    "ensure_runs ia between (Suc i) s e = (take (Suc i) cs, s2, e2)"
    using runs_split [OF assms(1), of i] assms(2,3) by auto
  have q: "ij_renderer_quarantined s2" using i(1)
  proof (cases rule: ensure_cases)
    case (injected pid ok r' t f)
    then show ?thesis using inject_renderer_cases [OF injected(4)] assms(4-7) by (auto simp: quarantine_def)
  qed (use assms(4) in \<open>auto simp: no_call_def\<close>)
  have later: "ij_renderer_quarantined t"
    if "ensure_runs ia between (Suc i + m) s e = (take (Suc i + m) cs, t, f)" "Suc i + m \<le> n" for m t f
    using that
  proof (induction m arbitrary: t f)
    case 0
    then show ?case using i(2) q by auto
  next
    case (Suc m)
    obtain s3 e3 s4 e4 where 3: "ensure_runs ia between (Suc i + m) s e = (take (Suc i + m) cs, s3, e3)"
      "ensure_shellui_renderer ia s3 (between (Suc i + m) e3) = (cs ! (Suc i + m), s4, e4)"
      "ensure_runs ia between (Suc (Suc i + m)) s e = (take (Suc (Suc i + m)) cs, s4, e4)"
      using runs_split [OF assms(1), of "Suc i + m"] Suc.prems(2) by auto
    have "ij_renderer_quarantined s3" using Suc.IH [OF 3(1)] Suc.prems(2) by simp
    then have "s4 = s3" using 3(2) by (simp add: ensure_shellui_renderer_def)
    moreover have "t = s4" using Suc.prems(1) 3(3) by simp
    ultimately show ?case using \<open>ij_renderer_quarantined s3\<close> by simp
  qed
  obtain t f s4 e4 where j: "ensure_runs ia between (Suc i + (j - Suc i)) s e = (take (Suc i + (j - Suc i)) cs, t, f)"
    "ensure_shellui_renderer ia t (between j f) = (cs ! j, s4, e4)"
    using runs_split [OF assms(1,3)] assms(2) by auto
  have "ij_renderer_quarantined t" using later [OF j(1)] assms(2,3) by simp
  then have "ensure_shellui_renderer ia t (between j f) = (no_call, t, between j f)"
    by (simp add: ensure_shellui_renderer_def)
  then show ?thesis using j assms(2) by auto
qed

text \<open>
  (C23) A renderer that was started and did not come up, or whose shell was replaced while it was
  coming up, is given up for good: every later call answers no and does nothing at all, it leaves
  the state of the injector and the environment as it finds them.  That needs the controller's
  credentials to be back after the start; when they are not, the code takes the start for a failed
  injection, and the process it loaded the image into is left alone for as long as the shell is
  that process, while a new shell is injected again.
\<close>

theorem quarantine_is_final:
  assumes "ensure_runs ia between n s e = (cs, s', e')" "i < j" "j < n"
    and "en_injected (cs ! i) = Some r" "si_pthread_create_ok r" "\<not> en_ok (cs ! i)"
  shows "if si_auth_restored r
    then cs ! j = no_call \<and> (\<exists>t f. ensure_runs ia between j s e = (take j cs, t, f) \<and>
      ensure_shellui_renderer ia t (between j f) = (no_call, t, between j f))
    else si_elf_loaded r \<and> (\<forall>k. i < k \<and> k \<le> j \<longrightarrow> en_pid (cs ! k) = None \<or> en_pid (cs ! k) = en_pid (cs ! i)) \<longrightarrow>
      en_injected (cs ! j) = None"
proof (cases "si_auth_restored r")
  case True
  then show ?thesis using quarantined_for_good [OF assms(1-5) True assms(6)] by simp
next
  case False
  obtain s1 e1 where run: "ensure_runs ia between (Suc j) s e = (take (Suc j) cs, s1, e1)"
    using runs_split [OF assms(1,3)] by blast
  have "en_injected (take (Suc j) cs ! j) = None"
    if "si_elf_loaded r" "\<forall>k. i < k \<and> k \<le> j \<longrightarrow> en_pid (cs ! k) = None \<or> en_pid (cs ! k) = en_pid (cs ! i)"
    using spent_runs [OF run, of i r "en_pid (cs ! i)"] that assms(2,4) by (auto simp: less_Suc_eq_le)
  then show ?thesis using False by simp
qed

section \<open>Examples\<close>

text \<open>
  A console that is the process id of its shell: every debugger call works, the payload
  arguments are a parameter, and there is no marker.
\<close>

definition still_loader :: "int loader_api" where
  "still_loader =
     \<lparr>lo_pt_load = \<lambda>elf ph m. Some m, lo_pflags = \<lambda>f. 5, lo_trunc_pg = id, lo_round_pg = id,
      lo_pt_mmap = \<lambda>pid n v. (0x1000, v), lo_pt_munmap = \<lambda>pid b n v. (0, v),
      lo_local_mmap = \<lambda>n v. (True, v), lo_local_munmap = \<lambda>n v. v,
      lo_pt_continue = \<lambda>pid v. (0, v), lo_kill_stop = \<lambda>pid v. (0, v), lo_waitpid = \<lambda>pid v. (pid, v),
      lo_dynlib_handle = \<lambda>pid lib v. ((-1, 0), v), lo_dlsym = \<lambda>pid h name v. (0, v),
      lo_pt_copyin = \<lambda>pid bs a v. (0, v), lo_kernel_mprotect = \<lambda>pid a n p v. (0, v),
      lo_pt_mprotect = \<lambda>pid a n p v. (0, v), lo_pt_msync = \<lambda>pid a n v. (0, v)\<rparr>"

definition still_kernel :: "int kernel" where
  "still_kernel =
     \<lparr>k_self = 1, k_get_authid = \<lambda>pid w. (7, w), k_set_authid = \<lambda>pid a w. (0, w),
      k_get_caps = \<lambda>pid w. ((0, []), w), k_set_caps = \<lambda>pid caps w. (0, w),
      k_mprotect = \<lambda>pid a n p w. (0, w), k_get_protection = \<lambda>pid a n w. (5, w),
      mdbg_read_call = \<lambda>pid a n w. (\<lparr>md_rc = -1, md_errno = 0, md_status = 0, md_length = 0, md_data = []\<rparr>, w),
      mdbg_write_call = \<lambda>pid a d w. (\<lparr>md_rc = -1, md_errno = 0, md_status = 0, md_length = 0, md_data = []\<rparr>, w),
      mdbg_copyout = \<lambda>pid a n w. ((-1, []), w), mdbg_copyin = \<lambda>pid d a w. (-1, w),
      pt_attach = \<lambda>pid w. (0, w), pt_detach = \<lambda>pid w. (0, w),
      pt_copyout = \<lambda>pid a n w. ((0, replicate n 0), w), pt_copyin = \<lambda>pid d a w. ((0, 0), w),
      k_kill_cont = \<lambda>pid w. w\<rparr>"

definition still_inject :: "u64 \<Rightarrow> int inject_api" where
  "still_inject payload_args =
     \<lparr>in_getregs = \<lambda>pid w. ((0, \<lparr>rg_rip = 1, rg_rdi = 0, rg_rsi = 0, rg_rdx = 0, rg_rcx = 0, rg_r8 = 0, rg_r9 = 0, rg_rax = 0,
        rg_others = []\<rparr>), w), in_setregs = \<lambda>pid r w. (0, w),
      in_nid = \<lambda>s. Some [1], in_resolve = \<lambda>pid nid w. (0x400, w), in_payload_args = \<lambda>pid w. (payload_args, w), in_stager = [0xcc]\<rparr>"

definition still_files :: "int files" where
  "still_files = \<lparr>f_read = \<lambda>p w. (None, w), f_create = \<lambda>p w. (False, w), f_fill = \<lambda>p bs w. (False, w),
     f_rename = \<lambda>p q w. (False, w), f_unlink = \<lambda>p w. w\<rparr>"

definition still_injector :: "u64 \<Rightarrow> bytes \<Rightarrow> int injector_api" where
  "still_injector payload_args elf =
     \<lparr>ia_processes = \<lparr>pa_self = 1, pa_size = \<lambda>w. ((-1, 0), w), pa_alloc = \<lambda>n w. (False, w), pa_data = \<lambda>n w. ((-1, 0, []), w)\<rparr>,
      ia_find_proc_by_name = \<lambda>w. (Some w, w), ia_kernel = still_kernel, ia_loader = still_loader,
      ia_inject = still_inject payload_args, ia_files = still_files, ia_sdk_version = \<lambda>w. (0, w), ia_usleep = \<lambda>n w. w,
      ia_elf = elf\<rparr>"

lemma still_calls:
  "lo_pt_load still_loader elf ph m = Some m" "lo_trunc_pg still_loader = id" "lo_round_pg still_loader = id"
  "lo_pt_mmap still_loader pid n v = (0x1000, v)" "lo_local_mmap still_loader n v = (True, v)"
  "lo_local_munmap still_loader n v = v" "lo_pt_continue still_loader pid v = (0, v)" "lo_kill_stop still_loader pid v = (0, v)"
  "lo_waitpid still_loader pid v = (pid, v)" "lo_pt_copyin still_loader pid bs a v = (0, v)"
  "lo_kernel_mprotect still_loader pid a n p v = (0, v)" "lo_pt_msync still_loader pid a n v = (0, v)"
  "k_self still_kernel = 1" "k_get_authid still_kernel pid v = (7, v)" "k_set_authid still_kernel pid x v = (0, v)"
  "pt_attach still_kernel pid v = (0, v)" "pt_detach still_kernel pid v = (0, v)" "k_kill_cont still_kernel pid v = v"
  "k_mprotect still_kernel pid a l q v = (0, v)"
  "pt_copyout still_kernel pid a l v = ((0, replicate l 0), v)" "pt_copyin still_kernel pid bs a v = ((0, 0), v)"
  "in_nid (still_inject args) s = Some [1]" "in_resolve (still_inject args) pid nid v = (0x400, v)"
  "in_payload_args (still_inject args) pid v = (args, v)" "length (in_stager (still_inject args)) = 1"
  by (simp_all add: still_loader_def still_kernel_def still_inject_def)

lemma still_load: "0 \<le> pid \<Longrightarrow> fst (commonfps_stable_elfldr_load still_loader pid demo_elf w) = Some 0x1010
    \<and> snd (snd (commonfps_stable_elfldr_load still_loader pid demo_elf w)) = w"
proof -
  have r: "commonfps_apply_relocations still_loader pid base demo_elf t v = (True, store_word 8 (base + 0x1234) t, v)" for base t v
    by (simp add: commonfps_apply_relocations_def demo_elf_parts section_relas_def demo_elf_header demo_elf_tables SHT_RELA_def
        apply_rela_def rela_type_def R_X86_64_RELATIVE_def)
  have "load_size still_loader demo_elf = 0x40"
    by (simp add: load_size_def load_bounds_def demo_elf_parts PT_LOAD_def still_calls)
  moreover assume "0 \<le> pid"
  ultimately show ?thesis
    by (simp add: commonfps_stable_elfldr_load_def demo_elf_header demo_valid prepare_mirror_def demo_elf_parts r
        commonfps_trace_continue_def commonfps_trace_stop_def commit_image_def PT_LOAD_def PF_X_def store_word_def
        still_calls ld_init_def Let_def)
qed

lemma still_files_read: "f_read still_files p w = (None, w)" "f_unlink still_files p w = w"
  by (simp_all add: still_files_def)

lemma still_stack_call:
  "\<exists>v. call_until_breakpoint_on_target_stack still_loader (still_inject args) pid a xs w = (v, w)"
  by (auto simp: call_until_breakpoint_on_target_stack_def still_calls still_inject_def Let_def)

lemma still_answer: "get_i32 0x20 (replicate 0x28 0) = 0"
  by code_simp

lemma still_ia:
  "ia_files (still_injector args elf) = still_files" "ia_kernel (still_injector args elf) = still_kernel"
  "ia_loader (still_injector args elf) = still_loader" "ia_inject (still_injector args elf) = still_inject args"
  "ia_elf (still_injector args elf) = elf" "ia_sdk_version (still_injector args elf) w = (0, w)"
  "ia_usleep (still_injector args elf) n w = w"
  by (simp_all add: still_injector_def)

lemma still_find: "0 < pid \<Longrightarrow> ia_find (still_injector args elf) pid = ((lookup_init\<lparr>lk_pid := pid\<rparr>, KernelAllprocFallback), pid)"
  by (simp add: ia_find_def find_shellui_pid_def still_injector_def lookup_init_def)

lemma still_marker:
  "marker_matches still_files pid v = (False, v)" "last_stage_for still_files pid v = (''unavailable'', v)"
  by (simp_all add: marker_matches_def last_stage_for_def still_files_read)

lemma still_injection:
  assumes "0 < pid" "args = 0 \<or> args = 0x800"
  shows "\<exists>r. inject_shellui_stable still_kernel still_loader (still_inject args) pid demo_elf True w = (r, w) \<and>
    si_elf_loaded r \<and> si_auth_restored r \<and> si_pthread_create_ok r = (args \<noteq> 0)"
proof -
  obtain t where l: "commonfps_stable_elfldr_load still_loader pid demo_elf w = (Some 0x1010, t, w)"
    using still_load [of pid w] assms(1) by (metis less_le prod.collapse)
  have n: "length demo_elf = 208" by (simp add: demo_elf_def)
  obtain v where c: "call_until_breakpoint_on_target_stack still_loader (still_inject args) pid 0x1000 [0x1000, 0, 0, 0, 0, 0] w = (v, w)"
    using still_stack_call by blast
  have f: "run_stager still_kernel still_loader (still_inject args) pid 0x1000 0x1000 r w =
      (r\<lparr>si_target_stack_preserved := True, si_bootstrap_started := True, si_pthread_create_rc := 0,
         si_pthread_create_ok := si_thread_start_requested r\<rparr>, w)" for r
    by (simp add: run_stager_def c still_calls still_answer [simplified] Let_def)
  show ?thesis using assms
    by (auto simp: inject_shellui_stable_def inject_attached_def resolve_remote_def l n still_calls si_init_def
        start_image_def place_stager_def place_functions_def stager_size_def f Let_def)
qed

lemma still_wait:
  assumes "0 < pid"
  shows "wait_marker (still_injector args elf) pid i n pid = (TimedOut, pid)"
proof (induction n arbitrary: i)
  case (Suc n)
  have "poll_and_apply_shellui_hook still_kernel still_files (ia_sdk_version (still_injector args elf)) pid pid = (NoRequest, hr_init, pid)"
    by (simp add: poll_and_apply_shellui_hook_def read_exact_file_def still_files_read)
  then show ?case using Suc.IH [of "Suc i"] by (simp add: still_find [OF assms] still_marker still_ia)
qed simp

text \<open>The calls of this console.\<close>

lemma still_call:
  assumes "0 < pid" "args = 0 \<or> args = 0x800" "\<not> ij_renderer_quarantined s" "ij_attempted_pid s \<noteq> pid"
  shows "\<exists>r s'. ensure_shellui_renderer (still_injector args demo_elf) s pid =
      (\<lparr>en_pid = Some pid, en_ok = False, en_marked = False, en_injected = Some r\<rparr>, s', pid) \<and>
    si_elf_loaded r \<and> si_auth_restored r \<and> si_pthread_create_ok r = (args \<noteq> 0) \<and> ij_attempted_pid s' = pid \<and>
    ij_renderer_quarantined s' = (args \<noteq> 0)"
proof -
  let ?ia = "still_injector args demo_elf"
  obtain r where r: "inject_shellui_stable still_kernel still_loader (still_inject args) pid demo_elf True pid = (r, pid)"
    "si_elf_loaded r" "si_auth_restored r" "si_pthread_create_ok r = (args \<noteq> 0)"
    using still_injection [OF assms(1,2)] by blast
  show ?thesis using assms r
    by (simp add: ensure_shellui_renderer_def still_find still_ia still_marker attempt_gate_def inject_renderer_def start_injection_def
        clear_shellui_hook_protocol_files_def still_files_read still_wait quarantine_def lookup_init_def Let_def)
qed

text \<open>The shell is replaced and comes back under its old number: it is another process by then.\<close>

theorem one_image_per_shell_witness:
  "\<exists>cs s e. ensure_runs (still_injector 0 demo_elf) (\<lambda>n e. if n = 1 then 41 else 40) 3 injector_init 40 = (cs, s, e) \<and>
    (\<exists>k. 0 < k \<and> k < 2 \<and> en_pid (cs ! k) \<noteq> None \<and> en_pid (cs ! k) \<noteq> Some 40)"
proof -
  let ?ia = "still_injector 0 demo_elf"
  obtain r s where 1: "ensure_shellui_renderer ?ia injector_init 40 =
      (\<lparr>en_pid = Some 40, en_ok = False, en_marked = False, en_injected = Some r\<rparr>, s, 40)"
    "si_elf_loaded r" "ij_attempted_pid s = 40" "\<not> ij_renderer_quarantined s"
    using still_call [of 40 0 injector_init] by (auto simp: injector_init_def)
  obtain r2 s2 where 2: "ensure_shellui_renderer ?ia s 41 =
      (\<lparr>en_pid = Some 41, en_ok = False, en_marked = False, en_injected = Some r2\<rparr>, s2, 41)"
    "ij_attempted_pid s2 = 41" "\<not> ij_renderer_quarantined s2"
    using still_call [of 41 0 s] 1 by auto
  obtain r3 s3 where 3: "ensure_shellui_renderer ?ia s2 40 =
      (\<lparr>en_pid = Some 40, en_ok = False, en_marked = False, en_injected = Some r3\<rparr>, s3, 40)"
    using still_call [of 40 0 s2] 2 by auto
  have run: "ensure_runs ?ia (\<lambda>n e. if n = 1 then 41 else 40) 3 injector_init 40 =
      ([\<lparr>en_pid = Some 40, en_ok = False, en_marked = False, en_injected = Some r\<rparr>,
        \<lparr>en_pid = Some 41, en_ok = False, en_marked = False, en_injected = Some r2\<rparr>,
        \<lparr>en_pid = Some 40, en_ok = False, en_marked = False, en_injected = Some r3\<rparr>], s3, 40)"
    by (simp add: numeral_3_eq_3 1 2 3)
  show ?thesis using one_image_per_shell [OF run, of 0 2 r] 1(2) by (simp only: run) simp
qed

theorem quarantine_is_final_witness:
  "\<exists>cs s e. ensure_runs (still_injector 0x800 demo_elf) (\<lambda>n e. 40) 2 injector_init 40 = (cs, s, e) \<and> cs ! 1 = no_call"
proof -
  let ?ia = "still_injector 0x800 demo_elf"
  obtain r s where 1: "ensure_shellui_renderer ?ia injector_init 40 =
      (\<lparr>en_pid = Some 40, en_ok = False, en_marked = False, en_injected = Some r\<rparr>, s, 40)"
    "si_pthread_create_ok r" "si_auth_restored r"
    using still_call [of 40 "0x800" injector_init] by (auto simp: injector_init_def)
  obtain cs s2 e2 where run: "ensure_runs ?ia (\<lambda>n e. 40) 2 injector_init 40 = (cs, s2, e2)" by (metis prod.collapse)
  have "ensure_runs ?ia (\<lambda>n e. 40) (Suc 0) injector_init 40 =
      ([\<lparr>en_pid = Some 40, en_ok = False, en_marked = False, en_injected = Some r\<rparr>], s, 40)"
    by (simp add: 1)
  then have "cs ! 0 = \<lparr>en_pid = Some 40, en_ok = False, en_marked = False, en_injected = Some r\<rparr>"
    using run by (auto simp: numeral_2_eq_2 split: prod.splits)
  then show ?thesis using quarantine_is_final [OF run, of 0 1 r] 1 run by simp
qed

text \<open>An image that is too short for an ELF header is not loaded; the seventh call tries again.\<close>

definition short_injection :: stable_injection where
  "short_injection = si_init\<lparr>si_thread_start_requested := True\<rparr>"

lemma short_call:
  assumes "\<not> ij_renderer_quarantined s"
  shows "ensure_shellui_renderer (still_injector 0 []) s 40 =
    (case attempt_gate 40 (s\<lparr>ij_discovery_failures := 0, ij_last_shellui_pid := 40\<rparr>) of
       Inl (ok, s2) \<Rightarrow> (no_call\<lparr>en_pid := Some 40, en_ok := ok\<rparr>, s2, 40)
     | Inr s2 \<Rightarrow> (\<lparr>en_pid = Some 40, en_ok = False, en_marked = False, en_injected = Some short_injection\<rparr>,
                   s2\<lparr>ij_retry_allowed := True, ij_retry_delay_ticks := 5\<rparr>, 40))"
  using assms
  by (simp add: ensure_shellui_renderer_def still_find still_ia still_marker inject_renderer_def start_injection_def inject_shellui_stable_def
      clear_shellui_hook_protocol_files_def still_files_read lookup_init_def si_init_def short_injection_def Let_def split: sum.splits)

theorem failed_injection_rests_witness:
  "\<exists>cs s e. ensure_runs (still_injector 0 []) (\<lambda>n e. 40) 7 injector_init 40 = (cs, s, e) \<and>
    en_injected (cs ! 6) = Some short_injection \<and> 5 \<le> card {k. 0 < k \<and> k < 6 \<and> used_tick 40 (cs ! k)}"
proof -
  let ?attempt = "\<lparr>en_pid = Some 40, en_ok = False, en_marked = False, en_injected = Some short_injection\<rparr>"
  let ?rest = "\<lparr>en_pid = Some 40, en_ok = False, en_marked = False, en_injected = None\<rparr>"
  have "fst (ensure_runs (still_injector 0 []) (\<lambda>n e. 40) (Suc (Suc (Suc (Suc (Suc (Suc (Suc 0))))))) injector_init 40) =
      [?attempt, ?rest, ?rest, ?rest, ?rest, ?rest, ?attempt]"
    by (simp add: short_call attempt_gate_def injector_init_def no_call_def)
  then obtain s e where run: "ensure_runs (still_injector 0 []) (\<lambda>n e. 40) 7 injector_init 40 =
      ([?attempt, ?rest, ?rest, ?rest, ?rest, ?rest, ?attempt], s, e)"
    by (metis eval_nat_numeral(2,3) One_nat_def numeral_One BitM.simps prod.collapse)
  have same: "\<forall>k. 0 < k \<and> k < (6::nat) \<longrightarrow> en_pid ([?attempt, ?rest, ?rest, ?rest, ?rest, ?rest, ?attempt] ! k) = None \<or>
      en_pid ([?attempt, ?rest, ?rest, ?rest, ?rest, ?rest, ?attempt] ! k) = Some 40"
    by (auto simp: nth_Cons')
  from failed_injection_rests [OF run, of 0 6 short_injection 40] same run show ?thesis
    by (simp add: short_injection_def si_init_def)
qed

end
