(* ===== verification/Config_Text.thy ===== *)
theory Config_Text
  imports Overlay_Config Text_Format
begin

text \<open>
  The configuration file (\<^verbatim>\<open>src/core/config.cpp\<close>): what a text of
  \<^verbatim>\<open>key=value\<close> lines means as an overlay configuration, and the text a
  configuration is saved as.
\<close>

section \<open>Reading\<close>

definition parse_corner :: "string \<Rightarrow> corner" where
  "parse_corner value =
     (if value = ''top_left'' then TopLeft
      else if value = ''top_right'' then TopRight
      else if value = ''bottom_right'' then BottomRight
      else BottomLeft)"

text \<open>\<open>None\<close> leaves the result as it was: not a number, more text behind it, or not finite.\<close>

definition number :: "string \<Rightarrow> fl option" where
  "number text =
     (case strtof (c_str text) of
        None \<Rightarrow> None
      | Some (value, end) \<Rightarrow> if end \<noteq> [] \<or> \<not> isfinite value then None else Some value)"

definition parse_color :: "string \<Rightarrow> u32 \<Rightarrow> u32" where
  "parse_color text result =
     (let digits = (if text \<noteq> [] \<and> hd text = CHR ''#'' then tl text else text)
      in if length digits \<noteq> 6 \<or> \<not> list_all is_hex digits then result
         else of_nat (base_value 16 digits))"

definition config_font_size :: "fl \<Rightarrow> int \<Rightarrow> int" where
  "config_font_size v old =
     (case fl_to_int (fl_clamp v (fl_of_int round32 kMinFontSize) (fl_of_int round32 kMaxFontSize)) of
        Some i \<Rightarrow> i | None \<Rightarrow> old)"

definition apply_setting :: "overlay_config \<Rightarrow> string \<Rightarrow> string \<Rightarrow> overlay_config" where
  "apply_setting cfg key value =
     (if key = ''corner'' then cfg\<lparr>corner := parse_corner value\<rparr>
      else if key = ''font_size'' then
        (case number value of None \<Rightarrow> cfg | Some v \<Rightarrow> cfg\<lparr>font_size := config_font_size v (font_size cfg)\<rparr>)
      else if key = ''margin_x'' then
        (case number value of None \<Rightarrow> cfg | Some v \<Rightarrow> cfg\<lparr>margin_x := v\<rparr>)
      else if key = ''margin_y'' then
        (case number value of None \<Rightarrow> cfg | Some v \<Rightarrow> cfg\<lparr>margin_y := v\<rparr>)
      else if key = ''show_label'' then
        (if value = ''0'' \<or> value = ''false'' then cfg\<lparr>show_label := False\<rparr>
         else if value = ''1'' \<or> value = ''true'' then cfg\<lparr>show_label := True\<rparr>
         else cfg)
      else if key = ''label_color'' then cfg\<lparr>label_color := parse_color value (label_color cfg)\<rparr>
      else if key = ''value_color'' then cfg\<lparr>value_color := parse_color value (value_color cfg)\<rparr>
      else cfg)"

definition apply_line :: "overlay_config \<Rightarrow> string \<Rightarrow> overlay_config" where
  "apply_line cfg raw =
     (let line = trim raw
      in if line = [] \<or> hd line = CHR ''#'' \<or> hd line = CHR '';'' \<or> hd line = CHR ''['' then cfg
         else case cut_at (CHR ''='') line of
                None \<Rightarrow> cfg
              | Some (key, value) \<Rightarrow> apply_setting cfg (trim key) (trim value))"

definition parse_config_text :: "string \<Rightarrow> overlay_config" where
  "parse_config_text text = sanitize_config (foldl apply_line default_config (text_lines text))"

section \<open>Writing\<close>

fun corner_name :: "corner \<Rightarrow> string" where
  "corner_name TopLeft = ''top_left''"
| "corner_name TopRight = ''top_right''"
| "corner_name BottomRight = ''bottom_right''"
| "corner_name _ = ''bottom_left''"

definition color_text :: "u32 \<Rightarrow> string" where
  "color_text c = CHR ''#'' # zero_filled 6 (hex_text (unat (c AND 0xFFFFFF)))"

definition config_line :: "string \<Rightarrow> string \<Rightarrow> string" where
  "config_line key value = key @ CHR ''='' # value"

definition config_lines :: "overlay_config \<Rightarrow> string list" where
  "config_lines cfg =
     [''[overlay]'',
      config_line ''corner'' (corner_name (corner cfg)),
      config_line ''font_size'' (show_int (font_size cfg)),
      config_line ''margin_x'' (float_text (margin_x cfg)),
      config_line ''margin_y'' (float_text (margin_y cfg)),
      config_line ''show_label'' (if show_label cfg then ''1'' else ''0''),
      config_line ''label_color'' (color_text (label_color cfg)),
      config_line ''value_color'' (color_text (value_color cfg))]"

definition serialize_config :: "overlay_config \<Rightarrow> string" where
  "serialize_config cfg = concat (map (\<lambda>l. l @ [CHR 0x0A]) (config_lines cfg))"

section \<open>Lines\<close>

text \<open>A value that survives the trip through a line: no line feed, no white space at its ends.\<close>

definition clean :: "string \<Rightarrow> bool" where
  "clean v \<longleftrightarrow> v \<noteq> [] \<and> CHR 0x0A \<notin> set v \<and> \<not> isspace (hd v) \<and> \<not> isspace (last v)"

lemma clean_trim: "clean v \<Longrightarrow> trim v = v"
  by (simp add: clean_def trim_id)

lemma text_lines_join:
  "\<forall>l\<in>set ls. CHR 0x0A \<notin> set l \<Longrightarrow> text_lines (concat (map (\<lambda>l. l @ [CHR 0x0A]) ls)) = ls"
  by (induction ls) (simp_all add: text_lines_cons)

lemma apply_config_line:
  assumes "clean key" "clean value" "CHR ''='' \<notin> set key" "hd key \<notin> {CHR ''#'', CHR '';'', CHR ''[''}"
  shows "apply_line cfg (config_line key value) = apply_setting cfg key value"
proof -
  have "trim (config_line key value) = config_line key value"
    using assms(1,2) by (intro trim_id) (simp add: clean_def config_line_def)
  moreover have "hd (config_line key value) = hd key" "config_line key value \<noteq> []"
    using assms(1) by (simp_all add: clean_def config_line_def)
  ultimately show ?thesis using assms
    by (simp add: apply_line_def config_line_def cut_at_append clean_trim)
qed

lemma clean_digits: "list_all is_digit v \<Longrightarrow> v \<noteq> [] \<Longrightarrow> clean v"
  using hd_in_set [of v] last_in_set [of v] is_digit_not(1) [of "hd v"] is_digit_not(1) [of "last v"]
    is_digit_not(6) [of "CHR 0x0A"]
  by (auto simp: clean_def list_all_iff)

lemma clean_decimal: "clean (decimal n)"
  using decimal_digits [of n] by (auto intro: clean_digits)

lemma clean_color: "clean (color_text c)"
proof -
  have n: "unat (c AND 0xFFFFFF) < 16 ^ 6" using color_mask_bound [of c] by simp
  note z = zero_filled_hex [OF n]
  have "last (color_text c) \<in> set (zero_filled 6 (hex_text (unat (c AND 0xFFFFFF))))"
    using z(1) by (auto simp: color_text_def intro!: last_in_set)
  moreover have "is_hex d" if "d \<in> set (zero_filled 6 (hex_text (unat (c AND 0xFFFFFF))))" for d
    using z(2) that by (simp add: list_all_iff)
  ultimately show ?thesis using hex_digit_not
    by (auto simp: clean_def color_text_def isspace_def)
qed

lemma clean_corner: "clean (corner_name c)"
  by (cases c) (simp_all add: clean_def isspace_def)

section \<open>Values\<close>

lemma c_str_digits: "list_all is_digit v \<Longrightarrow> c_str v = v"
  by (auto simp: c_str_def list_all_iff dest: is_digit_not)

lemma number_decimal: "n \<le> 16777216 \<Longrightarrow> number (decimal n) = Some (Fin False (of_nat n))"
  using decimal_digits [of n]
  by (simp add: number_def c_str_digits strtof_digits digits_value_decimal round32_nat)

lemma parse_color_text: "unat c < 16777216 \<Longrightarrow> parse_color (color_text c) old = c"
proof -
  assume c: "unat c < 16777216"
  then have n: "unat (c AND 0xFFFFFF) < 16 ^ 6" using color_mask_bound [of c] by simp
  from zero_filled_hex [OF n] c show ?thesis
    by (simp add: parse_color_def color_text_def color_mask_id)
qed

lemma config_font_size_nat:
  assumes "14 \<le> n" "n \<le> 64" shows "config_font_size (Fin False (of_nat n)) old = int n"
proof -
  have r: "fl_of_int round32 14 = Fin False 14" "fl_of_int round32 64 = Fin False 64"
    using round32_nat [of 14] round32_nat [of 64] by (simp_all add: fl_of_int_def fl_of_rat_def)
  have "(14 :: rat) \<le> of_nat n" "(of_nat n :: rat) \<le> 64"
    using assms by (metis of_nat_le_iff of_nat_numeral)+
  with assms show ?thesis
    by (simp add: config_font_size_def r kMinFontSize_def kMaxFontSize_def fl_clamp_def)
qed

text \<open>A margin of a whole number of pixels, as the settings page offers them.\<close>

definition pixel_margin :: "fl \<Rightarrow> bool" where
  "pixel_margin m \<longleftrightarrow> (\<exists>n\<le>240. m = Fin False (of_nat n))"

lemma pixel_margin_text:
  assumes "pixel_margin m" shows "clean (float_text m)" "number (float_text m) = Some m"
proof -
  from assms obtain n where "n \<le> 240" "m = Fin False (of_nat n)" by (auto simp: pixel_margin_def)
  then show "clean (float_text m)" "number (float_text m) = Some m"
    by (simp_all add: magnitude_text_nat clean_decimal number_decimal)
qed

lemma file_gives_config:
  assumes "config_ok cfg" "pixel_margin (margin_x cfg)" "pixel_margin (margin_y cfg)"
  shows "parse_config_text (serialize_config cfg) = cfg"
proof -
  obtain n where font: "font_size cfg = int n" "14 \<le> n" "n \<le> 64"
    using assms(1) by (cases "font_size cfg") (auto simp: config_ok_def)
  have show_font: "show_int (int n) = decimal n" by (simp add: show_int_def)
  note vals = clean_corner clean_color clean_decimal pixel_margin_text [OF assms(2)]
    pixel_margin_text [OF assms(3)] show_font
  have "\<forall>l\<in>set (config_lines cfg). CHR 0x0A \<notin> set l"
    using vals by (auto simp: config_lines_def config_line_def clean_def font(1))
  then have lines: "text_lines (serialize_config cfg) = config_lines cfg"
    unfolding serialize_config_def by (rule text_lines_join)
  have header: "apply_line c ''[overlay]'' = c" for c
    by (simp add: apply_line_def trim_id isspace_def)
  have keys: "clean ''corner''" "clean ''font_size''" "clean ''margin_x''" "clean ''margin_y''" "clean ''show_label''"
    "clean ''label_color''" "clean ''value_color''" "clean ''0''" "clean ''1''"
    by (simp_all add: clean_def isspace_def)
  have corner: "parse_corner (corner_name (corner cfg)) = corner cfg"
    using assms(1) by (auto simp: config_ok_def parse_corner_def)
  have "foldl apply_line default_config (config_lines cfg) = cfg"
    using assms(1) font(2,3)
    by (cases "show_label cfg")
      (simp_all add: config_lines_def header apply_config_line vals keys apply_setting_def corner
        number_decimal config_font_size_nat parse_color_text config_ok_def font(1))
  then show ?thesis
    by (simp add: parse_config_text_def lines sanitize_config_id [OF assms(1)])
qed

text \<open>
  A configuration the settings page can produce survives its file: reading the text it
  is saved as gives it back, every field.
\<close>

theorem config_text_roundtrip:
  assumes "config_ok cfg" "pixel_margin (margin_x cfg)" "pixel_margin (margin_y cfg)"
  shows "parse_config_text (serialize_config cfg) = cfg"
  using file_gives_config [OF assms] .

theorem config_text_roundtrip_witness:
  "parse_config_text (serialize_config default_config) = default_config"
proof -
  have "pixel_margin (margin_x default_config)" "pixel_margin (margin_y default_config)"
    by (auto simp: pixel_margin_def default_config_def overlay_constants intro: exI [of _ 10] exI [of _ 4])
  from config_text_roundtrip [OF default_config_ok this] show ?thesis .
qed

end
