(* ===== verification/Settings_Form.thy ===== *)
theory Settings_Form
  imports Config_Text
begin

text \<open>
  The form the settings page posts (\<^verbatim>\<open>unescape\<close>, \<^verbatim>\<open>integer\<close> and
  \<^verbatim>\<open>parse_settings_form\<close> of \<^verbatim>\<open>src/core/settings.cpp\<close>).  The fields are an
  association list: a second field of the same name is refused before it is added, so the
  list is a map and its length the size of the map.
\<close>

section \<open>Definitions\<close>

text \<open>Printable ASCII only, after decoding.\<close>

definition printable :: "nat \<Rightarrow> bool" where
  "printable c \<longleftrightarrow> \<not> (c < 32 \<or> c > 126)"

fun unescape :: "string \<Rightarrow> string option" where
  "unescape [] = Some []"
| "unescape (c # cs) =
     (if c = CHR ''%'' then
        (case cs of
           a # b # rest \<Rightarrow>
             if hex a < 0 \<or> hex b < 0 then None
             else if \<not> printable (nat (hex a * 16 + hex b)) then None
             else map_option ((#) (char_of (nat (hex a * 16 + hex b)))) (unescape rest)
         | _ \<Rightarrow> None)
      else
        let d = (if c = CHR ''+'' then CHR '' '' else c)
        in if \<not> printable (of_char d) then None else map_option ((#) d) (unescape cs))"

definition parse_integer :: "string \<Rightarrow> int \<Rightarrow> int \<Rightarrow> int option" where
  "parse_integer s lo hi =
     (if s = [] \<or> 3 < length s \<or> \<not> list_all is_digit s then None
      else let n = int (digits_value s) in if n < lo \<or> hi < n then None else Some n)"

function form_fields :: "string \<Rightarrow> (string \<times> string) list \<Rightarrow> (string \<times> string) list option" where
  "form_fields body fs =
     (if body = [] then Some fs
      else
        let (part, more) = (case cut_at (CHR ''&'') body of None \<Rightarrow> (body, None) | Some (a, b) \<Rightarrow> (a, Some b))
        in case cut_at (CHR ''='') part of
             None \<Rightarrow> None
           | Some (k, v) \<Rightarrow>
               (case (unescape k, unescape v) of
                  (Some key, Some value) \<Rightarrow>
                    if map_of fs key \<noteq> None then None
                    else (case more of
                            None \<Rightarrow> Some ((key, value) # fs)
                          | Some rest \<Rightarrow>
                              if rest = [] then None else form_fields rest ((key, value) # fs))
                | _ \<Rightarrow> None))"
  by auto

termination form_fields
  by (relation "measure (\<lambda>(body, _). length body)")
    (auto dest: cut_at_shorter split: option.splits)

declare form_fields.simps [simp del]

definition form_corner :: "string \<Rightarrow> corner option" where
  "form_corner c =
     (if c = ''top_left'' then Some TopLeft
      else if c = ''top_right'' then Some TopRight
      else if c = ''bottom_left'' then Some BottomLeft
      else if c = ''bottom_right'' then Some BottomRight
      else None)"

definition form_color :: "string \<Rightarrow> u32 option" where
  "form_color color =
     (if length color \<noteq> 7 \<or> hd color \<noteq> CHR ''#'' \<or> \<not> list_all is_hex (tl color) then None
      else Some (of_nat (base_value 16 (tl color))))"

definition form_keys :: "string list" where
  "form_keys = [''corner'', ''font_size'', ''margin_x'', ''margin_y'', ''show_label'', ''label_color'', ''value_color'']"

definition form_config :: "(string \<Rightarrow> string) \<Rightarrow> overlay_config option" where
  "form_config field =
     (case form_corner (field ''corner'') of
        None \<Rightarrow> None
      | Some c \<Rightarrow>
          (case (parse_integer (field ''font_size'') kMinFontSize kMaxFontSize,
                 parse_integer (field ''margin_x'') 0 240, parse_integer (field ''margin_y'') 0 240,
                 parse_integer (field ''show_label'') 0 1) of
             (Some font, Some mx, Some my, Some label) \<Rightarrow>
               (case (form_color (field ''label_color''), form_color (field ''value_color'')) of
                  (Some lc, Some vc) \<Rightarrow>
                    Some (default_config\<lparr>corner := c, font_size := font, margin_x := fl_of_int round32 mx,
                            margin_y := fl_of_int round32 my, show_label := (label \<noteq> 0),
                            label_color := lc, value_color := vc\<rparr>)
                | _ \<Rightarrow> None)
           | _ \<Rightarrow> None))"

definition parse_settings_form :: "string \<Rightarrow> overlay_config option" where
  "parse_settings_form body =
     (if body = [] \<or> 512 < length body then None
      else case form_fields body [] of
             None \<Rightarrow> None
           | Some fs \<Rightarrow>
               if length fs \<noteq> 7 \<or> \<not> (\<forall>k\<in>set form_keys. map_of fs k \<noteq> None) then None
               else form_config (\<lambda>k. the (map_of fs k)))"

section \<open>What an accepted form means\<close>

lemma parse_integer_range:
  assumes "parse_integer s lo hi = Some n" "0 \<le> lo"
  shows "lo \<le> n \<and> n \<le> hi \<and> 0 \<le> n"
  using assms by (auto simp: parse_integer_def Let_def split: if_splits)

lemma digits_value_less: "list_all is_digit s \<Longrightarrow> digits_value s < 10 ^ length s"
proof (induction s rule: rev_induct)
  case (snoc c s)
  then have "digits_value s + 1 \<le> 10 ^ length s" "digit_val c \<le> 9"
    by (auto simp: is_digit_def digit_val_def)
  then have "10 * (digits_value s + 1) \<le> 10 * 10 ^ length s" by (intro mult_le_mono2)
  with \<open>digit_val c \<le> 9\<close> show ?case by (simp add: digits_value_def)
qed (simp add: digits_value_def)

lemma hex_range: "0 \<le> hex c \<Longrightarrow> nat (hex c) < 16"
  by (auto simp: hex_def Let_def split: if_splits)

lemma base_value_less: "list_all is_hex s \<Longrightarrow> base_value 16 s < 16 ^ length s"
proof (induction s rule: rev_induct)
  case (snoc c s)
  then have "base_value 16 s + 1 \<le> 16 ^ length s" "nat (hex c) < 16"
    using hex_range [of c] by (auto simp: is_hex_def)
  then have "16 * (base_value 16 s + 1) \<le> 16 * 16 ^ length s" by (intro mult_le_mono2)
  with \<open>nat (hex c) < 16\<close> show ?case by (simp add: base_value_def)
qed (simp add: base_value_def)

lemma form_color_bound:
  assumes "form_color s = Some c" shows "unat c < 16777216"
proof -
  from assms have l: "length (tl s) = 6" and h: "list_all is_hex (tl s)" and c: "c = of_nat (base_value 16 (tl s))"
    by (auto simp: form_color_def split: if_splits)
  from base_value_less [OF h] l have "base_value 16 (tl s) < 16777216" by simp
  then show ?thesis by (simp add: c unat_of_nat)
qed

lemma pixel_margin_of_int:
  assumes "0 \<le> i" "i \<le> 240" shows "pixel_margin (fl_of_int round32 i)"
proof -
  from assms obtain n where n: "i = int n" "n \<le> 240" by (cases i) auto
  then have "fl_of_int round32 i = Fin False (of_nat n)"
    using round32_nat [of n] by (simp add: fl_of_int_def fl_of_rat_def)
  with n(2) show ?thesis by (auto simp: pixel_margin_def)
qed

lemma default_pixels: "pixel_margin (margin_x default_config)" "pixel_margin (margin_y default_config)"
  by (auto simp: pixel_margin_def default_config_def overlay_constants intro: exI [of _ 10] exI [of _ 4])

lemma pixel_margin_ok: "pixel_margin m \<Longrightarrow> margin_ok m"
  by (auto simp: pixel_margin_def margin_ok_def)

section \<open>Every configuration has a form\<close>

text \<open>The form the page posts for a configuration: the sharp sign of a colour is escaped.\<close>

definition form_field :: "string \<Rightarrow> string \<Rightarrow> string" where
  "form_field key value = key @ CHR ''='' # value"

definition form_color_text :: "u32 \<Rightarrow> string" where
  "form_color_text c = ''%23'' @ zero_filled 6 (hex_text (unat (c AND 0xFFFFFF)))"

definition form_text :: "overlay_config \<Rightarrow> string" where
  "form_text cfg =
     form_field ''corner'' (corner_name (corner cfg)) @ CHR ''&'' #
     form_field ''font_size'' (show_int (font_size cfg)) @ CHR ''&'' #
     form_field ''margin_x'' (float_text (margin_x cfg)) @ CHR ''&'' #
     form_field ''margin_y'' (float_text (margin_y cfg)) @ CHR ''&'' #
     form_field ''show_label'' (if show_label cfg then ''1'' else ''0'') @ CHR ''&'' #
     form_field ''label_color'' (form_color_text (label_color cfg)) @ CHR ''&'' #
     form_field ''value_color'' (form_color_text (value_color cfg))"

text \<open>Text that needs no escape.\<close>

definition unreserved :: "string \<Rightarrow> bool" where
  "unreserved s \<longleftrightarrow> list_all (\<lambda>c. printable (of_char c) \<and> c \<noteq> CHR ''%'' \<and> c \<noteq> CHR ''+'' \<and> c \<noteq> CHR ''&'' \<and> c \<noteq> CHR ''='') s"

lemma unescape_unreserved: "unreserved s \<Longrightarrow> unescape s = Some s"
  by (induction s) (simp_all add: unreserved_def)

lemma digits_unreserved: "list_all is_digit s \<Longrightarrow> unreserved s"
  by (auto simp: unreserved_def list_all_iff is_digit_def printable_def)

lemma hex_unreserved: "list_all is_hex s \<Longrightarrow> unreserved s"
  by (auto simp: unreserved_def list_all_iff is_hex_def hex_def printable_def Let_def split: if_splits)

lemma decimal_unreserved: "unreserved (decimal n)"
  using decimal_digits [of n] by (simp add: digits_unreserved)

lemma form_field_nonempty [simp]: "form_field key v \<noteq> []"
  by (simp add: form_field_def)

lemma unreserved_not_mark: "unreserved s \<Longrightarrow> CHR ''&'' \<notin> set s" "unreserved s \<Longrightarrow> CHR ''='' \<notin> set s"
  by (auto simp: unreserved_def list_all_iff)

text \<open>One field in front of others.\<close>

lemma form_fields_step:
  assumes "unreserved key" "CHR ''&'' \<notin> set v" "unescape v = Some value" "map_of fs key = None"
  shows "form_fields (form_field key v @ CHR ''&'' # rest) fs
      = (if rest = [] then None else form_fields rest ((key, value) # fs))"
    "form_fields (form_field key v) fs = Some ((key, value) # fs)"
proof -
  note k = unreserved_not_mark [OF assms(1)]
  have f: "CHR ''&'' \<notin> set (form_field key v)" using k(1) assms(2) by (simp add: form_field_def)
  have cut: "cut_at (CHR ''='') (form_field key v) = Some (key, v)"
    using k(2) by (simp add: form_field_def cut_at_append)
  have key: "unescape key = Some key" by (rule unescape_unreserved [OF assms(1)])
  show "form_fields (form_field key v @ CHR ''&'' # rest) fs
      = (if rest = [] then None else form_fields rest ((key, value) # fs))"
    by (subst form_fields.simps) (simp add: cut_at_append [OF f] cut key assms(3,4))
  have "cut_at (CHR ''&'') (form_field key v) = None" using f by (simp add: cut_at_def)
  moreover have "form_field key v \<noteq> []" by (simp add: form_field_def)
  ultimately show "form_fields (form_field key v) fs = Some ((key, value) # fs)"
    by (subst form_fields.simps) (simp add: cut key assms(3,4))
qed

lemma unescape_color:
  "unescape (form_color_text c) = Some (color_text c)" "CHR ''&'' \<notin> set (form_color_text c)"
proof -
  have n: "unat (c AND 0xFFFFFF) < 16 ^ 6" using color_mask_bound [of c] by simp
  have u: "unreserved (zero_filled 6 (hex_text (unat (c AND 0xFFFFFF))))"
    by (rule hex_unreserved [OF zero_filled_hex(2) [OF n]]) simp
  have "hex (CHR ''2'') = 2" "hex (CHR ''3'') = 3" "char_of (35 :: nat) = CHR ''#''" by code_simp+
  then show "unescape (form_color_text c) = Some (color_text c)"
    by (simp add: form_color_text_def color_text_def unescape_unreserved [OF u] printable_def)
  show "CHR ''&'' \<notin> set (form_color_text c)"
    using unreserved_not_mark(1) [OF u] by (simp add: form_color_text_def)
qed

lemma form_color_text: "unat c < 16777216 \<Longrightarrow> form_color (color_text c) = Some c"
proof -
  assume c: "unat c < 16777216"
  then have n: "unat (c AND 0xFFFFFF) < 16 ^ 6" using color_mask_bound [of c] by simp
  from zero_filled_hex [OF n] c show ?thesis
    by (simp add: form_color_def color_text_def color_mask_id)
qed

lemma decimal_length_3: "n < 1000 \<Longrightarrow> length (decimal n) \<le> 3"
proof (cases "n = 0")
  case False
  assume "n < 1000"
  then have "(10 :: nat) ^ (length (decimal n) - 1) < 10 ^ 3"
    using decimal_length [of n] False by simp
  then have "length (decimal n) - 1 < 3" by (rule power_less_imp_less_exp [rotated]) simp
  then show ?thesis by simp
qed (simp add: decimal_base)

lemma parse_integer_decimal:
  assumes "n < 1000" "lo \<le> int n" "int n \<le> hi" shows "parse_integer (decimal n) lo hi = Some (int n)"
  using assms decimal_digits [of n] decimal_length_3 [of n]
  by (simp add: parse_integer_def digits_value_decimal)

lemma color_text_length: "length (color_text c) = 7" "length (form_color_text c) = 9"
proof -
  have "unat (c AND 0xFFFFFF) < 16 ^ 6" using color_mask_bound [of c] by simp
  from zero_filled_hex(1) [OF this] show "length (color_text c) = 7" "length (form_color_text c) = 9"
    by (simp_all add: color_text_def form_color_text_def)
qed

lemma form_accepted:
  assumes "config_ok cfg" "pixel_margin (margin_x cfg)" "pixel_margin (margin_y cfg)"
  shows "parse_settings_form (form_text cfg) = Some cfg"
proof -
  obtain n where font: "font_size cfg = int n" "14 \<le> n" "n \<le> 64"
    using assms(1) by (cases "font_size cfg") (auto simp: config_ok_def)
  obtain x y where mx: "margin_x cfg = Fin False (of_nat x)" "x \<le> 240" and my: "margin_y cfg = Fin False (of_nat y)" "y \<le> 240"
    using assms(2,3) by (auto simp: pixel_margin_def)
  have texts: "show_int (int n) = decimal n" "magnitude_text (of_nat x) = decimal x" "magnitude_text (of_nat y) = decimal y"
    using mx(2) my(2) by (simp_all add: show_int_def magnitude_text_nat)
  have flag: "unreserved ''1''" "unreserved ''0''"
    and keys: "list_all unreserved form_keys" and corner: "unreserved (corner_name c)" for c
    by (cases c; simp add: unreserved_def printable_def form_keys_def)+
  have "length (corner_name (corner cfg)) \<le> 12" by (cases "corner cfg") simp_all
  moreover have "length (decimal n) \<le> 3" "length (decimal x) \<le> 3" "length (decimal y) \<le> 3"
    using font(3) mx(2) my(2) by (simp_all add: decimal_length_3)
  ultimately have len: "length (form_text cfg) \<le> 512" "form_text cfg \<noteq> []"
    by (simp_all add: form_text_def form_field_def font(1) mx(1) my(1) texts color_text_length)
  let ?fields = "[(''value_color'', color_text (value_color cfg)), (''label_color'', color_text (label_color cfg)),
      (''show_label'', if show_label cfg then ''1'' else ''0''), (''margin_y'', decimal y), (''margin_x'', decimal x),
      (''font_size'', decimal n), (''corner'', corner_name (corner cfg))]"
  note fresh = flag corner decimal_unreserved
  have steps: "form_fields (form_text cfg) [] = Some ?fields"
    using keys unescape_color
    by (simp add: form_text_def font(1) mx(1) my(1) texts form_fields_step fresh unescape_unreserved
        unreserved_not_mark form_keys_def)
  have c: "form_corner (corner_name (corner cfg)) = Some (corner cfg)"
    using assms(1) by (auto simp: config_ok_def form_corner_def)
  have r: "fl_of_int round32 (int x) = margin_x cfg" "fl_of_int round32 (int y) = margin_y cfg"
    using mx my round32_nat [of x] round32_nat [of y] by (simp_all add: fl_of_int_def fl_of_rat_def)
  have l: "parse_integer (if show_label cfg then ''1'' else ''0'') 0 1 = Some (if show_label cfg then 1 else 0)"
    by (simp add: parse_integer_def is_digit_def digits_value_def digit_val_def)
  have "form_config (\<lambda>k. the (map_of ?fields k)) = Some cfg"
    using assms(1) font mx(2) my(2) l
    by (simp add: form_config_def c parse_integer_decimal kMinFontSize_def kMaxFontSize_def form_color_text r
        config_ok_def)
  then show ?thesis using len steps
    by (simp add: parse_settings_form_def form_keys_def)
qed

text \<open>
  The form is complete: for every configuration within the limits that has whole pixel
  margins there is a form that the program turns into exactly that configuration.
\<close>

theorem settings_form_complete:
  assumes "config_ok cfg" "pixel_margin (margin_x cfg)" "pixel_margin (margin_y cfg)"
  shows "parse_settings_form (form_text cfg) = Some cfg"
  using form_accepted [OF assms] .

theorem settings_form_complete_witness:
  "parse_settings_form (form_text default_config) = Some default_config"
proof -
  have "pixel_margin (margin_x default_config)" "pixel_margin (margin_y default_config)"
    by (fact default_pixels)+
  from settings_form_complete [OF default_config_ok this] show ?thesis .
qed

lemma form_result_ok:
  assumes "parse_settings_form body = Some cfg"
  shows "config_ok cfg" "pixel_margin (margin_x cfg)" "pixel_margin (margin_y cfg)"
proof -
  obtain field where "form_config field = Some cfg"
    using assms by (auto simp: parse_settings_form_def split: if_splits option.splits)
  then obtain c font mx my label lc vc where
    parts: "form_corner (field ''corner'') = Some c" "parse_integer (field ''font_size'') 14 64 = Some font"
      "parse_integer (field ''margin_x'') 0 240 = Some mx" "parse_integer (field ''margin_y'') 0 240 = Some my"
      "form_color (field ''label_color'') = Some lc" "form_color (field ''value_color'') = Some vc"
      "parse_integer (field ''show_label'') 0 1 = Some label"
    and cfg: "cfg = default_config\<lparr>corner := c, font_size := font, margin_x := fl_of_int round32 mx,
        margin_y := fl_of_int round32 my, show_label := (label \<noteq> 0), label_color := lc, value_color := vc\<rparr>"
    by (auto simp: form_config_def kMinFontSize_def kMaxFontSize_def split: option.splits)
  have "c \<in> {TopLeft, TopRight, BottomLeft, BottomRight}"
    using parts(1) by (auto simp: form_corner_def split: if_splits)
  moreover have "14 \<le> font \<and> font \<le> 64" using parse_integer_range [OF parts(2)] by simp
  moreover have m: "pixel_margin (fl_of_int round32 mx)" "pixel_margin (fl_of_int round32 my)"
    using parse_integer_range [OF parts(3)] parse_integer_range [OF parts(4)] by (simp_all add: pixel_margin_of_int)
  ultimately have "config_ok cfg"
    using form_color_bound [OF parts(5)] form_color_bound [OF parts(6)]
    by (simp add: cfg config_ok_def pixel_margin_ok)
  with m show "config_ok cfg" "pixel_margin (margin_x cfg)" "pixel_margin (margin_y cfg)" by (simp_all add: cfg)
qed

text \<open>
  (C33) Only configurations within the documented limits come out of the form, whatever text
  was posted, with margins of whole pixels, and nothing is adjusted on the way: sanitizing
  the result changes nothing.
\<close>

theorem settings_form_typed:
  assumes "parse_settings_form body = Some cfg"
  shows "config_ok cfg \<and> pixel_margin (margin_x cfg) \<and> pixel_margin (margin_y cfg) \<and> sanitize_config cfg = cfg"
  using form_result_ok [OF assms] by (simp add: sanitize_config_id)

theorem settings_form_typed_witness:
  "parse_settings_form (form_text default_config) = Some default_config \<and> config_ok default_config"
proof -
  have "parse_settings_form (form_text default_config) = Some default_config"
    by (rule form_accepted [OF default_config_ok default_pixels])
  with settings_form_typed [OF this] show ?thesis by simp
qed

end
