(* ===== verification/Settings_Store.thy ===== *)
theory Settings_Store
  imports Settings_Form
begin

text \<open>
  The settings store (\<^verbatim>\<open>atomic_write\<close> and \<^verbatim>\<open>SettingsStore\<close> of
  \<^verbatim>\<open>src/core/settings.cpp\<close>): the configuration in memory and the file it is saved
  to.  The system calls are a record of functions over an environment; \<open>posix_disk\<close> is the
  contract they keep on a file system of whole files.  The store's mutex makes each operation
  one step, so an operation is a function on the store.
\<close>

section \<open>System calls\<close>

datatype write_result = Wrote nat | Interrupted | WriteError

text \<open>
  \<open>px_open\<close> opens for writing, creates and truncates and gives a descriptor, negative on
  failure; \<open>px_read\<close> is \<^verbatim>\<open>fopen\<close>, \<^verbatim>\<open>fread\<close> of at most so many
  bytes, \<^verbatim>\<open>ferror\<close> and \<^verbatim>\<open>fclose\<close>.
\<close>

record 'e posix =
  px_open :: "string \<Rightarrow> 'e \<Rightarrow> int \<times> 'e"
  px_write :: "int \<Rightarrow> string \<Rightarrow> 'e \<Rightarrow> write_result \<times> 'e"
  px_fsync :: "int \<Rightarrow> 'e \<Rightarrow> bool \<times> 'e"
  px_close :: "int \<Rightarrow> 'e \<Rightarrow> bool \<times> 'e"
  px_rename :: "string \<Rightarrow> string \<Rightarrow> 'e \<Rightarrow> bool \<times> 'e"
  px_unlink :: "string \<Rightarrow> 'e \<Rightarrow> 'e"
  px_read :: "string \<Rightarrow> nat \<Rightarrow> 'e \<Rightarrow> (string \<times> bool) option \<times> 'e"

section \<open>Operations\<close>

text \<open>
  The write loop.  It repeats an interrupted call without a bound, so that its value is
  \<open>None\<close> when it never ends; otherwise it is the offset reached.
\<close>

partial_function (option) write_all :: "'e posix \<Rightarrow> int \<Rightarrow> string \<Rightarrow> nat \<Rightarrow> 'e \<Rightarrow> (nat \<times> 'e) option" where
  "write_all px fd data off e =
     (if off < length data then
        (case px_write px fd (drop off data) e of
           (r, e1) \<Rightarrow>
             (case r of
                Interrupted \<Rightarrow> write_all px fd data off e1
              | WriteError \<Rightarrow> Some (off, e1)
              | Wrote n \<Rightarrow> if n = 0 then Some (off, e1) else write_all px fd data (off + n) e1))
      else Some (off, e))"

definition atomic_write :: "'e posix \<Rightarrow> string \<Rightarrow> string \<Rightarrow> 'e \<Rightarrow> (bool \<times> 'e) option" where
  "atomic_write px path data e =
     (let pending = path @ ''.tmp''
      in case px_open px pending e of
           (fd, e1) \<Rightarrow>
             if fd < 0 then Some (False, e1)
             else
               (case write_all px fd data 0 e1 of
                  None \<Rightarrow> None
                | Some (off, e2) \<Rightarrow>
                    (case (if off = length data then px_fsync px fd e2 else (False, e2)) of
                       (synced, e3) \<Rightarrow>
                         (case px_close px fd e3 of
                            (shut, e4) \<Rightarrow>
                              (case (if synced \<and> shut then px_rename px pending path e4 else (False, e4)) of
                                 (ok, e5) \<Rightarrow> Some (ok, if ok then e5 else px_unlink px pending e5))))))"

record settings_store =
  st_path :: string
  st_config :: overlay_config

definition kMaxSettingsBytes :: nat where "kMaxSettingsBytes = 4096"

definition open_store :: "'e posix \<Rightarrow> string \<Rightarrow> 'e \<Rightarrow> settings_store \<times> 'e" where
  "open_store px path e =
     (case px_read px path (kMaxSettingsBytes + 1) e of
        (None, e1) \<Rightarrow> (\<lparr>st_path = path, st_config = default_config\<rparr>, e1)
      | (Some (data, failed), e1) \<Rightarrow>
          (\<lparr>st_path = path,
            st_config = (if \<not> failed \<and> length data \<le> kMaxSettingsBytes then parse_config_text data
                         else default_config)\<rparr>, e1))"

definition store_get :: "settings_store \<Rightarrow> overlay_config" where
  "store_get s = st_config s"

definition store_save :: "'e posix \<Rightarrow> overlay_config \<Rightarrow> settings_store \<Rightarrow> 'e \<Rightarrow> (bool \<times> settings_store \<times> 'e) option" where
  "store_save px config s e =
     (let next = sanitize_config config
      in case atomic_write px (st_path s) (serialize_config next) e of
           None \<Rightarrow> None
         | Some (ok, e1) \<Rightarrow> Some (ok, if ok then s\<lparr>st_config := next\<rparr> else s, e1))"

section \<open>The contract of the file system\<close>

text \<open>
  \<open>contents\<close> is what a reader finds, \<open>writing\<close> the path a descriptor writes to.  Every call
  may fail; an open that fails, an interrupted or failed write and a failed rename change no
  contents, and a write adds a prefix of what it was given.
\<close>

locale posix_disk =
  fixes px :: "'e posix"
    and contents :: "'e \<Rightarrow> string \<Rightarrow> string option"
    and writing :: "'e \<Rightarrow> int \<Rightarrow> string option"
  assumes open_law: "\<And>p e fd e'. px_open px p e = (fd, e') \<Longrightarrow>
      (if fd < 0 then contents e' = contents e
       else contents e' = (contents e)(p \<mapsto> []) \<and> writing e' fd = Some p)"
    and write_law: "\<And>fd data e r e' p old. px_write px fd data e = (r, e') \<Longrightarrow> writing e fd = Some p \<Longrightarrow> contents e p = Some old \<Longrightarrow>
      writing e' fd = Some p \<and>
      (case r of Wrote n \<Rightarrow> n \<le> length data \<and> contents e' = (contents e)(p \<mapsto> old @ take n data)
       | _ \<Rightarrow> contents e' = contents e)"
    and fsync_law: "\<And>fd e ok e'. px_fsync px fd e = (ok, e') \<Longrightarrow> contents e' = contents e"
    and close_law: "\<And>fd e ok e'. px_close px fd e = (ok, e') \<Longrightarrow> contents e' = contents e"
    and rename_law: "\<And>p q e ok e'. px_rename px p q e = (ok, e') \<Longrightarrow> p \<noteq> q \<Longrightarrow>
      contents e' = (if ok then (contents e)(q := contents e p, p := None) else contents e)"
    and unlink_law: "\<And>p e. contents (px_unlink px p e) = contents e \<or> contents (px_unlink px p e) = (contents e)(p := None)"
    and read_law: "\<And>p n e r e'. px_read px p n e = (r, e') \<Longrightarrow> contents e' = contents e \<and>
      (\<forall>data. r = Some (data, False) \<longrightarrow> (\<exists>c. contents e p = Some c \<and> data = take n c))"
begin

text \<open>The loop leaves exactly the bytes before the offset it reports.\<close>

lemma write_all_prefix:
  assumes "write_all px fd data off e = Some r" "writing e fd = Some p"
    "contents e p = Some (take off data)" "off \<le> length data"
  shows "fst r \<le> length data \<and> contents (snd r) = (contents e)(p \<mapsto> take (fst r) data)"
proof -
  have "px' = px \<longrightarrow> writing e fd = Some p \<longrightarrow> contents e p = Some (take off data) \<longrightarrow> off \<le> length data \<longrightarrow>
      fst r \<le> length data \<and> contents (snd r) = (contents e)(p \<mapsto> take (fst r) data)"
    if "write_all px' fd data off e = Some r" for px'
  proof (rule write_all.raw_induct [where P = "\<lambda>px' fd data off e r. px' = px \<longrightarrow> writing e fd = Some p \<longrightarrow>
        contents e p = Some (take off data) \<longrightarrow> off \<le> length data \<longrightarrow>
        fst r \<le> length data \<and> contents (snd r) = (contents e)(p \<mapsto> take (fst r) data)", OF _ that])
    fix g px' fd data off e r
    assume IH: "\<And>px' fd data off e r. g px' fd data off e = Some r \<Longrightarrow> px' = px \<longrightarrow> writing e fd = Some p \<longrightarrow>
        contents e p = Some (take off data) \<longrightarrow> off \<le> length data \<longrightarrow>
        fst r \<le> length data \<and> contents (snd r) = (contents e)(p \<mapsto> take (fst r) data)"
      and step: "(if off < length data then
          (case px_write px' fd (drop off data) e of (r, e1) \<Rightarrow>
             (case r of Wrote n \<Rightarrow> if n = 0 then Some (off, e1) else g px' fd data (off + n) e1
              | Interrupted \<Rightarrow> g px' fd data off e1 | WriteError \<Rightarrow> Some (off, e1)))
        else Some (off, e)) = Some r"
    show "px' = px \<longrightarrow> writing e fd = Some p \<longrightarrow> contents e p = Some (take off data) \<longrightarrow> off \<le> length data \<longrightarrow>
        fst r \<le> length data \<and> contents (snd r) = (contents e)(p \<mapsto> take (fst r) data)"
    proof (intro impI)
      assume px: "px' = px" and fd: "writing e fd = Some p" and c: "contents e p = Some (take off data)"
        and off: "off \<le> length data"
      obtain w e1 where w: "px_write px fd (drop off data) e = (w, e1)" by (cases "px_write px fd (drop off data) e")
      note law = write_law [OF w fd c]
      show "fst r \<le> length data \<and> contents (snd r) = (contents e)(p \<mapsto> take (fst r) data)"
      proof (cases "off < length data")
        case True
        with step [unfolded px] w have step: "(case w of Wrote n \<Rightarrow> if n = 0 then Some (off, e1) else g px fd data (off + n) e1
              | Interrupted \<Rightarrow> g px fd data off e1 | WriteError \<Rightarrow> Some (off, e1)) = Some r" by simp
        show ?thesis
        proof (cases w)
          case (Wrote n)
          have "take off data @ take n (drop off data) = take (off + n) data" by (simp add: take_add)
          with Wrote law step IH [of px fd data "off + n" e1 r] c off show ?thesis
            by (auto split: if_splits)
        next
          case Interrupted
          with law step IH [of px fd data off e1 r] c off show ?thesis by simp
        next
          case WriteError
          with law step c off show ?thesis by auto
        qed
      next
        case False
        with step c off show ?thesis by auto
      qed
    qed
  qed
  with assms show ?thesis by blast
qed

lemma atomic_write_effect:
  assumes "atomic_write px path data e = Some (ok, e')"
  shows "contents e' path = (if ok then Some data else contents e path)
    \<and> (\<forall>p. p \<noteq> path \<longrightarrow> p \<noteq> path @ ''.tmp'' \<longrightarrow> contents e' p = contents e p)"
proof -
  let ?tmp = "path @ ''.tmp''"
  obtain fd e1 where o: "px_open px ?tmp e = (fd, e1)" by (cases "px_open px ?tmp e")
  note opened = open_law [OF o]
  show ?thesis
  proof (cases "fd < 0")
    case True
    with assms o opened show ?thesis by (simp add: atomic_write_def)
  next
    case False
    with opened have c1: "contents e1 = (contents e)(?tmp \<mapsto> [])" and fd: "writing e1 fd = Some ?tmp" by auto
    obtain off e2 where w: "write_all px fd data 0 e1 = Some (off, e2)"
      using assms o False by (auto simp: atomic_write_def Let_def split: option.splits)
    from write_all_prefix [OF w fd] c1 have c2: "contents e2 = (contents e)(?tmp \<mapsto> take off data)" by simp
    obtain synced e3 where s: "(if off = length data then px_fsync px fd e2 else (False, e2)) = (synced, e3)"
      by (cases "if off = length data then px_fsync px fd e2 else (False, e2)")
    then have c3: "contents e3 = contents e2" and full: "synced \<Longrightarrow> off = length data"
      by (auto split: if_splits dest: fsync_law)
    obtain shut e4 where c: "px_close px fd e3 = (shut, e4)" by (cases "px_close px fd e3")
    obtain fin e5 where r: "(if synced \<and> shut then px_rename px ?tmp path e4 else (False, e4)) = (fin, e5)"
      by (cases "if synced \<and> shut then px_rename px ?tmp path e4 else (False, e4)")
    from assms have res: "ok = fin" "e' = (if fin then e5 else px_unlink px ?tmp e5)"
      using False o w s c r unfolding atomic_write_def by (auto simp: Let_def)
    have c4: "contents e4 = (contents e)(?tmp \<mapsto> take off data)"
      using close_law [OF c] c3 c2 by simp
    show ?thesis
    proof (cases fin)
      case True
      with r have ren: "px_rename px ?tmp path e4 = (True, e5)" and "synced" by (auto split: if_splits)
      with rename_law [OF ren] c4 full res True show ?thesis by auto
    next
      case False
      then have "contents e5 = contents e4"
        using r by (auto split: if_splits dest: rename_law)
      with unlink_law [of ?tmp e5] c4 res False show ?thesis by auto
    qed
  qed
qed

end

section \<open>A disk\<close>

text \<open>Events decide how each of the next calls ends; without events every call succeeds.\<close>

datatype disk_event = Succeed | Fail | Short nat | Signal

record settings_disk =
  sd_files :: "string \<Rightarrow> string option"
  sd_fds :: "int \<Rightarrow> string option"
  sd_next :: nat
  sd_events :: "disk_event list"

definition sd_pop :: "settings_disk \<Rightarrow> disk_event \<times> settings_disk" where
  "sd_pop d = (case sd_events d of [] \<Rightarrow> (Succeed, d) | x # xs \<Rightarrow> (x, d\<lparr>sd_events := xs\<rparr>))"

definition disk_write :: "int \<Rightarrow> string \<Rightarrow> settings_disk \<Rightarrow> write_result \<times> settings_disk" where
  "disk_write fd data d =
     (case (sd_pop d, sd_fds d fd) of
        ((x, d1), Some p) \<Rightarrow>
          (case (x, sd_files d p) of
             (Signal, _) \<Rightarrow> (Interrupted, d1)
           | (Fail, _) \<Rightarrow> (WriteError, d1)
           | (_, None) \<Rightarrow> (WriteError, d1)
           | (x, Some old) \<Rightarrow>
               (let n = (case x of Short k \<Rightarrow> min k (length data) | _ \<Rightarrow> length data)
                in (Wrote n, d1\<lparr>sd_files := (sd_files d1)(p \<mapsto> old @ take n data)\<rparr>)))
      | ((x, d1), None) \<Rightarrow> (WriteError, d1))"

definition disk_posix :: "settings_disk posix" where
  "disk_posix =
     \<lparr>px_open = (\<lambda>p d. case sd_pop d of
        (Succeed, d1) \<Rightarrow> (int (sd_next d1), d1\<lparr>sd_files := (sd_files d1)(p \<mapsto> []), sd_fds := (sd_fds d1)(int (sd_next d1) \<mapsto> p),
                                       sd_next := sd_next d1 + 1\<rparr>)
      | (_, d1) \<Rightarrow> (-1, d1)),
      px_write = disk_write,
      px_fsync = (\<lambda>fd d. case sd_pop d of (x, d1) \<Rightarrow> (x = Succeed, d1)),
      px_close = (\<lambda>fd d. case sd_pop d of (x, d1) \<Rightarrow> (x = Succeed, d1\<lparr>sd_fds := (sd_fds d1)(fd := None)\<rparr>)),
      px_rename = (\<lambda>p q d. case sd_pop d of
        (Succeed, d1) \<Rightarrow> (True, if p = q then d1 else d1\<lparr>sd_files := (sd_files d1)(q := sd_files d1 p, p := None)\<rparr>) | (_, d1) \<Rightarrow> (False, d1)),
      px_unlink = (\<lambda>p d. d\<lparr>sd_files := (sd_files d)(p := None)\<rparr>),
      px_read = (\<lambda>p n d. case sd_pop d of
        (Succeed, d1) \<Rightarrow> (map_option (\<lambda>c. (take n c, False)) (sd_files d1 p), d1) | (_, d1) \<Rightarrow> (None, d1))\<rparr>"

lemma sd_pop_fields:
  "sd_pop d = (x, d1) \<Longrightarrow> sd_files d1 = sd_files d \<and> sd_fds d1 = sd_fds d \<and> sd_next d1 = sd_next d"
  by (auto simp: sd_pop_def split: list.splits)

interpretation sd: posix_disk disk_posix sd_files sd_fds
  by unfold_locales
    (auto simp: disk_posix_def disk_write_def Let_def split: prod.splits disk_event.splits option.splits if_splits
      dest: sd_pop_fields)

section \<open>Saving ends\<close>

text \<open>\<open>budget\<close> bounds the signals still to come: each interruption uses one up.\<close>

definition finitely_interrupted :: "'e posix \<Rightarrow> ('e \<Rightarrow> nat) \<Rightarrow> bool" where
  "finitely_interrupted px budget \<longleftrightarrow>
     (\<forall>fd data e e'. px_write px fd data e = (Interrupted, e') \<longrightarrow> budget e' < budget e)"

lemma write_all_returns:
  assumes "finitely_interrupted px budget"
  shows "\<exists>r. write_all px fd data off e = Some r"
proof (induction "(length data - off, budget e)" arbitrary: off e rule: wf_induct_rule [OF wf_lex_prod [OF wf_less wf_less]])
  case (1 off e)
  obtain w e1 where w: "px_write px fd (drop off data) e = (w, e1)" by (cases "px_write px fd (drop off data) e")
  show ?case
  proof (cases "off < length data")
    case True
    show ?thesis
    proof (cases w)
      case (Wrote n)
      moreover have "0 < n \<Longrightarrow> length data - (off + n) < length data - off" using True by simp
      ultimately show ?thesis using True w 1 [of "off + n" e1] by (subst write_all.simps) auto
    next
      case Interrupted
      then have "budget e1 < budget e" using assms w by (auto simp: finitely_interrupted_def)
      then show ?thesis using True w Interrupted 1 [of off e1] by (subst write_all.simps) auto
    qed (use True w in \<open>simp add: write_all.simps\<close>)
  qed (simp add: write_all.simps)
qed

lemma atomic_write_returns:
  assumes "finitely_interrupted px budget" shows "\<exists>r. atomic_write px path data e = Some r"
proof -
  obtain fd e1 where o: "px_open px (path @ ''.tmp'') e = (fd, e1)" by (cases "px_open px (path @ ''.tmp'') e")
  obtain r where "write_all px fd data 0 e1 = Some r" using write_all_returns [OF assms] by blast
  then show ?thesis using o by (auto simp: atomic_write_def Let_def split: prod.splits)
qed

section \<open>Saving and loading\<close>

lemma store_save_cases:
  assumes "store_save px cfg s e = Some (ok, s', e')"
  shows "atomic_write px (st_path s) (serialize_config (sanitize_config cfg)) e = Some (ok, e')"
    "s' = (if ok then s\<lparr>st_config := sanitize_config cfg\<rparr> else s)"
  using assms by (auto simp: store_save_def Let_def split: option.splits)

text \<open>
  (C32) Saving the settings always ends, whatever the system calls do, provided only finitely
  many signals interrupt the writes.
\<close>

theorem settings_save_terminates:
  assumes "finitely_interrupted px budget"
  shows "\<exists>ok s' e'. store_save px cfg s e = Some (ok, s', e')"
  using atomic_write_returns [OF assms, of "st_path s" "serialize_config (sanitize_config cfg)" e]
  by (auto simp: store_save_def Let_def)

definition signals :: "disk_event list \<Rightarrow> nat" where
  "signals xs = length (filter (\<lambda>x. x = Signal) xs)"

lemma disk_finitely_interrupted: "finitely_interrupted disk_posix (\<lambda>d. signals (sd_events d))"
  by (auto simp: finitely_interrupted_def disk_posix_def disk_write_def sd_pop_def signals_def Let_def
      split: prod.splits disk_event.splits option.splits list.splits)

theorem settings_save_terminates_witness:
  "\<exists>ok s' e'. store_save disk_posix default_config \<lparr>st_path = ''c'', st_config = default_config\<rparr>
     \<lparr>sd_files = Map.empty, sd_fds = Map.empty, sd_next = 3, sd_events = [Succeed, Signal, Short 7, Fail]\<rparr>
     = Some (ok, s', e')"
  by (rule settings_save_terminates [OF disk_finitely_interrupted])

text \<open>
  (C19) Saving is all or nothing, in memory and on disk, whichever call fails or is cut short:
  on success both hold the sanitized configuration, on failure both hold what they held, and
  no file but the store's and its temporary one is touched.
\<close>

theorem settings_save_all_or_nothing:
  assumes "posix_disk px contents writing" "store_save px cfg s e = Some (ok, s', e')"
  shows "(if ok then st_config s' = sanitize_config cfg
              \<and> contents e' (st_path s) = Some (serialize_config (sanitize_config cfg))
          else s' = s \<and> contents e' (st_path s) = contents e (st_path s))
    \<and> (\<forall>p. p \<noteq> st_path s \<longrightarrow> p \<noteq> st_path s @ ''.tmp'' \<longrightarrow> contents e' p = contents e p)"
  using posix_disk.atomic_write_effect [OF assms(1) store_save_cases(1) [OF assms(2)]] store_save_cases(2) [OF assms(2)]
  by auto

definition toy_settings_disk :: "disk_event list \<Rightarrow> settings_disk" where
  "toy_settings_disk xs = \<lparr>sd_files = [''c'' \<mapsto> ''font_size=64''], sd_fds = Map.empty, sd_next = 3, sd_events = xs\<rparr>"

definition toy_store :: settings_store where
  "toy_store = \<lparr>st_path = ''c'', st_config = default_config\<rparr>"

theorem settings_save_all_or_nothing_witness:
  "\<exists>ok s' d'. store_save disk_posix default_config toy_store (toy_settings_disk [Succeed, Short 7, Signal, Fail])
       = Some (ok, s', d')
    \<and> (ok \<or> sd_files d' ''c'' = Some ''font_size=64'')"
proof -
  let ?d = "toy_settings_disk [Succeed, Short 7, Signal, Fail]"
  obtain ok s' d' where r: "store_save disk_posix default_config toy_store ?d = Some (ok, s', d')"
    using atomic_write_returns [OF disk_finitely_interrupted, of "st_path toy_store"
        "serialize_config (sanitize_config default_config)" ?d]
    by (auto simp: store_save_def Let_def)
  from settings_save_all_or_nothing [OF sd.posix_disk_axioms r] r show ?thesis
    by (auto simp: toy_store_def toy_settings_disk_def split: if_splits)
qed

section \<open>Restart\<close>

lemma config_line_length: "length (config_line k v) = length k + length v + 1"
  by (simp add: config_line_def)

lemma serialized_small:
  assumes "config_ok cfg" "pixel_margin (margin_x cfg)" "pixel_margin (margin_y cfg)"
  shows "length (serialize_config cfg) \<le> kMaxSettingsBytes"
proof -
  obtain n where font: "font_size cfg = int n" "n \<le> 64"
    using assms(1) by (cases "font_size cfg") (auto simp: config_ok_def)
  obtain x y where mx: "margin_x cfg = Fin False (of_nat x)" "x \<le> 240" and my: "margin_y cfg = Fin False (of_nat y)" "y \<le> 240"
    using assms(2,3) by (auto simp: pixel_margin_def)
  have "length (corner_name (corner cfg)) \<le> 12" by (cases "corner cfg") simp_all
  moreover have "length (decimal n) \<le> 3" "length (decimal x) \<le> 3" "length (decimal y) \<le> 3"
    using font(2) mx(2) my(2) by (simp_all add: decimal_length_3)
  ultimately show ?thesis
    using mx(2) my(2)
    by (simp add: serialize_config_def config_lines_def config_line_length font(1) mx(1) my(1) show_int_def
        magnitude_text_nat color_text_length kMaxSettingsBytes_def)
qed

text \<open>A save on a disk where every call succeeds.\<close>

lemma toy_save_succeeds:
  "\<exists>s' d'. store_save disk_posix default_config toy_store (toy_settings_disk []) = Some (True, s', d')
     \<and> sd_events d' = [] \<and> sd_files d' ''c'' \<noteq> None"
proof -
  have w: "write_all disk_posix fd data 0 d = Some (length data, d\<lparr>sd_files := (sd_files d)(p \<mapsto> data)\<rparr>)"
    if "sd_events d = []" "sd_fds d fd = Some p" "sd_files d p = Some []" "data \<noteq> []" for fd data p d
    using that by (subst write_all.simps) (simp add: disk_posix_def disk_write_def sd_pop_def write_all.simps)
  have ne: "serialize_config (sanitize_config default_config) \<noteq> []"
    by (simp add: serialize_config_def config_lines_def)
  have ops: "sd_events d = [] \<Longrightarrow> px_open disk_posix p d = (int (sd_next d), d
      \<lparr>sd_files := (sd_files d)(p \<mapsto> []), sd_fds := (sd_fds d)(int (sd_next d) \<mapsto> p), sd_next := sd_next d + 1\<rparr>)"
    "sd_events d = [] \<Longrightarrow> px_fsync disk_posix fd d = (True, d)"
    "sd_events d = [] \<Longrightarrow> px_close disk_posix fd d = (True, d\<lparr>sd_fds := (sd_fds d)(fd := None)\<rparr>)"
    "sd_events d = [] \<Longrightarrow> p \<noteq> q \<Longrightarrow> px_rename disk_posix p q d
      = (True, d\<lparr>sd_files := (sd_files d)(q := sd_files d p, p := None)\<rparr>)" for p q d fd
    by (simp_all add: disk_posix_def sd_pop_def)
  show ?thesis
    by (simp add: store_save_def atomic_write_def Let_def ops toy_store_def toy_settings_disk_def w [of _ 3 "''c.tmp''"] ne)
qed

text \<open>
  (C20) What the page saved is what the next start of the program finds: after a successful
  save of an accepted form, opening the store again on a disk that still holds the file gives
  exactly the configuration that was posted.
\<close>

theorem settings_survive_restart:
  assumes "posix_disk px contents writing" "parse_settings_form body = Some cfg"
    and "store_save px cfg s e = Some (True, s', e1)" "contents e2 (st_path s) = contents e1 (st_path s)"
    and "px_read px (st_path s) (kMaxSettingsBytes + 1) e2 = (Some (data, False), e3)"
  shows "st_config s' = cfg \<and> open_store px (st_path s) e2 = (s', e3)"
proof -
  note form = form_result_ok [OF assms(2)]
  have s': "s' = s\<lparr>st_config := cfg\<rparr>" using store_save_cases(2) [OF assms(3)] form by (simp add: sanitize_config_id)
  have "contents e1 (st_path s) = Some (serialize_config cfg)"
    using posix_disk.atomic_write_effect [OF assms(1) store_save_cases(1) [OF assms(3)]] form
    by (simp add: sanitize_config_id)
  then have "data = take (kMaxSettingsBytes + 1) (serialize_config cfg)"
    using posix_disk.read_law [OF assms(1,5)] assms(4) by auto
  then have data: "data = serialize_config cfg" "length data \<le> kMaxSettingsBytes"
    using serialized_small [of cfg] form by simp_all
  with assms(5) s' form show ?thesis
    by (simp add: open_store_def file_gives_config)
qed

theorem settings_survive_restart_witness:
  "\<exists>d s' d'. store_save disk_posix default_config toy_store (toy_settings_disk []) = Some (True, s', d')
     \<and> st_config s' = default_config \<and> fst (open_store disk_posix ''c'' d') = s'"
proof -
  have form: "parse_settings_form (form_text default_config) = Some default_config"
    by (rule form_accepted [OF default_config_ok default_pixels])
  obtain s' d' where save: "store_save disk_posix default_config toy_store (toy_settings_disk []) = Some (True, s', d')"
    and d': "sd_events d' = []" "sd_files d' ''c'' \<noteq> None"
    using toy_save_succeeds by blast
  then obtain data d2 where "px_read disk_posix (st_path toy_store) (kMaxSettingsBytes + 1) d' = (Some (data, False), d2)"
    by (auto simp: disk_posix_def sd_pop_def toy_store_def)
  from settings_survive_restart [OF sd.posix_disk_axioms form save refl this] save show ?thesis
    by (auto simp: toy_store_def)
qed

end
