(* ===== verification/Session_Log.thy ===== *)
theory Session_Log
  imports Settings_Store
begin

text \<open>
  The bounded session logs (\<^verbatim>\<open>include/common_fps/session_log.hpp\<close>): a record is
  appended under an advisory lock, cut so that the file never grows beyond its limit, and the
  descriptor is given back on every path.  A record is the text the format and its arguments
  make; a formatting error is \<open>None\<close>.
\<close>

section \<open>Definitions\<close>

definition kControllerLogPath :: string where "kControllerLogPath = ''/data/CommonFPS.log''"
definition kRendererLogPath :: string where "kRendererLogPath = ''/data/CommonFPS_shellui.log''"
definition kSessionLogLimit :: nat where "kSessionLogLimit = 64 * 1024"

datatype lock_result = Locked | LockInterrupted | LockError

text \<open>The calls; \<open>lg_open\<close> opens for appending, \<open>lg_size\<close> is the size or \<open>None\<close> on failure.\<close>

record 'e log_api =
  lg_open :: "string \<Rightarrow> bool \<Rightarrow> 'e \<Rightarrow> int \<times> 'e"
  lg_lock :: "int \<Rightarrow> 'e \<Rightarrow> lock_result \<times> 'e"
  lg_truncate :: "int \<Rightarrow> 'e \<Rightarrow> bool \<times> 'e"
  lg_size :: "int \<Rightarrow> 'e \<Rightarrow> nat option \<times> 'e"
  lg_write :: "int \<Rightarrow> string \<Rightarrow> 'e \<Rightarrow> write_result \<times> 'e"
  lg_fsync :: "int \<Rightarrow> 'e \<Rightarrow> 'e"
  lg_unlock :: "int \<Rightarrow> 'e \<Rightarrow> 'e"
  lg_close :: "int \<Rightarrow> 'e \<Rightarrow> 'e"

text \<open>Both loops repeat an interrupted call without a bound; \<open>None\<close> is a loop that never ends.\<close>

partial_function (option) lock_log :: "'e log_api \<Rightarrow> int \<Rightarrow> 'e \<Rightarrow> (bool \<times> 'e) option" where
  "lock_log lg fd e =
     (case lg_lock lg fd e of
        (r, e1) \<Rightarrow> (case r of Locked \<Rightarrow> Some (True, e1) | LockError \<Rightarrow> Some (False, e1)
                         | LockInterrupted \<Rightarrow> lock_log lg fd e1))"

partial_function (option) append_log :: "'e log_api \<Rightarrow> int \<Rightarrow> string \<Rightarrow> 'e \<Rightarrow> 'e option" where
  "append_log lg fd data e =
     (if data = [] then Some e
      else case lg_write lg fd data e of
             (r, e1) \<Rightarrow>
               (case r of
                  Interrupted \<Rightarrow> append_log lg fd data e1
                | WriteError \<Rightarrow> Some e1
                | Wrote n \<Rightarrow> if n = 0 then Some e1 else append_log lg fd (drop n data) e1))"

text \<open>What happens under the lock.\<close>

definition write_locked :: "'e log_api \<Rightarrow> int \<Rightarrow> string \<Rightarrow> bool \<Rightarrow> bool \<Rightarrow> 'e \<Rightarrow> 'e option" where
  "write_locked lg fd data reset durable e =
     (case (if reset then lg_truncate lg fd e else (True, e)) of
        (cleared, e1) \<Rightarrow>
          (case (if cleared then lg_size lg fd e1 else (None, e1)) of
             (None, e2) \<Rightarrow> Some e2
           | (Some status_size, e2) \<Rightarrow>
               (case (if status_size < kSessionLogLimit
                      then append_log lg fd (take (kSessionLogLimit - status_size) data) e2 else Some e2) of
                  None \<Rightarrow> None
                | Some e3 \<Rightarrow> Some (if durable then lg_fsync lg fd e3 else e3))))"

definition write_session_log :: "'e log_api \<Rightarrow> string \<Rightarrow> string \<Rightarrow> bool \<Rightarrow> bool \<Rightarrow> 'e \<Rightarrow> 'e option" where
  "write_session_log lg path data reset durable e =
     (case lg_open lg path durable e of
        (fd, e1) \<Rightarrow>
          if fd < 0 then Some e1
          else case lock_log lg fd e1 of
                 None \<Rightarrow> None
               | Some (False, e2) \<Rightarrow> Some (lg_close lg fd e2)
               | Some (True, e2) \<Rightarrow>
                   (case write_locked lg fd data reset durable e2 of
                      None \<Rightarrow> None
                    | Some e3 \<Rightarrow> Some (lg_close lg fd (lg_unlock lg fd e3))))"

definition reset_session_log :: "'e log_api \<Rightarrow> string \<Rightarrow> 'e \<Rightarrow> 'e option" where
  "reset_session_log lg path e = write_session_log lg path [] True False e"

text \<open>A record is cut to the line buffer and ends in a line feed.\<close>

definition log_line :: "string \<Rightarrow> string" where
  "log_line formatted = take 2046 formatted @ [CHR 0x0A]"

definition log_message_v :: "'e log_api \<Rightarrow> string \<Rightarrow> string option \<Rightarrow> bool \<Rightarrow> 'e \<Rightarrow> 'e option" where
  "log_message_v lg path formatted durable e =
     (case formatted of None \<Rightarrow> Some e | Some t \<Rightarrow> write_session_log lg path (log_line t) False durable e)"

definition log_message :: "'e log_api \<Rightarrow> string \<Rightarrow> string option \<Rightarrow> 'e \<Rightarrow> 'e option" where
  "log_message lg path formatted e = log_message_v lg path formatted False e"

definition log_durable_message :: "'e log_api \<Rightarrow> string \<Rightarrow> string option \<Rightarrow> 'e \<Rightarrow> 'e option" where
  "log_durable_message lg path formatted e = log_message_v lg path formatted True e"

section \<open>The contract of the log files\<close>

text \<open>
  \<open>contents\<close> is what is in a file, \<open>opened\<close> the path behind a descriptor.  Opening creates a
  file that is missing and gives a descriptor that was not in use; a write appends a prefix of
  what it is given; nothing else changes contents, and only closing gives a descriptor back.
\<close>

locale log_files =
  fixes lg :: "'e log_api"
    and contents :: "'e \<Rightarrow> string \<Rightarrow> string option"
    and opened :: "'e \<Rightarrow> int \<Rightarrow> string option"
  assumes open_law: "\<And>p d e fd e'. lg_open lg p d e = (fd, e') \<Longrightarrow>
      (if fd < 0 then contents e' = contents e \<and> opened e' = opened e
       else contents e' = (contents e)(p \<mapsto> (case contents e p of None \<Rightarrow> [] | Some c \<Rightarrow> c)) \<and>
            opened e fd = None \<and> opened e' = (opened e)(fd \<mapsto> p))"
    and lock_law: "\<And>fd e r e'. lg_lock lg fd e = (r, e') \<Longrightarrow> contents e' = contents e \<and> opened e' = opened e"
    and truncate_law: "\<And>fd e ok e' p. lg_truncate lg fd e = (ok, e') \<Longrightarrow> opened e fd = Some p \<Longrightarrow>
      contents e' = (if ok then (contents e)(p \<mapsto> []) else contents e) \<and> opened e' = opened e"
    and size_law: "\<And>fd e r e' p c. lg_size lg fd e = (r, e') \<Longrightarrow> opened e fd = Some p \<Longrightarrow> contents e p = Some c \<Longrightarrow>
      contents e' = contents e \<and> opened e' = opened e \<and> (r = None \<or> r = Some (length c))"
    and write_law: "\<And>fd data e r e' p old. lg_write lg fd data e = (r, e') \<Longrightarrow> opened e fd = Some p \<Longrightarrow> contents e p = Some old \<Longrightarrow>
      opened e' = opened e \<and>
      (case r of Wrote n \<Rightarrow> n \<le> length data \<and> contents e' = (contents e)(p \<mapsto> old @ take n data)
       | _ \<Rightarrow> contents e' = contents e)"
    and fsync_law: "\<And>fd e. contents (lg_fsync lg fd e) = contents e \<and> opened (lg_fsync lg fd e) = opened e"
    and unlock_law: "\<And>fd e. contents (lg_unlock lg fd e) = contents e \<and> opened (lg_unlock lg fd e) = opened e"
    and close_law: "\<And>fd e. contents (lg_close lg fd e) = contents e \<and> opened (lg_close lg fd e) = (opened e)(fd := None)"
begin

lemma lock_log_keeps:
  assumes "lock_log lg fd e = Some r"
  shows "contents (snd r) = contents e \<and> opened (snd r) = opened e"
proof -
  have "lg' = lg \<longrightarrow> contents (snd r) = contents e \<and> opened (snd r) = opened e" if "lock_log lg' fd e = Some r" for lg'
  proof (rule lock_log.raw_induct [where P = "\<lambda>lg' fd e r. lg' = lg \<longrightarrow> contents (snd r) = contents e \<and> opened (snd r) = opened e",
        OF _ that])
    fix g lg' fd e r
    assume IH: "\<And>lg' fd e r. g lg' fd e = Some r \<Longrightarrow> lg' = lg \<longrightarrow> contents (snd r) = contents e \<and> opened (snd r) = opened e"
      and step: "(case lg_lock lg' fd e of
        (r, e1) \<Rightarrow> (case r of Locked \<Rightarrow> Some (True, e1) | LockInterrupted \<Rightarrow> g lg' fd e1 | LockError \<Rightarrow> Some (False, e1))) = Some r"
    obtain l e1 where l: "lg_lock lg fd e = (l, e1)" by (cases "lg_lock lg fd e")
    show "lg' = lg \<longrightarrow> contents (snd r) = contents e \<and> opened (snd r) = opened e"
      using step l IH [of lg fd e1 r] lock_law [OF l] by (cases l) auto
  qed
  then show ?thesis using assms by blast
qed

text \<open>What was there stays, and what is added is a prefix of the record.\<close>

lemma append_log_effect:
  assumes "append_log lg fd data e = Some e'" "opened e fd = Some p" "contents e p = Some old"
  shows "opened e' = opened e \<and> (\<exists>n. contents e' = (contents e)(p \<mapsto> old @ take n data))"
proof -
  have "lg' = lg \<longrightarrow> opened e fd = Some p \<longrightarrow> (\<forall>old. contents e p = Some old \<longrightarrow>
      opened e' = opened e \<and> (\<exists>n. contents e' = (contents e)(p \<mapsto> old @ take n data)))" if "append_log lg' fd data e = Some e'" for lg'
  proof (rule append_log.raw_induct [where P = "\<lambda>lg' fd data e e'. lg' = lg \<longrightarrow> opened e fd = Some p \<longrightarrow> (\<forall>old. contents e p = Some old \<longrightarrow>
      opened e' = opened e \<and> (\<exists>n. contents e' = (contents e)(p \<mapsto> old @ take n data)))", OF _ that])
    fix g lg' fd data e e'
    assume IH: "\<And>lg' fd data e e'. g lg' fd data e = Some e' \<Longrightarrow> lg' = lg \<longrightarrow> opened e fd = Some p \<longrightarrow> (\<forall>old. contents e p = Some old \<longrightarrow>
        opened e' = opened e \<and> (\<exists>n. contents e' = (contents e)(p \<mapsto> old @ take n data)))"
      and step: "(if data = [] then Some e
        else case lg_write lg' fd data e of
             (r, e1) \<Rightarrow> (case r of Wrote n \<Rightarrow> if n = 0 then Some e1 else g lg' fd (drop n data) e1
                | Interrupted \<Rightarrow> g lg' fd data e1 | WriteError \<Rightarrow> Some e1)) = Some e'"
    show "lg' = lg \<longrightarrow> opened e fd = Some p \<longrightarrow> (\<forall>old. contents e p = Some old \<longrightarrow>
        opened e' = opened e \<and> (\<exists>n. contents e' = (contents e)(p \<mapsto> old @ take n data)))"
    proof (intro impI allI)
      fix old
      assume lg: "lg' = lg" and o: "opened e fd = Some p" and c: "contents e p = Some old"
      show "opened e' = opened e \<and> (\<exists>n. contents e' = (contents e)(p \<mapsto> old @ take n data))"
      proof (cases "data = []")
        case True
        then show ?thesis using step c by (auto intro!: exI [of _ 0])
      next
        case False
        obtain w e1 where w: "lg_write lg fd data e = (w, e1)" by (cases "lg_write lg fd data e")
        note law = write_law [OF w o c]
        show ?thesis
        proof (cases w)
          case (Wrote n)
          show ?thesis
          proof (cases "n = 0")
            case True
            then show ?thesis using step lg False w Wrote law by (auto intro!: exI [of _ 0])
          next
            case n: False
            then have g: "g lg fd (drop n data) e1 = Some e'" using step lg False w Wrote by simp
            have c1: "contents e1 = (contents e)(p \<mapsto> old @ take n data)" "opened e1 = opened e" using law Wrote by auto
            obtain m where "opened e' = opened e1" "contents e' = (contents e1)(p \<mapsto> (old @ take n data) @ take m (drop n data))"
              using IH [OF g] c1 o by auto
            then have "opened e' = opened e" "contents e' = (contents e)(p \<mapsto> old @ take (n + m) data)"
              using c1 by (simp_all add: take_add)
            then show ?thesis by blast
          qed
        next
          case Interrupted
          then show ?thesis using step lg False w law IH [of lg fd data e1 e'] o c by auto
        next
          case WriteError
          then show ?thesis using step lg False w law c by (auto intro!: exI [of _ 0])
        qed
      qed
    qed
  qed
  then show ?thesis using assms by blast
qed

text \<open>A log file before and after a call: cleared or kept, then a prefix of the record, within the limit.\<close>

lemma write_locked_effect:
  assumes "write_locked lg fd data reset durable e = Some e'" "opened e fd = Some p" "contents e p = Some old"
  shows "opened e' = opened e \<and> (\<exists>base n. (base = old \<or> reset \<and> base = []) \<and>
    contents e' = (contents e)(p \<mapsto> base @ take n data) \<and> length (base @ take n data) \<le> max (length base) kSessionLogLimit)"
proof -
  obtain cleared e1 where 1: "(if reset then lg_truncate lg fd e else (True, e)) = (cleared, e1)"
    by (cases "if reset then lg_truncate lg fd e else (True, e)")
  obtain base where b: "base = old \<or> reset \<and> base = []" "contents e1 = (contents e)(p \<mapsto> base)" "opened e1 = opened e"
  proof (cases "reset \<and> cleared")
    case True
    then show thesis using that [of "[]"] 1 truncate_law [OF _ assms(2), of cleared e1] by simp
  next
    case False
    have "(contents e)(p \<mapsto> old) = contents e" using assms(3) by (simp add: fun_upd_idem)
    then show thesis using that [of old] False 1 truncate_law [OF _ assms(2), of cleared e1] by (auto split: if_splits)
  qed
  have o1: "opened e1 fd = Some p" and c1: "contents e1 p = Some base" using b assms(2) by auto
  obtain st e2 where 2: "(if cleared then lg_size lg fd e1 else (None, e1)) = (st, e2)"
    by (cases "if cleared then lg_size lg fd e1 else (None, e1)")
  have s: "contents e2 = contents e1" "opened e2 = opened e1" "st = None \<or> st = Some (length base)"
    using 2 size_law [OF _ o1 c1] by (auto split: if_splits)
  show ?thesis
  proof (cases st)
    case None
    then have "e' = e2" using assms(1) by (simp add: write_locked_def 1 2)
    then show ?thesis using b s by (auto intro!: exI [of _ base] exI [of _ 0])
  next
    case (Some sz)
    then have sz: "sz = length base" using s(3) by simp
    define part where "part = (if sz < kSessionLogLimit then take (kSessionLogLimit - sz) data else [])"
    obtain e3 where 3: "append_log lg fd part e2 = Some e3" "e' = (if durable then lg_fsync lg fd e3 else e3)"
      using assms(1) Some by (auto simp: write_locked_def 1 2 part_def append_log.simps split: if_splits option.splits)
    obtain n where n: "opened e3 = opened e2" "contents e3 = (contents e2)(p \<mapsto> base @ take n part)"
      using append_log_effect [OF 3(1), of p base] s o1 c1 by auto
    define k where "k = (if sz < kSessionLogLimit then min n (kSessionLogLimit - sz) else 0)"
    have k: "take n part = take k data" by (auto simp: part_def k_def min.commute)
    have "length (base @ take k data) \<le> max (length base) kSessionLogLimit" by (auto simp: k_def sz)
    moreover have "opened e' = opened e" "contents e' = (contents e)(p \<mapsto> base @ take k data)"
      using n 3(2) fsync_law b s k by auto
    ultimately show ?thesis using b(1) by blast
  qed
qed

lemma write_session_log_effect:
  assumes "write_session_log lg path data reset durable e = Some e'"
  shows "opened e' = opened e \<and> (\<forall>q. q \<noteq> path \<longrightarrow> contents e' q = contents e q) \<and>
    (contents e' path = contents e path \<or> (\<exists>base n. (base = (case contents e path of None \<Rightarrow> [] | Some c \<Rightarrow> c) \<or> reset \<and> base = []) \<and>
      contents e' path = Some (base @ take n data) \<and> length (base @ take n data) \<le> max (length base) kSessionLogLimit))"
proof -
  obtain fd e1 where 1: "lg_open lg path durable e = (fd, e1)" by (cases "lg_open lg path durable e")
  show ?thesis
  proof (cases "fd < 0")
    case True
    then show ?thesis using assms open_law [OF 1] by (simp add: write_session_log_def 1)
  next
    case False
    let ?old = "case contents e path of None \<Rightarrow> [] | Some c \<Rightarrow> c"
    have o: "contents e1 = (contents e)(path \<mapsto> ?old)" "opened e fd = None" "opened e1 = (opened e)(fd \<mapsto> path)"
      using open_law [OF 1] False by auto
    obtain ok e2 where 2: "lock_log lg fd e1 = Some (ok, e2)"
      using assms False by (auto simp: write_session_log_def 1 split: option.splits)
    have l: "contents e2 = contents e1" "opened e2 = opened e1" using lock_log_keeps [OF 2] by auto
    have given: "(opened e1)(fd := None) = opened e" using o(2,3) by (simp add: fun_upd_idem)
    show ?thesis
    proof (cases ok)
      case False
      then have "e' = lg_close lg fd e2" using assms \<open>\<not> fd < 0\<close> by (simp add: write_session_log_def 1 2)
      then have "opened e' = opened e" "contents e' = contents e1" using close_law l given by auto
      then show ?thesis using o(1) by (auto intro!: exI [of _ ?old] exI [of _ 0])
    next
      case True
      obtain e3 where 3: "write_locked lg fd data reset durable e2 = Some e3" "e' = lg_close lg fd (lg_unlock lg fd e3)"
        using assms \<open>\<not> fd < 0\<close> True by (auto simp: write_session_log_def 1 2 split: option.splits)
      have "opened e2 fd = Some path" "contents e2 path = Some ?old" using l o by auto
      from write_locked_effect [OF 3(1) this] obtain base n where w: "opened e3 = opened e2" "base = ?old \<or> reset \<and> base = []"
        "contents e3 = (contents e2)(path \<mapsto> base @ take n data)" "length (base @ take n data) \<le> max (length base) kSessionLogLimit"
        by blast
      have "opened e' = opened e" using 3(2) close_law unlock_law w(1) l given by simp
      moreover have "contents e' = (contents e)(path \<mapsto> base @ take n data)" using 3(2) close_law unlock_law w(3) l o(1) by simp
      ultimately show ?thesis using w(2,4) by auto
    qed
  qed
qed

end

section \<open>Log files on a disk\<close>

text \<open>
  The disk of the settings, with its events: a signal interrupts a lock or a write, any other
  event makes the call fail or a write stop short.
\<close>

definition disk_log :: "settings_disk log_api" where
  "disk_log =
     \<lparr>lg_open = (\<lambda>p durable d. case sd_pop d of
        (Succeed, d1) \<Rightarrow>
          (if sd_fds d1 (int (sd_next d1)) \<noteq> None then (-1, d1)
           else (int (sd_next d1),
             d1\<lparr>sd_files := (sd_files d1)(p \<mapsto> (case sd_files d1 p of None \<Rightarrow> [] | Some c \<Rightarrow> c)),
                sd_fds := (sd_fds d1)(int (sd_next d1) \<mapsto> p), sd_next := sd_next d1 + 1\<rparr>))
      | (_, d1) \<Rightarrow> (-1, d1)),
      lg_lock = (\<lambda>fd d. case sd_pop d of (Succeed, d1) \<Rightarrow> (Locked, d1) | (Signal, d1) \<Rightarrow> (LockInterrupted, d1) | (_, d1) \<Rightarrow> (LockError, d1)),
      lg_truncate = (\<lambda>fd d. case (sd_pop d, sd_fds d fd) of
        ((Succeed, d1), Some p) \<Rightarrow> (True, d1\<lparr>sd_files := (sd_files d1)(p \<mapsto> [])\<rparr>) | ((_, d1), _) \<Rightarrow> (False, d1)),
      lg_size = (\<lambda>fd d. case (sd_pop d, sd_fds d fd) of
        ((Succeed, d1), Some p) \<Rightarrow> (map_option length (sd_files d1 p), d1) | ((_, d1), _) \<Rightarrow> (None, d1)),
      lg_write = disk_write,
      lg_fsync = (\<lambda>fd d. snd (sd_pop d)), lg_unlock = (\<lambda>fd d. snd (sd_pop d)),
      lg_close = (\<lambda>fd d. d\<lparr>sd_fds := (sd_fds d)(fd := None)\<rparr>)\<rparr>"

lemma sd_pop_same: "sd_files (snd (sd_pop d)) = sd_files d" "sd_fds (snd (sd_pop d)) = sd_fds d"
  using sd_pop_fields [of d] by (metis prod.collapse)+

interpretation sl: log_files disk_log sd_files sd_fds
  by unfold_locales
    (auto simp: disk_log_def disk_write_def sd_pop_same Let_def split: prod.splits disk_event.splits option.splits if_splits
      dest: sd_pop_fields)

text \<open>The disk has finitely many events, so that both loops end.\<close>

lemma lock_disk_returns: "\<exists>r. lock_log disk_log fd d = Some r"
proof (induction "length (sd_events d)" arbitrary: d rule: less_induct)
  case less
  show ?case
  proof (cases "sd_events d")
    case Nil
    then show ?thesis by (subst lock_log.simps) (auto simp: disk_log_def sd_pop_def intro: exI [of _ True])
  next
    case (Cons x xs)
    then have "\<exists>r. lock_log disk_log fd (d\<lparr>sd_events := xs\<rparr>) = Some r" by (intro less) simp
    then show ?thesis using Cons by (subst lock_log.simps) (cases x, auto simp: disk_log_def sd_pop_def)
  qed
qed

lemma append_disk_returns: "\<exists>r. append_log disk_log fd data d = Some r"
proof (induction "(length data, length (sd_events d))" arbitrary: data d rule: wf_induct_rule [OF wf_lex_prod [OF wf_less wf_less]])
  case (1 data d)
  show ?case
  proof (cases "data = []")
    case False
    obtain r d1 where w: "disk_write fd data d = (r, d1)" by (cases "disk_write fd data d")
    have call: "lg_write disk_log = disk_write" by (simp add: disk_log_def)
    show ?thesis
    proof (cases r)
      case (Wrote n)
      have "\<exists>r. append_log disk_log fd (drop n data) d1 = Some r" if "n \<noteq> 0"
        using 1 [of "drop n data" d1] that False by simp
      then show ?thesis using False w Wrote call by (subst append_log.simps) auto
    next
      case Interrupted
      then have "length (sd_events d1) < length (sd_events d)"
        using w by (auto simp: disk_write_def sd_pop_def Let_def split: list.splits disk_event.splits option.splits)
      then have "\<exists>r. append_log disk_log fd data d1 = Some r" using 1 [of data d1] by simp
      then show ?thesis using False w Interrupted call by (subst append_log.simps) simp
    next
      case WriteError
      then show ?thesis using False w call by (subst append_log.simps) simp
    qed
  qed (simp add: append_log.simps)
qed

lemma session_log_returns: "\<exists>r. write_session_log disk_log path data reset durable d = Some r"
proof -
  have w: "\<exists>r. write_locked disk_log fd data reset durable d = Some r" for fd d
  proof -
    obtain st d1 where "(case (if reset then lg_truncate disk_log fd d else (True, d)) of
        (cleared, e1) \<Rightarrow> if cleared then lg_size disk_log fd e1 else (None, e1)) = (st, d1)" by fastforce
    then show ?thesis using append_disk_returns [of fd "take (kSessionLogLimit - the st) data" d1]
      by (cases st) (auto simp: write_locked_def split: prod.splits)
  qed
  obtain fd d1 where 1: "lg_open disk_log path durable d = (fd, d1)" by (cases "lg_open disk_log path durable d")
  obtain ok d2 where 2: "lock_log disk_log fd d1 = Some (ok, d2)" using lock_disk_returns [of fd d1] by auto
  obtain d3 where 3: "write_locked disk_log fd data reset durable d2 = Some d3" using w by blast
  show ?thesis by (cases ok) (simp_all add: write_session_log_def 1 2 3)
qed

section \<open>Properties\<close>

definition log_text :: "settings_disk \<Rightarrow> string \<Rightarrow> string" where
  "log_text d path = (case sd_files d path of None \<Rightarrow> [] | Some c \<Rightarrow> c)"

text \<open>
  (C28) Whatever calls fail, stop short or are interrupted, writing to a session log ends, gives
  its descriptor back and touches no other file; the log keeps what it held, unless the call
  was to clear it, and grows by a prefix of the record that stays within 64 KiB.
\<close>

theorem session_log_bounded:
  "\<exists>d'. write_session_log disk_log path data reset durable d = Some d' \<and> sd_fds d' = sd_fds d \<and>
     (\<forall>q. q \<noteq> path \<longrightarrow> sd_files d' q = sd_files d q) \<and>
     (\<exists>base n. (base = log_text d path \<or> reset \<and> base = []) \<and> log_text d' path = base @ take n data \<and>
        length (log_text d' path) \<le> max (length base) kSessionLogLimit)"
proof -
  obtain d' where w: "write_session_log disk_log path data reset durable d = Some d'" using session_log_returns by blast
  note effect = sl.write_session_log_effect [OF w]
  have "\<exists>base n. (base = log_text d path \<or> reset \<and> base = []) \<and> log_text d' path = base @ take n data \<and>
        length (log_text d' path) \<le> max (length base) kSessionLogLimit"
  proof (cases "sd_files d' path = sd_files d path")
    case True
    then have "log_text d' path = log_text d path @ take 0 data" by (simp add: log_text_def)
    then show ?thesis by (intro exI [of _ "log_text d path"] exI [of _ 0]) simp
  next
    case False
    then obtain base n where "base = log_text d path \<or> reset \<and> base = []" "sd_files d' path = Some (base @ take n data)"
      "length (base @ take n data) \<le> max (length base) kSessionLogLimit"
      using effect unfolding log_text_def by blast
    then show ?thesis by (intro exI [of _ base] exI [of _ n]) (simp add: log_text_def)
  qed
  then show ?thesis using w effect by blast
qed

theorem session_log_bounded_witness:
  "\<exists>d'. write_session_log disk_log ''log'' ''next'' False True
      \<lparr>sd_files = [''log'' \<mapsto> ''first ''], sd_fds = Map.empty, sd_next = 3, sd_events = [Succeed, Signal, Succeed, Succeed, Short 2]\<rparr> = Some d' \<and>
    sd_fds d' = Map.empty"
  using session_log_bounded [of "''log''" "''next''" False True
      "\<lparr>sd_files = [''log'' \<mapsto> ''first ''], sd_fds = Map.empty, sd_next = 3, sd_events = [Succeed, Signal, Succeed, Succeed, Short 2]\<rparr>"]
  by auto

end
