(* ===== verification/Renderer_Entry.thy ===== *)
theory Renderer_Entry
  imports Hook_Install Hook_Handshake Injector Session_Log
begin

text \<open>
  The entry of the renderer in the shell
  (\<^verbatim>\<open>src/ps5/shellui_payload/commonfps_shellui_entry.cpp\<close> and
  \<^verbatim>\<open>initialize_receiver\<close> of \<^verbatim>\<open>commonfps_shellui.cpp\<close>): the stage it records,
  the attempts to start, the socket and the marker that tells the controller it is online.
  The parked thread and the receiver loop behind the entry do not return; the entry ends with
  the one of the two it goes into.
\<close>

section \<open>Definitions\<close>

definition bytes_of_text :: "string \<Rightarrow> bytes" where
  "bytes_of_text s = map (\<lambda>c. of_nat (of_char c)) s"

text \<open>A file that is opened for writing, filled and closed; failures are ignored.\<close>

definition write_text :: "'e files \<Rightarrow> string \<Rightarrow> string \<Rightarrow> 'e \<Rightarrow> 'e" where
  "write_text fs path content e =
     (case f_create fs path e of
        (False, e1) \<Rightarrow> e1
      | (True, e1) \<Rightarrow> snd (f_fill fs path (bytes_of_text content) e1))"

definition write_online_marker :: "'e files \<Rightarrow> int \<Rightarrow> 'e \<Rightarrow> 'e" where
  "write_online_marker fs pid e = write_text fs kMarker (show_int pid @ [CHR 0x0A]) e"

definition record_stage :: "'e files \<Rightarrow> int \<Rightarrow> string \<Rightarrow> 'e \<Rightarrow> 'e" where
  "record_stage fs pid stage e = write_text fs kShellUiStagePath (show_int pid @ '' '' @ take 47 stage @ [CHR 0x0A]) e"

record 'e receiver_api =
  ra_socket :: "'e \<Rightarrow> int \<times> 'e"
  ra_reuse_address :: "int \<Rightarrow> 'e \<Rightarrow> 'e"
  ra_receive_timeout :: "int \<Rightarrow> nat \<Rightarrow> 'e \<Rightarrow> int \<times> 'e"
  ra_bind :: "int \<Rightarrow> u16 \<Rightarrow> 'e \<Rightarrow> int \<times> 'e"
  ra_close :: "int \<Rightarrow> 'e \<Rightarrow> 'e"

definition initialize_receiver :: "'e receiver_api \<Rightarrow> int \<Rightarrow> 'e \<Rightarrow> bool \<times> int \<times> 'e" where
  "initialize_receiver ra receiver_fd e =
     (if 0 \<le> receiver_fd then (True, receiver_fd, e)
      else case ra_socket ra e of
             (fd, e1) \<Rightarrow>
               if fd < 0 then (False, receiver_fd, e1)
               else case ra_receive_timeout ra fd 2000000 (ra_reuse_address ra fd e1) of
                      (rc, e2) \<Rightarrow>
                        if rc < 0 then (False, receiver_fd, ra_close ra fd e2)
                        else case ra_bind ra fd kDefaultIpcPort e2 of
                               (rc2, e3) \<Rightarrow>
                                 if rc2 < 0 then (False, receiver_fd, ra_close ra fd e3) else (True, fd, e3))"

text \<open>The attempts to start, a pause after each that failed.\<close>

fun start_attempts ::
  "'e mono \<Rightarrow> 'e files \<Rightarrow> ('e \<Rightarrow> 'e) \<Rightarrow> ('e \<Rightarrow> 'e) \<Rightarrow> self \<Rightarrow> nat \<Rightarrow> payload \<times> 'e \<Rightarrow> bool \<times> payload \<times> 'e" where
  "start_attempts m fs pause second sf 0 (p, e) = (False, p, e)"
| "start_attempts m fs pause second sf (Suc n) (p, e) =
     (case run_state (initialize_runtime m fs pause sf) (p, e) of
        (True, (p1, e1)) \<Rightarrow> (True, p1, e1)
      | (False, (p1, e1)) \<Rightarrow> start_attempts m fs pause second sf n (p1, second e1))"

datatype entry_end = Parked string | Receiving

text \<open>
  A renderer that cannot run logs where it stopped and stays.  \<open>test23\<close> is the build that parks
  before the runtime.  \<open>None\<close> is a write of the log that never ends.
\<close>

definition park_renderer_failure :: "'e log_api \<Rightarrow> string \<Rightarrow> 'e \<Rightarrow> (entry_end \<times> 'e) option" where
  "park_renderer_failure lg stage e =
     (case log_message lg kRendererLogPath
             (Some (''renderer parked stage='' @ stage @ '' injected_thread_return=disabled'')) e of
        None \<Rightarrow> None
      | Some e1 \<Rightarrow> Some (Parked stage, e1))"

definition open_renderer_log :: "'e log_api \<Rightarrow> 'e \<Rightarrow> 'e option" where
  "open_renderer_log lg e =
     (case reset_session_log lg kRendererLogPath e of
        None \<Rightarrow> None
      | Some e1 \<Rightarrow> log_message lg kRendererLogPath
                     (Some ''Common FPS for PS5 v1.2.3 renderer log_limit=65536'') e1)"

definition elf_main ::
  "'e log_api \<Rightarrow> bool \<Rightarrow> 'e mono \<Rightarrow> 'e files \<Rightarrow> 'e receiver_api \<Rightarrow> ('e \<Rightarrow> 'e) \<Rightarrow> ('e \<Rightarrow> 'e) \<Rightarrow> self \<Rightarrow>
   payload \<Rightarrow> int \<Rightarrow> 'e \<Rightarrow> ((entry_end \<times> 'e) \<times> payload \<times> int) option" where
  "elf_main lg test23 m fs ra pause second sf p receiver_fd e =
     (let parked = (\<lambda>stage p fd e. map_option (\<lambda>r. (r, p, fd)) (park_renderer_failure lg stage e)) in
      case open_renderer_log lg (record_stage fs (sf_pid sf) ''entry'' e) of
        None \<Rightarrow> None
      | Some e0 \<Rightarrow>
          if test23 then parked ''test23_pre_runtime'' p receiver_fd (write_online_marker fs (sf_pid sf) e0)
          else case start_attempts m fs pause second sf 60 (p, e0) of
                 (False, p1, e1) \<Rightarrow> parked ''runtime'' p1 receiver_fd e1
               | (True, p1, e1) \<Rightarrow>
                   (case initialize_receiver ra receiver_fd (record_stage fs (sf_pid sf) ''runtime_ready'' e1) of
                      (False, fd, e2) \<Rightarrow> parked ''receiver'' p1 fd e2
                    | (True, fd, e2) \<Rightarrow>
                        Some ((Receiving, write_online_marker fs (sf_pid sf)
                                            (record_stage fs (sf_pid sf) ''receiver_ready'' e2)), p1, fd)))"

section \<open>Facts\<close>

lemma text_of_bytes_of_text [simp]: "text_of_bytes (bytes_of_text s) = s"
proof -
  have "char_of (unat (of_nat (of_char c :: nat) :: u8)) = c" for c
  proof -
    have "(of_char c :: nat) < 2 ^ 8" by simp
    then show ?thesis by (simp add: unat_of_nat take_bit_nat_eq_self)
  qed
  then show ?thesis by (simp add: text_of_bytes_def bytes_of_text_def comp_def)
qed

lemma digit_not_space: "is_digit c \<Longrightarrow> \<not> isspace c"
  by (auto simp: is_digit_def isspace_def)

lemma digit_not_sign: "is_digit c \<Longrightarrow> c \<noteq> CHR ''-'' \<and> c \<noteq> CHR ''+''"
  by (auto simp: is_digit_def)

text \<open>A printed number in front of something that is no digit is read back.\<close>

lemma scan_shown:
  assumes "rest \<noteq> []" "\<not> is_digit (hd rest)"
  shows "scan_int (show_int i @ rest) = Some (i, rest)"
proof -
  have d: "list_all is_digit (decimal n)" "decimal n \<noteq> []" for n using decimal_digits by auto
  have t: "takeWhile is_digit (decimal n @ rest) = decimal n" "dropWhile is_digit (decimal n @ rest) = rest" for n
    using d(1) [of n] assms by (cases rest; simp add: takeWhile_append2 dropWhile_append2 list_all_iff)+
  show ?thesis
  proof (cases "i < 0")
    case True
    have "\<not> isspace (CHR ''-'')" by (simp add: isspace_def)
    then show ?thesis using True t [of "nat (- i)"] d(2) by (simp add: scan_int_def show_int_def digits_value_decimal Let_def)
  next
    case False
    obtain c cs where c: "decimal (nat i) = c # cs" using d(2) by (cases "decimal (nat i)") auto
    then have "is_digit c" using d(1) [of "nat i"] by simp
    then show ?thesis using False c t [of "nat i"] digit_not_space digit_not_sign digits_value_decimal [of "nat i"]
      by (auto simp: scan_int_def show_int_def Let_def)
  qed
qed

lemma write_text_files:
  assumes "disk_like fs v"
  shows "v (write_text fs path content e) = (v e)(path \<mapsto> bytes_of_text content) \<or>
    v (write_text fs path content e) = v e \<or> (\<exists>n. v (write_text fs path content e) = (v e)(path \<mapsto> take n (bytes_of_text content)))"
proof -
  obtain ok e1 where 1: "f_create fs path e = (ok, e1)" by (cases "f_create fs path e")
  obtain ok2 e2 where 2: "f_fill fs path (bytes_of_text content) e1 = (ok2, e2)" by (cases "f_fill fs path (bytes_of_text content) e1")
  have "v e1 = (if ok then (v e)(path \<mapsto> []) else v e)" using assms 1 unfolding disk_like_def by blast
  moreover have "if ok2 then v e2 = (v e1)(path \<mapsto> bytes_of_text content) else \<exists>n. v e2 = (v e1)(path \<mapsto> take n (bytes_of_text content))"
    using assms 2 unfolding disk_like_def by blast
  ultimately show ?thesis by (cases ok; cases ok2) (auto simp: write_text_def 1 2)
qed

lemma written_marker:
  assumes "disk_like fs v" "v e kMarker = Some (bytes_of_text (show_int pid @ [CHR 0x0A]))"
  shows "fst (marker_matches fs q e) \<longleftrightarrow> q = pid"
proof -
  have "f_read fs kMarker e = (v e kMarker, snd (f_read fs kMarker e))" using assms(1) unfolding disk_like_def by blast
  then obtain e1 where "f_read fs kMarker e = (Some (bytes_of_text (show_int pid @ [CHR 0x0A])), e1)" using assms(2) by metis
  moreover have "scan_int (show_int pid @ [CHR 0x0A]) = Some (pid, [CHR 0x0A])" by (rule scan_shown) (simp_all add: is_digit_def)
  ultimately show ?thesis by (auto simp: marker_matches_def)
qed

lemma written_stage:
  assumes "disk_like fs v" "v e kShellUiStagePath = Some (bytes_of_text (show_int pid @ '' '' @ take 47 stage @ [CHR 0x0A]))"
    and "stage \<noteq> []" "list_all (\<lambda>c. \<not> isspace c) stage"
  shows "fst (last_stage_for fs q e) = (if q = pid then take 47 stage else ''unavailable'')"
proof -
  let ?s = "take 47 stage"
  have r: "f_read fs kShellUiStagePath e = (v e kShellUiStagePath, snd (f_read fs kShellUiStagePath e))"
    using assms(1) unfolding disk_like_def by blast
  have ne: "?s \<noteq> []" and all: "\<forall>c\<in>set ?s. \<not> isspace c" using assms(3,4) by (auto simp: list_all_iff dest: in_set_takeD)
  then obtain c cs where c: "?s = c # cs" by (cases ?s) auto
  have "dropWhile isspace ('' '' @ ?s @ [CHR 0x0A]) = ?s @ [CHR 0x0A]" using all by (simp add: c isspace_def)
  moreover have "takeWhile (\<lambda>c. \<not> isspace c) (?s @ [CHR 0x0A]) = ?s"
    using all by (simp add: takeWhile_append2 isspace_def)
  moreover have "scan_int (show_int pid @ '' '' @ ?s @ [CHR 0x0A]) = Some (pid, '' '' @ ?s @ [CHR 0x0A])"
    by (rule scan_shown) (simp_all add: is_digit_def)
  ultimately show ?thesis using ne assms(2) r
    by (auto simp: last_stage_for_def Let_def split: prod.splits)
qed

text \<open>
  (C30) What the renderer announces is what the controller reads: after the marker was written, a
  controller finds it for exactly the process that wrote it, and after a stage was recorded, it
  reads that stage, cut to 47 characters, for that process and no stage for any other.
\<close>

theorem renderer_announcement_understood:
  assumes "stage \<noteq> []" "list_all (\<lambda>c. \<not> isspace c) stage" "dk_oracle d = []"
  shows "(fst (marker_matches disk_files q (write_online_marker disk_files pid d)) \<longleftrightarrow> q = pid) \<and>
    fst (last_stage_for disk_files q (record_stage disk_files pid stage d)) = (if q = pid then take 47 stage else ''unavailable'')"
proof -
  have w: "dk_files (write_text disk_files path content d) path = Some (bytes_of_text content)" for path content
    using assms(3) by (simp add: write_text_def disk_files_def dk_next_def)
  show ?thesis
    using written_marker [OF disk_files_disk_like, of "write_online_marker disk_files pid d" pid q]
      written_stage [OF disk_files_disk_like _ assms(1,2), of "record_stage disk_files pid stage d" pid q]
    by (simp add: write_online_marker_def record_stage_def w)
qed

theorem renderer_announcement_understood_witness:
  "fst (last_stage_for disk_files 41 (record_stage disk_files 41 ''receiver_ready'' \<lparr>dk_files = Map.empty, dk_oracle = []\<rparr>))
     = ''receiver_ready''"
  using renderer_announcement_understood [of "''receiver_ready''" "\<lparr>dk_files = Map.empty, dk_oracle = []\<rparr>" 41 41]
  by (simp add: isspace_def)

text \<open>Once a hook was attempted in vain the remaining attempts only pass the time.\<close>

lemma attempts_after_failure:
  assumes "g_hook_attempted p" "\<not> g_runtime_ready p"
  shows "start_attempts m fs pause second sf n (p, e) = (False, p, (second ^^ n) e)"
  using assms
proof (induction n arbitrary: e)
  case (Suc n)
  have "run_state (initialize_runtime m fs pause sf) (p, e) = (False, (p, e))"
    using Suc.prems by (simp add: initialize_runtime_def glob_def)
  then show ?case using Suc.IH [OF Suc.prems, of "second e"] by (simp add: funpow_swap1)
qed simp

end
