(* ===== verification/Dce_Device.thy ===== *)
theory Dce_Device
  imports Dce_Counter Float_Bits
begin

text \<open>
  The DCE sampler on the console (\<^verbatim>\<open>src/ps5/dce_fps_sampler.cpp\<close>): a sample that the
  HEN shares in a file first, then the status block of the display engine, read through a
  device that may need raised credentials for a moment.  System calls are parameters: a record
  of operations over an environment.  Log lines and \<^verbatim>\<open>errno\<close>, which only feeds them, are
  left out.  The lemmas show that no descriptor is ever leaked and that the credentials are back
  whenever a rate comes out.
\<close>

section \<open>System calls\<close>

text \<open>
  \<open>da_open\<close> has a path and a mode (read-write or not), \<open>da_read\<close> answers the count and
  the buffer after the call, \<open>da_ioctl\<close> the return code and the block after the call.
\<close>

record 'e device_api =
  da_open :: "string \<Rightarrow> bool \<Rightarrow> 'e \<Rightarrow> int \<times> 'e"
  da_close :: "int \<Rightarrow> 'e \<Rightarrow> 'e"
  da_read :: "int \<Rightarrow> nat \<Rightarrow> 'e \<Rightarrow> (int \<times> bytes) \<times> 'e"
  da_ioctl :: "int \<Rightarrow> u64 \<Rightarrow> u64 \<times> u64 \<Rightarrow> bytes \<Rightarrow> 'e \<Rightarrow> (int \<times> bytes) \<times> 'e"
  da_get_auth :: "'e \<Rightarrow> u64 \<times> 'e"
  da_set_auth :: "u64 \<Rightarrow> 'e \<Rightarrow> int \<times> 'e"
  da_clock :: "'e \<Rightarrow> u64 \<times> 'e"

definition kDceDevice :: string where "kDceDevice = ''/dev/dce''"
definition kSharedFpsSample :: string where "kSharedFpsSample = ''/system_tmp/fps_sample''"
definition kSharedFpsMagic :: u32 where "kSharedFpsMagic = 0x4f465053"
definition kDcePtraceAuthId :: u64 where "kDcePtraceAuthId = 0x4800000000010003"
definition kDceFlipIoctl :: u64 where "kDceFlipIoctl = 0x80308217"
definition kDceFlipIoctlSignExtended :: u64 where "kDceFlipIoctlSignExtended = 0xffffffff80308217"

text \<open>The selector and the mask of the query; the rest of the argument is zero.\<close>

definition dce_ioctl_arg :: "u64 \<times> u64" where
  "dce_ioctl_arg = (0x10000000A, 0x8000000000)"

section \<open>The window of raised credentials\<close>

record auth_window =
  aw_ready :: bool
  aw_original :: u64
  aw_changed :: bool

definition begin_auth_window :: "'e device_api \<Rightarrow> 'e \<Rightarrow> auth_window \<times> 'e" where
  "begin_auth_window api e =
     (case da_get_auth api e of
        (original, e1) \<Rightarrow>
          if original = kDcePtraceAuthId
          then (\<lparr>aw_ready = True, aw_original = original, aw_changed = False\<rparr>, e1)
          else case da_set_auth api kDcePtraceAuthId e1 of
                 (rc, e2) \<Rightarrow> (\<lparr>aw_ready = (rc = 0), aw_original = original, aw_changed = (rc = 0)\<rparr>, e2))"

definition end_auth_window :: "'e device_api \<Rightarrow> auth_window \<Rightarrow> 'e \<Rightarrow> bool \<times> 'e" where
  "end_auth_window api w e =
     (if \<not> aw_changed w then (True, e)
      else case da_set_auth api (aw_original w) e of (rc, e1) \<Rightarrow> (rc = 0, e1))"

section \<open>The state\<close>

record dce_device =
  dd_fd :: int
  dd_counter :: dce_counter
  dd_failures :: u32
  dd_logged :: bool
  dd_backend :: string

definition dd_init :: dce_device where
  "dd_init = \<lparr>dd_fd = -1, dd_counter = dce_init, dd_failures = 0, dd_logged = False, dd_backend = ''none''\<rparr>"

definition dd_reset :: "dce_device \<Rightarrow> dce_device" where
  "dd_reset s = s\<lparr>dd_counter := dce_reset (dd_counter s), dd_logged := False, dd_backend := ''none''\<rparr>"

section \<open>The shared sample\<close>

definition shared_fps :: "int \<Rightarrow> bytes \<Rightarrow> int option" where
  "shared_fps count buffer =
     (if count < 20 then None
      else if get_u32 0 buffer \<noteq> kSharedFpsMagic \<or> buffer ! 12 = 0 then None
      else case validated_fps (f32_of_bits (get_u32 16 buffer)) of
             None \<Rightarrow> None | Some rounded \<Rightarrow> if rounded = 0 then None else Some rounded)"

definition sample_shared_hen :: "'e device_api \<Rightarrow> dce_device \<Rightarrow> 'e \<Rightarrow> int option \<times> dce_device \<times> 'e" where
  "sample_shared_hen api s e =
     (case da_open api kSharedFpsSample False e of
        (fd, e1) \<Rightarrow>
          if fd < 0 then (None, s, e1)
          else case da_read api fd 128 e1 of
                 ((count, buffer), e2) \<Rightarrow>
                   (case shared_fps count buffer of
                      None \<Rightarrow> (None, s, da_close api fd e2)
                    | Some rounded \<Rightarrow>
                        (Some rounded, s\<lparr>dd_backend := ''hen-shared'', dd_logged := True\<rparr>, da_close api fd e2)))"

section \<open>The device\<close>

text \<open>The open inside the window: read-write first, then read-only.\<close>

definition open_privileged :: "'e device_api \<Rightarrow> 'e \<Rightarrow> int \<times> 'e" where
  "open_privileged api e =
     (case da_open api kDceDevice True e of
        (fd, e1) \<Rightarrow> if fd < 0 then da_open api kDceDevice False e1 else (fd, e1))"

definition ensure_open :: "'e device_api \<Rightarrow> dce_device \<Rightarrow> 'e \<Rightarrow> bool \<times> dce_device \<times> 'e" where
  "ensure_open api s e =
     (if 0 \<le> dd_fd s then (True, s, e)
      else case da_open api kDceDevice True e of
             (fd, e1) \<Rightarrow>
               if 0 \<le> fd then (True, s\<lparr>dd_fd := fd, dd_failures := 0\<rparr>, e1)
               else case begin_auth_window api e1 of
                      (w, e2) \<Rightarrow>
                        (case (if aw_ready w then open_privileged api e2 else (fd, e2)) of
                           (fd, e3) \<Rightarrow>
                             (case (if aw_ready w then end_auth_window api w e3 else (False, e3)) of
                                (restored, e4) \<Rightarrow>
                                  if fd < 0 then (False, s\<lparr>dd_fd := fd, dd_failures := dd_failures s + 1\<rparr>, e4)
                                  else if \<not> restored then (False, s\<lparr>dd_fd := -1\<rparr>, da_close api fd e4)
                                  else (True, s\<lparr>dd_fd := fd, dd_failures := 0\<rparr>, e4))))"

definition zero_block :: bytes where "zero_block = replicate 0x60 0"

text \<open>Both commands in turn; the block of the first is cleared for the second on request.\<close>

definition flip_ioctls :: "'e device_api \<Rightarrow> bool \<Rightarrow> int \<Rightarrow> 'e \<Rightarrow> (int \<times> bytes) \<times> 'e" where
  "flip_ioctls api clear fd e =
     (case da_ioctl api fd kDceFlipIoctl dce_ioctl_arg zero_block e of
        ((rc, block), e1) \<Rightarrow>
          if rc < 0 then da_ioctl api fd kDceFlipIoctlSignExtended dce_ioctl_arg (if clear then zero_block else block) e1
          else ((rc, block), e1))"

definition query_ioctls :: "'e device_api \<Rightarrow> int \<Rightarrow> 'e \<Rightarrow> (int \<times> bytes \<times> bool) \<times> 'e" where
  "query_ioctls api fd e =
     (case flip_ioctls api False fd e of
        ((rc, block), e1) \<Rightarrow>
          if \<not> rc < 0 then ((rc, block, True), e1)
          else case begin_auth_window api e1 of
                 (w, e2) \<Rightarrow>
                   if \<not> aw_ready w then ((rc, block, True), e2)
                   else case flip_ioctls api True fd e2 of
                          ((rc2, block2), e3) \<Rightarrow>
                            (case end_auth_window api w e3 of (restored, e4) \<Rightarrow> ((rc2, block2, restored), e4)))"

definition block_words :: "bytes \<Rightarrow> u64 list" where
  "block_words block = map (\<lambda>i. get_u64 (8 * i) block) [0..<12]"

definition query_dce :: "'e device_api \<Rightarrow> dce_device \<Rightarrow> 'e \<Rightarrow> u64 list option \<times> dce_device \<times> 'e" where
  "query_dce api s e =
     (case ensure_open api s e of
        (False, s1, e1) \<Rightarrow> (None, s1, e1)
      | (True, s1, e1) \<Rightarrow>
          (case query_ioctls api (dd_fd s1) e1 of
             ((rc, block, restored), e2) \<Rightarrow>
               if rc \<noteq> 0 \<or> \<not> restored then
                 let s2 = s1\<lparr>dd_failures := dd_failures s1 + 1\<rparr>
                 in if 8 \<le> dd_failures s2 then (None, dd_reset (s2\<lparr>dd_fd := -1\<rparr>), da_close api (dd_fd s2) e2)
                    else (None, s2, e2)
               else (Some (block_words block), s1\<lparr>dd_failures := 0\<rparr>, e2)))"

definition dd_sample :: "'e device_api \<Rightarrow> dce_device \<Rightarrow> 'e \<Rightarrow> int option \<times> dce_device \<times> 'e" where
  "dd_sample api s e =
     (case sample_shared_hen api s e of
        (Some shared, s1, e1) \<Rightarrow> (Some shared, s1, e1)
      | (None, s1, e1) \<Rightarrow>
          (case query_dce api s1 e1 of
             (None, s2, e2) \<Rightarrow> (None, s2, e2)
           | (Some words, s2, e2) \<Rightarrow>
               (case da_clock api e2 of
                  (now, e3) \<Rightarrow>
                    (case dce_sample words now (dd_counter s2) of
                       (None, c) \<Rightarrow> (None, s2\<lparr>dd_counter := c\<rparr>, e3)
                     | (Some fps, c) \<Rightarrow>
                         (Some fps,
                          s2\<lparr>dd_counter := c, dd_logged := True,
                             dd_backend := (if dce_selected_word c = 1 then ''dce-fixed'' else ''dce-adaptive'')\<rparr>,
                          e3)))))"

text \<open>The destructor.\<close>

definition dd_destroy :: "'e device_api \<Rightarrow> dce_device \<Rightarrow> 'e \<Rightarrow> 'e" where
  "dd_destroy api s e = (if 0 \<le> dd_fd s then da_close api (dd_fd s) e else e)"

section \<open>The contract of the system calls\<close>

text \<open>
  What the code relies on: an open answers a fresh descriptor or a negative number, a close
  takes it away, a call that sets the credentials does so exactly when it reports success, and
  nothing else touches descriptors or credentials.
\<close>

definition opens_fresh :: "'e device_api \<Rightarrow> ('e \<Rightarrow> u64) \<Rightarrow> ('e \<Rightarrow> int set) \<Rightarrow> bool" where
  "opens_fresh api auth fds \<longleftrightarrow>
     (\<forall>p m e fd e'. da_open api p m e = (fd, e') \<longrightarrow>
        auth e' = auth e \<and> fds e' = (if fd < 0 then fds e else insert fd (fds e)) \<and> (0 \<le> fd \<longrightarrow> fd \<notin> fds e)) \<and>
     (\<forall>fd e. auth (da_close api fd e) = auth e \<and> fds (da_close api fd e) = fds e - {fd})"

definition sets_auth :: "'e device_api \<Rightarrow> ('e \<Rightarrow> u64) \<Rightarrow> ('e \<Rightarrow> int set) \<Rightarrow> bool" where
  "sets_auth api auth fds \<longleftrightarrow>
     (\<forall>e a e'. da_get_auth api e = (a, e') \<longrightarrow> a = auth e \<and> auth e' = auth e \<and> fds e' = fds e) \<and>
     (\<forall>a e rc e'. da_set_auth api a e = (rc, e') \<longrightarrow> auth e' = (if rc = 0 then a else auth e) \<and> fds e' = fds e)"

definition keeps_rest :: "'e device_api \<Rightarrow> ('e \<Rightarrow> u64) \<Rightarrow> ('e \<Rightarrow> int set) \<Rightarrow> bool" where
  "keeps_rest api auth fds \<longleftrightarrow>
     (\<forall>fd n e r e'. da_read api fd n e = (r, e') \<longrightarrow> auth e' = auth e \<and> fds e' = fds e) \<and>
     (\<forall>fd c a b e r e'. da_ioctl api fd c a b e = (r, e') \<longrightarrow> auth e' = auth e \<and> fds e' = fds e) \<and>
     (\<forall>e t e'. da_clock api e = (t, e') \<longrightarrow> auth e' = auth e \<and> fds e' = fds e)"

definition well_behaved :: "'e device_api \<Rightarrow> ('e \<Rightarrow> u64) \<Rightarrow> ('e \<Rightarrow> int set) \<Rightarrow> bool" where
  "well_behaved api auth fds \<longleftrightarrow> opens_fresh api auth fds \<and> sets_auth api auth fds \<and> keeps_rest api auth fds"

lemma opened:
  assumes "well_behaved api auth fds" "da_open api p m e = (fd, e')"
  shows "auth e' = auth e" "fd < 0 \<Longrightarrow> fds e' = fds e" "0 \<le> fd \<Longrightarrow> fds e' = insert fd (fds e)"
    "0 \<le> fd \<Longrightarrow> fd \<notin> fds e"
  using assms unfolding well_behaved_def opens_fresh_def by (metis linorder_not_less)+

lemma device_closed:
  assumes "well_behaved api auth fds"
  shows "auth (da_close api fd e) = auth e" "fds (da_close api fd e) = fds e - {fd}"
  using assms by (simp_all add: well_behaved_def opens_fresh_def)

lemma read_keeps:
  assumes "well_behaved api auth fds" "da_read api fd n e = (r, e')"
  shows "auth e' = auth e \<and> fds e' = fds e"
  using assms unfolding well_behaved_def keeps_rest_def by blast

lemma ioctl_keeps:
  assumes "well_behaved api auth fds" "da_ioctl api fd c a b e = (r, e')"
  shows "auth e' = auth e \<and> fds e' = fds e"
  using assms unfolding well_behaved_def keeps_rest_def by blast

lemma clock_keeps:
  assumes "well_behaved api auth fds" "da_clock api e = (t, e')"
  shows "auth e' = auth e \<and> fds e' = fds e"
  using assms unfolding well_behaved_def keeps_rest_def by blast

text \<open>A window that opens is at the raised identity and remembers the one before.\<close>

lemma window_begins:
  assumes "well_behaved api auth fds" "begin_auth_window api e = (w, e')"
  shows "fds e' = fds e" "aw_ready w \<Longrightarrow> auth e' = kDcePtraceAuthId \<and> aw_original w = auth e \<and>
      (aw_changed w \<or> auth e = kDcePtraceAuthId)" "\<not> aw_ready w \<Longrightarrow> auth e' = auth e"
proof -
  obtain a e1 where g: "da_get_auth api e = (a, e1)" by (cases "da_get_auth api e")
  have ga: "a = auth e" "auth e1 = auth e" "fds e1 = fds e"
    using assms(1) g unfolding well_behaved_def sets_auth_def by blast+
  obtain rc e2 where st: "da_set_auth api kDcePtraceAuthId e1 = (rc, e2)" by (cases "da_set_auth api kDcePtraceAuthId e1")
  have sa: "auth e2 = (if rc = 0 then kDcePtraceAuthId else auth e1)" "fds e2 = fds e1"
    using assms(1) st unfolding well_behaved_def sets_auth_def by blast+
  show "fds e' = fds e" "aw_ready w \<Longrightarrow> auth e' = kDcePtraceAuthId \<and> aw_original w = auth e \<and>
      (aw_changed w \<or> auth e = kDcePtraceAuthId)" "\<not> aw_ready w \<Longrightarrow> auth e' = auth e"
    using assms(2) g st ga sa by (auto simp: begin_auth_window_def split: if_splits)
qed

lemma window_ends:
  assumes "well_behaved api auth fds" "end_auth_window api w e = (ok, e')"
    and "aw_changed w \<or> auth e = aw_original w"
  shows "fds e' = fds e" "ok \<Longrightarrow> auth e' = aw_original w" "\<not> ok \<Longrightarrow> auth e' = auth e"
proof -
  obtain rc e1 where st: "da_set_auth api (aw_original w) e = (rc, e1)" by (cases "da_set_auth api (aw_original w) e")
  have "auth e1 = (if rc = 0 then aw_original w else auth e)" "fds e1 = fds e"
    using assms(1) st unfolding well_behaved_def sets_auth_def by blast+
  then show "fds e' = fds e" "ok \<Longrightarrow> auth e' = aw_original w" "\<not> ok \<Longrightarrow> auth e' = auth e"
    using assms(2,3) st by (auto simp: end_auth_window_def split: if_splits)
qed

section \<open>Descriptors and credentials\<close>

text \<open>The sampler holds its own descriptor, if any, on top of those that were open before.\<close>

definition holds_fd :: "int set \<Rightarrow> dce_device \<Rightarrow> int set \<Rightarrow> bool" where
  "holds_fd base s open_fds \<longleftrightarrow>
     (if 0 \<le> dd_fd s then dd_fd s \<notin> base \<and> open_fds = insert (dd_fd s) base else open_fds = base)"

definition raised_or :: "u64 \<Rightarrow> u64 \<Rightarrow> bool" where
  "raised_or a b \<longleftrightarrow> b = a \<or> b = kDcePtraceAuthId"

lemma shared_keeps:
  assumes "well_behaved api auth fds" "sample_shared_hen api s e = (r, s', e')"
  shows "auth e' = auth e" "fds e' = fds e" "dd_fd s' = dd_fd s" "dd_counter s' = dd_counter s"
proof -
  obtain fd e1 where o: "da_open api kSharedFpsSample False e = (fd, e1)" by (cases "da_open api kSharedFpsSample False e")
  obtain c b e2 where rd: "da_read api fd 128 e1 = ((c, b), e2)" by (metis prod_cases3 prod.collapse)
  note op = opened [OF assms(1) o]
  note rk = read_keeps [OF assms(1) rd]
  show "auth e' = auth e" "fds e' = fds e" "dd_fd s' = dd_fd s" "dd_counter s' = dd_counter s"
    using assms(2) o rd op rk device_closed [OF assms(1), of fd e2]
    by (cases "fd < 0"; auto simp: sample_shared_hen_def split: option.splits)+
qed

lemma open_privileged_fd:
  assumes "well_behaved api auth fds" "open_privileged api e = (fd, e')"
  shows "auth e' = auth e" "fd < 0 \<Longrightarrow> fds e' = fds e" "0 \<le> fd \<Longrightarrow> fds e' = insert fd (fds e) \<and> fd \<notin> fds e"
proof -
  obtain fd1 e1 where o1: "da_open api kDceDevice True e = (fd1, e1)" by (cases "da_open api kDceDevice True e")
  obtain fd2 e2 where o2: "da_open api kDceDevice False e1 = (fd2, e2)" by (cases "da_open api kDceDevice False e1")
  show "auth e' = auth e" "fd < 0 \<Longrightarrow> fds e' = fds e" "0 \<le> fd \<Longrightarrow> fds e' = insert fd (fds e) \<and> fd \<notin> fds e"
    using assms(2) o1 o2 opened [OF assms(1) o1] opened [OF assms(1) o2]
    by (auto simp: open_privileged_def split: if_splits)
qed

text \<open>The device is open only with the credentials back; a failure may leave them raised.\<close>

lemma ensure_open_keeps:
  assumes wb: "well_behaved api auth fds" and run: "ensure_open api s e = (ok, s', e')"
    and "holds_fd base s (fds e)"
  shows "holds_fd base s' (fds e')" "raised_or (auth e) (auth e')" "ok \<Longrightarrow> auth e' = auth e \<and> 0 \<le> dd_fd s'"
    "dd_counter s' = dd_counter s"
proof -
  obtain fd e1 where o: "da_open api kDceDevice True e = (fd, e1)" by (cases "da_open api kDceDevice True e")
  obtain w e2 where b: "begin_auth_window api e1 = (w, e2)" by (cases "begin_auth_window api e1")
  obtain fd3 e3 where p: "(if aw_ready w then open_privileged api e2 else (fd, e2)) = (fd3, e3)" by fastforce
  obtain r e4 where f: "(if aw_ready w then end_auth_window api w e3 else (False, e3)) = (r, e4)" by fastforce
  note op = opened [OF wb o] and wi = window_begins [OF wb b]
  have ready: "fds e4 = fds e3 \<and> raised_or (auth e) (auth e4) \<and> (r \<longrightarrow> auth e4 = auth e) \<and>
      (if fd3 < 0 then fds e3 = fds e2 else fds e3 = insert fd3 (fds e2) \<and> fd3 \<notin> fds e2)" if "aw_ready w"
  proof -
    have p': "open_privileged api e2 = (fd3, e3)" and f': "end_auth_window api w e3 = (r, e4)"
      using p f that by simp_all
    note pr = open_privileged_fd [OF wb p']
    have "aw_changed w \<or> auth e3 = aw_original w" using wi(2) [OF that] pr(1) op(1) by auto
    note we = window_ends [OF wb f' this]
    show ?thesis using we wi(2) [OF that] pr op(1) by (auto simp: raised_or_def)
  qed
  have "holds_fd base s' (fds e') \<and> raised_or (auth e) (auth e') \<and> (ok \<longrightarrow> auth e' = auth e \<and> 0 \<le> dd_fd s')
      \<and> dd_counter s' = dd_counter s"
  proof (cases "0 \<le> dd_fd s \<or> 0 \<le> fd")
    case True
    then have "(ok, s', e') = (if 0 \<le> dd_fd s then (True, s, e) else (True, s\<lparr>dd_fd := fd, dd_failures := 0\<rparr>, e1))"
      using run by (auto simp: ensure_open_def o)
    then show ?thesis using True assms(3) op by (cases "0 \<le> dd_fd s") (simp_all add: holds_fd_def raised_or_def)
  next
    case False
    have base: "fds e = base" "fds e1 = base" "fds e2 = base"
      using False assms(3) op(2) wi(1) by (auto simp: holds_fd_def)
    show ?thesis
    proof (cases "aw_ready w")
      case True
      then have p': "open_privileged api e2 = (fd3, e3)" and f': "end_auth_window api w e3 = (r, e4)"
        using p f by simp_all
      note rd = ready [OF True, unfolded base] and cl = device_closed [OF wb, of fd3 e4]
      have run': "(ok, s', e') =
          (if fd3 < 0 then (False, s\<lparr>dd_fd := fd3, dd_failures := dd_failures s + 1\<rparr>, e4)
           else if \<not> r then (False, s\<lparr>dd_fd := -1\<rparr>, da_close api fd3 e4)
           else (True, s\<lparr>dd_fd := fd3, dd_failures := 0\<rparr>, e4))"
        using run False True by (simp add: ensure_open_def o b p' f')
      consider "fd3 < 0" | "0 \<le> fd3" "\<not> r" | "0 \<le> fd3" r by linarith
      then show ?thesis
        by cases (use run' rd cl in \<open>auto simp: holds_fd_def\<close>)
    next
      case not_ready: False
      then have "fd3 = fd" "e3 = e2" "r = False" "e4 = e2" using p f by auto
      moreover from this have "(ok, s', e') = (False, s\<lparr>dd_fd := fd, dd_failures := dd_failures s + 1\<rparr>, e2)"
        using run False not_ready by (simp add: ensure_open_def o b)
      ultimately show ?thesis using False not_ready base wi(3) op(1) by (simp add: holds_fd_def raised_or_def)
    qed
  qed
  then show "holds_fd base s' (fds e')" "raised_or (auth e) (auth e')" "ok \<Longrightarrow> auth e' = auth e \<and> 0 \<le> dd_fd s'"
    "dd_counter s' = dd_counter s" by blast+
qed

lemma flip_ioctls_keep:
  assumes "well_behaved api auth fds" "flip_ioctls api clear fd e = (r, e')"
  shows "auth e' = auth e \<and> fds e' = fds e"
proof -
  obtain rc b e1 where i: "da_ioctl api fd kDceFlipIoctl dce_ioctl_arg zero_block e = ((rc, b), e1)"
    by (metis prod.collapse)
  show ?thesis
    using assms(2) i ioctl_keeps [OF assms(1) i] ioctl_keeps [OF assms(1), of fd kDceFlipIoctlSignExtended dce_ioctl_arg _ e1 r e']
    by (cases "rc < 0") (auto simp: flip_ioctls_def)
qed

lemma query_ioctls_keep:
  assumes wb: "well_behaved api auth fds" and run: "query_ioctls api fd e = ((rc, b, restored), e')"
  shows "fds e' = fds e" "raised_or (auth e) (auth e')" "restored \<Longrightarrow> auth e' = auth e"
proof -
  obtain rc1 b1 e1 where f1: "flip_ioctls api False fd e = ((rc1, b1), e1)" by (metis prod.collapse)
  obtain w e2 where bw: "begin_auth_window api e1 = (w, e2)" by (cases "begin_auth_window api e1")
  obtain rc2 b2 e3 where f2: "flip_ioctls api True fd e2 = ((rc2, b2), e3)" by (metis prod.collapse)
  obtain ok e4 where ew: "end_auth_window api w e3 = (ok, e4)" by (cases "end_auth_window api w e3")
  note k1 = flip_ioctls_keep [OF wb f1] and k2 = flip_ioctls_keep [OF wb f2] and wi = window_begins [OF wb bw]
  have "fds e' = fds e \<and> raised_or (auth e) (auth e') \<and> (restored \<longrightarrow> auth e' = auth e)"
  proof (cases "\<not> rc1 < 0 \<or> \<not> aw_ready w")
    case True
    then show ?thesis using run f1 bw k1 wi by (cases "rc1 < 0") (auto simp: query_ioctls_def raised_or_def)
  next
    case False
    then have "aw_changed w \<or> auth e3 = aw_original w" using wi(2) k1 k2 by auto
    note we = window_ends [OF wb ew this]
    show ?thesis using False run f1 bw f2 ew k1 k2 wi we by (cases ok) (auto simp: query_ioctls_def raised_or_def)
  qed
  then show "fds e' = fds e" "raised_or (auth e) (auth e')" "restored \<Longrightarrow> auth e' = auth e" by blast+
qed

lemma query_dce_keeps:
  assumes wb: "well_behaved api auth fds" and run: "query_dce api s e = (r, s', e')"
    and h: "holds_fd base s (fds e)" and inv: "dce_inv (dd_counter s)"
  shows "holds_fd base s' (fds e')" "raised_or (auth e) (auth e')" "r \<noteq> None \<Longrightarrow> auth e' = auth e"
    "dce_inv (dd_counter s')"
proof -
  obtain ok s1 e1 where o: "ensure_open api s e = (ok, s1, e1)" by (metis prod_cases3)
  obtain rc b res e2 where q: "query_ioctls api (dd_fd s1) e1 = ((rc, b, res), e2)" by (metis prod.collapse)
  note ok = ensure_open_keeps [OF wb o h] and qk = query_ioctls_keep [OF wb q]
  have "holds_fd base s' (fds e') \<and> raised_or (auth e) (auth e') \<and> (r \<noteq> None \<longrightarrow> auth e' = auth e)
      \<and> dce_inv (dd_counter s')"
  proof (cases ok)
    case False
    then show ?thesis using run o ok inv by (auto simp: query_dce_def)
  next
    case True
    then have dev: "fds e2 = insert (dd_fd s1) base" "dd_fd s1 \<notin> base" "auth e1 = auth e" "0 \<le> dd_fd s1"
      using ok(1,3) qk(1) by (simp_all add: holds_fd_def)
    have run': "(r, s', e') =
        (if rc \<noteq> 0 \<or> \<not> res then
           if 8 \<le> dd_failures s1 + 1
           then (None, dd_reset (s1\<lparr>dd_failures := dd_failures s1 + 1, dd_fd := -1\<rparr>), da_close api (dd_fd s1) e2)
           else (None, s1\<lparr>dd_failures := dd_failures s1 + 1\<rparr>, e2)
         else (Some (block_words b), s1\<lparr>dd_failures := 0\<rparr>, e2))"
      using run True by (auto simp: query_dce_def o q Let_def split: if_splits)
    note cl = device_closed [OF wb, of "dd_fd s1" e2]
    consider "rc \<noteq> 0 \<or> \<not> res" "8 \<le> dd_failures s1 + 1" | "rc \<noteq> 0 \<or> \<not> res" "\<not> 8 \<le> dd_failures s1 + 1"
      | "rc = 0" res by blast
    then show ?thesis
    proof cases
      case 1
      then show ?thesis using run' dev qk(2) cl dce_init_inv by (simp add: holds_fd_def dd_reset_def dce_reset_def)
    next
      case 2
      then show ?thesis using run' dev qk(2) ok(4) inv by (simp add: holds_fd_def)
    next
      case 3
      then show ?thesis using run' dev qk(2,3) ok(4) inv by (simp add: holds_fd_def)
    qed
  qed
  then show "holds_fd base s' (fds e')" "raised_or (auth e) (auth e')" "r \<noteq> None \<Longrightarrow> auth e' = auth e"
    "dce_inv (dd_counter s')" by blast+
qed

section \<open>Rates\<close>

lemma f32_of_bits_wf [simp]: "fl_wf (f32_of_bits w)"
  by (simp add: f32_of_bits_def Let_def)

lemma shared_fps_range: "shared_fps count buffer = Some r \<Longrightarrow> 1 \<le> r \<and> r \<le> 120"
  using validated_fps_range [of "f32_of_bits (get_u32 16 buffer)"]
  by (auto simp: shared_fps_def split: option.splits if_splits)

lemma shared_result:
  assumes "sample_shared_hen api s e = (Some r, s', e')"
  shows "1 \<le> r \<and> r \<le> 120 \<and> dd_backend s' = ''hen-shared''"
  using assms shared_fps_range by (auto simp: sample_shared_hen_def split: prod.splits option.splits if_splits)

lemma query_words: "query_dce api s e = (Some words, s', e') \<Longrightarrow> \<exists>block. words = block_words block"
  by (auto simp: query_dce_def Let_def split: prod.splits bool.splits if_splits)

text \<open>One sample: what it leaves and what a rate means.\<close>

lemma dd_sample_correct:
  assumes wb: "well_behaved api auth fds" and run: "dd_sample api s e = (r, s', e')"
    and h: "holds_fd base s (fds e)" and inv: "dce_inv (dd_counter s)"
  shows "holds_fd base s' (fds e')" "dce_inv (dd_counter s')" "raised_or (auth e) (auth e')"
    "r = Some v \<Longrightarrow> auth e' = auth e \<and> 1 \<le> v \<and> v \<le> 120 \<and>
       dd_backend s' \<in> {''hen-shared'', ''dce-fixed'', ''dce-adaptive''}"
proof -
  obtain sh s1 e1 where 1: "sample_shared_hen api s e = (sh, s1, e1)" by (metis prod_cases3)
  note k1 = shared_keeps [OF wb 1]
  have h1: "holds_fd base s1 (fds e1)" and inv1: "dce_inv (dd_counter s1)"
    using h inv by (simp_all add: k1 holds_fd_def)
  obtain q s2 e2 where 2: "query_dce api s1 e1 = (q, s2, e2)" by (metis prod_cases3)
  note k2 = query_dce_keeps [OF wb 2 h1 inv1]
  obtain t e3 where 3: "da_clock api e2 = (t, e3)" by (cases "da_clock api e2")
  note k3 = clock_keeps [OF wb 3]
  have "holds_fd base s' (fds e') \<and> dce_inv (dd_counter s') \<and> raised_or (auth e) (auth e') \<and>
      (r = Some v \<longrightarrow> auth e' = auth e \<and> 1 \<le> v \<and> v \<le> 120 \<and>
         dd_backend s' \<in> {''hen-shared'', ''dce-fixed'', ''dce-adaptive''})"
  proof (cases sh)
    case (Some v')
    have "r = Some v'" "s' = s1" "e' = e1" using run 1 Some by (simp_all add: dd_sample_def)
    then show ?thesis using shared_result [OF 1 [unfolded Some]] h1 inv1 k1(1) by (simp add: raised_or_def)
  next
    case None
    note run1 = run [unfolded dd_sample_def 1 None prod.case option.case 2]
    show ?thesis
    proof (cases q)
      case None
      have "r = None" "s' = s2" "e' = e2" using run1 None by simp_all
      then show ?thesis using k2 k1(1) by simp
    next
      case (Some words)
      obtain f c where 4: "dce_sample words t (dd_counter s2) = (f, c)" by (cases "dce_sample words t (dd_counter s2)")
      have c: "dce_inv c" using dce_sample_inv [OF k2(4), of words t] 4 by simp
      have fd: "dd_fd s' = dd_fd s2" "dd_counter s' = c" "e' = e3" "r = f"
        and label: "f \<noteq> None \<Longrightarrow> dd_backend s' \<in> {''dce-fixed'', ''dce-adaptive''}"
        using run1 by (auto simp: Some 3 4 split: option.splits if_splits)
      have range: "1 \<le> v \<and> v \<le> 120" if "f = Some v"
        using dce_sample_result [OF k2(4), of words t v] 4 that by auto
      show ?thesis using k1(1) k2(1-3) k3 c fd label range Some by (auto simp: holds_fd_def)
    qed
  qed
  then show "holds_fd base s' (fds e')" "dce_inv (dd_counter s')" "raised_or (auth e) (auth e')"
    "r = Some v \<Longrightarrow> auth e' = auth e \<and> 1 \<le> v \<and> v \<le> 120 \<and>
       dd_backend s' \<in> {''hen-shared'', ''dce-fixed'', ''dce-adaptive''}" by blast+
qed

section \<open>Runs\<close>

datatype dd_call = DdSample | DdReset

fun dd_step :: "'e device_api \<Rightarrow> dd_call \<Rightarrow> dce_device \<times> 'e \<Rightarrow> int option \<times> (dce_device \<times> 'e)" where
  "dd_step api DdSample (s, e) = dd_sample api s e"
| "dd_step api DdReset (s, e) = (None, (dd_reset s, e))"

lemma dd_reset_keeps: "dd_fd (dd_reset s) = dd_fd s" "dd_counter (dd_reset s) = dce_init"
  by (simp_all add: dd_reset_def dce_reset_def)

lemma dd_step_inv:
  assumes wb: "well_behaved api auth fds" and "holds_fd base s (fds e)" "dce_inv (dd_counter s)"
    and "dd_step api c (s, e) = (r, (s', e'))"
  shows "holds_fd base s' (fds e') \<and> dce_inv (dd_counter s')"
proof (cases c)
  case DdSample
  then show ?thesis using assms(4) dd_sample_correct(1,2) [OF wb _ assms(2,3)] by simp
next
  case DdReset
  then show ?thesis using assms(2-4) dce_init_inv by (auto simp: dd_reset_keeps holds_fd_def)
qed

lemma dd_run_inv:
  assumes wb: "well_behaved api auth fds"
  shows "holds_fd base s (fds e) \<Longrightarrow> dce_inv (dd_counter s) \<Longrightarrow>
    run_state_of (dd_step api) (s, e) calls = (s', e') \<Longrightarrow> holds_fd base s' (fds e') \<and> dce_inv (dd_counter s')"
proof (induction calls arbitrary: s e)
  case (Cons c cs)
  obtain r s1 e1 where st: "dd_step api c (s, e) = (r, (s1, e1))" by (metis prod.collapse)
  then show ?case using Cons.prems(3) Cons.IH [of s1 e1] dd_step_inv [OF wb Cons.prems(1,2) st] by simp
qed auto

lemma dd_reached:
  assumes "well_behaved api auth fds" "run_state_of (dd_step api) (dd_init, e0) calls = (s, e)"
  shows "holds_fd (fds e0) s (fds e)" "dce_inv (dd_counter s)"
  using dd_run_inv [OF assms(1) _ _ assms(2), of "fds e0"] dce_init_inv
  by (simp_all add: dd_init_def holds_fd_def)

text \<open>
  (C21) Whatever sequence of samples and resets the controller makes and whatever the console
  answers, the DCE sampler leaks no descriptor: as long as it holds no device the open
  descriptors are those from before, and after its destructor they are so in any case.
\<close>

theorem dce_device_leaks_no_descriptor:
  assumes "well_behaved api auth fds" "run_state_of (dd_step api) (dd_init, e0) calls = (s, e)"
  shows "fds (dd_destroy api s e) = fds e0 \<and> (dd_fd s < 0 \<longrightarrow> fds e = fds e0)"
  using dd_reached [OF assms(1,2)] device_closed(2) [OF assms(1), of "dd_fd s" e]
  by (auto simp: holds_fd_def dd_destroy_def)

section \<open>Attempts on the credentials\<close>

text \<open>
  The record the kernel could keep: every identifier the controller asked for and whether it got
  it.  Only the call that sets the identifier adds to it.
\<close>

definition logs_auth :: "'e device_api \<Rightarrow> ('e \<Rightarrow> (u64 \<times> bool) list) \<Rightarrow> bool" where
  "logs_auth api seen \<longleftrightarrow>
     (\<forall>a e rc e'. da_set_auth api a e = (rc, e') \<longrightarrow> seen e' = seen e @ [(a, rc = 0)]) \<and>
     (\<forall>e. seen (snd (da_get_auth api e)) = seen e) \<and> (\<forall>p m e. seen (snd (da_open api p m e)) = seen e) \<and>
     (\<forall>fd e. seen (da_close api fd e) = seen e) \<and> (\<forall>fd n e. seen (snd (da_read api fd n e)) = seen e) \<and>
     (\<forall>fd c a b e. seen (snd (da_ioctl api fd c a b e)) = seen e) \<and> (\<forall>e. seen (snd (da_clock api e)) = seen e)"

lemma logs_authD:
  assumes "logs_auth api seen"
  shows "da_set_auth api a e = (rc, e') \<Longrightarrow> seen e' = seen e @ [(a, rc = 0)]"
    and "da_get_auth api e = (r1, e') \<Longrightarrow> seen e' = seen e" and "da_open api p m e = (r2, e') \<Longrightarrow> seen e' = seen e"
    and "seen (da_close api fd e) = seen e" and "da_read api fd n e = (r3, e') \<Longrightarrow> seen e' = seen e"
    and "da_ioctl api fd c x b e = (r4, e') \<Longrightarrow> seen e' = seen e" and "da_clock api e = (r5, e') \<Longrightarrow> seen e' = seen e"
proof -
  note c = assms [unfolded logs_auth_def]
  show "da_set_auth api a e = (rc, e') \<Longrightarrow> seen e' = seen e @ [(a, rc = 0)]" using c by simp
  have s: "seen (snd (da_get_auth api e)) = seen e" "seen (snd (da_open api p m e)) = seen e" "seen (snd (da_read api fd n e)) = seen e"
    "seen (snd (da_ioctl api fd c x b e)) = seen e" "seen (snd (da_clock api e)) = seen e" using c by blast+
  show "da_get_auth api e = (r1, e') \<Longrightarrow> seen e' = seen e" "da_open api p m e = (r2, e') \<Longrightarrow> seen e' = seen e"
    "da_read api fd n e = (r3, e') \<Longrightarrow> seen e' = seen e" "da_ioctl api fd c x b e = (r4, e') \<Longrightarrow> seen e' = seen e"
    "da_clock api e = (r5, e') \<Longrightarrow> seen e' = seen e" using s by auto
  show "seen (da_close api fd e) = seen e" using c by simp
qed

text \<open>
  Between two points the credentials are the same, or they are the raised ones and the last
  attempt on them was to put back those of the first point, which the kernel refused.
\<close>

definition restored_or_refused :: "('e \<Rightarrow> u64) \<Rightarrow> ('e \<Rightarrow> (u64 \<times> bool) list) \<Rightarrow> 'e \<Rightarrow> 'e \<Rightarrow> bool" where
  "restored_or_refused auth seen e e' \<longleftrightarrow>
     auth e' = auth e \<or> auth e' = kDcePtraceAuthId \<and> (\<exists>attempts. seen e' = seen e @ attempts @ [(auth e, False)])"

lemma window_refused:
  assumes wb: "well_behaved api auth fds" and lg: "logs_auth api seen"
    and b: "begin_auth_window api e = (w, e1)" "aw_ready w" and mid: "auth e2 = auth e1" "seen e2 = seen e1"
    and f: "end_auth_window api w e2 = (ok, e')"
  shows "restored_or_refused auth seen e e'" "ok \<Longrightarrow> auth e' = auth e"
proof -
  note wi = window_begins [OF wb b(1)]
  obtain a f1 where g: "da_get_auth api e = (a, f1)" by (cases "da_get_auth api e")
  obtain rc f2 where st: "da_set_auth api kDcePtraceAuthId f1 = (rc, f2)" by (cases "da_set_auth api kDcePtraceAuthId f1")
  have l: "\<exists>ts. seen e1 = seen e @ ts"
    using b(1) g st logs_authD(1,2) [OF lg] by (auto simp: begin_auth_window_def split: if_splits)
  obtain rc2 e3 where en: "da_set_auth api (aw_original w) e2 = (rc2, e3)" by (cases "da_set_auth api (aw_original w) e2")
  have set: "auth e3 = (if rc2 = 0 then aw_original w else auth e2)" "seen e3 = seen e2 @ [(aw_original w, rc2 = 0)]"
    using wb en logs_authD(1) [OF lg en] unfolding well_behaved_def sets_auth_def by blast+
  show "restored_or_refused auth seen e e'" "ok \<Longrightarrow> auth e' = auth e"
    using f en set wi(2) [OF b(2)] mid l
    by (auto simp: end_auth_window_def restored_or_refused_def split: if_splits)
qed

lemma open_privileged_log:
  assumes "logs_auth api seen" shows "open_privileged api e = (fd, e') \<Longrightarrow> seen e' = seen e"
  by (auto simp: open_privileged_def dest!: logs_authD(3) [OF assms] split: prod.splits if_splits)

lemma flip_ioctls_log:
  assumes "logs_auth api seen" shows "flip_ioctls api clear fd e = (r, e') \<Longrightarrow> seen e' = seen e"
  by (auto simp: flip_ioctls_def dest!: logs_authD(6) [OF assms] split: prod.splits if_splits)

lemma refused_from:
  assumes "restored_or_refused auth seen e1 e'" "auth e1 = auth e" "\<exists>ts. seen e1 = seen e @ ts"
  shows "restored_or_refused auth seen e e'"
proof -
  obtain ts where "seen e1 = seen e @ ts" using assms(3) by blast
  then show ?thesis using assms(1,2) unfolding restored_or_refused_def by (metis append.assoc)
qed

lemma begin_window_log:
  assumes "logs_auth api seen" shows "begin_auth_window api e = (w, e') \<Longrightarrow> \<exists>ts. seen e' = seen e @ ts"
  by (auto simp: begin_auth_window_def dest!: logs_authD(1,2) [OF assms] split: prod.splits if_splits)

lemma end_window_log:
  assumes "logs_auth api seen" shows "end_auth_window api w e = (ok, e') \<Longrightarrow> \<exists>ts. seen e' = seen e @ ts"
  by (auto simp: end_auth_window_def dest!: logs_authD(1) [OF assms] split: prod.splits if_splits)

lemma ensure_open_refused:
  assumes wb: "well_behaved api auth fds" and lg: "logs_auth api seen" and run: "ensure_open api s e = (ok, s', e')"
  shows "restored_or_refused auth seen e e'" "\<exists>ts. seen e' = seen e @ ts"
proof -
  obtain fd e1 where o: "da_open api kDceDevice True e = (fd, e1)" by (cases "da_open api kDceDevice True e")
  obtain w e2 where b: "begin_auth_window api e1 = (w, e2)" by (cases "begin_auth_window api e1")
  obtain fd3 e3 where p: "(if aw_ready w then open_privileged api e2 else (fd, e2)) = (fd3, e3)" by fastforce
  obtain r e4 where f: "(if aw_ready w then end_auth_window api w e3 else (False, e3)) = (r, e4)" by fastforce
  have 1: "auth e1 = auth e" "seen e1 = seen e" using opened(1) [OF wb o] logs_authD(3) [OF lg o] by simp_all
  have 3: "auth e3 = auth e2" "seen e3 = seen e2" if "aw_ready w"
    using p that open_privileged_fd(1) [OF wb] open_privileged_log [OF lg] by auto
  have "restored_or_refused auth seen e1 e4"
  proof (cases "aw_ready w")
    case True
    then have "end_auth_window api w e3 = (r, e4)" using f by simp
    from window_refused(1) [OF wb lg b True 3 this] True show ?thesis by simp
  next
    case False
    then show ?thesis using p f window_begins(3) [OF wb b] by (auto simp: restored_or_refused_def)
  qed
  then have 4: "restored_or_refused auth seen e e4" using refused_from 1 by fastforce
  have l4: "\<exists>ts. seen e4 = seen e @ ts"
    using 1(2) 3(2) p f begin_window_log [OF lg b] end_window_log [OF lg, of w e3 r e4] by (cases "aw_ready w") auto
  have c: "auth (da_close api fd3 e4) = auth e4" "seen (da_close api fd3 e4) = seen e4"
    using device_closed(1) [OF wb] logs_authD(4) [OF lg] by simp_all
  have end_cases: "e' = e \<or> e' = e1 \<or> e' = e4 \<or> e' = da_close api fd3 e4"
    using run by (auto simp: ensure_open_def o b p f split: if_splits)
  show "restored_or_refused auth seen e e'" using end_cases 1 4 c by (auto simp: restored_or_refused_def)
  show "\<exists>ts. seen e' = seen e @ ts" using end_cases 1 l4 c by auto
qed

lemma query_ioctls_refused:
  assumes wb: "well_behaved api auth fds" and lg: "logs_auth api seen" and run: "query_ioctls api fd e = (r, e')"
  shows "restored_or_refused auth seen e e'"
proof -
  obtain rc1 b1 e1 where f1: "flip_ioctls api False fd e = ((rc1, b1), e1)" by (metis prod.collapse)
  obtain w e2 where bw: "begin_auth_window api e1 = (w, e2)" by (cases "begin_auth_window api e1")
  obtain rc2 b2 e3 where f2: "flip_ioctls api True fd e2 = ((rc2, b2), e3)" by (metis prod.collapse)
  obtain ok e4 where ew: "end_auth_window api w e3 = (ok, e4)" by (cases "end_auth_window api w e3")
  have 1: "auth e1 = auth e" "seen e1 = seen e" using flip_ioctls_keep [OF wb f1] flip_ioctls_log [OF lg f1] by simp_all
  have 3: "auth e3 = auth e2" "seen e3 = seen e2" using flip_ioctls_keep [OF wb f2] flip_ioctls_log [OF lg f2] by simp_all
  have "restored_or_refused auth seen e1 e'"
  proof (cases "\<not> rc1 < 0 \<or> \<not> aw_ready w")
    case True
    then show ?thesis using run f1 bw window_begins(3) [OF wb bw] by (cases "rc1 < 0") (auto simp: query_ioctls_def restored_or_refused_def)
  next
    case False
    then have "e' = e4" using run by (auto simp: query_ioctls_def f1 bw f2 ew)
    then show ?thesis using window_refused(1) [OF wb lg bw _ 3 ew] False by simp
  qed
  then show ?thesis using refused_from 1 by fastforce
qed

lemma query_dce_refused:
  assumes wb: "well_behaved api auth fds" and lg: "logs_auth api seen" and run: "query_dce api s e = (r, s', e')"
    and h: "holds_fd base s (fds e)"
  shows "restored_or_refused auth seen e e'"
proof -
  obtain ok s1 e1 where o: "ensure_open api s e = (ok, s1, e1)" by (metis prod_cases3)
  obtain rc b res e2 where q: "query_ioctls api (dd_fd s1) e1 = ((rc, b, res), e2)" by (metis prod.collapse)
  note k = ensure_open_refused [OF wb lg o]
  show ?thesis
  proof (cases ok)
    case False
    then show ?thesis using run o k(1) by (simp add: query_dce_def)
  next
    case True
    have 2: "restored_or_refused auth seen e e2"
      using refused_from [OF query_ioctls_refused [OF wb lg q]] ensure_open_keeps(3) [OF wb o h True] k(2) by blast
    have "e' = e2 \<or> e' = da_close api (dd_fd s1) e2"
      using run True by (auto simp: query_dce_def o q Let_def split: if_splits)
    then show ?thesis using 2 device_closed(1) [OF wb] logs_authD(4) [OF lg] by (auto simp: restored_or_refused_def)
  qed
qed

lemma sample_shared_log:
  assumes "logs_auth api seen" shows "sample_shared_hen api s e = (r, s', e') \<Longrightarrow> seen e' = seen e"
  by (auto simp: sample_shared_hen_def logs_authD(4) [OF assms] dest!: logs_authD(3,5) [OF assms]
      split: prod.splits if_splits option.splits)

lemma dd_sample_refused:
  assumes wb: "well_behaved api auth fds" and lg: "logs_auth api seen" and run: "dd_sample api s e = (r, s', e')"
    and h: "holds_fd base s (fds e)"
  shows "restored_or_refused auth seen e e'"
proof -
  obtain sh s1 e1 where 1: "sample_shared_hen api s e = (sh, s1, e1)" by (metis prod_cases3)
  note k1 = shared_keeps [OF wb 1] and l1 = sample_shared_log [OF lg 1]
  have h1: "holds_fd base s1 (fds e1)" using h by (simp add: k1 holds_fd_def)
  obtain q s2 e2 where 2: "query_dce api s1 e1 = (q, s2, e2)" by (metis prod_cases3)
  obtain t e3 where 3: "da_clock api e2 = (t, e3)" by (cases "da_clock api e2")
  have e2: "restored_or_refused auth seen e e2" using refused_from [OF query_dce_refused [OF wb lg 2 h1]] k1(1) l1 by auto
  have "e' = e1 \<or> e' = e2 \<or> e' = e3" using run by (auto simp: dd_sample_def 1 2 3 split: option.splits prod.splits)
  then show ?thesis using e2 k1(1) clock_keeps [OF wb 3] logs_authD(7) [OF lg 3] by (auto simp: restored_or_refused_def)
qed

text \<open>
  (C22) When the DCE sampler reports a rate after any history, the rate is between 1 and 120, its
  source is labelled, and the credentials of the controller are exactly those from before the
  sample.  When it reports none they are those as well, or they are the raised ones and the last
  thing the sampler did with them was to ask for those from before, which the kernel refused.
\<close>

theorem dce_device_restores_credentials:
  assumes "well_behaved api auth fds" "logs_auth api seen" "run_state_of (dd_step api) (dd_init, e0) calls = (s, e)"
    and "dd_sample api s e = (r, s', e')"
  shows "case r of
      Some v \<Rightarrow> auth e' = auth e \<and> 1 \<le> v \<and> v \<le> 120 \<and>
        dd_backend s' \<in> {''hen-shared'', ''dce-fixed'', ''dce-adaptive''}
    | None \<Rightarrow> auth e' = auth e \<or>
        auth e' = kDcePtraceAuthId \<and> (\<exists>attempts. seen e' = seen e @ attempts @ [(auth e, False)])"
proof -
  note h = dd_reached [OF assms(1,3)]
  show ?thesis
    using dd_sample_correct(4) [OF assms(1,4) h] dd_sample_refused [OF assms(1,2,4) h(1)]
    by (cases r) (simp_all add: restored_or_refused_def)
qed

text \<open>
  A console for examples: a shared sample of 60 frames when the flag is set, a device that opens
  only with raised credentials and a block whose second word counts frames.
\<close>

record demo_console =
  dm_auth :: u64
  dm_fds :: "int set"
  dm_clock :: u64
  dm_shared :: bool
  dm_log :: "(u64 \<times> bool) list"

definition demo_sample :: bytes where
  "demo_sample = [0x53, 0x50, 0x46, 0x4f, 0, 0, 0, 0, 0, 0, 0, 0, 1, 0, 0, 0, 0, 0, 0x70, 0x42]"

definition demo_device :: "demo_console device_api" where
  "demo_device =
     \<lparr>da_open = \<lambda>p m c.
        if p = kSharedFpsSample \<and> dm_shared c \<and> 4 \<notin> dm_fds c then (4, c\<lparr>dm_fds := insert 4 (dm_fds c)\<rparr>)
        else if p = kDceDevice \<and> m \<and> dm_auth c = kDcePtraceAuthId \<and> 3 \<notin> dm_fds c
        then (3, c\<lparr>dm_fds := insert 3 (dm_fds c)\<rparr>) else (-1, c),
      da_close = \<lambda>fd c. c\<lparr>dm_fds := dm_fds c - {fd}\<rparr>,
      da_read = \<lambda>fd n c. ((20, demo_sample @ replicate 108 0), c),
      da_ioctl = \<lambda>fd cmd arg b c.
        ((0, replicate 8 0 @ to_le 8 (60 * (unat (dm_clock c) div 1000000)) @ replicate 80 0),
         c\<lparr>dm_clock := dm_clock c + 1000000\<rparr>),
      da_get_auth = \<lambda>c. (dm_auth c, c),
      da_set_auth = \<lambda>a c. (0, c\<lparr>dm_auth := a, dm_log := dm_log c @ [(a, True)]\<rparr>),
      da_clock = \<lambda>c. (dm_clock c, c)\<rparr>"

definition demo_start :: "bool \<Rightarrow> demo_console" where
  "demo_start shared = \<lparr>dm_auth = 5, dm_fds = {0, 1}, dm_clock = 0, dm_shared = shared, dm_log = []\<rparr>"

lemma demo_well_behaved: "well_behaved demo_device dm_auth dm_fds"
  by (auto simp: well_behaved_def opens_fresh_def sets_auth_def keeps_rest_def demo_device_def split: if_splits)

lemma demo_logs_auth: "logs_auth demo_device dm_log"
  by (auto simp: logs_auth_def demo_device_def)

theorem dce_device_leaks_no_descriptor_witness:
  "\<exists>s e. run_state_of (dd_step demo_device) (dd_init, demo_start False) [DdSample, DdReset, DdSample] = (s, e)
     \<and> dm_fds (dd_destroy demo_device s e) = {0, 1}"
proof -
  obtain s e where r: "run_state_of (dd_step demo_device) (dd_init, demo_start False) [DdSample, DdReset, DdSample] = (s, e)"
    by fastforce
  from dce_device_leaks_no_descriptor [OF demo_well_behaved r] r show ?thesis by (auto simp: demo_start_def)
qed

lemma demo_shared: "shared_fps 20 (demo_sample @ replicate 108 0) = Some 60"
proof -
  have bits: "f32_of_bits 0x42700000 = Fin False 60"
    by (simp add: f32_of_bits_def f32_exponent_def f32_fraction_def f32_sign_def power_int_minus)
  have "r64 (121 / 2) = 121 / 2" using r64_half [of 121] by simp
  moreover have "\<lfloor>(121 / 2 :: rat)\<rfloor> = 60" by (simp add: floor_eq_iff)
  ultimately have "\<lfloor>r64 (121 / 2)\<rfloor> = 60" by (simp only:)
  then have rate: "validated_fps (Fin False 60) = Some 60" by (simp add: validated_fps_fin)
  have "get_u32 0 (demo_sample @ replicate 108 0) = kSharedFpsMagic"
    "get_u32 16 (demo_sample @ replicate 108 0) = 0x42700000" "(demo_sample @ replicate 108 0) ! 12 = 1"
    by (simp_all add: get_u32_def sub_bytes_def demo_sample_def kSharedFpsMagic_def)
  then show ?thesis by (simp add: shared_fps_def bits rate)
qed

theorem dce_device_restores_credentials_witness:
  "\<exists>s' e'. dd_sample demo_device dd_init (demo_start True) = (Some 60, s', e') \<and> dm_auth e' = 5"
proof -
  obtain s' e' where "sample_shared_hen demo_device dd_init (demo_start True) = (Some 60, s', e')"
    by (simp add: sample_shared_hen_def demo_device_def demo_start_def demo_shared)
  then have d: "dd_sample demo_device dd_init (demo_start True) = (Some 60, s', e')" by (simp add: dd_sample_def)
  have "run_state_of (dd_step demo_device) (dd_init, demo_start True) [] = (dd_init, demo_start True)" by simp
  from dce_device_restores_credentials [OF demo_well_behaved demo_logs_auth this d] d show ?thesis by (auto simp: demo_start_def)
qed

end
