(* ===== verification/Controller.thy ===== *)
theory Controller
  imports Process_List Fps_Sampler Dce_Device Display_Filter Wire
begin

text \<open>
  The resident controller (\<^verbatim>\<open>run_tracked_worker\<close> of
  \<^verbatim>\<open>src/ps5/commonfps_ps5_main.cpp\<close>): one pass a second that watches the shell and the
  game, samples the rate, starts the renderer and sends it a frame.  The samplers, the filter,
  the process lookup and the sender are the ones of their theories.  The start of the renderer
  and the reading of the settings are parameters of a pass: what holds here holds whatever they
  do.  The loop never returns, so runs are lists of passes of any length.
\<close>

section \<open>Constants and state\<close>

definition kDceVideoOutStandbyUs :: u64 where "kDceVideoOutStandbyUs = 60000000"
definition kDceMissesBeforeVideoOutWake :: u32 where "kDceMissesBeforeVideoOutWake = 3"

text \<open>The two records of the log that follow the state.\<close>

datatype log_record =
    PolicyRecord int string string u64
  | FirstFpsRecord int u64 int string

record 'e controller_api =
  ca_processes :: "'e process_api"
  ca_platform :: "'e platform"
  ca_device :: "'e device_api"
  ca_socket :: "'e datagram_api"
  ca_renderer :: "'e \<Rightarrow> bool \<times> 'e"
  ca_settings :: "'e \<Rightarrow> overlay_config \<times> 'e"
  ca_log :: "log_record \<Rightarrow> 'e \<Rightarrow> 'e"

text \<open>The DCE sampler takes its time from the platform.\<close>

definition ca_dce :: "'e controller_api \<Rightarrow> 'e device_api" where
  "ca_dce api = (ca_device api)\<lparr>da_clock := monotonic_us (ca_platform api)\<rparr>"

record controller =
  mc_sampler :: fps_sampler
  mc_dce :: dce_device
  mc_socket :: int
  mc_filter :: display_filter
  mc_reported_pid :: int
  mc_dce_reported_pid :: int
  mc_shell_pid :: int
  mc_shell_seen :: nat
  mc_game_pid :: int
  mc_game_seen :: nat
  mc_standby :: bool
  mc_standby_pid :: int
  mc_miss_streak :: u32
  mc_next_probe_us :: u64
  mc_online :: bool
  mc_have_fps :: bool
  mc_latest_fps :: int
  mc_sequence :: u64

definition controller_init :: controller where
  "controller_init =
     \<lparr>mc_sampler = fs_init, mc_dce = dd_init, mc_socket = -1, mc_filter = df_init,
      mc_reported_pid = -1, mc_dce_reported_pid = -1, mc_shell_pid = -1, mc_shell_seen = 0,
      mc_game_pid = -1, mc_game_seen = 0, mc_standby = False, mc_standby_pid = -1,
      mc_miss_streak = 0, mc_next_probe_us = 0, mc_online = False, mc_have_fps = False,
      mc_latest_fps = 0, mc_sequence = 1\<rparr>"

section \<open>Observations\<close>

definition observe_shell :: "int \<Rightarrow> controller \<Rightarrow> controller" where
  "observe_shell pid s =
     (if 0 < pid then
        if pid = mc_shell_pid s
        then (if mc_shell_seen s < 10 then s\<lparr>mc_shell_seen := mc_shell_seen s + 1\<rparr> else s)
        else s\<lparr>mc_shell_pid := pid, mc_shell_seen := 1, mc_online := False, mc_filter := df_reset (mc_filter s)\<rparr>
      else s\<lparr>mc_shell_pid := -1, mc_shell_seen := 0, mc_online := False\<rparr>)"

text \<open>What a change of game clears.\<close>

definition forget_game :: "controller \<Rightarrow> controller" where
  "forget_game s = s\<lparr>mc_sampler := fs_reset (mc_sampler s), mc_reported_pid := -1, mc_dce := dd_reset (mc_dce s),
     mc_dce_reported_pid := -1, mc_standby := False, mc_standby_pid := -1, mc_miss_streak := 0,
     mc_next_probe_us := 0\<rparr>"

definition observe_game :: "int option \<Rightarrow> controller \<Rightarrow> controller" where
  "observe_game observed s =
     (case observed of
        Some pid \<Rightarrow>
          if pid = mc_game_pid s
          then (if mc_game_seen s < 3 then s\<lparr>mc_game_seen := mc_game_seen s + 1\<rparr> else s)
          else forget_game (s\<lparr>mc_game_pid := pid, mc_game_seen := 1\<rparr>)
      | None \<Rightarrow> forget_game (s\<lparr>mc_game_pid := -1, mc_game_seen := 0\<rparr>))"

definition game_process_ready :: "controller \<Rightarrow> bool" where
  "game_process_ready s \<longleftrightarrow> 0 < mc_game_pid s \<and> 3 \<le> mc_game_seen s"

section \<open>Sampling\<close>

definition videoout_probe_due :: "u64 \<Rightarrow> controller \<Rightarrow> bool" where
  "videoout_probe_due now s \<longleftrightarrow> \<not> mc_standby s \<or> mc_next_probe_us s \<le> now"

text \<open>The rate of an attached sampler, or an attempt to attach it, with its outcome.\<close>

definition sample_videoout ::
  "'e controller_api \<Rightarrow> int option \<Rightarrow> u64 \<Rightarrow> controller \<Rightarrow> 'e \<Rightarrow> (int option \<times> bool option) \<times> controller \<times> 'e" where
  "sample_videoout api observed now s e =
     (if fs_attached (mc_sampler s) then
        case fs_sample (ca_platform api) (mc_sampler s) e of
          (fps, v, e1) \<Rightarrow> ((fps, None), s\<lparr>mc_sampler := v\<rparr>, e1)
      else case observed of
             None \<Rightarrow> ((None, None), s, e)
           | Some pid \<Rightarrow>
               if videoout_probe_due now s then
                 case fs_attach (ca_platform api) pid (mc_sampler s) e of
                   (attached, v, e1) \<Rightarrow>
                     ((None, Some attached),
                      if \<not> attached \<and> mc_standby s
                      then s\<lparr>mc_sampler := v, mc_next_probe_us := now + kDceVideoOutStandbyUs\<rparr>
                      else s\<lparr>mc_sampler := v\<rparr>, e1)
               else ((None, None), s, e))"

definition sample_dce :: "'e controller_api \<Rightarrow> controller \<Rightarrow> 'e \<Rightarrow> int option \<times> controller \<times> 'e" where
  "sample_dce api s e =
     (if game_process_ready s then
        case dd_sample (ca_dce api) (mc_dce s) e of (fps, d, e1) \<Rightarrow> (fps, s\<lparr>mc_dce := d\<rparr>, e1)
      else (None, s, e))"

section \<open>The source of the rate\<close>

definition leave_standby :: "controller \<Rightarrow> controller" where
  "leave_standby s = s\<lparr>mc_standby := False, mc_standby_pid := -1, mc_miss_streak := 0, mc_next_probe_us := 0\<rparr>"

definition use_videoout :: "'e controller_api \<Rightarrow> int \<Rightarrow> controller \<Rightarrow> 'e \<Rightarrow> controller \<times> 'e" where
  "use_videoout api fps s e =
     (let pid = fs_pid (mc_sampler s);
          e1 = (if mc_standby s then ca_log api (PolicyRecord pid ''videoout-resumed'' ''videoout-process'' 0) e else e);
          s1 = leave_standby (s\<lparr>mc_have_fps := True, mc_latest_fps := fps\<rparr>)
      in if pid \<noteq> mc_reported_pid s1
         then (s1\<lparr>mc_reported_pid := pid\<rparr>,
               ca_log api (FirstFpsRecord pid (fs_counter_address (mc_sampler s1)) fps ''videoout-process'') e1)
         else (s1, e1))"

definition dce_source :: "dce_device \<Rightarrow> fps_display_source" where
  "dce_source d =
     (if dd_backend d = ''hen-shared'' then SharedHen
      else if dd_backend d = ''dce-fixed'' then DceFixed else DceAdaptive)"

definition use_dce :: "'e controller_api \<Rightarrow> int \<Rightarrow> int \<Rightarrow> u64 \<Rightarrow> controller \<Rightarrow> 'e \<Rightarrow> controller \<times> 'e" where
  "use_dce api pid fps now s e =
     (let s1 = s\<lparr>mc_have_fps := True, mc_latest_fps := fps, mc_miss_streak := 0\<rparr>;
          entering = (\<not> mc_standby s1 \<or> mc_standby_pid s1 \<noteq> pid);
          (s2, e2) =
            (if fs_attached (mc_sampler s1) then (s1, e)
             else if entering
             then (s1\<lparr>mc_standby := True, mc_standby_pid := pid, mc_next_probe_us := now + kDceVideoOutStandbyUs\<rparr>,
                   ca_log api (PolicyRecord pid ''dce-standby'' (dd_backend (mc_dce s1)) kDceVideoOutStandbyUs) e)
             else (s1\<lparr>mc_standby := True, mc_standby_pid := pid\<rparr>, e))
      in if pid \<noteq> mc_dce_reported_pid s2
         then (s2\<lparr>mc_dce_reported_pid := pid\<rparr>, ca_log api (FirstFpsRecord pid 0 fps (dd_backend (mc_dce s2))) e2)
         else (s2, e2))"

definition use_none :: "'e controller_api \<Rightarrow> int option \<Rightarrow> controller \<Rightarrow> 'e \<Rightarrow> controller \<times> 'e" where
  "use_none api observed s e =
     (let s1 = s\<lparr>mc_have_fps := False\<rparr>
      in case observed of
           Some pid \<Rightarrow>
             if mc_standby s1 then
               let s2 = s1\<lparr>mc_miss_streak := mc_miss_streak s1 + 1\<rparr>
               in if kDceMissesBeforeVideoOutWake \<le> mc_miss_streak s2
                  then (leave_standby s2, ca_log api (PolicyRecord pid ''dce-miss-wake'' (dd_backend (mc_dce s2)) 0) e)
                  else (s2, e)
             else (s1, e)
         | None \<Rightarrow> (s1, e))"

definition choose_source ::
  "'e controller_api \<Rightarrow> int option \<Rightarrow> int option \<Rightarrow> int option \<Rightarrow> u64 \<Rightarrow> controller \<Rightarrow> 'e \<Rightarrow>
     fps_display_source \<times> controller \<times> 'e" where
  "choose_source api process_fps dce_fps observed now s e =
     (case (process_fps, dce_fps, observed) of
        (Some fps, _, _) \<Rightarrow> (VideoOut, use_videoout api fps s e)
      | (None, Some fps, Some pid) \<Rightarrow> (dce_source (mc_dce s), use_dce api pid fps now s e)
      | _ \<Rightarrow> (SrcNone, use_none api observed s e))"

section \<open>Rendering\<close>

definition start_renderer :: "'e controller_api \<Rightarrow> controller \<Rightarrow> 'e \<Rightarrow> bool \<times> controller \<times> 'e" where
  "start_renderer api s e =
     (if \<not> mc_online s \<and> game_process_ready s \<and> 10 \<le> mc_shell_seen s
      then case ca_renderer api e of (ok, e1) \<Rightarrow> (True, s\<lparr>mc_online := ok\<rparr>, e1)
      else (False, s, e))"

definition overlay_frame_for :: "int option \<Rightarrow> overlay_config \<Rightarrow> overlay_frame" where
  "overlay_frame_for display_fps cfg =
     \<lparr>frame_visible = True, frame_loading = (display_fps = None),
      frame_fps = (case display_fps of None \<Rightarrow> 0 | Some v \<Rightarrow> v),
      frame_config = cfg, frame_anchor = compute_anchor cfg\<rparr>"

definition present_frame ::
  "'e controller_api \<Rightarrow> fps_display_source \<Rightarrow> controller \<Rightarrow> 'e \<Rightarrow> wire_packet option \<times> controller \<times> 'e" where
  "present_frame api src s e =
     (case monotonic_us (ca_platform api) e of
        (now, e1) \<Rightarrow>
      case df_sample (if mc_have_fps s then Some (mc_latest_fps s) else None) now (mc_game_pid s) src (mc_filter s) of
        (display_fps, f) \<Rightarrow>
          let s1 = s\<lparr>mc_filter := f\<rparr>
          in if mc_online s1 then
               case ca_settings api e1 of
                 (cfg, e2) \<Rightarrow>
                   let p = make_wire_packet (overlay_frame_for display_fps cfg) (mc_sequence s1)
                   in case sender_send (ca_socket api) p (mc_socket s1) e2 of
                        (_, sock, e3) \<Rightarrow> (Some p, s1\<lparr>mc_sequence := mc_sequence s1 + 1, mc_socket := sock\<rparr>, e3)
             else (None, s1, e1))"

section \<open>A pass of the loop\<close>

text \<open>What a pass saw and did, for statements about runs.\<close>

record pass =
  ps_shell :: int
  ps_game :: "int option"
  ps_now :: u64
  ps_probe :: "bool option"
  ps_process_fps :: "int option"
  ps_dce_fps :: "int option"
  ps_injected :: bool
  ps_packet :: "wire_packet option"

definition controller_pass :: "'e controller_api \<Rightarrow> controller \<Rightarrow> 'e \<Rightarrow> pass \<times> controller \<times> 'e" where
  "controller_pass api s0 e0 =
     (case observe_shellui_once (ca_processes api) e0 of
        (shell, e1) \<Rightarrow>
      case find_game_process (ca_platform api) e1 of
        (observed, e2) \<Rightarrow>
      case monotonic_us (ca_platform api) e2 of
        (now, e3) \<Rightarrow>
      case sample_videoout api observed now (observe_game observed (observe_shell (lk_pid shell) s0)) e3 of
        ((process_fps, probe), s1, e4) \<Rightarrow>
      case sample_dce api s1 e4 of
        (dce_fps, s2, e5) \<Rightarrow>
      case choose_source api process_fps dce_fps observed now s2 e5 of
        (src, s3, e6) \<Rightarrow>
      case start_renderer api s3 e6 of
        (injected, s4, e7) \<Rightarrow>
      case present_frame api src s4 e7 of
        (packet, s5, e8) \<Rightarrow>
          (\<lparr>ps_shell = lk_pid shell, ps_game = observed, ps_now = now, ps_probe = probe, ps_process_fps = process_fps,
            ps_dce_fps = dce_fps, ps_injected = injected, ps_packet = packet\<rparr>,
           s5, sleep_ms (ca_platform api) 1000 e8))"

fun controller_run :: "'e controller_api \<Rightarrow> nat \<Rightarrow> controller \<Rightarrow> 'e \<Rightarrow> pass list \<times> controller \<times> 'e" where
  "controller_run api 0 s e = ([], s, e)"
| "controller_run api (Suc n) s e =
     (case controller_run api n s e of
        (ps, s1, e1) \<Rightarrow> case controller_pass api s1 e1 of (p, s2, e2) \<Rightarrow> (ps @ [p], s2, e2))"

end
