(* ===== verification/Controller_Runs.thy ===== *)
theory Controller_Runs
  imports Controller
begin

text \<open>
  What runs of the controller do: the gates in front of the renderer, the frames it sends and
  the rest it gives the VideoOut sampler while the DCE sampler works.  Every phase of a pass has
  a frame lemma that names the fields it may change; a run is followed with an invariant.
\<close>

section \<open>The phases of a pass\<close>

lemma controller_passE:
  assumes "controller_pass api s e = (p, s', e')"
  obtains shell e1 observed e2 now e3 process_fps probe s1 e4 dce_fps s2 e5 src s3 e6 injected s4 e7 packet e8
  where "observe_shellui_once (ca_processes api) e = (shell, e1)"
    and "find_game_process (ca_platform api) e1 = (observed, e2)"
    and "monotonic_us (ca_platform api) e2 = (now, e3)"
    and "sample_videoout api observed now (observe_game observed (observe_shell (lk_pid shell) s)) e3 = ((process_fps, probe), s1, e4)"
    and "sample_dce api s1 e4 = (dce_fps, s2, e5)"
    and "choose_source api process_fps dce_fps observed now s2 e5 = (src, s3, e6)"
    and "start_renderer api s3 e6 = (injected, s4, e7)"
    and "present_frame api src s4 e7 = (packet, s', e8)"
    and "p = \<lparr>ps_shell = lk_pid shell, ps_game = observed, ps_now = now, ps_probe = probe,
            ps_process_fps = process_fps, ps_dce_fps = dce_fps, ps_injected = injected, ps_packet = packet\<rparr>"
    and "e' = sleep_ms (ca_platform api) 1000 e8"
  using assms unfolding controller_pass_def by (auto split: prod.splits)

lemma sample_videoout_frame:
  "sample_videoout api observed now s e = (r, s', e') \<Longrightarrow>
   s' = s\<lparr>mc_sampler := mc_sampler s', mc_next_probe_us := mc_next_probe_us s'\<rparr>"
  by (auto simp: sample_videoout_def split: prod.splits if_splits option.splits)

lemma sample_dce_frame: "sample_dce api s e = (r, s', e') \<Longrightarrow> s' = s\<lparr>mc_dce := mc_dce s'\<rparr>"
  by (auto simp: sample_dce_def split: prod.splits if_splits)

definition same_rest :: "controller \<Rightarrow> controller \<Rightarrow> bool" where
  "same_rest s s' \<longleftrightarrow> s' = s\<lparr>mc_have_fps := mc_have_fps s', mc_latest_fps := mc_latest_fps s', mc_standby := mc_standby s',
     mc_standby_pid := mc_standby_pid s', mc_miss_streak := mc_miss_streak s', mc_next_probe_us := mc_next_probe_us s',
     mc_reported_pid := mc_reported_pid s', mc_dce_reported_pid := mc_dce_reported_pid s'\<rparr>"

lemma use_videoout_frame: "use_videoout api fps s e = (s', e') \<Longrightarrow> same_rest s s'"
  by (auto simp: use_videoout_def leave_standby_def same_rest_def Let_def split: if_splits)

lemma use_dce_frame: "use_dce api pid fps now s e = (s', e') \<Longrightarrow> same_rest s s'"
  by (auto simp: use_dce_def same_rest_def Let_def split: if_splits)

lemma use_none_frame: "use_none api observed s e = (s', e') \<Longrightarrow> same_rest s s'"
  by (auto simp: use_none_def leave_standby_def same_rest_def Let_def split: if_splits option.splits)

lemma choose_source_frame:
  assumes "choose_source api process_fps dce_fps observed now s e = (src, s', e')"
  shows "same_rest s s'"
  using assms use_videoout_frame use_dce_frame use_none_frame
  by (auto simp: choose_source_def split: option.splits)

lemma start_renderer_frame: "start_renderer api s e = (r, s', e') \<Longrightarrow> s' = s\<lparr>mc_online := mc_online s'\<rparr>"
  by (auto simp: start_renderer_def split: prod.splits if_splits)

lemma present_frame_frame:
  "present_frame api src s e = (r, s', e') \<Longrightarrow>
   s' = s\<lparr>mc_filter := mc_filter s', mc_sequence := mc_sequence s', mc_socket := mc_socket s'\<rparr>"
  by (auto simp: present_frame_def Let_def split: prod.splits if_splits)

text \<open>The gates are settled once both observations are in.\<close>

definition gate_state :: "controller \<Rightarrow> (int \<times> nat) \<times> (int \<times> nat)" where
  "gate_state s = ((mc_shell_pid s, mc_shell_seen s), (mc_game_pid s, mc_game_seen s))"

lemma gate_frames:
  "sample_videoout api observed now s e = (r, s1, e1) \<Longrightarrow> gate_state s1 = gate_state s"
  "sample_dce api s e = (r2, s1, e1) \<Longrightarrow> gate_state s1 = gate_state s"
  "choose_source api pf df observed now s e = (src, s1, e1) \<Longrightarrow> gate_state s1 = gate_state s"
  "start_renderer api s e = (r3, s1, e1) \<Longrightarrow> gate_state s1 = gate_state s"
  "present_frame api src s e = (r4, s1, e1) \<Longrightarrow> gate_state s1 = gate_state s"
  by (drule sample_videoout_frame sample_dce_frame choose_source_frame [unfolded same_rest_def]
      start_renderer_frame present_frame_frame, erule ssubst, simp add: gate_state_def)+

lemma online_frames:
  "sample_videoout api observed now s e = (r, s1, e1) \<Longrightarrow> mc_online s1 = mc_online s"
  "sample_dce api s e = (r2, s1, e1) \<Longrightarrow> mc_online s1 = mc_online s"
  "choose_source api pf df observed now s e = (src, s1, e1) \<Longrightarrow> mc_online s1 = mc_online s"
  "present_frame api src s e = (r4, s1, e1) \<Longrightarrow> mc_online s1 = mc_online s"
  by (drule sample_videoout_frame sample_dce_frame choose_source_frame [unfolded same_rest_def]
      present_frame_frame, erule ssubst, simp)+

lemma observe_game_online: "mc_online (observe_game observed s) = mc_online s"
  by (simp add: observe_game_def forget_game_def split: option.splits)

lemma observe_game_shell:
  "mc_shell_pid (observe_game observed s) = mc_shell_pid s" "mc_shell_seen (observe_game observed s) = mc_shell_seen s"
  by (simp_all add: observe_game_def forget_game_def split: option.splits)

lemma pass_gates:
  assumes "controller_pass api s e = (p, s', e')"
  defines "t \<equiv> observe_game (ps_game p) (observe_shell (ps_shell p) s)"
  shows "gate_state s' = gate_state t"
    and "ps_injected p \<Longrightarrow> game_process_ready t \<and> 10 \<le> mc_shell_seen t"
    and "mc_online s' \<Longrightarrow> mc_online (observe_shell (ps_shell p) s) \<or> ps_injected p"
    and "ps_packet p \<noteq> None \<longleftrightarrow> mc_online s'"
    and "\<not> mc_online t \<Longrightarrow> game_process_ready t \<Longrightarrow> 10 \<le> mc_shell_seen t \<Longrightarrow>
      ps_injected p \<and> (\<exists>e1. mc_online s' = fst (ca_renderer api e1))"
proof -
  obtain shell e1 observed e2 now e3 process_fps probe s1 e4 dce_fps s2 e5 src s3 e6 injected s4 e7 packet e8
    where "observe_shellui_once (ca_processes api) e = (shell, e1)"
      and "find_game_process (ca_platform api) e1 = (observed, e2)"
      and "monotonic_us (ca_platform api) e2 = (now, e3)"
      and sv: "sample_videoout api observed now (observe_game observed (observe_shell (lk_pid shell) s)) e3 = ((process_fps, probe), s1, e4)"
      and sd: "sample_dce api s1 e4 = (dce_fps, s2, e5)"
      and cs: "choose_source api process_fps dce_fps observed now s2 e5 = (src, s3, e6)"
      and sr: "start_renderer api s3 e6 = (injected, s4, e7)"
      and pf: "present_frame api src s4 e7 = (packet, s', e8)"
      and p: "p = \<lparr>ps_shell = lk_pid shell, ps_game = observed, ps_now = now, ps_probe = probe,
            ps_process_fps = process_fps, ps_dce_fps = dce_fps, ps_injected = injected, ps_packet = packet\<rparr>"
      and "e' = sleep_ms (ca_platform api) 1000 e8"
    using assms(1) by (rule controller_passE)
  have t: "t = observe_game observed (observe_shell (lk_pid shell) s)" by (simp add: t_def p)
  have g3: "gate_state s3 = gate_state t" using gate_frames(1) [OF sv] gate_frames(2) [OF sd] gate_frames(3) [OF cs] by (simp add: t)
  show "gate_state s' = gate_state t" using g3 gate_frames(4) [OF sr] gate_frames(5) [OF pf] by simp
  show "game_process_ready t \<and> 10 \<le> mc_shell_seen t" if "ps_injected p"
    using that sr g3 by (auto simp: p start_renderer_def game_process_ready_def gate_state_def split: if_splits)
  have "mc_online s3 = mc_online (observe_shell (lk_pid shell) s)"
    using online_frames(1) [OF sv] online_frames(2) [OF sd] online_frames(3) [OF cs] observe_game_online by simp
  then show "mc_online (observe_shell (ps_shell p) s) \<or> ps_injected p" if "mc_online s'"
    using that sr online_frames(4) [OF pf] by (auto simp: p start_renderer_def split: if_splits prod.splits)
  show "ps_packet p \<noteq> None \<longleftrightarrow> mc_online s'"
    using pf by (auto simp: p present_frame_def Let_def split: if_splits prod.splits)
  show "ps_injected p \<and> (\<exists>e1. mc_online s' = fst (ca_renderer api e1))"
    if "\<not> mc_online t" "game_process_ready t" "10 \<le> mc_shell_seen t"
  proof -
    have "\<not> mc_online s3 \<and> game_process_ready s3 \<and> 10 \<le> mc_shell_seen s3"
      using that g3 \<open>mc_online s3 = _\<close> by (simp add: t observe_game_online gate_state_def game_process_ready_def)
    then have "start_renderer api s3 e6 = (case ca_renderer api e6 of (ok, e1) \<Rightarrow> (True, s3\<lparr>mc_online := ok\<rparr>, e1))"
      by (simp add: start_renderer_def)
    then show ?thesis using sr online_frames(4) [OF pf] by (auto simp: p split: prod.splits intro!: exI [of _ e6])
  qed
qed

section \<open>The gates in front of the renderer\<close>

definition trailing :: "nat \<Rightarrow> ('a \<Rightarrow> bool) \<Rightarrow> 'a list \<Rightarrow> bool" where
  "trailing n P xs \<longleftrightarrow> n \<le> length xs \<and> list_all P (drop (length xs - n) xs)"

lemma trailing_0 [simp]: "trailing 0 P xs"
  by (simp add: trailing_def)

lemma trailing_snoc: "trailing n P xs \<Longrightarrow> P x \<Longrightarrow> trailing (Suc n) P (xs @ [x])"
  by (auto simp: trailing_def)

lemma trailing_less:
  assumes "trailing n P xs" "m \<le> n"
  shows "trailing m P xs"
proof -
  have "drop (length xs - m) xs = drop (n - m) (drop (length xs - n) xs)"
    using assms by (simp add: trailing_def)
  moreover have "set (drop k ys) \<subseteq> set ys" for k and ys :: "'a list" by (rule set_drop_subset)
  ultimately show ?thesis using assms unfolding trailing_def list_all_iff by (metis le_trans subset_code(1))
qed

lemma trailing_nth:
  assumes "trailing n P xs" "i < length xs" "length xs \<le> i + n"
  shows "P (xs ! i)"
proof -
  have "drop (length xs - n) xs ! (i - (length xs - n)) = xs ! i" "i - (length xs - n) < n"
    using assms by (simp_all add: trailing_def)
  with assms show ?thesis by (fastforce simp: trailing_def list_all_length)
qed

definition gates_inv :: "pass list \<Rightarrow> controller \<Rightarrow> bool" where
  "gates_inv ps s \<longleftrightarrow>
     trailing (mc_shell_seen s) (\<lambda>p. ps_shell p = mc_shell_pid s \<and> 0 < ps_shell p) ps \<and>
     trailing (mc_game_seen s) (\<lambda>p. ps_game p = Some (mc_game_pid s)) ps \<and>
     (mc_online s \<longrightarrow> (\<exists>n. 0 < n \<and> n \<le> length ps \<and> ps_injected (ps ! (length ps - n)) \<and>
        trailing n (\<lambda>p. ps_shell p = mc_shell_pid s \<and> 0 < ps_shell p) ps))"

lemma shell_gate_step:
  fixes p :: pass and s :: controller
  assumes "trailing (mc_shell_seen s) (\<lambda>p. ps_shell p = mc_shell_pid s \<and> 0 < ps_shell p) ps"
  defines "t \<equiv> observe_shell (ps_shell p) s"
  shows "trailing (mc_shell_seen t) (\<lambda>p. ps_shell p = mc_shell_pid t \<and> 0 < ps_shell p) (ps @ [p])"
proof (cases "0 < ps_shell p \<and> ps_shell p = mc_shell_pid s")
  case True
  then have "mc_shell_pid t = mc_shell_pid s" "mc_shell_seen t \<le> Suc (mc_shell_seen s)"
    by (simp_all add: t_def observe_shell_def)
  with trailing_less [OF trailing_snoc [OF assms(1), of p]] True show ?thesis by simp
next
  case False
  then show ?thesis
    using trailing_snoc [OF trailing_0, of "\<lambda>q. ps_shell q = ps_shell p \<and> 0 < ps_shell q" p ps]
    by (auto simp: t_def observe_shell_def)
qed

lemma game_gate_step:
  fixes p :: pass and s :: controller
  assumes "trailing (mc_game_seen s) (\<lambda>p. ps_game p = Some (mc_game_pid s)) ps"
  defines "t \<equiv> observe_game (ps_game p) (observe_shell (ps_shell p) s)"
  shows "trailing (mc_game_seen t) (\<lambda>p. ps_game p = Some (mc_game_pid t)) (ps @ [p])"
proof -
  have u: "mc_game_pid (observe_shell i s) = mc_game_pid s" "mc_game_seen (observe_shell i s) = mc_game_seen s" for i
    by (simp_all add: observe_shell_def)
  show ?thesis
  proof (cases "ps_game p = Some (mc_game_pid s)")
    case True
    then have "mc_game_pid t = mc_game_pid s" "mc_game_seen t \<le> Suc (mc_game_seen s)"
      by (simp_all add: t_def observe_game_def u)
    with trailing_less [OF trailing_snoc [OF assms(1), of p]] True show ?thesis by simp
  next
    case False
    then show ?thesis
      using trailing_snoc [OF trailing_0, of "\<lambda>q. ps_game q = ps_game p" p ps]
      by (cases "ps_game p") (auto simp: t_def observe_game_def forget_game_def u)
  qed
qed

lemma gates_pass:
  assumes "gates_inv ps s" "controller_pass api s e = (p, s', e')"
  shows "gates_inv (ps @ [p]) s'"
proof -
  let ?u = "observe_shell (ps_shell p) s" and ?t = "observe_game (ps_game p) (observe_shell (ps_shell p) s)"
  note g = pass_gates [OF assms(2)]
  have st: "mc_shell_pid s' = mc_shell_pid ?u" "mc_shell_seen s' = mc_shell_seen ?u"
    "mc_game_pid s' = mc_game_pid ?t" "mc_game_seen s' = mc_game_seen ?t"
    using g(1) by (simp_all add: gate_state_def observe_game_shell)
  let ?P = "\<lambda>p. ps_shell p = mc_shell_pid s' \<and> 0 < ps_shell p"
  have shell: "trailing (mc_shell_seen s') ?P (ps @ [p])"
    using shell_gate_step [of s ps p] assms(1) by (simp add: gates_inv_def st)
  have game: "trailing (mc_game_seen s') (\<lambda>p. ps_game p = Some (mc_game_pid s')) (ps @ [p])"
    using game_gate_step [of s ps p] assms(1) by (simp add: gates_inv_def st)
  have "\<exists>n. 0 < n \<and> n \<le> length (ps @ [p]) \<and> ps_injected ((ps @ [p]) ! (length (ps @ [p]) - n)) \<and> trailing n ?P (ps @ [p])"
    if on: "mc_online s'"
  proof (cases "ps_injected p")
    case True
    then have "1 \<le> mc_shell_seen s'" using g(2) st(2) by (simp add: observe_game_shell)
    with trailing_less [OF shell] True show ?thesis by (intro exI [of _ 1]) simp
  next
    case False
    then have "mc_online ?u" using g(3) on by blast
    then have keep: "mc_online s" "mc_shell_pid s' = mc_shell_pid s" "ps_shell p = mc_shell_pid s" "0 < ps_shell p"
      by (auto simp: st observe_shell_def split: if_splits)
    then obtain n where n: "0 < n" "n \<le> length ps" "ps_injected (ps ! (length ps - n))" "trailing n ?P ps"
      using assms(1) by (auto simp: gates_inv_def)
    have "trailing (Suc n) ?P (ps @ [p])" using trailing_snoc [OF n(4), of p] keep by simp
    with n show ?thesis by (intro exI [of _ "Suc n"]) (auto simp: nth_append)
  qed
  with shell game show ?thesis by (auto simp: gates_inv_def)
qed

lemma gates_run: "controller_run api n controller_init e = (ps, s, e') \<Longrightarrow> length ps = n \<and> gates_inv ps s"
proof (induction n arbitrary: ps s e')
  case (Suc n)
  obtain qs t e1 where 1: "controller_run api n controller_init e = (qs, t, e1)" by (metis prod_cases3)
  obtain p s2 e2 where 2: "controller_pass api t e1 = (p, s2, e2)" by (metis prod_cases3)
  show ?case using Suc.prems Suc.IH [OF 1] gates_pass [OF _ 2] by (auto simp: 1 2)
qed (auto simp add: controller_init_def gates_inv_def)

lemma controller_run_length: "controller_run api n s e = (ps, s', e') \<Longrightarrow> length ps = n"
  by (induction n arbitrary: ps s' e') (auto split: prod.splits)

text \<open>The pass at a position of a run, from the state the run had there.\<close>

lemma controller_run_at:
  assumes "controller_run api n s0 e0 = (ps, s, e)" "i < n"
  shows "\<exists>t e1 s2 e2. controller_run api i s0 e0 = (take i ps, t, e1) \<and>
    controller_pass api t e1 = (ps ! i, s2, e2) \<and> controller_run api (Suc i) s0 e0 = (take (Suc i) ps, s2, e2)"
  using assms
proof (induction n arbitrary: ps s e)
  case (Suc n)
  obtain qs t e1 where 1: "controller_run api n s0 e0 = (qs, t, e1)" by (metis prod_cases3)
  obtain p s2 e2 where 2: "controller_pass api t e1 = (p, s2, e2)" by (metis prod_cases3)
  have ps: "ps = qs @ [p]" "s = s2" "e = e2" using Suc.prems(1) by (simp_all add: 1 2)
  have len: "length qs = n" by (rule controller_run_length [OF 1])
  show ?case
  proof (cases "i = n")
    case True
    then show ?thesis using 1 2 len by (simp add: ps nth_append)
  next
    case False
    then have "i < n" using Suc.prems(2) by simp
    with Suc.IH [OF 1 this] len show ?thesis by (auto simp: ps nth_append)
  qed
qed simp

text \<open>
  (C8) The renderer is started only after the tenth pass in a row that saw the same shell and
  the third in a row that saw the same game, and a frame is sent only to a renderer that was
  started in an earlier or the same pass with the same shell seen in every pass since.
\<close>

theorem renderer_gated:
  assumes "controller_run api n controller_init e0 = (ps, s, e)" "i < n"
  shows "(ps_injected (ps ! i) \<longrightarrow> 9 \<le> i \<and>
      (\<exists>shell game. 0 < shell \<and> 0 < game \<and> (\<forall>k\<in>{i - 9..i}. ps_shell (ps ! k) = shell) \<and>
         (\<forall>k\<in>{i - 2..i}. ps_game (ps ! k) = Some game)))
    \<and> (ps_packet (ps ! i) \<noteq> None \<longrightarrow>
      (\<exists>j\<le>i. ps_injected (ps ! j) \<and> (\<forall>k\<in>{j..i}. 0 < ps_shell (ps ! k) \<and> ps_shell (ps ! k) = ps_shell (ps ! i))))"
proof -
  obtain t e1 s2 e2 where at: "controller_pass api t e1 = (ps ! i, s2, e2)"
      "controller_run api (Suc i) controller_init e0 = (take (Suc i) ps, s2, e2)"
    using controller_run_at [OF assms] by blast
  have inv: "gates_inv (take (Suc i) ps) s2" and len: "length (take (Suc i) ps) = Suc i"
    using gates_run [OF at(2)] by simp_all
  have inside: "i < length ps" using assms(2) controller_run_length [OF assms(1)] by simp
  have nth: "take (Suc i) ps ! k = ps ! k" if "k \<le> i" for k using that by simp
  let ?P = "\<lambda>p. ps_shell p = mc_shell_pid s2 \<and> 0 < ps_shell p"
  have seen: "?P (ps ! k)" if "trailing m ?P (take (Suc i) ps)" "k \<le> i" "i < k + m" for k m
    using trailing_nth [OF that(1), of k] that(2,3) len nth [of k] inside by (auto simp: min_def)
  note g = pass_gates [OF at(1)]
  have "9 \<le> i \<and> (\<exists>shell game. 0 < shell \<and> 0 < game \<and> (\<forall>k\<in>{i - 9..i}. ps_shell (ps ! k) = shell) \<and>
         (\<forall>k\<in>{i - 2..i}. ps_game (ps ! k) = Some game))" if "ps_injected (ps ! i)"
  proof -
    have gate: "10 \<le> mc_shell_seen s2" "3 \<le> mc_game_seen s2" "0 < mc_game_pid s2"
      using g(1,2) that by (simp_all add: gate_state_def game_process_ready_def)
    have shell: "trailing 10 ?P (take (Suc i) ps)"
      by (rule trailing_less [OF conjunct1 [OF inv [unfolded gates_inv_def]] gate(1)])
    have game: "trailing 3 (\<lambda>p. ps_game p = Some (mc_game_pid s2)) (take (Suc i) ps)"
      by (rule trailing_less [OF conjunct1 [OF conjunct2 [OF inv [unfolded gates_inv_def]]] gate(2)])
    have nine: "9 \<le> i" using shell len by (simp add: trailing_def)
    have games: "\<forall>k\<in>{i - 2..i}. ps_game (ps ! k) = Some (mc_game_pid s2)"
    proof
      fix k
      assume "k \<in> {i - 2..i}"
      then show "ps_game (ps ! k) = Some (mc_game_pid s2)"
        using trailing_nth [OF game, of k] len nth [of k] inside by auto
    qed
    have shells: "ps_shell (ps ! k) = mc_shell_pid s2 \<and> 0 < mc_shell_pid s2" if "k \<in> {i - 9..i}" for k
    proof -
      have "k \<le> i" "i < k + 10" using that by auto
      from seen [OF shell this] show ?thesis by auto
    qed
    have "0 < mc_shell_pid s2" "\<forall>k\<in>{i - 9..i}. ps_shell (ps ! k) = mc_shell_pid s2"
      using shells [of i] shells by auto
    then show ?thesis using nine games gate(3) by blast
  qed
  moreover have "\<exists>j\<le>i. ps_injected (ps ! j) \<and>
      (\<forall>k\<in>{j..i}. 0 < ps_shell (ps ! k) \<and> ps_shell (ps ! k) = ps_shell (ps ! i))" if sent: "ps_packet (ps ! i) \<noteq> None"
  proof -
    obtain m where m: "0 < m" "m \<le> Suc i" "ps_injected (take (Suc i) ps ! (Suc i - m))" "trailing m ?P (take (Suc i) ps)"
      using inv g(4) sent len by (auto simp: gates_inv_def)
    let ?j = "Suc i - m"
    have P: "?P (ps ! k)" if "k \<in> {?j..i}" for k
    proof -
      have "k \<le> i" "i < k + m" using that m(1) by auto
      from seen [OF m(4) this] show ?thesis .
    qed
    have "ps_injected (ps ! ?j)" using m(1,3) nth [of ?j] len by simp
    moreover have "?P (ps ! i)" by (rule P) (use m(1) in auto)
    ultimately show ?thesis using P m(1) by (intro exI [of _ ?j]) auto
  qed
  ultimately show ?thesis by blast
qed

section \<open>The frames\<close>

definition packets_sent :: "pass list \<Rightarrow> nat" where
  "packets_sent ps = length (filter (\<lambda>p. ps_packet p \<noteq> None) ps)"

definition settings_sendable :: "'e controller_api \<Rightarrow> bool" where
  "settings_sendable api \<longleftrightarrow>
     (\<forall>e. config_ok (fst (ca_settings api e)) \<and> plain_margin (margin_x (fst (ca_settings api e))) \<and>
          plain_margin (margin_y (fst (ca_settings api e))))"

definition frames_inv :: "pass list \<Rightarrow> controller \<Rightarrow> bool" where
  "frames_inv ps s \<longleftrightarrow> df_inv (mc_filter s) \<and> mc_sequence s = of_nat (Suc (packets_sent ps))"

text \<open>A frame that shows a rate needs one of this pass and a game.\<close>

definition honest_packet :: "pass \<Rightarrow> bool" where
  "honest_packet p \<longleftrightarrow>
     (case ps_packet p of
        None \<Rightarrow> True
      | Some w \<Rightarrow>
          (case decode_wire_packet (wire_of_bytes (wire_bytes w)) of
             None \<Rightarrow> False
           | Some f \<Rightarrow> frame_loading f \<or>
               ps_game p \<noteq> None \<and> (ps_process_fps p \<noteq> None \<or> ps_dce_fps p \<noteq> None)))"

lemma choose_source_have_fps:
  "choose_source api pf df observed now s e = (src, s', e') \<Longrightarrow> mc_have_fps s' \<Longrightarrow> pf \<noteq> None \<or> df \<noteq> None"
  by (auto simp: choose_source_def use_none_def leave_standby_def Let_def split: option.splits if_splits)

lemma df_sample_some:
  "df_sample measured now pid src f = (Some v, f') \<Longrightarrow> measured \<noteq> None \<and> 0 < pid"
  by (auto simp: df_sample_def split: option.splits if_splits)

lemma present_frame_correct:
  assumes pf: "present_frame api src s e = (packet, s', e')" and inv: "df_inv (mc_filter s)"
    and cfg: "settings_sendable api"
  shows "df_inv (mc_filter s')"
    and "mc_sequence s' = (if packet = None then mc_sequence s else mc_sequence s + 1)"
    and "packet = Some w \<Longrightarrow> wp_sequence w = mc_sequence s \<and>
      (\<exists>f. decode_wire_packet (wire_of_bytes (wire_bytes w)) = Some f \<and>
         (\<not> frame_loading f \<longrightarrow> mc_have_fps s \<and> 0 < mc_game_pid s))"
proof -
  obtain now e1 where now: "monotonic_us (ca_platform api) e = (now, e1)" by (cases "monotonic_us (ca_platform api) e")
  let ?m = "if mc_have_fps s then Some (mc_latest_fps s) else None"
  obtain d f where d: "df_sample ?m now (mc_game_pid s) src (mc_filter s) = (d, f)"
    by (cases "df_sample ?m now (mc_game_pid s) src (mc_filter s)")
  obtain c e2 where c: "ca_settings api e1 = (c, e2)" by (cases "ca_settings api e1")
  let ?f = "overlay_frame_for d c"
  have f: "df_inv f" using df_inv_sample [OF inv, of ?m now "mc_game_pid s" src] d by simp
  have "0 \<le> v \<and> v \<le> 120" if "d = Some v" for v
    using filter_rates.step_range [OF inv, of "(?m, now, mc_game_pid s, src)" v] d that by simp
  then have "0 \<le> frame_fps ?f \<and> frame_fps ?f \<le> 120" by (auto simp: overlay_frame_for_def split: option.splits)
  moreover have "fst (ca_settings api e1) = c" by (simp add: c)
  ultimately have ok: "sendable_frame ?f"
    using cfg unfolding settings_sendable_def sendable_frame_def by (auto simp: overlay_frame_for_def)
  note run = pf [unfolded present_frame_def now prod.case d Let_def]
  show "df_inv (mc_filter s')" "mc_sequence s' = (if packet = None then mc_sequence s else mc_sequence s + 1)"
    using run f by (auto split: if_splits prod.splits)
  assume "packet = Some w"
  then have w: "w = make_wire_packet ?f (mc_sequence s)"
    using run by (auto simp: c split: if_splits prod.splits)
  have valid: "wire_valid w"
    using ok by (simp add: w make_wire_packet_valid sendable_frame_def)
  have "wp_sequence w = mc_sequence s" by (simp add: w make_wire_packet_def Let_def)
  moreover have "decode_wire_packet (wire_of_bytes (wire_bytes w)) = Some ?f"
    by (simp only: wire.dec_enc [OF valid]) (simp only: w decode_make_wire_packet [OF ok])
  moreover have "mc_have_fps s \<and> 0 < mc_game_pid s" if "\<not> frame_loading ?f"
    using that d by (auto simp: overlay_frame_for_def split: if_splits dest!: df_sample_some)
  ultimately show "wp_sequence w = mc_sequence s \<and>
      (\<exists>f. decode_wire_packet (wire_of_bytes (wire_bytes w)) = Some f \<and>
         (\<not> frame_loading f \<longrightarrow> mc_have_fps s \<and> 0 < mc_game_pid s))" by blast
qed

lemma filter_frames:
  "sample_videoout api observed now s e = (r, s1, e1) \<Longrightarrow> mc_filter s1 = mc_filter s \<and> mc_sequence s1 = mc_sequence s"
  "sample_dce api s e = (r2, s1, e1) \<Longrightarrow> mc_filter s1 = mc_filter s \<and> mc_sequence s1 = mc_sequence s"
  "choose_source api pf df observed now s e = (src, s1, e1) \<Longrightarrow> mc_filter s1 = mc_filter s \<and> mc_sequence s1 = mc_sequence s"
  "start_renderer api s e = (r3, s1, e1) \<Longrightarrow>
     mc_filter s1 = mc_filter s \<and> mc_sequence s1 = mc_sequence s \<and> mc_have_fps s1 = mc_have_fps s"
  by (drule sample_videoout_frame sample_dce_frame choose_source_frame [unfolded same_rest_def]
      start_renderer_frame, erule ssubst, simp)+

lemma observe_filter:
  "mc_sequence (observe_game observed (observe_shell pid s)) = mc_sequence s"
  "df_inv (mc_filter s) \<Longrightarrow> df_inv (mc_filter (observe_game observed (observe_shell pid s)))"
  by (auto simp: observe_game_def observe_shell_def forget_game_def df_reset_def df_inv_init split: option.splits)

lemma observe_game_pid: "0 < mc_game_pid (observe_game observed s) \<Longrightarrow> observed \<noteq> None"
  by (auto simp: observe_game_def forget_game_def split: option.splits)

lemma frames_pass:
  assumes inv: "frames_inv ps s" and run: "controller_pass api s e = (p, s', e')" and cfg: "settings_sendable api"
  shows "frames_inv (ps @ [p]) s'" "honest_packet p" "ps_packet p = Some w \<Longrightarrow> wp_sequence w = mc_sequence s"
proof -
  obtain shell e1 observed e2 now e3 process_fps probe s1 e4 dce_fps s2 e5 src s3 e6 injected s4 e7 packet e8
    where "observe_shellui_once (ca_processes api) e = (shell, e1)"
      and "find_game_process (ca_platform api) e1 = (observed, e2)"
      and "monotonic_us (ca_platform api) e2 = (now, e3)"
      and sv: "sample_videoout api observed now (observe_game observed (observe_shell (lk_pid shell) s)) e3 = ((process_fps, probe), s1, e4)"
      and sd: "sample_dce api s1 e4 = (dce_fps, s2, e5)"
      and cs: "choose_source api process_fps dce_fps observed now s2 e5 = (src, s3, e6)"
      and sr: "start_renderer api s3 e6 = (injected, s4, e7)"
      and pf: "present_frame api src s4 e7 = (packet, s', e8)"
      and p: "p = \<lparr>ps_shell = lk_pid shell, ps_game = observed, ps_now = now, ps_probe = probe,
            ps_process_fps = process_fps, ps_dce_fps = dce_fps, ps_injected = injected, ps_packet = packet\<rparr>"
      and "e' = sleep_ms (ca_platform api) 1000 e8"
    using run by (rule controller_passE)
  let ?t = "observe_game observed (observe_shell (lk_pid shell) s)"
  have s4: "mc_filter s4 = mc_filter ?t" "mc_sequence s4 = mc_sequence s" "mc_have_fps s4 = mc_have_fps s3"
    using filter_frames(1) [OF sv] filter_frames(2) [OF sd] filter_frames(3) [OF cs] filter_frames(4) [OF sr]
    by (simp_all add: observe_filter)
  have "gate_state s4 = gate_state ?t"
    using gate_frames(1) [OF sv] gate_frames(2) [OF sd] gate_frames(3) [OF cs] gate_frames(4) [OF sr] by simp
  then have game: "mc_game_pid s4 = mc_game_pid ?t" by (simp add: gate_state_def)
  have "df_inv (mc_filter s4)" using inv observe_filter(2) by (simp add: s4 frames_inv_def)
  note c = present_frame_correct [OF pf this cfg]
  have num: "mc_sequence s = of_nat (Suc (packets_sent ps))" using inv by (simp add: frames_inv_def)
  show "frames_inv (ps @ [p]) s'"
    using c(1,2) num by (auto simp: frames_inv_def packets_sent_def p s4)
  show "wp_sequence w = mc_sequence s" if "ps_packet p = Some w"
    using c(3) [of w] that by (simp add: p s4)
  have "ps_game p \<noteq> None" if "0 < mc_game_pid s4"
    using that observe_game_pid by (simp add: game p)
  moreover have "ps_process_fps p \<noteq> None \<or> ps_dce_fps p \<noteq> None" if "mc_have_fps s4"
    using that choose_source_have_fps [OF cs] by (simp add: s4 p)
  ultimately show "honest_packet p"
    using c(3) by (auto simp: honest_packet_def p split: option.splits)
qed

lemma frames_run:
  assumes "settings_sendable api"
  shows "controller_run api n controller_init e = (ps, s, e') \<Longrightarrow> frames_inv ps s"
proof (induction n arbitrary: ps s e')
  case 0
  then show ?case by (auto simp: frames_inv_def packets_sent_def controller_init_def df_inv_init)
next
  case (Suc n)
  obtain qs t e1 where 1: "controller_run api n controller_init e = (qs, t, e1)" by (metis prod_cases3)
  obtain p s2 e2 where 2: "controller_pass api t e1 = (p, s2, e2)" by (metis prod_cases3)
  show ?case using Suc.prems frames_pass(1) [OF Suc.IH [OF 1] 2 assms] by (auto simp: 1 2)
qed

text \<open>
  (C7) The packets of a run are numbered one after the other from 1, every one of them decodes
  in the renderer, and a frame that shows a rate is sent only in a pass that saw a game and got
  a rate from a sampler: a rate of an earlier pass or of a game that is gone is never shown.
\<close>

theorem controller_frames_honest:
  assumes "controller_run api n controller_init e0 = (ps, s, e)" "settings_sendable api"
    and "i < n" "ps_packet (ps ! i) = Some w"
  shows "wp_sequence w = of_nat (Suc (packets_sent (take i ps))) \<and>
    (\<exists>f. decode_wire_packet (wire_of_bytes (wire_bytes w)) = Some f \<and>
       (\<not> frame_loading f \<longrightarrow> ps_game (ps ! i) \<noteq> None \<and>
          (ps_process_fps (ps ! i) \<noteq> None \<or> ps_dce_fps (ps ! i) \<noteq> None)))"
proof -
  obtain t e1 s2 e2 where at: "controller_run api i controller_init e0 = (take i ps, t, e1)"
      "controller_pass api t e1 = (ps ! i, s2, e2)"
    using controller_run_at [OF assms(1,3)] by blast
  note inv = frames_run [OF assms(2) at(1)]
  have "wp_sequence w = of_nat (Suc (packets_sent (take i ps)))"
    using frames_pass(3) [OF inv at(2) assms(2,4)] inv by (simp add: frames_inv_def)
  then show ?thesis
    using frames_pass(2) [OF inv at(2) assms(2)] assms(4) by (auto simp: honest_packet_def split: option.splits)
qed

section \<open>The rest given to the VideoOut sampler\<close>

lemma fs_attach_failed:
  assumes "fs_attach pf pid v e = (False, v', e')" "\<not> fs_attached v"
  shows "\<not> fs_attached v'"
proof -
  have reset: "\<not> fs_attached (fs_reset w)" for w by (simp add: fs_attached_def fs_reset_def)
  have "\<not> fs_attached w'" if "attach_now pf pid (fs_reset w) e = (False, w', e')" for w w' e e'
    using that reset by (auto simp: attach_now_def Let_def split: option.splits prod.splits if_splits)
  then show ?thesis using assms by (auto simp: fs_attach_def split: prod.splits if_splits)
qed

text \<open>The game's rate comes from the DCE sampler and the next look is due at \<open>T\<close>.\<close>

definition resting :: "int \<Rightarrow> u64 \<Rightarrow> controller \<Rightarrow> bool" where
  "resting pid T s \<longleftrightarrow> mc_standby s \<and> mc_standby_pid s = pid \<and> mc_game_pid s = pid \<and>
     mc_next_probe_us s = T \<and> \<not> fs_attached (mc_sampler s)"

lemma resting_frames:
  "start_renderer api s e = (r3, s1, e1) \<Longrightarrow> resting pid T s1 = resting pid T s"
  "present_frame api src s e = (r4, s1, e1) \<Longrightarrow> resting pid T s1 = resting pid T s"
  "sample_dce api s e = (r2, s1, e1) \<Longrightarrow> resting pid T s1 = resting pid T s \<and> mc_standby s1 = mc_standby s \<and>
     mc_standby_pid s1 = mc_standby_pid s \<and> mc_game_pid s1 = mc_game_pid s \<and>
     mc_next_probe_us s1 = mc_next_probe_us s \<and> mc_sampler s1 = mc_sampler s"
  by (drule start_renderer_frame present_frame_frame sample_dce_frame, erule ssubst, simp add: resting_def)+

lemma resting_observe: "resting pid T s \<Longrightarrow> resting pid T (observe_game (Some pid) (observe_shell i s))"
  by (simp add: resting_def observe_game_def observe_shell_def)

text \<open>A rate of the DCE sampler keeps the rest, or starts it.\<close>

lemma choose_dce_rests:
  assumes "choose_source api None (Some fps) (Some pid) now s e = (src, s', e')"
    and "\<not> fs_attached (mc_sampler s)" "mc_game_pid s = pid"
    and "mc_standby s \<and> mc_standby_pid s = pid \<longrightarrow> mc_next_probe_us s = T"
    and "\<not> (mc_standby s \<and> mc_standby_pid s = pid) \<longrightarrow> now + kDceVideoOutStandbyUs = T"
  shows "resting pid T s'"
  using assms by (auto simp: choose_source_def use_dce_def Let_def resting_def split: if_splits)

lemma failed_probe_rests:
  assumes run: "controller_pass api s e = (p, s', e')" and "ps_probe p = Some False"
    and "ps_game p = Some pid" "ps_dce_fps p \<noteq> None"
  shows "resting pid (ps_now p + kDceVideoOutStandbyUs) s'"
proof -
  obtain shell e1 observed e2 now e3 process_fps probe s1 e4 dce_fps s2 e5 src s3 e6 injected s4 e7 packet e8
    where "observe_shellui_once (ca_processes api) e = (shell, e1)"
      and "find_game_process (ca_platform api) e1 = (observed, e2)"
      and "monotonic_us (ca_platform api) e2 = (now, e3)"
      and sv: "sample_videoout api observed now (observe_game observed (observe_shell (lk_pid shell) s)) e3 = ((process_fps, probe), s1, e4)"
      and sd: "sample_dce api s1 e4 = (dce_fps, s2, e5)"
      and cs: "choose_source api process_fps dce_fps observed now s2 e5 = (src, s3, e6)"
      and sr: "start_renderer api s3 e6 = (injected, s4, e7)"
      and pf: "present_frame api src s4 e7 = (packet, s', e8)"
      and p: "p = \<lparr>ps_shell = lk_pid shell, ps_game = observed, ps_now = now, ps_probe = probe,
            ps_process_fps = process_fps, ps_dce_fps = dce_fps, ps_injected = injected, ps_packet = packet\<rparr>"
      and "e' = sleep_ms (ca_platform api) 1000 e8"
    using run by (rule controller_passE)
  let ?t = "observe_game observed (observe_shell (lk_pid shell) s)"
  obtain fps where h: "probe = Some False" "observed = Some pid" "dce_fps = Some fps" using assms(2-4) by (auto simp: p)
  have t: "mc_game_pid ?t = pid" by (simp add: h observe_game_def forget_game_def)
  have na: "\<not> fs_attached (mc_sampler ?t)" and fps: "process_fps = None"
    using sv h by (auto simp: sample_videoout_def split: if_splits prod.splits)
  obtain v e5' where att: "fs_attach (ca_platform api) pid (mc_sampler ?t) e3 = (False, v, e5')"
    and s1: "s1 = (if mc_standby ?t then ?t\<lparr>mc_sampler := v, mc_next_probe_us := now + kDceVideoOutStandbyUs\<rparr>
                   else ?t\<lparr>mc_sampler := v\<rparr>)"
    using sv h na by (auto simp: sample_videoout_def split: if_splits prod.splits)
  have "\<not> fs_attached v" by (rule fs_attach_failed [OF att na])
  then have "resting pid (now + kDceVideoOutStandbyUs) s3"
    using resting_frames(3) [OF sd] t
    by (intro choose_dce_rests [OF cs [unfolded fps h]]) (auto simp: s1)
  then show ?thesis using resting_frames(1) [OF sr] resting_frames(2) [OF pf] by (simp add: p)
qed

lemma resting_pass:
  assumes run: "controller_pass api s e = (p, s', e')" and rest: "resting pid T s" and "ps_game p = Some pid"
  shows "ps_probe p \<noteq> None \<Longrightarrow> T \<le> ps_now p"
    and "ps_probe p = None \<Longrightarrow> ps_dce_fps p \<noteq> None \<Longrightarrow> resting pid T s'"
proof -
  obtain shell e1 observed e2 now e3 process_fps probe s1 e4 dce_fps s2 e5 src s3 e6 injected s4 e7 packet e8
    where "observe_shellui_once (ca_processes api) e = (shell, e1)"
      and "find_game_process (ca_platform api) e1 = (observed, e2)"
      and "monotonic_us (ca_platform api) e2 = (now, e3)"
      and sv: "sample_videoout api observed now (observe_game observed (observe_shell (lk_pid shell) s)) e3 = ((process_fps, probe), s1, e4)"
      and sd: "sample_dce api s1 e4 = (dce_fps, s2, e5)"
      and cs: "choose_source api process_fps dce_fps observed now s2 e5 = (src, s3, e6)"
      and sr: "start_renderer api s3 e6 = (injected, s4, e7)"
      and pf: "present_frame api src s4 e7 = (packet, s', e8)"
      and p: "p = \<lparr>ps_shell = lk_pid shell, ps_game = observed, ps_now = now, ps_probe = probe,
            ps_process_fps = process_fps, ps_dce_fps = dce_fps, ps_injected = injected, ps_packet = packet\<rparr>"
      and "e' = sleep_ms (ca_platform api) 1000 e8"
    using run by (rule controller_passE)
  let ?t = "observe_game observed (observe_shell (lk_pid shell) s)"
  have obs: "observed = Some pid" using assms(3) by (simp add: p)
  have t: "resting pid T ?t" using resting_observe [OF rest] by (simp add: obs)
  then have na: "\<not> fs_attached (mc_sampler ?t)" "mc_standby ?t" "mc_next_probe_us ?t = T" by (simp_all add: resting_def)
  show "T \<le> ps_now p" if "ps_probe p \<noteq> None"
    using that sv na by (auto simp: p obs sample_videoout_def videoout_probe_due_def split: if_splits)
  show "resting pid T s'" if quiet: "ps_probe p = None" "ps_dce_fps p \<noteq> None"
  proof -
    obtain fps where h: "probe = None" "dce_fps = Some fps" using quiet by (auto simp: p)
    then have s1: "s1 = ?t" and fps: "process_fps = None"
      using sv na by (auto simp: obs sample_videoout_def split: if_splits prod.splits)
    have "resting pid T s3"
      using resting_frames(3) [OF sd, of pid T] t
      by (intro choose_dce_rests [OF cs [unfolded fps h obs]]) (auto simp: s1 resting_def obs)
    then show ?thesis using resting_frames(1) [OF sr] resting_frames(2) [OF pf] by simp
  qed
qed

text \<open>
  While the DCE sampler keeps giving the rate of a game, a failed search for the VideoOut
  counter, which reads two megabytes of the game's memory, is repeated after sixty seconds at the earliest.
\<close>

theorem failed_search_rests:
  assumes "controller_run api n s0 e0 = (ps, s, e)" "i < j" "j < n"
    and "ps_probe (ps ! i) = Some False" "ps_probe (ps ! j) \<noteq> None" "\<forall>k. i < k \<and> k < j \<longrightarrow> ps_probe (ps ! k) = None"
    and "\<forall>k\<in>{i..j}. ps_game (ps ! k) = Some pid" "\<forall>k\<in>{i..<j}. ps_dce_fps (ps ! k) \<noteq> None"
    and "unat (ps_now (ps ! i)) + 60000000 < 2 ^ 64"
  shows "unat (ps_now (ps ! i)) + 60000000 \<le> unat (ps_now (ps ! j))"
proof -
  let ?T = "ps_now (ps ! i) + kDceVideoOutStandbyUs"
  have rest: "\<exists>t e1. controller_run api (Suc k) s0 e0 = (take (Suc k) ps, t, e1) \<and> resting pid ?T t"
    if "i \<le> k" "k < j" for k
    using that
  proof (induction rule: dec_induct)
    case base
    obtain t e1 s2 e2 where "controller_pass api t e1 = (ps ! i, s2, e2)"
        "controller_run api (Suc i) s0 e0 = (take (Suc i) ps, s2, e2)"
      using controller_run_at [OF assms(1), of i] assms(2,3) by auto
    then show ?case using failed_probe_rests assms(2,4,7,8) by fastforce
  next
    case (step k)
    obtain t e1 where t: "controller_run api (Suc k) s0 e0 = (take (Suc k) ps, t, e1)" "resting pid ?T t"
      using step by auto
    have "Suc k < n" using step.prems assms(3) by simp
    then obtain t' e1' s2 e2 where at: "controller_run api (Suc k) s0 e0 = (take (Suc k) ps, t', e1')"
        "controller_pass api t' e1' = (ps ! Suc k, s2, e2)"
        "controller_run api (Suc (Suc k)) s0 e0 = (take (Suc (Suc k)) ps, s2, e2)"
      using controller_run_at [OF assms(1)] by blast
    with t have "resting pid ?T t'" by simp
    then have "resting pid ?T s2"
      using resting_pass(2) [OF at(2), of pid ?T] step assms(6-8) by simp
    with at(3) show ?case by blast
  qed
  obtain k where k: "j = Suc k" "i \<le> k" using assms(2) by (cases j) auto
  obtain t e1 where t: "controller_run api j s0 e0 = (take j ps, t, e1)" "resting pid ?T t"
    using rest [of k] k by auto
  obtain t' e1' s2 e2 where at: "controller_run api j s0 e0 = (take j ps, t', e1')"
      "controller_pass api t' e1' = (ps ! j, s2, e2)"
    using controller_run_at [OF assms(1,3)] by blast
  have "?T \<le> ps_now (ps ! j)"
    using resting_pass(1) [OF at(2), of pid ?T] t at(1) assms(2,5,7) by simp
  moreover have "unat ?T = unat (ps_now (ps ! i)) + 60000000"
    using assms(9) by (subst unat_add_fits) (simp_all add: kDceVideoOutStandbyUs_def)
  ultimately show ?thesis by (simp add: word_le_nat_alt)
qed

section \<open>An example\<close>

text \<open>
  A console where the shell is process 40 and the game process 41, no module is ever found, the
  HEN shares 60 frames and a pass takes a minute.  Its environment is the clock.
\<close>

definition demo_controller :: "u64 controller_api" where
  "demo_controller =
     \<lparr>ca_processes = \<lparr>pa_self = 7, pa_size = \<lambda>e. ((0, length toy_list), e), pa_alloc = \<lambda>n e. (True, e),
        pa_data = \<lambda>n e. ((0, length toy_list, toy_list), e)\<rparr>,
      ca_platform = \<lparr>find_game_process = \<lambda>e. (Some 41, e), process_alive = \<lambda>pid e. (True, e),
        find_module = \<lambda>pid name e. (None, e), read_memory = \<lambda>pid a n e. (None, e),
        firmware_sdk_version = \<lambda>e. (0, e), monotonic_us = \<lambda>e. (e, e), sleep_ms = \<lambda>n e. e + 60000000\<rparr>,
      ca_device = \<lparr>da_open = \<lambda>p m e. (4, e), da_close = \<lambda>fd e. e,
        da_read = \<lambda>fd n e. ((20, demo_sample @ replicate 108 0), e), da_ioctl = \<lambda>fd c a b e. ((-1, b), e),
        da_get_auth = \<lambda>e. (5, e), da_set_auth = \<lambda>a e. (0, e), da_clock = \<lambda>e. (e, e)\<rparr>,
      ca_socket = \<lparr>open_socket = \<lambda>e. (5, e), send_datagram = \<lambda>fd port bs e. (44, e)\<rparr>,
      ca_renderer = \<lambda>e. (True, e), ca_settings = \<lambda>e. (default_config, e), ca_log = \<lambda>r e. e\<rparr>"

lemma demo_shell: "\<exists>lk. observe_shellui_once (ca_processes demo_controller) e = (lk, e) \<and> lk_pid lk = 40"
proof -
  have w: "lk_pid (walk_records True kShellUiName 7 toy_list (lookup_init\<lparr>lk_bytes := length toy_list\<rparr>)) = 40"
    by code_simp
  have "length toy_list \<noteq> 0" by code_simp
  then show ?thesis using w by (simp add: observe_shellui_once_def lookup_process_def demo_controller_def Let_def)
qed

lemma demo_ops:
  "find_game_process (ca_platform demo_controller) e = (Some 41, e)"
  "monotonic_us (ca_platform demo_controller) e = (e, e)"
  "sleep_ms (ca_platform demo_controller) n e = e + 60000000"
  "ca_log demo_controller r e = e" "ca_renderer demo_controller e = (True, e)"
  by (simp_all add: demo_controller_def)

lemma demo_attach: "\<exists>v'. fs_attach (ca_platform demo_controller) pid v e = (False, v', e)"
  by (simp add: fs_attach_def attach_now_def demo_controller_def)

lemma demo_dce: "\<exists>d'. dd_sample (ca_dce demo_controller) d e = (Some 60, d', e)"
  by (simp add: dd_sample_def sample_shared_hen_def ca_dce_def demo_controller_def demo_shared)

lemma demo_env:
  "choose_source demo_controller pf df observed now s e = (src, s1, e1) \<Longrightarrow> e1 = e"
  "start_renderer demo_controller s e = (r1, s1, e1) \<Longrightarrow> e1 = e"
  "present_frame demo_controller src s e = (r2, s1, e1) \<Longrightarrow> e1 = e"
  by (auto simp: choose_source_def use_videoout_def use_dce_def use_none_def start_renderer_def present_frame_def
      sender_send_def sender_open_def demo_controller_def Let_def split: option.splits if_splits prod.splits)

lemma demo_sendable: "settings_sendable demo_controller"
proof -
  have "plain_margin kDefaultMarginX" "plain_margin kDefaultMarginY" by code_simp+
  then show ?thesis using default_config_ok by (simp add: settings_sendable_def demo_controller_def default_config_def)
qed

text \<open>The gates fill up pass by pass.\<close>

definition demo_gates :: "nat \<Rightarrow> controller \<Rightarrow> bool" where
  "demo_gates k s \<longleftrightarrow> gate_state s = ((if k = 0 then -1 else 40, k), (if k = 0 then -1 else 41, min 3 k)) \<and> \<not> mc_online s"

lemma demo_pass_sees:
  assumes "controller_pass demo_controller s e = (p, s', e')"
  shows "ps_shell p = 40" "ps_game p = Some 41"
proof -
  from assms have "ps_shell p = 40 \<and> ps_game p = Some 41"
    by (rule controller_passE) (use demo_shell [of e] in \<open>auto simp: demo_ops\<close>)
  then show "ps_shell p = 40" "ps_game p = Some 41" by simp_all
qed

lemma demo_gates_step:
  assumes st: "demo_gates k s" and run: "controller_pass demo_controller s e = (p, s', e')" and k: "k \<le> 9"
  shows "k < 9 \<Longrightarrow> demo_gates (Suc k) s'" "k = 9 \<Longrightarrow> ps_injected p \<and> ps_packet p \<noteq> None"
proof -
  note g = pass_gates [OF run, unfolded demo_pass_sees [OF run]]
  let ?t = "observe_game (Some 41) (observe_shell 40 s)"
  have t: "gate_state ?t = ((40, Suc k), (41, min 3 (Suc k)))" "\<not> mc_online ?t" "\<not> mc_online (observe_shell 40 s)"
    using st k by (auto simp: demo_gates_def gate_state_def observe_game_def observe_shell_def forget_game_def split: if_splits)
  then have seen: "mc_shell_seen ?t = Suc k" by (simp add: gate_state_def)
  show "demo_gates (Suc k) s'" if "k < 9"
    using g(1-3) t seen that by (auto simp: demo_gates_def)
  show "ps_injected p \<and> ps_packet p \<noteq> None" if "k = 9"
    using g(4,5) t seen that by (auto simp: demo_ops game_process_ready_def gate_state_def)
qed

lemma demo_gates_run: "controller_run demo_controller k controller_init 0 = (ps, s, e) \<Longrightarrow> k \<le> 9 \<Longrightarrow> demo_gates k s"
proof (induction k arbitrary: ps s e)
  case 0
  then show ?case by (auto simp: demo_gates_def gate_state_def controller_init_def)
next
  case (Suc k)
  obtain qs t e1 where 1: "controller_run demo_controller k controller_init 0 = (qs, t, e1)" by (metis prod_cases3)
  obtain p s2 e2 where 2: "controller_pass demo_controller t e1 = (p, s2, e2)" by (metis prod_cases3)
  show ?case using Suc.prems demo_gates_step(1) [OF Suc.IH [OF 1] 2] by (auto simp: 1 2)
qed

lemma demo_tenth:
  obtains ps s e w where "controller_run demo_controller 10 controller_init 0 = (ps, s, e)"
    "ps_injected (ps ! 9)" "ps_packet (ps ! 9) = Some w"
proof -
  obtain ps s e where r: "controller_run demo_controller 10 controller_init 0 = (ps, s, e)" by (metis prod_cases3)
  obtain t e1 s2 e2 where at: "controller_run demo_controller 9 controller_init 0 = (take 9 ps, t, e1)"
      "controller_pass demo_controller t e1 = (ps ! 9, s2, e2)"
    using controller_run_at [OF r, of 9] by auto
  have "ps_injected (ps ! 9) \<and> ps_packet (ps ! 9) \<noteq> None"
    using demo_gates_step(2) [OF demo_gates_run [OF at(1)] at(2)] by simp
  with r that show ?thesis by blast
qed

theorem renderer_gated_witness:
  "\<exists>ps s e. controller_run demo_controller 10 controller_init 0 = (ps, s, e) \<and> ps_injected (ps ! 9) \<and>
     (\<exists>game > 0. \<forall>k\<in>{7..9}. ps_game (ps ! k) = Some game)"
proof -
  obtain ps s e w where r: "controller_run demo_controller 10 controller_init 0 = (ps, s, e)"
    and i: "ps_injected (ps ! 9)" by (rule demo_tenth)
  from renderer_gated [OF r, of 9] r i show ?thesis by auto
qed

theorem controller_frames_honest_witness:
  "\<exists>ps s e w. controller_run demo_controller 10 controller_init 0 = (ps, s, e) \<and> ps_packet (ps ! 9) = Some w \<and>
     decode_wire_packet (wire_of_bytes (wire_bytes w)) \<noteq> None"
proof -
  obtain ps s e w where r: "controller_run demo_controller 10 controller_init 0 = (ps, s, e)"
    and i: "ps_packet (ps ! 9) = Some w" by (rule demo_tenth)
  from controller_frames_honest [OF r demo_sendable _ i] r i show ?thesis by auto
qed

text \<open>A pass in the middle of a game, with no VideoOut counter attached and a search due.\<close>

lemma demo_search:
  assumes run: "controller_pass demo_controller s e = (p, s', e')" and "\<not> fs_attached (mc_sampler s)"
    and "mc_game_pid s = 41" "mc_game_seen s = 3" "\<not> mc_standby s \<or> mc_next_probe_us s \<le> e"
  shows "ps_probe p = Some False \<and> ps_dce_fps p = Some 60 \<and> ps_now p = e \<and> e' = e + 60000000 \<and> mc_game_seen s' = 3"
proof -
  obtain shell e1 observed e2 now e3 process_fps probe s1 e4 dce_fps s2 e5 src s3 e6 injected s4 e7 packet e8
    where sh: "observe_shellui_once (ca_processes demo_controller) e = (shell, e1)"
      and gm: "find_game_process (ca_platform demo_controller) e1 = (observed, e2)"
      and nw: "monotonic_us (ca_platform demo_controller) e2 = (now, e3)"
      and sv: "sample_videoout demo_controller observed now (observe_game observed (observe_shell (lk_pid shell) s)) e3 = ((process_fps, probe), s1, e4)"
      and sd: "sample_dce demo_controller s1 e4 = (dce_fps, s2, e5)"
      and cs: "choose_source demo_controller process_fps dce_fps observed now s2 e5 = (src, s3, e6)"
      and sr: "start_renderer demo_controller s3 e6 = (injected, s4, e7)"
      and pf: "present_frame demo_controller src s4 e7 = (packet, s', e8)"
      and p: "p = \<lparr>ps_shell = lk_pid shell, ps_game = observed, ps_now = now, ps_probe = probe,
            ps_process_fps = process_fps, ps_dce_fps = dce_fps, ps_injected = injected, ps_packet = packet\<rparr>"
      and "e' = sleep_ms (ca_platform demo_controller) 1000 e8"
    using run by (rule controller_passE)
  let ?t = "observe_game (Some 41) (observe_shell 40 s)"
  have env: "e1 = e" "e2 = e" "e3 = e" "now = e" "observed = Some 41" "lk_pid shell = 40"
    using sh gm nw demo_shell [of e] by (auto simp: demo_ops)
  have t: "\<not> fs_attached (mc_sampler ?t)" "mc_game_pid ?t = 41" "mc_game_seen ?t = 3" "videoout_probe_due e ?t"
    using assms(2-5) by (auto simp: observe_game_def observe_shell_def videoout_probe_due_def)
  obtain v where v: "fs_attach (ca_platform demo_controller) 41 (mc_sampler ?t) e = (False, v, e)"
    using demo_attach by blast
  have video: "probe = Some False" "e4 = e"
    using sv t(1,4) by (auto simp: env sample_videoout_def v split: if_splits)
  have "gate_state s1 = gate_state ?t" using gate_frames(1) [OF sv] by (simp add: env)
  then have "game_process_ready s1" using t(2,3) by (simp add: gate_state_def game_process_ready_def)
  then have dce: "dce_fps = Some 60" "e5 = e"
    using sd demo_dce [of "mc_dce s1" e] by (auto simp: sample_dce_def video(2))
  have "e8 = e" using demo_env(1) [OF cs] demo_env(2) [OF sr] demo_env(3) [OF pf] dce(2) by simp
  moreover have "gate_state s' = gate_state ?t" using pass_gates(1) [OF run] by (simp add: p env)
  ultimately show ?thesis using \<open>e' = _\<close> t(3) by (simp add: p env video dce demo_ops gate_state_def)
qed

definition demo_playing :: controller where
  "demo_playing = controller_init\<lparr>mc_game_pid := 41, mc_game_seen := 3\<rparr>"

theorem failed_search_rests_witness:
  "\<exists>ps s e. controller_run demo_controller 2 demo_playing 5 = (ps, s, e) \<and> ps_probe (ps ! 1) = Some False \<and>
     unat (5 :: u64) + 60000000 \<le> unat (ps_now (ps ! 1))"
proof -
  obtain p s1 e1 where 1: "controller_pass demo_controller demo_playing 5 = (p, s1, e1)" by (metis prod_cases3)
  obtain q s2 e2 where 2: "controller_pass demo_controller s1 e1 = (q, s2, e2)" by (metis prod_cases3)
  have a: "\<not> fs_attached (mc_sampler demo_playing)" "mc_game_pid demo_playing = 41" "mc_game_seen demo_playing = 3"
      "\<not> mc_standby demo_playing"
    by (simp_all add: demo_playing_def controller_init_def fs_attached_def fs_init_def)
  have first: "ps_probe p = Some False" "ps_dce_fps p = Some 60" "ps_now p = 5" "e1 = 60000005" "mc_game_seen s1 = 3"
    using demo_search [OF 1 a(1-3)] a(4) by simp_all
  have game: "ps_game p = Some 41" "ps_game q = Some 41" by (rule demo_pass_sees(2) [OF 1] demo_pass_sees(2) [OF 2])+
  have "resting 41 (5 + kDceVideoOutStandbyUs) s1"
    using failed_probe_rests [OF 1 first(1) game(1)] first(2,3) by simp
  then have "ps_probe q = Some False \<and> ps_now q = 60000005"
    using demo_search [OF 2] first(4,5) by (simp add: resting_def kDceVideoOutStandbyUs_def)
  moreover have run: "controller_run demo_controller 2 demo_playing 5 = ([p, q], s2, e2)"
    by (simp add: numeral_2_eq_2 1 2)
  moreover have "unat (ps_now ([p, q] ! 0)) + 60000000 \<le> unat (ps_now ([p, q] ! 1))"
    by (rule failed_search_rests [OF run, of 0 1 41]) (use first game calculation in \<open>auto simp: less_Suc_eq le_Suc_eq\<close>)
  ultimately show ?thesis using first(3) by auto
qed

end
