(* ===== verification/Media_Launcher.thy ===== *)
theory Media_Launcher
  imports Debugger Session_Log
begin

text \<open>
  The registration of the settings page as a title of the console
  (\<^verbatim>\<open>src/ps5/media_launcher.cpp\<close>): the installer's functions are called under the
  installer's credentials, the title's two files are staged only where nothing or this very
  title is, and the credentials are put back and read again before the answer.  The installer
  library, the file system and the kernel are parameters; so are the two files.
\<close>

section \<open>Definitions\<close>

definition kTitleId :: string where "kTitleId = ''CFPS00060''"
definition kDir :: string where "kDir = ''/user/app/CFPS00060''"
definition kSysDir :: string where "kSysDir = ''/user/app/CFPS00060/sce_sys''"
definition kParam :: string where "kParam = ''/user/app/CFPS00060/sce_sys/param.json''"
definition kIcon :: string where "kIcon = ''/user/app/CFPS00060/sce_sys/icon0.png''"
definition kAppInstallerAuth :: u64 where "kAppInstallerAuth = 0x4800000000000006"

datatype stat_result = Missing | StatError | Directory | Regular nat | Special

datatype launcher_log = SkippedFirmware | SymbolsMissing | NoSnapshot | Outcome int int bool u32 int bool

record 'e launcher_api =
  ml_kernel :: "'e kernel"
  ml_files :: "'e posix"
  ml_lstat :: "string \<Rightarrow> 'e \<Rightarrow> stat_result \<times> 'e"
  ml_mkdir :: "string \<Rightarrow> 'e \<Rightarrow> bool \<times> 'e"
  ml_dlopen :: "string \<Rightarrow> 'e \<Rightarrow> int \<times> 'e"
  ml_dlsym :: "int \<Rightarrow> string \<Rightarrow> 'e \<Rightarrow> int \<times> 'e"
  ml_init :: "int \<Rightarrow> 'e \<Rightarrow> int \<times> 'e"
  ml_exists :: "int \<Rightarrow> string \<Rightarrow> int \<Rightarrow> 'e \<Rightarrow> (int \<times> int) \<times> 'e"
  ml_install :: "int \<Rightarrow> string \<Rightarrow> string \<Rightarrow> 'e \<Rightarrow> u32 \<times> 'e"
  ml_log :: "launcher_log \<Rightarrow> 'e \<Rightarrow> 'e"
  ml_param :: string
  ml_icon :: string

definition ensure_directory :: "'e launcher_api \<Rightarrow> string \<Rightarrow> 'e \<Rightarrow> bool \<times> 'e" where
  "ensure_directory ml path e =
     (case ml_lstat ml path e of
        (Missing, e1) \<Rightarrow> ml_mkdir ml path e1
      | (StatError, e1) \<Rightarrow> (False, e1)
      | (st, e1) \<Rightarrow> (st = Directory, e1))"

text \<open>
  A file is written beside its place, synchronised, closed and renamed, and removed again when
  one of these fails: the steps of the settings' own writer.
\<close>

definition asset :: "'e launcher_api \<Rightarrow> string \<Rightarrow> string \<Rightarrow> 'e \<Rightarrow> (bool \<times> 'e) option" where
  "asset ml path data e = atomic_write (ml_files ml) path data e"

definition can_stage_owned_title :: "'e launcher_api \<Rightarrow> 'e \<Rightarrow> bool \<times> 'e" where
  "can_stage_owned_title ml e =
     (case ml_lstat ml kParam e of
        (Missing, e1) \<Rightarrow> (True, e1)
      | (Regular st_size, e1) \<Rightarrow>
          if st_size \<noteq> length (ml_param ml) \<or> 1024 < length (ml_param ml) then (False, e1)
          else (case px_read (ml_files ml) kParam (length (ml_param ml)) e1 of
                  (None, e2) \<Rightarrow> (False, e2)
                | (Some (data, _), e2) \<Rightarrow> (data = ml_param ml, e2))
      | (_, e1) \<Rightarrow> (False, e1))"

text \<open>The three results of the staging: whether it was done, the installer's code, the last check.\<close>

definition stage_title ::
  "'e launcher_api \<Rightarrow> int \<Rightarrow> int \<Rightarrow> 'e \<Rightarrow> ((bool \<times> u32 \<times> (int \<times> int) option) \<times> 'e) option" where
  "stage_title ml exists install e =
     (case can_stage_owned_title ml e of
        (False, e1) \<Rightarrow> Some ((False, -1, None), e1)
      | (True, e1) \<Rightarrow>
          (case ensure_directory ml kDir e1 of
             (False, e2) \<Rightarrow> Some ((False, -1, None), e2)
           | (True, e2) \<Rightarrow>
               (case ensure_directory ml kSysDir e2 of
                  (False, e3) \<Rightarrow> Some ((False, -1, None), e3)
                | (True, e3) \<Rightarrow>
                    (case asset ml kIcon (ml_icon ml) e3 of
                       None \<Rightarrow> None
                     | Some (icon_ok, e4) \<Rightarrow>
                         (case (if icon_ok then asset ml kParam (ml_param ml) e4 else Some (False, e4)) of
                            None \<Rightarrow> None
                          | Some (staged, e5) \<Rightarrow>
                              (case (if staged then ml_install ml install kTitleId ''/user/app/'' e5 else (-1, e5)) of
                                 (install_rc, e6) \<Rightarrow>
                                   if install_rc = 0 \<or> install_rc = 0x80990002
                                   then (case ml_exists ml exists kTitleId 0 e6 of
                                           (r, e7) \<Rightarrow> Some ((staged, install_rc, Some r), e7))
                                   else Some ((staged, install_rc, None), e6)))))))"

text \<open>The calls under the installer's credentials.\<close>

definition run_installer ::
  "'e launcher_api \<Rightarrow> int \<Rightarrow> int \<Rightarrow> int \<Rightarrow> 'e \<Rightarrow> ((int \<times> int \<times> bool \<times> u32 \<times> int) \<times> 'e) option" where
  "run_installer ml init exists install e =
     (case ml_init ml init e of
        (init_rc, e1) \<Rightarrow>
          if init_rc \<noteq> 0 then Some ((init_rc, -1, False, -1, 0), e1)
          else case ml_exists ml exists kTitleId 0 e1 of
                 ((check_rc, present), e2) \<Rightarrow>
                   if check_rc = 0 \<and> present = 0 then
                     (case stage_title ml exists install e2 of
                        None \<Rightarrow> None
                      | Some ((staged, install_rc, None), e3) \<Rightarrow> Some ((init_rc, check_rc, staged, install_rc, present), e3)
                      | Some ((staged, install_rc, Some (check2, present2)), e3) \<Rightarrow>
                          Some ((init_rc, check2, staged, install_rc, present2), e3))
                   else Some ((init_rc, check_rc, False, -1, present), e2))"

definition with_installer_auth ::
  "'e launcher_api \<Rightarrow> int \<Rightarrow> int \<Rightarrow> int \<Rightarrow> 'e \<Rightarrow> ((int \<times> int \<times> bool \<times> u32 \<times> int) \<times> 'e) option" where
  "with_installer_auth ml init exists install e =
     (let k = ml_kernel ml
      in case k_set_authid k (k_self k) kAppInstallerAuth e of
           (rc, e1) \<Rightarrow>
             if rc \<noteq> 0 then Some ((-1, -1, False, -1, 0), e1)
             else case k_get_authid k (k_self k) e1 of
                    (a, e2) \<Rightarrow>
                      if a = kAppInstallerAuth then run_installer ml init exists install e2
                      else Some ((-1, -1, False, -1, 0), e2))"

text \<open>\<open>None\<close> is a call that never ends: a write that is interrupted for ever.\<close>

definition ensure_media_launcher :: "'e launcher_api \<Rightarrow> u32 \<Rightarrow> 'e \<Rightarrow> (bool \<times> 'e) option" where
  "ensure_media_launcher ml sdk_version e =
     (if 0x12 \<le> drop_bit 24 sdk_version then Some (True, ml_log ml SkippedFirmware e)
      else
        let k = ml_kernel ml;
            sym = (\<lambda>m name e. if m = 0 then (0, e) else ml_dlsym ml m name e)
        in case ml_dlopen ml ''/system/common/lib/libSceAppInstUtil.sprx'' e of (m, e1) \<Rightarrow>
           case sym m ''sceAppInstUtilInitialize'' e1 of (init, e2) \<Rightarrow>
           case sym m ''sceAppInstUtilAppExists'' e2 of (exists, e3) \<Rightarrow>
           case sym m ''sceAppInstUtilAppInstallTitleDir'' e3 of (install, e4) \<Rightarrow>
             if init = 0 \<or> exists = 0 \<or> install = 0 then Some (True, ml_log ml SymbolsMissing e4)
             else case k_get_authid k (k_self k) e4 of
                    (original, e5) \<Rightarrow>
                      if original = 0 \<or> original = -1 then Some (True, ml_log ml NoSnapshot e5)
                      else
                        (case with_installer_auth ml init exists install e5 of
                           None \<Rightarrow> None
                         | Some ((init_rc, check_rc, staged, install_rc, present), e6) \<Rightarrow>
                             (case k_set_authid k (k_self k) original e6 of
                                (rc, e7) \<Rightarrow>
                                  (case (if rc = 0 then k_get_authid k (k_self k) e7 else (0, e7)) of
                                     (a, e8) \<Rightarrow>
                                       let restored = (rc = 0 \<and> a = original)
                                       in Some (restored,
                                            ml_log ml (Outcome init_rc check_rc staged install_rc present restored) e8)))))"

section \<open>Credentials\<close>

text \<open>
  \<open>auth\<close> is the identifier the kernel holds: the two calls for it read and write it, a write
  that fails may have changed it or not, and nothing else of the launcher touches it.
\<close>

definition launcher_contract :: "'e launcher_api \<Rightarrow> ('e \<Rightarrow> u64) \<Rightarrow> bool" where
  "launcher_contract ml auth \<longleftrightarrow>
     (\<forall>e a e'. k_get_authid (ml_kernel ml) (k_self (ml_kernel ml)) e = (a, e') \<longrightarrow> a = auth e \<and> auth e' = auth e) \<and>
     (\<forall>path e. auth (snd (ml_dlopen ml path e)) = auth e) \<and>
     (\<forall>m name e. auth (snd (ml_dlsym ml m name e)) = auth e) \<and>
     (\<forall>r e. auth (ml_log ml r e) = auth e)"

text \<open>
  (C29) The launcher answers yes only when the process has the credentials it had before: on
  firmware it does not serve, without the installer or without a snapshot it has not touched
  them, and otherwise it has read back the restored ones after everything else, whatever the
  installer and the file system did.
\<close>

theorem media_launcher_credentials:
  assumes "launcher_contract ml auth" "ensure_media_launcher ml sdk e = Some (True, e')"
  shows "auth e' = auth e"
proof -
  let ?k = "ml_kernel ml"
  let ?sym = "\<lambda>m name e. if m = 0 then (0, e) else ml_dlsym ml m name e"
  have get: "k_get_authid ?k (k_self ?k) e = (a, e') \<Longrightarrow> a = auth e \<and> auth e' = auth e" for e a e'
    using assms(1) unfolding launcher_contract_def by blast
  have dl: "auth (snd (ml_dlopen ml path e)) = auth e" "auth (snd (ml_dlsym ml m name e)) = auth e" "auth (ml_log ml r e) = auth e"
    for path e m name r
    using assms(1) unfolding launcher_contract_def by blast+
  show ?thesis
  proof (cases "0x12 \<le> drop_bit 24 sdk")
    case True
    then show ?thesis using assms(2) dl by (auto simp: ensure_media_launcher_def)
  next
    case fw: False
    obtain m e1 where 1: "ml_dlopen ml ''/system/common/lib/libSceAppInstUtil.sprx'' e = (m, e1)"
      by (cases "ml_dlopen ml ''/system/common/lib/libSceAppInstUtil.sprx'' e")
    obtain init e2 where 2: "?sym m ''sceAppInstUtilInitialize'' e1 = (init, e2)" by fastforce
    obtain exists e3 where 3: "?sym m ''sceAppInstUtilAppExists'' e2 = (exists, e3)" by fastforce
    obtain install e4 where 4: "?sym m ''sceAppInstUtilAppInstallTitleDir'' e3 = (install, e4)" by fastforce
    have a4: "auth e4 = auth e"
      using dl(1) [of "''/system/common/lib/libSceAppInstUtil.sprx''" e] dl(2) [of m "''sceAppInstUtilInitialize''" e1]
        dl(2) [of m "''sceAppInstUtilAppExists''" e2] dl(2) [of m "''sceAppInstUtilAppInstallTitleDir''" e3] 1 2 3 4
      by (auto split: if_splits)
    obtain original e5 where 5: "k_get_authid ?k (k_self ?k) e4 = (original, e5)" by (cases "k_get_authid ?k (k_self ?k) e4")
    have a5: "original = auth e" "auth e5 = auth e" using get [OF 5] a4 by simp_all
    have run: "Some (True, e') =
       (if init = 0 \<or> exists = 0 \<or> install = 0 then Some (True, ml_log ml SymbolsMissing e4)
        else if original = 0 \<or> original = -1 then Some (True, ml_log ml NoSnapshot e5)
        else (case with_installer_auth ml init exists install e5 of
                None \<Rightarrow> None
              | Some ((init_rc, check_rc, staged, install_rc, present), e6) \<Rightarrow>
                  (case k_set_authid ?k (k_self ?k) original e6 of
                     (rc, e7) \<Rightarrow>
                       (case (if rc = 0 then k_get_authid ?k (k_self ?k) e7 else (0, e7)) of
                          (a, e8) \<Rightarrow>
                            let restored = (rc = 0 \<and> a = original)
                            in Some (restored, ml_log ml (Outcome init_rc check_rc staged install_rc present restored) e8)))))"
      using assms(2) fw by (simp only: ensure_media_launcher_def Let_def 1 2 3 4 5 prod.case if_False)
    show ?thesis
    proof (cases "init = 0 \<or> exists = 0 \<or> install = 0 \<or> original = 0 \<or> original = -1")
      case True
      then show ?thesis using run a4 a5(2) dl(3) by (auto split: if_splits)
    next
      case False
      then obtain r e6 where 6: "with_installer_auth ml init exists install e5 = Some (r, e6)"
        using run by (auto split: option.splits)
      obtain init_rc check_rc staged install_rc present where r: "r = (init_rc, check_rc, staged, install_rc, present)"
        by (metis prod_cases5)
      obtain rc e7 where 7: "k_set_authid ?k (k_self ?k) original e6 = (rc, e7)" by (cases "k_set_authid ?k (k_self ?k) original e6")
      obtain a e8 where 8: "k_get_authid ?k (k_self ?k) e7 = (a, e8)" by (cases "k_get_authid ?k (k_self ?k) e7")
      have "rc = 0 \<and> a = original \<and> e' = ml_log ml (Outcome init_rc check_rc staged install_rc present True) e8"
        using run False by (auto simp: 6 r 7 8 Let_def split: if_splits)
      then show ?thesis using get [OF 8] dl(3) a5 by simp
    qed
  qed
qed

text \<open>An installer that works on a console whose disk is full: nothing is staged, the credentials are back.\<close>

definition full_disk_launcher :: "toy_console launcher_api" where
  "full_disk_launcher =
     \<lparr>ml_kernel = toy_kernel,
      ml_files = \<lparr>px_open = \<lambda>p e. (-1, e), px_write = \<lambda>fd s e. (WriteError, e), px_fsync = \<lambda>fd e. (False, e),
        px_close = \<lambda>fd e. (False, e), px_rename = \<lambda>p q e. (False, e), px_unlink = \<lambda>p e. e, px_read = \<lambda>p n e. (None, e)\<rparr>,
      ml_lstat = \<lambda>p e. (Missing, e), ml_mkdir = \<lambda>p e. (True, e), ml_dlopen = \<lambda>p e. (1, e), ml_dlsym = \<lambda>m n e. (2, e),
      ml_init = \<lambda>f e. (0, e), ml_exists = \<lambda>f t p e. ((0, p), e), ml_install = \<lambda>f t p e. (0, e), ml_log = \<lambda>r e. e,
      ml_param = ''{}'', ml_icon = ''icon''\<rparr>"

theorem media_launcher_credentials_witness:
  "\<exists>e'. ensure_media_launcher full_disk_launcher 0x09600000 toy_start = Some (True, e') \<and> tc_auth e' = tc_auth toy_start"
proof -
  have "fst (the (ensure_media_launcher full_disk_launcher 0x09600000 toy_start)) = True"
    and "ensure_media_launcher full_disk_launcher 0x09600000 toy_start \<noteq> None"
    by (simp_all add: ensure_media_launcher_def with_installer_auth_def run_installer_def stage_title_def can_stage_owned_title_def
        ensure_directory_def asset_def atomic_write_def full_disk_launcher_def toy_kernel_def toy_start_def kAppInstallerAuth_def
        word_eq_iff_unsigned Let_def)
  then obtain e' where run: "ensure_media_launcher full_disk_launcher 0x09600000 toy_start = Some (True, e')"
    by (cases "ensure_media_launcher full_disk_launcher 0x09600000 toy_start") auto
  have "launcher_contract full_disk_launcher tc_auth"
    by (auto simp: launcher_contract_def full_disk_launcher_def toy_kernel_def)
  from media_launcher_credentials [OF this run] run show ?thesis by blast
qed

end
