(* ===== verification/Settings_Http.thy ===== *)
theory Settings_Http
  imports Settings_Store
begin

text \<open>
  The bounded HTTP service of the settings page (\<^verbatim>\<open>response\<close> and
  \<^verbatim>\<open>settings_http_response\<close> of \<^verbatim>\<open>src/core/settings.cpp\<close>).  A
  view of the request is the text itself: the positions the code keeps in the request are
  replaced by the texts before and behind them.
\<close>

section \<open>Searching\<close>

definition crlf :: string where "crlf = [CHR 0x0D, CHR 0x0A]"

text \<open>What lies before and behind the first occurrence of a pattern.\<close>

fun starts_with :: "string \<Rightarrow> string \<Rightarrow> bool" where
  "starts_with [] s = True"
| "starts_with (p # ps) [] = False"
| "starts_with (p # ps) (c # cs) = (p = c \<and> starts_with ps cs)"

fun cut_text :: "string \<Rightarrow> string \<Rightarrow> (string \<times> string) option" where
  "cut_text p [] = (if p = [] then Some ([], []) else None)"
| "cut_text p (c # cs) =
     (if starts_with p (c # cs) then Some ([], drop (length p) (c # cs))
      else map_option (\<lambda>(a, b). (c # a, b)) (cut_text p cs))"

text \<open>The same for the last occurrence of a character.\<close>

definition cut_last :: "char \<Rightarrow> string \<Rightarrow> (string \<times> string) option" where
  "cut_last c s = map_option (\<lambda>(b, a). (rev a, rev b)) (cut_at c (rev s))"

section \<open>Responses\<close>

definition quoted :: "string \<Rightarrow> string" where
  "quoted s = CHR 0x27 # s @ [CHR 0x27]"

definition response :: "nat \<Rightarrow> string \<Rightarrow> string \<Rightarrow> string \<Rightarrow> string" where
  "response status reason body type =
     ''HTTP/1.1 '' @ decimal status @ '' '' @ reason @
     crlf @ ''Content-Type: '' @ type @ crlf @ ''Content-Length: '' @ decimal (length body) @
     crlf @ ''Connection: close'' @ crlf @ ''Cache-Control: no-store'' @
     crlf @ ''X-Content-Type-Options: nosniff'' @ crlf @ ''X-Frame-Options: DENY'' @
     crlf @ ''Content-Security-Policy: default-src '' @ quoted ''self'' @ ''; script-src '' @ quoted ''self'' @ '' '' @
     quoted ''unsafe-inline'' @ ''; style-src '' @ quoted ''self'' @ '' '' @ quoted ''unsafe-inline'' @
     ''; connect-src '' @ quoted ''self'' @ ''; img-src '' @ quoted ''self'' @ '' data:; frame-ancestors '' @ quoted ''none'' @
     crlf @ crlf @ body"

definition plain_text :: string where "plain_text = ''text/plain; charset=utf-8''"
definition bad :: string where
  "bad = response 400 ''Bad Request'' (''Invalid request'' @ [CHR 0x0A]) plain_text"

definition kSettingsHost :: string where "kSettingsHost = ''127.0.0.1:39029''"

section \<open>Requests\<close>

definition strip_spaces :: "string \<Rightarrow> string" where
  "strip_spaces v = rev (dropWhile (\<lambda>c. c = CHR '' '') (rev (dropWhile (\<lambda>c. c = CHR '' '') v)))"

text \<open>The header lines up to the empty one; \<open>None\<close> is a line without a colon or a repeated name.\<close>

function http_headers :: "string \<Rightarrow> (string \<times> string) list \<Rightarrow> (string \<times> string) list option" where
  "http_headers rest hs =
     (if rest = [] then Some hs
      else
        let (h, more) = (case cut_text crlf rest of None \<Rightarrow> (rest, []) | Some (a, b) \<Rightarrow> (a, b))
        in case cut_at (CHR '':'') h of
             None \<Rightarrow> None
           | Some (k, v) \<Rightarrow>
               let key = map lower k; value = strip_spaces v
               in if map_of hs key \<noteq> None then None else http_headers more ((key, value) # hs))"
  by auto

lemma cut_text_length: "cut_text p s = Some (a, b) \<Longrightarrow> length s = length a + length p + length b"
proof (induction p s arbitrary: a rule: cut_text.induct)
  case (2 p c cs)
  have "length p \<le> length s" if "starts_with p s" for s :: string
    using that by (induction p s rule: starts_with.induct) auto
  from this [of "c # cs"] 2 show ?case by (auto split: if_splits)
qed (auto split: if_splits)

termination http_headers
  by (relation "measure (\<lambda>(rest, _). length rest)")
    (auto simp: crlf_def dest!: cut_text_length split: option.splits)

declare http_headers.simps [simp del]

text \<open>The request line: two different spaces around the path and a known version.\<close>

definition request_line :: "string \<Rightarrow> (string \<times> string) option" where
  "request_line line =
     (case cut_at (CHR '' '') line of
        None \<Rightarrow> None
      | Some (method, rest) \<Rightarrow>
          (case cut_last (CHR '' '') rest of
             None \<Rightarrow> None
           | Some (path, version) \<Rightarrow>
               if version \<noteq> ''HTTP/1.1'' \<and> version \<noteq> ''HTTP/1.0'' then None else Some (method, path)))"

record http_request =
  http_method :: string
  http_path :: string
  http_fields :: "(string \<times> string) list"
  http_body :: string

definition parse_request :: "string \<Rightarrow> http_request option" where
  "parse_request request =
     (if kMaxSettingsBytes < length request then None
      else case cut_text (crlf @ crlf) request of
             None \<Rightarrow> None
           | Some (head, body) \<Rightarrow>
               let (line, rest) = (case cut_text crlf head of None \<Rightarrow> (head, []) | Some (a, b) \<Rightarrow> (a, b))
               in case request_line line of
                    None \<Rightarrow> None
                  | Some (method, path) \<Rightarrow>
                      (case http_headers rest [] of
                         None \<Rightarrow> None
                       | Some hs \<Rightarrow> Some \<lparr>http_method = method, http_path = path, http_fields = hs, http_body = body\<rparr>))"

text \<open>A missing header reads as an empty one.\<close>

definition header :: "http_request \<Rightarrow> string \<Rightarrow> string" where
  "header r k = (case map_of (http_fields r) k of None \<Rightarrow> [] | Some v \<Rightarrow> v)"

definition has_header :: "http_request \<Rightarrow> string \<Rightarrow> bool" where
  "has_header r k \<longleftrightarrow> map_of (http_fields r) k \<noteq> None"

section \<open>The service\<close>

text \<open>The length a request announces must be the length of its body.\<close>

definition length_matches :: "http_request \<Rightarrow> bool" where
  "length_matches r \<longleftrightarrow>
     (if has_header r ''content-length'' then
        parse_integer (header r ''content-length'') 0 512 = Some (int (length (http_body r)))
      else length (http_body r) = 0)"

definition trusted_post :: "http_request \<Rightarrow> bool" where
  "trusted_post r \<longleftrightarrow>
     \<not> (header r ''x-commonfps'' \<noteq> ''1'' \<or>
        header r ''content-type'' \<noteq> ''application/x-www-form-urlencoded'' \<or>
        (has_header r ''origin'' \<and> header r ''origin'' \<noteq> ''http://'' @ kSettingsHost))"

definition ok_config :: "overlay_config \<Rightarrow> string" where
  "ok_config cfg = response 200 ''OK'' (serialize_config cfg) plain_text"

definition post_config :: "'e posix \<Rightarrow> http_request \<Rightarrow> settings_store \<Rightarrow> 'e \<Rightarrow> (string \<times> settings_store \<times> 'e) option" where
  "post_config px r s e =
     (if \<not> trusted_post r
      then Some (response 403 ''Forbidden'' (''Invalid origin'' @ [CHR 0x0A]) plain_text, s, e)
      else case parse_settings_form (http_body r) of
             None \<Rightarrow> Some (response 422 ''Unprocessable Entity'' (''Invalid settings'' @ [CHR 0x0A]) plain_text, s, e)
           | Some config \<Rightarrow>
               (case store_save px config s e of
                  None \<Rightarrow> None
                | Some (ok, s', e') \<Rightarrow>
                    Some (if \<not> ok then response 500 ''Internal Server Error''
                                     (''Cannot save settings'' @ [CHR 0x0A]) plain_text
                          else ok_config (store_get s'), s', e')))"

definition answer_request ::
  "'e posix \<Rightarrow> http_request \<Rightarrow> string \<Rightarrow> settings_store \<Rightarrow> 'e \<Rightarrow> (string \<times> settings_store \<times> 'e) option" where
  "answer_request px r page s e =
     (if header r ''host'' \<noteq> kSettingsHost
      then Some (response 403 ''Forbidden'' (''Invalid host'' @ [CHR 0x0A]) plain_text, s, e)
      else if has_header r ''transfer-encoding'' \<or> \<not> length_matches r then Some (bad, s, e)
      else if http_method r = ''GET'' \<and> http_path r = ''/''
      then Some (response 200 ''OK'' page ''text/html; charset=utf-8'', s, e)
      else if http_method r = ''GET'' \<and> http_path r = ''/api/config''
      then Some (ok_config (store_get s), s, e)
      else if http_method r = ''POST'' \<and> http_path r = ''/api/config'' then post_config px r s e
      else Some (response 404 ''Not Found'' (''Not found'' @ [CHR 0x0A]) plain_text, s, e))"

definition settings_http_response ::
  "'e posix \<Rightarrow> string \<Rightarrow> string \<Rightarrow> settings_store \<Rightarrow> 'e \<Rightarrow> (string \<times> settings_store \<times> 'e) option" where
  "settings_http_response px request page s e =
     (case parse_request request of
        None \<Rightarrow> Some (bad, s, e)
      | Some r \<Rightarrow> answer_request px r page s e)"

section \<open>Facts: searching\<close>

lemma starts_with_iff: "starts_with p s \<longleftrightarrow> (\<exists>r. s = p @ r)"
  by (induction p s rule: starts_with.induct) auto

lemma cut_text_parts: "cut_text p s = Some (a, b) \<Longrightarrow> s = a @ p @ b"
proof (induction p s arbitrary: a rule: cut_text.induct)
  case (2 p c cs)
  then show ?case by (auto simp: starts_with_iff split: if_splits)
qed (auto split: if_splits)

lemma cut_last_parts: "cut_last c s = Some (a, b) \<Longrightarrow> s = a @ c # b"
proof -
  assume "cut_last c s = Some (a, b)"
  then have "rev s = rev b @ c # rev a" by (auto simp: cut_last_def dest!: cut_at_parts)
  then have "rev (rev s) = a @ c # b" by simp
  then show ?thesis by simp
qed

abbreviation blank_line :: string where "blank_line \<equiv> crlf @ crlf"

lemma cut_blank_char: "c \<noteq> CHR 0x0D \<Longrightarrow> cut_text blank_line (c # s) = map_option (\<lambda>(a, b). (c # a, b)) (cut_text blank_line s)"
  by (simp add: crlf_def)

lemma cut_blank_found: "cut_text blank_line (crlf @ crlf @ b) = Some ([], b)"
  by (simp add: crlf_def)

lemma cut_blank_return:
  "d \<noteq> CHR 0x0D \<Longrightarrow> cut_text blank_line (CHR 0x0D # c # d # s) = map_option (\<lambda>(a, b). (CHR 0x0D # a, b)) (cut_text blank_line (c # d # s))"
  by (simp add: crlf_def)

declare cut_text.simps(2) [simp del]

lemma cut_blank_skip:
  assumes "CHR 0x0D \<notin> set x"
  shows "cut_text blank_line (x @ y) = map_option (\<lambda>(a, b). (x @ a, b)) (cut_text blank_line y)"
  using assms
proof (induction x)
  case (Cons c x)
  then show ?case by (auto simp: cut_blank_char option.map_comp comp_def split_def)
qed (cases "cut_text blank_line y"; simp)

lemma cut_blank_line:
  assumes "y \<noteq> []" "hd y \<noteq> CHR 0x0D"
  shows "cut_text blank_line (crlf @ y) = map_option (\<lambda>(a, b). (crlf @ a, b)) (cut_text blank_line y)"
proof -
  obtain c z where y: "y = c # z" using assms(1) by (cases y) auto
  have "cut_text blank_line (crlf @ c # z)
      = map_option (\<lambda>(a, b). (CHR 0x0D # a, b)) (cut_text blank_line (CHR 0x0A # c # z))"
    using cut_blank_return [of c "CHR 0x0A" z] assms(2) y by (simp add: crlf_def)
  also have "cut_text blank_line (CHR 0x0A # c # z) = map_option (\<lambda>(a, b). (CHR 0x0A # a, b)) (cut_text blank_line (c # z))"
    by (rule cut_blank_char) simp
  finally show ?thesis by (simp add: y crlf_def option.map_comp comp_def split_def)
qed

section \<open>Facts: requests\<close>

lemma request_line_text:
  "request_line line = Some (method, path) \<Longrightarrow>
     \<exists>v. line = method @ '' '' @ path @ '' '' @ v \<and> (v = ''HTTP/1.1'' \<or> v = ''HTTP/1.0'')"
  by (auto simp: request_line_def dest!: cut_at_parts cut_last_parts split: option.splits if_splits)

lemma parse_request_text:
  assumes "parse_request request = Some r"
  shows "length request \<le> 4096
    \<and> (\<exists>v rest. (v = ''HTTP/1.1'' \<or> v = ''HTTP/1.0'')
         \<and> request = http_method r @ '' '' @ http_path r @ '' '' @ v @ rest @ blank_line @ http_body r
         \<and> (rest = [] \<or> starts_with crlf rest))"
proof -
  from assms obtain head where len: "length request \<le> 4096" and head: "cut_text blank_line request = Some (head, http_body r)"
    by (auto simp: parse_request_def kMaxSettingsBytes_def split: if_splits option.splits prod.splits)
  obtain line rest where l: "(case cut_text crlf head of None \<Rightarrow> (head, []) | Some (a, b) \<Rightarrow> (a, b)) = (line, rest)"
    by (metis surj_pair)
  have "request_line line = Some (http_method r, http_path r)"
    using assms len unfolding parse_request_def head l option.case prod.case
    by (cases r) (auto simp: kMaxSettingsBytes_def l split: option.splits)
  then obtain v where v: "v = ''HTTP/1.1'' \<or> v = ''HTTP/1.0''" and line: "line = http_method r @ '' '' @ http_path r @ '' '' @ v"
    using request_line_text by blast
  have "\<exists>t. head = line @ t \<and> (t = [] \<or> starts_with crlf t)"
    using l by (auto simp: starts_with_iff dest!: cut_text_parts split: option.splits)
  with cut_text_parts [OF head] line v len show ?thesis by auto
qed

lemma header_eq: "header r k = v \<Longrightarrow> v \<noteq> [] \<Longrightarrow> map_of (http_fields r) k = Some v"
  by (auto simp: header_def split: option.splits)

text \<open>
  (C18) Nothing but the settings page can change the settings: a request that changes the store
  or touches the file system is a POST of the configuration, addressed to the loopback host,
  with the page's own header, the form's content type and no foreign origin, whose body is an
  accepted form; what it then does is one save of exactly that configuration.
\<close>

theorem only_trusted_posts_change_settings:
  assumes "settings_http_response px request page s e = Some (reply, s', e')" "s' \<noteq> s \<or> e' \<noteq> e"
  shows "starts_with ''POST /api/config HTTP/1.'' request \<and> length request \<le> 4096 \<and>
    (\<exists>r cfg ok. parse_request request = Some r \<and>
       map_of (http_fields r) ''host'' = Some kSettingsHost \<and>
       map_of (http_fields r) ''x-commonfps'' = Some ''1'' \<and>
       map_of (http_fields r) ''content-type'' = Some ''application/x-www-form-urlencoded'' \<and>
       map_of (http_fields r) ''transfer-encoding'' = None \<and>
       map_of (http_fields r) ''origin'' \<in> {None, Some (''http://'' @ kSettingsHost)} \<and>
       parse_settings_form (http_body r) = Some cfg \<and> store_save px cfg s e = Some (ok, s', e'))"
proof -
  obtain r where r: "parse_request request = Some r" and a: "answer_request px r page s e = Some (reply, s', e')"
    using assms by (auto simp: settings_http_response_def split: option.splits)
  from a assms(2) have g: "header r ''host'' = kSettingsHost" "\<not> has_header r ''transfer-encoding''"
      "http_method r = ''POST''" "http_path r = ''/api/config''" and p: "post_config px r s e = Some (reply, s', e')"
    by (auto simp: answer_request_def split: if_splits)
  from p assms(2) have t: "trusted_post r" by (auto simp: post_config_def split: if_splits)
  with p assms(2) obtain cfg ok where c: "parse_settings_form (http_body r) = Some cfg" "store_save px cfg s e = Some (ok, s', e')"
    by (auto simp: post_config_def split: option.splits)
  have textual: "starts_with ''POST /api/config HTTP/1.'' request" "length request \<le> 4096"
    using parse_request_text [OF r] g(3,4) by auto
  have o: "map_of (http_fields r) ''origin'' \<in> {None, Some (''http://'' @ kSettingsHost)}"
    using t by (auto simp: trusted_post_def has_header_def header_def split: option.splits)
  have h: "map_of (http_fields r) ''host'' = Some kSettingsHost" "map_of (http_fields r) ''x-commonfps'' = Some ''1''"
      "map_of (http_fields r) ''content-type'' = Some ''application/x-www-form-urlencoded''"
      "map_of (http_fields r) ''transfer-encoding'' = None"
    using t g header_eq by (auto simp: trusted_post_def has_header_def kSettingsHost_def)
  show ?thesis using r c textual o h by blast
qed

section \<open>A request of the page\<close>

definition page_body :: string where
  "page_body = ''corner=bottom_left&font_size=22&margin_x=10&margin_y=4&show_label=1'' @
     ''&label_color=%23B366FF&value_color=%23FFFFFF''"

definition page_request :: http_request where
  "page_request =
     \<lparr>http_method = ''POST'', http_path = ''/api/config'',
      http_fields = [(''content-length'', ''111''), (''x-commonfps'', ''1''),
        (''content-type'', ''application/x-www-form-urlencoded''), (''host'', ''127.0.0.1:39029'')],
      http_body = page_body\<rparr>"

definition page_text :: string where
  "page_text = ''POST /api/config HTTP/1.1'' @ crlf @ ''Host: 127.0.0.1:39029'' @ crlf @
     ''Content-Type: application/x-www-form-urlencoded'' @ crlf @ ''X-CommonFPS: 1'' @ crlf @
     ''Content-Length: 111'' @ crlf @ crlf @ page_body"

lemma page_parses: "parse_request page_text = Some page_request"
  by code_simp

lemma page_form: "parse_settings_form page_body = Some default_config"
proof -
  have "hex_text 0xB366FF = ''B366FF''" "hex_text 0xFFFFFF = ''FFFFFF''" "decimal 22 = ''22''"
    by (simp_all add: hex_text.simps decimal.simps hex_char_def digit_char_def) code_simp+
  then have "corner_name (corner default_config) = ''bottom_left''" "show_int (font_size default_config) = ''22''"
    "form_color_text (label_color default_config) = ''%23B366FF''"
    "form_color_text (value_color default_config) = ''%23FFFFFF''" "show_label default_config"
    by (simp_all add: default_config_def overlay_constants show_int_def form_color_text_def color_mask_id zero_filled_def)
  moreover have "float_text (margin_x default_config) = decimal 10" "float_text (margin_y default_config) = decimal 4"
    using magnitude_text_nat [of 10] magnitude_text_nat [of 4]
    by (simp_all add: default_config_def overlay_constants)
  moreover have "decimal 10 = ''10''" "decimal 4 = ''4''"
    by (simp_all add: decimal.simps digit_char_def) code_simp+
  ultimately have "form_text default_config = page_body"
    by (simp add: form_text_def form_field_def page_body_def)
  with form_accepted [OF default_config_ok default_pixels] show ?thesis by simp
qed

lemma page_response:
  "settings_http_response px page_text page s e =
     (case store_save px default_config s e of
        None \<Rightarrow> None
      | Some (ok, s', e') \<Rightarrow>
          Some (if \<not> ok then response 500 ''Internal Server Error'' (''Cannot save settings'' @ [CHR 0x0A]) plain_text
                else ok_config (store_get s'), s', e'))"
proof -
  have "header page_request ''host'' = kSettingsHost" "\<not> has_header page_request ''transfer-encoding''"
    "length_matches page_request" "trusted_post page_request"
    by code_simp+
  then show ?thesis
    by (simp add: settings_http_response_def page_parses answer_request_def post_config_def page_form)
      (simp add: page_request_def page_form post_config_def)
qed

theorem only_trusted_posts_change_settings_witness:
  "\<exists>reply s' d'. settings_http_response disk_posix page_text [] toy_store (toy_settings_disk []) = Some (reply, s', d')
     \<and> d' \<noteq> toy_settings_disk [] \<and> starts_with ''POST /api/config HTTP/1.'' page_text"
proof -
  obtain s' d' where save: "store_save disk_posix default_config toy_store (toy_settings_disk []) = Some (True, s', d')"
    using toy_save_succeeds by blast
  have "sd_files d' ''c'' = Some (serialize_config default_config)"
    using sd.atomic_write_effect [OF store_save_cases(1) [OF save]] by (simp add: toy_store_def sanitize_config_id default_config_ok)
  moreover have "serialize_config default_config \<noteq> ''font_size=64''" by (simp add: serialize_config_def config_lines_def)
  ultimately have "d' \<noteq> toy_settings_disk []" by (auto simp: toy_settings_disk_def)
  moreover obtain reply where r: "settings_http_response disk_posix page_text [] toy_store (toy_settings_disk []) = Some (reply, s', d')"
    by (simp add: page_response save)
  ultimately show ?thesis
    using only_trusted_posts_change_settings [OF r] by blast
qed

section \<open>Replies\<close>

definition framed :: "string \<Rightarrow> bool" where
  "framed reply \<longleftrightarrow>
     (\<exists>pre post body. cut_text blank_line reply
        = Some (''HTTP/1.1 '' @ pre @ crlf @ ''Content-Length: '' @ decimal (length body) @ crlf @ post, body))"

lemma decimal_no_return: "CHR 0x0D \<notin> set (decimal n)"
  by (auto dest!: decimal_is_digit simp: is_digit_def)

lemma response_framed:
  assumes "CHR 0x0D \<notin> set reason" "CHR 0x0D \<notin> set type" "type \<noteq> []"
  shows "framed (response status reason body type)"
proof -
  have line: "cut_text blank_line (x @ crlf @ y) = map_option (\<lambda>(a, b). (x @ crlf @ a, b)) (cut_text blank_line y)"
    if "CHR 0x0D \<notin> set x" "y \<noteq> []" "hd y \<noteq> CHR 0x0D" for x y
    using that by (simp add: cut_blank_skip cut_blank_line option.map_comp comp_def split_def)
  have final: "cut_text blank_line (x @ crlf @ crlf @ b) = Some (x, b)" if "CHR 0x0D \<notin> set x" for x b
    using that by (simp add: cut_blank_skip cut_blank_found)
  define l1 where "l1 = ''HTTP/1.1 '' @ decimal status @ '' '' @ reason"
  define l2 where "l2 = ''Content-Type: '' @ type"
  define l3 where "l3 = ''Content-Length: '' @ decimal (length body)"
  define l7 where "l7 = ''Content-Security-Policy: default-src '' @ quoted ''self'' @ ''; script-src '' @ quoted ''self'' @ '' '' @
     quoted ''unsafe-inline'' @ ''; style-src '' @ quoted ''self'' @ '' '' @ quoted ''unsafe-inline'' @
     ''; connect-src '' @ quoted ''self'' @ ''; img-src '' @ quoted ''self'' @ '' data:; frame-ancestors '' @ quoted ''none''"
  let ?tail = "''Connection: close'' @ crlf @ ''Cache-Control: no-store'' @ crlf @ ''X-Content-Type-Options: nosniff'' @
     crlf @ ''X-Frame-Options: DENY'' @ crlf @ l7"
  have plain: "CHR 0x0D \<notin> set l1" "CHR 0x0D \<notin> set l2" "CHR 0x0D \<notin> set l3" "CHR 0x0D \<notin> set l7"
    using assms by (simp_all add: l1_def l2_def l3_def l7_def quoted_def decimal_no_return)
  have heads: "l2 \<noteq> []" "hd l2 \<noteq> CHR 0x0D" "l3 \<noteq> []" "hd l3 \<noteq> CHR 0x0D" "l7 \<noteq> []" "hd l7 \<noteq> CHR 0x0D"
    by (simp_all add: l2_def l3_def l7_def)
  have "cut_text blank_line (?tail @ crlf @ crlf @ body) = Some (?tail, body)"
    using plain(4) heads(5,6) line [of "''Connection: close''"] line [of "''Cache-Control: no-store''"]
      line [of "''X-Content-Type-Options: nosniff''"] line [of "''X-Frame-Options: DENY''"] final [OF plain(4), of body]
    by simp
  moreover have "response status reason body type = l1 @ crlf @ l2 @ crlf @ l3 @ crlf @ ?tail @ crlf @ crlf @ body"
    by (simp add: response_def l1_def l2_def l3_def l7_def)
  ultimately have "cut_text blank_line (response status reason body type)
      = Some (l1 @ crlf @ l2 @ crlf @ l3 @ crlf @ ?tail, body)"
    using heads by (simp add: line plain)
  then show ?thesis unfolding framed_def l1_def l3_def
    by (intro exI [of _ "decimal status @ '' '' @ reason @ crlf @ l2"] exI [of _ ?tail] exI [of _ body]) simp
qed

text \<open>
  Every reply is one well-framed HTTP message: the first blank line ends its head, the
  head announces exactly the length of what follows, and an unchanged store answers with the
  configuration it holds, so that nothing posted or configured can split a response.
\<close>

theorem every_reply_framed:
  assumes "settings_http_response px request page s e = Some (reply, s', e')"
  shows "framed reply"
proof -
  have types: "CHR 0x0D \<notin> set plain_text" "plain_text \<noteq> []" by (simp_all add: plain_text_def)
  have post: "framed reply" if "post_config px r s e = Some (reply, s', e')" for r
    using that by (auto simp: post_config_def ok_config_def types intro!: response_framed split: if_splits option.splits)
  have "framed bad" by (simp add: bad_def types response_framed)
  with assms post show ?thesis
    by (auto simp: settings_http_response_def answer_request_def ok_config_def types intro!: response_framed
        split: if_splits option.splits)
qed

theorem every_reply_framed_witness:
  "framed (fst (the (settings_http_response disk_posix ''GET /x HTTP/1.1'' [] toy_store (toy_settings_disk []))))"
proof -
  have "settings_http_response disk_posix ''GET /x HTTP/1.1'' [] toy_store (toy_settings_disk [])
      = Some (bad, toy_store, toy_settings_disk [])"
    by (simp add: settings_http_response_def parse_request_def kMaxSettingsBytes_def crlf_def cut_text.simps)
  from every_reply_framed [OF this] this show ?thesis by simp
qed

section \<open>Reading back\<close>

definition get_text :: string where
  "get_text = ''GET /api/config HTTP/1.1'' @ crlf @ ''Host: 127.0.0.1:39029'' @ crlf @ crlf"

lemma get_answers: "settings_http_response px get_text page s e = Some (ok_config (store_get s), s, e)"
proof -
  have "parse_request get_text = Some \<lparr>http_method = ''GET'', http_path = ''/api/config'',
      http_fields = [(''host'', kSettingsHost)], http_body = []\<rparr>" by code_simp
  then show ?thesis
    by (simp add: settings_http_response_def answer_request_def header_def has_header_def length_matches_def)
qed

text \<open>
  (C31) What is posted is what is read: after a POST that was answered with success, the page
  reads back exactly the configuration of the form it posted, and the success itself carries
  it.
\<close>

theorem post_then_get:
  assumes "settings_http_response px request page s e = Some (reply, s', e')"
    and "s' \<noteq> s" "parse_request request = Some r"
  shows "\<exists>cfg. parse_settings_form (http_body r) = Some cfg \<and> reply = ok_config cfg \<and> st_config s' = cfg
    \<and> settings_http_response px get_text page s' e' = Some (ok_config cfg, s', e')"
proof -
  from assms have "post_config px r s e = Some (reply, s', e')"
    by (auto simp: settings_http_response_def answer_request_def split: if_splits)
  then obtain cfg ok where cfg: "parse_settings_form (http_body r) = Some cfg"
    and save: "store_save px cfg s e = Some (ok, s', e')" and reply: "ok \<Longrightarrow> reply = ok_config (store_get s')"
    using assms(2) by (auto simp: post_config_def split: if_splits option.splits)
  from store_save_cases(2) [OF save] assms(2) have "ok" "st_config s' = sanitize_config cfg" by (auto split: if_splits)
  with form_result_ok(1) [OF cfg] reply show ?thesis
    by (simp add: cfg get_answers store_get_def sanitize_config_id)
qed

theorem post_then_get_witness:
  "\<exists>s' d'. settings_http_response disk_posix page_text [] (toy_store\<lparr>st_config := default_config\<lparr>font_size := 30\<rparr>\<rparr>)
     (toy_settings_disk []) = Some (ok_config default_config, s', d')"
proof -
  let ?s = "toy_store\<lparr>st_config := default_config\<lparr>font_size := 30\<rparr>\<rparr>"
  obtain s1 d' where "store_save disk_posix default_config toy_store (toy_settings_disk []) = Some (True, s1, d')"
    using toy_save_succeeds by blast
  then have save: "store_save disk_posix default_config ?s (toy_settings_disk [])
      = Some (True, ?s\<lparr>st_config := sanitize_config default_config\<rparr>, d')"
    by (auto simp: store_save_def Let_def split: option.splits)
  let ?t = "?s\<lparr>st_config := sanitize_config default_config\<rparr>"
  obtain reply where r: "settings_http_response disk_posix page_text [] ?s (toy_settings_disk []) = Some (reply, ?t, d')"
    by (simp add: page_response save)
  have "?t \<noteq> ?s"
    by (simp add: toy_store_def sanitize_config_id default_config_ok) (simp add: default_config_def overlay_constants)
  from post_then_get [OF r this page_parses] r show ?thesis
    by (auto simp: sanitize_config_id default_config_ok)
qed

end
