(* ===== verification/Settings_Service.thy ===== *)
theory Settings_Service
  imports Settings_Http
begin

text \<open>
  The settings service (\<^verbatim>\<open>src/ps5/settings_service.cpp\<close>): a request is collected
  from the socket in whatever pieces it arrives, answered by the settings page's HTTP function
  and the answer is sent in whatever pieces the socket takes.  Sockets, threads and the clock
  are a record of functions over an environment.
\<close>

section \<open>The socket\<close>

datatype recv_result = Received string | RecvInterrupted | RecvEnd
datatype send_result = Sent nat | SendInterrupted | SendEnd
datatype accept_result = Accepted int | AcceptInterrupted | AcceptError

text \<open>\<open>Received []\<close> is the zero of a closed connection, \<open>RecvEnd\<close> any other error.\<close>

record 'e service_api =
  so_clock_ms :: "'e \<Rightarrow> u64 \<times> 'e"
  so_timeouts :: "int \<Rightarrow> nat \<Rightarrow> 'e \<Rightarrow> 'e"
  so_recv :: "int \<Rightarrow> nat \<Rightarrow> 'e \<Rightarrow> recv_result \<times> 'e"
  so_send :: "int \<Rightarrow> string \<Rightarrow> 'e \<Rightarrow> send_result \<times> 'e"
  so_log_saved :: "overlay_config \<Rightarrow> 'e \<Rightarrow> 'e"
  so_accept :: "int \<Rightarrow> 'e \<Rightarrow> accept_result \<times> 'e"
  so_close :: "int \<Rightarrow> 'e \<Rightarrow> 'e"
  so_usleep :: "nat \<Rightarrow> 'e \<Rightarrow> 'e"
  so_socket :: "'e \<Rightarrow> int \<times> 'e"
  so_reuse_address :: "int \<Rightarrow> 'e \<Rightarrow> 'e"
  so_bind :: "int \<Rightarrow> nat \<Rightarrow> 'e \<Rightarrow> bool \<times> 'e"
  so_listen :: "int \<Rightarrow> nat \<Rightarrow> 'e \<Rightarrow> bool \<times> 'e"
  so_spawn :: "int \<Rightarrow> 'e \<Rightarrow> bool \<times> 'e"
  so_log_online :: "'e \<Rightarrow> 'e"

section \<open>Receiving\<close>

text \<open>The number behind blanks and a sign, as \<^verbatim>\<open>strtoul\<close> reads it.\<close>

definition strtoul :: "string \<Rightarrow> nat" where
  "strtoul s =
     (let r = dropWhile isspace s;
          negative = (r \<noteq> [] \<and> hd r = CHR ''-'');
          digits = takeWhile is_digit (if r \<noteq> [] \<and> (hd r = CHR ''-'' \<or> hd r = CHR ''+'') then tl r else r);
          v = digits_value digits
      in if 2 ^ 64 \<le> v then 2 ^ 64 - 1 else if negative then (2 ^ 64 - v) mod 2 ^ 64 else v)"

definition announced_length :: "string \<Rightarrow> nat" where
  "announced_length headers =
     (case cut_text (crlf @ ''content-length:'') (map lower headers) of None \<Rightarrow> 0 | Some (_, behind) \<Rightarrow> strtoul behind)"

text \<open>The end of the headers is looked for up to a NUL only.\<close>

definition request_complete :: "string \<Rightarrow> bool" where
  "request_complete buffer \<longleftrightarrow>
     (case cut_text (crlf @ crlf) (c_str buffer) of
        None \<Rightarrow> False
      | Some (headers, _) \<Rightarrow>
          let n = announced_length headers in 512 < n \<or> length headers + 4 + n \<le> length buffer)"

text \<open>The loop repeats an interrupted call; \<open>None\<close> is a loop that never ends.\<close>

partial_function (option) receive_request :: "'e service_api \<Rightarrow> int \<Rightarrow> u64 \<Rightarrow> string \<Rightarrow> 'e \<Rightarrow> (string \<times> 'e) option" where
  "receive_request so fd deadline buffer e =
     (if kMaxSettingsBytes \<le> length buffer then Some (buffer, e)
      else case so_clock_ms so e of
             (now, e1) \<Rightarrow>
               if deadline \<le> now then Some (buffer, e1)
               else case so_recv so fd (kMaxSettingsBytes - length buffer) e1 of
                      (r, e2) \<Rightarrow>
                        (case r of
                           RecvInterrupted \<Rightarrow> receive_request so fd deadline buffer e2
                         | RecvEnd \<Rightarrow> Some (buffer, e2)
                         | Received d \<Rightarrow>
                             if d = [] then Some (buffer, e2)
                             else if request_complete (buffer @ d) then Some (buffer @ d, e2)
                             else receive_request so fd deadline (buffer @ d) e2))"

section \<open>Answering\<close>

partial_function (option) send_reply :: "'e service_api \<Rightarrow> int \<Rightarrow> u64 \<Rightarrow> string \<Rightarrow> 'e \<Rightarrow> 'e option" where
  "send_reply so fd deadline rest e =
     (if rest = [] then Some e
      else case so_clock_ms so e of
             (now, e1) \<Rightarrow>
               if deadline \<le> now then Some e1
               else case so_send so fd rest e1 of
                      (r, e2) \<Rightarrow>
                        (case r of
                           SendInterrupted \<Rightarrow> send_reply so fd deadline rest e2
                         | SendEnd \<Rightarrow> Some e2
                         | Sent n \<Rightarrow> if n = 0 then Some e2 else send_reply so fd deadline (drop n rest) e2))"

definition client ::
  "'e service_api \<Rightarrow> 'e posix \<Rightarrow> string \<Rightarrow> int \<Rightarrow> settings_store \<Rightarrow> 'e \<Rightarrow> (settings_store \<times> 'e) option" where
  "client so px page fd store e =
     (case so_clock_ms so (so_timeouts so fd 1 e) of
        (now, e1) \<Rightarrow>
          (case receive_request so fd (now + 2000) [] e1 of
             None \<Rightarrow> None
           | Some (request, e2) \<Rightarrow>
               (case settings_http_response px request page store e2 of
                  None \<Rightarrow> None
                | Some (reply, store1, e3) \<Rightarrow>
                    (case so_clock_ms so (if starts_with ''POST /api/config '' request \<and> starts_with ''HTTP/1.1 200 '' reply
                                          then so_log_saved so (store_get store1) e3 else e3) of
                       (now1, e4) \<Rightarrow>
                         (case send_reply so fd (now1 + 2000) reply e4 of
                            None \<Rightarrow> None | Some e5 \<Rightarrow> Some (store1, e5))))))"

text \<open>One turn of the service thread.\<close>

definition serve_once ::
  "'e service_api \<Rightarrow> 'e posix \<Rightarrow> string \<Rightarrow> int \<Rightarrow> settings_store \<Rightarrow> 'e \<Rightarrow> (settings_store \<times> 'e) option" where
  "serve_once so px page listener store e =
     (case so_accept so listener e of
        (AcceptInterrupted, e1) \<Rightarrow> Some (store, e1)
      | (AcceptError, e1) \<Rightarrow> Some (store, so_usleep so 100000 e1)
      | (Accepted fd, e1) \<Rightarrow>
          (case client so px page fd store e1 of
             None \<Rightarrow> None | Some (store1, e2) \<Rightarrow> Some (store1, so_close so fd e2)))"

definition kSettingsPort :: nat where "kSettingsPort = 39029"

definition start_settings_service :: "'e service_api \<Rightarrow> 'e \<Rightarrow> bool \<times> 'e" where
  "start_settings_service so e =
     (case so_socket so e of
        (fd, e1) \<Rightarrow>
          if fd < 0 then (False, e1)
          else case so_bind so fd kSettingsPort (so_reuse_address so fd e1) of
                 (bound, e2) \<Rightarrow>
                   (case (if bound then so_listen so fd 4 e2 else (False, e2)) of
                      (False, e3) \<Rightarrow> (False, so_close so fd e3)
                    | (True, e3) \<Rightarrow>
                        (case so_spawn so fd e3 of
                           (False, e4) \<Rightarrow> (False, so_close so fd e4)
                         | (True, e4) \<Rightarrow> (True, so_log_online so e4))))"

section \<open>Where a request ends\<close>

text \<open>A request that announces the length it has.\<close>

definition exact_request :: "string \<Rightarrow> bool" where
  "exact_request r \<longleftrightarrow> list_all (\<lambda>c. c \<noteq> CHR 0x00) r \<and> length r \<le> kMaxSettingsBytes \<and>
     (case cut_text (crlf @ crlf) r of
        None \<Rightarrow> False | Some (headers, body) \<Rightarrow> announced_length headers = length body \<and> length body \<le> 512)"

lemma starts_with_append: "length p \<le> length s \<Longrightarrow> starts_with p (s @ t) = starts_with p s"
  by (induction p s rule: starts_with.induct) auto

lemma starts_with_length: "starts_with p s \<Longrightarrow> length p \<le> length s"
  by (induction p s rule: starts_with.induct) auto

lemma cut_text_append:
  "cut_text p s = Some (a, b) \<Longrightarrow> cut_text p (s @ t) = Some (a, b @ t)"
proof (induction p s arbitrary: a rule: cut_text.induct)
  case (1 p)
  then show ?case by (cases t) (auto simp: cut_text.simps split: if_splits)
next
  case (2 p c cs)
  have len: "length p \<le> length (c # cs)" using cut_text_length [OF "2.prems"] by simp
  show ?case
  proof (cases "starts_with p (c # cs)")
    case True
    have "drop (length p) ((c # cs) @ t) = drop (length p) (c # cs) @ t" using len by (subst drop_append) simp
    then show ?thesis using True "2.prems" starts_with_append [OF len, of t] len by (auto simp: cut_text.simps)
  next
    case False
    then obtain a' where "a = c # a'" "cut_text p cs = Some (a', b)" using "2.prems" by (auto simp: cut_text.simps)
    then show ?thesis using "2.IH" [OF False, of a'] False starts_with_append [OF len, of t] by (simp add: cut_text.simps)
  qed
qed

lemma c_str_plain: "list_all (\<lambda>c. c \<noteq> CHR 0x00) s \<Longrightarrow> c_str s = s"
  by (simp add: c_str_def list_all_iff takeWhile_eq_all_conv)

lemma exact_request_complete: "exact_request r \<Longrightarrow> request_complete r"
  by (auto simp: exact_request_def request_complete_def c_str_plain crlf_def Let_def split: option.splits dest: cut_text_length)

lemma exact_request_not_before:
  assumes "exact_request (b @ t)" "t \<noteq> []"
  shows "\<not> request_complete b"
proof
  assume complete: "request_complete b"
  have plain: "c_str b = b" using assms(1) by (intro c_str_plain) (simp add: exact_request_def)
  obtain headers x where cut: "cut_text (crlf @ crlf) b = Some (headers, x)"
    and n: "512 < announced_length headers \<or> length headers + 4 + announced_length headers \<le> length b"
    using complete by (auto simp: request_complete_def plain Let_def split: option.splits)
  have "announced_length headers = length (x @ t)" "length (x @ t) \<le> 512"
    using assms(1) cut_text_append [OF cut, of t] by (simp_all add: exact_request_def)
  moreover have "length b = length headers + 4 + length x" using cut_text_length [OF cut] by (simp add: crlf_def)
  moreover have "0 < length t" using assms(2) by simp
  ultimately show False using n by simp
qed

section \<open>A scripted connection\<close>

text \<open>
  What arrives, what the peer takes and how the time passes are scripts; the rest of the
  environment is whatever the settings are stored in.  \<open>RecvEnd\<close> and \<open>SendEnd\<close> are
  the errors, the socket's own time limits among them.  A chunk that is longer than the buffer
  stays for the next call; \<open>Sent k\<close> takes at most \<open>k\<close> characters; the clock moves on by
  the next number of milliseconds at every look at it.  When the scripts are over nothing more
  arrives, everything is taken and the clock stands.
\<close>

record connection =
  cn_in :: "recv_result list"
  cn_takes :: "send_result list"
  cn_out :: string
  cn_now :: u64
  cn_steps :: "nat list"

definition cn_clock :: "connection \<Rightarrow> u64 \<times> connection" where
  "cn_clock c =
     (case cn_steps c of
        [] \<Rightarrow> (cn_now c, c)
      | d # ds \<Rightarrow> (cn_now c + of_nat d, c\<lparr>cn_now := cn_now c + of_nat d, cn_steps := ds\<rparr>))"

definition cn_recv :: "nat \<Rightarrow> connection \<Rightarrow> recv_result \<times> connection" where
  "cn_recv n c =
     (case cn_in c of
        [] \<Rightarrow> (RecvEnd, c)
      | Received d # es \<Rightarrow>
          if length d \<le> n then (Received d, c\<lparr>cn_in := es\<rparr>)
          else (Received (take n d), c\<lparr>cn_in := Received (drop n d) # es\<rparr>)
      | x # es \<Rightarrow> (x, c\<lparr>cn_in := es\<rparr>))"

definition cn_send :: "string \<Rightarrow> connection \<Rightarrow> send_result \<times> connection" where
  "cn_send data c =
     (case cn_takes c of
        [] \<Rightarrow> (Sent (length data), c\<lparr>cn_out := cn_out c @ data\<rparr>)
      | Sent k # es \<Rightarrow> (Sent (min k (length data)), c\<lparr>cn_takes := es, cn_out := cn_out c @ take k data\<rparr>)
      | x # es \<Rightarrow> (x, c\<lparr>cn_takes := es\<rparr>))"

definition on_connection :: "(connection \<Rightarrow> 'a \<times> connection) \<Rightarrow> connection \<times> 'd \<Rightarrow> 'a \<times> (connection \<times> 'd)" where
  "on_connection f = (\<lambda>(c, d). case f c of (r, c') \<Rightarrow> (r, (c', d)))"

definition scripted_service :: "(connection \<times> 'd) service_api" where
  "scripted_service =
     \<lparr>so_clock_ms = on_connection cn_clock, so_timeouts = \<lambda>fd s e. e,
      so_recv = \<lambda>fd n. on_connection (cn_recv n), so_send = \<lambda>fd data. on_connection (cn_send data),
      so_log_saved = \<lambda>cfg e. e, so_accept = \<lambda>fd e. (AcceptError, e), so_close = \<lambda>fd e. e, so_usleep = \<lambda>us e. e,
      so_socket = \<lambda>e. (-1, e), so_reuse_address = \<lambda>fd e. e, so_bind = \<lambda>fd port e. (False, e),
      so_listen = \<lambda>fd n e. (False, e), so_spawn = \<lambda>fd e. (False, e), so_log_online = \<lambda>e. e\<rparr>"

lemma scripted_calls:
  "so_clock_ms scripted_service (c, d) = (fst (cn_clock c), (snd (cn_clock c), d))" "so_timeouts scripted_service fd s e = e"
  "so_recv scripted_service fd n (c, d) = (fst (cn_recv n c), (snd (cn_recv n c), d))"
  "so_send scripted_service fd data (c, d) = (fst (cn_send data c), (snd (cn_send data c), d))"
  "so_log_saved scripted_service cfg e = e"
  by (simp_all add: scripted_service_def on_connection_def split: prod.splits)

definition data_of :: "recv_result \<Rightarrow> string" where
  "data_of r = (case r of Received d \<Rightarrow> d | _ \<Rightarrow> [])"

definition arriving :: "connection \<Rightarrow> string" where
  "arriving c = concat (map data_of (cn_in c))"

lemma clock_fields [simp]:
  "cn_in (snd (cn_clock c)) = cn_in c" "cn_takes (snd (cn_clock c)) = cn_takes c" "cn_out (snd (cn_clock c)) = cn_out c"
  "arriving (snd (cn_clock c)) = arriving c"
  by (auto simp: cn_clock_def arriving_def split: list.splits)

subsection \<open>Any connection\<close>

text \<open>One call takes a piece from the front of what arrives, and the script gets shorter.\<close>

definition script_size :: "connection \<Rightarrow> nat" where
  "script_size c = sum_list (map (\<lambda>r. Suc (length (data_of r))) (cn_in c))"

lemma recv_piece:
  assumes "cn_recv n c = (r, c')" "0 < n"
  shows "arriving c = data_of r @ arriving c'" "length (data_of r) \<le> n" "cn_takes c' = cn_takes c" "cn_out c' = cn_out c"
    "r \<noteq> RecvEnd \<Longrightarrow> script_size c' < script_size c"
  using assms by (auto simp: cn_recv_def arriving_def data_of_def script_size_def split: list.splits recv_result.splits if_splits)

lemma receive_any:
  assumes "length buffer \<le> kMaxSettingsBytes"
  shows "\<exists>data c' more. receive_request scripted_service fd deadline buffer (c, d) = Some (buffer @ data, (c', d)) \<and>
    arriving c = data @ more \<and> length (buffer @ data) \<le> kMaxSettingsBytes \<and> cn_takes c' = cn_takes c \<and> cn_out c' = cn_out c"
  using assms
proof (induction "script_size c" arbitrary: buffer c rule: less_induct)
  case less
  let ?now = "fst (cn_clock c)" and ?c1 = "snd (cn_clock c)" and ?room = "kMaxSettingsBytes - length buffer"
  obtain r c2 where 2: "cn_recv ?room ?c1 = (r, c2)" by (cases "cn_recv ?room ?c1")
  have size: "script_size ?c1 = script_size c" by (simp add: script_size_def)
  have step: "receive_request scripted_service fd deadline buffer (c, d) =
      (if kMaxSettingsBytes \<le> length buffer then Some (buffer, (c, d))
       else if deadline \<le> ?now then Some (buffer, (?c1, d))
       else case r of
              RecvInterrupted \<Rightarrow> receive_request scripted_service fd deadline buffer (c2, d)
            | RecvEnd \<Rightarrow> Some (buffer, (c2, d))
            | Received y \<Rightarrow>
                if y = [] then Some (buffer, (c2, d))
                else if request_complete (buffer @ y) then Some (buffer @ y, (c2, d))
                else receive_request scripted_service fd deadline (buffer @ y) (c2, d))"
    by (subst receive_request.simps) (simp add: scripted_calls 2 split: recv_result.splits)
  show ?case
  proof (cases "kMaxSettingsBytes \<le> length buffer \<or> deadline \<le> ?now")
    case True
    then show ?thesis using step less.prems by auto
  next
    case False
    then have "0 < ?room" by simp
    note p = recv_piece [OF 2 this]
    have more: "arriving c = data_of r @ arriving c2" using p(1) by simp
    show ?thesis
    proof (cases r)
      case (Received y)
      have y: "data_of r = y" "length (buffer @ y) \<le> kMaxSettingsBytes"
        using p(2) False by (auto simp: Received data_of_def)
      have "\<exists>data c' more. receive_request scripted_service fd deadline (buffer @ y) (c2, d) = Some ((buffer @ y) @ data, (c', d)) \<and>
          arriving c2 = data @ more \<and> length ((buffer @ y) @ data) \<le> kMaxSettingsBytes \<and> cn_takes c' = cn_takes c2 \<and> cn_out c' = cn_out c2"
        by (rule less.hyps) (use p(5) y size Received in simp_all)
      then obtain data c' m where ih: "receive_request scripted_service fd deadline (buffer @ y) (c2, d) = Some ((buffer @ y) @ data, (c', d))"
          "arriving c2 = data @ m" "length ((buffer @ y) @ data) \<le> kMaxSettingsBytes" "cn_takes c' = cn_takes c2" "cn_out c' = cn_out c2"
        by blast
      show ?thesis
      proof (cases "y = [] \<or> request_complete (buffer @ y)")
        case True
        then show ?thesis using step False Received more y p(3,4) less.prems
          by (intro exI [of _ y] exI [of _ c2] exI [of _ "arriving c2"]) (auto split: if_splits)
      next
        case unfinished: False
        then show ?thesis using step False Received more y p(3,4) ih
          by (intro exI [of _ "y @ data"] exI [of _ c'] exI [of _ m]) simp
      qed
    next
      case RecvInterrupted
      then show ?thesis using step False more p(3-5) less.hyps [of c2 buffer] size less.prems by (simp add: data_of_def)
    next
      case RecvEnd
      then show ?thesis using step False more p(3,4) less.prems by (simp add: data_of_def)
    qed
  qed
qed

lemma send_any:
  "\<exists>c' sent unsent. send_reply scripted_service fd deadline rest (c, d) = Some (c', d) \<and>
     cn_out c' = cn_out c @ sent \<and> rest = sent @ unsent"
proof (induction "length (cn_takes c)" arbitrary: c rest)
  case 0
  let ?c1 = "snd (cn_clock c)"
  have "cn_takes ?c1 = []" using 0 by simp
  then have "cn_send rest ?c1 = (Sent (length rest), ?c1\<lparr>cn_out := cn_out c @ rest\<rparr>)" by (simp add: cn_send_def)
  then show ?case
    by (subst send_reply.simps) (simp add: scripted_calls send_reply.simps [of _ _ _ "[]"])
next
  case (Suc n)
  let ?c1 = "snd (cn_clock c)"
  obtain x xs where c: "cn_takes c = x # xs" using Suc(2) by (cases "cn_takes c") auto
  have ih: "\<exists>c' sent unsent. send_reply scripted_service fd deadline ys (c2, d) = Some (c', d) \<and>
      cn_out c' = cn_out c2 @ sent \<and> ys = sent @ unsent" if "cn_takes c2 = xs" for ys c2
    by (rule Suc(1)) (use Suc(2) c that in simp)
  show ?case
  proof (cases x)
    case (Sent k)
    let ?c2 = "?c1\<lparr>cn_takes := xs, cn_out := cn_out c @ take k rest\<rparr>"
    have s: "cn_send rest ?c1 = (Sent (min k (length rest)), ?c2)" using c Sent by (simp add: cn_send_def)
    obtain c' sent unsent where i: "send_reply scripted_service fd deadline (drop k rest) (?c2, d) = Some (c', d)"
        "cn_out c' = cn_out ?c2 @ sent" "drop k rest = sent @ unsent"
      using ih [of ?c2 "drop k rest"] by auto
    have z: "min k (length rest) = 0 \<longleftrightarrow> k = 0 \<or> rest = []" by (cases rest) (auto simp: min_def)
    have "drop (min k (length rest)) rest = drop k rest" by (simp add: min_def)
    then have step: "send_reply scripted_service fd deadline rest (c, d) =
        (if rest = [] then Some (c, d) else if deadline \<le> fst (cn_clock c) then Some (?c1, d)
         else if k = 0 then Some (?c2, d) else Some (c', d))"
      using i(1) z by (subst send_reply.simps) (simp add: scripted_calls s)
    show ?thesis
    proof (cases "rest = [] \<or> deadline \<le> fst (cn_clock c) \<or> k = 0")
      case True
      then show ?thesis using step by auto
    next
      case False
      then have "send_reply scripted_service fd deadline rest (c, d) = Some (c', d)" using step by auto
      moreover have "cn_out c' = cn_out c @ (take k rest @ sent)" using i(2) by simp
      moreover have "rest = (take k rest @ sent) @ unsent" using i(3) by (metis append.assoc append_take_drop_id)
      ultimately show ?thesis by blast
    qed
  next
    case SendInterrupted
    then have "cn_send rest ?c1 = (SendInterrupted, ?c1\<lparr>cn_takes := xs\<rparr>)" using c by (simp add: cn_send_def)
    then show ?thesis using ih [of "?c1\<lparr>cn_takes := xs\<rparr>" rest] by (subst send_reply.simps) (simp add: scripted_calls)
  next
    case SendEnd
    then have "cn_send rest ?c1 = (SendEnd, ?c1\<lparr>cn_takes := xs\<rparr>)" using c by (simp add: cn_send_def)
    then show ?thesis by (subst send_reply.simps) (simp add: scripted_calls)
  qed
qed

subsection \<open>A connection in time\<close>

text \<open>The clock never passes the time its script adds up to.\<close>

definition clock_end :: "connection \<Rightarrow> nat" where
  "clock_end c = unat (cn_now c) + sum_list (cn_steps c)"

lemma clock_reads:
  assumes "clock_end c < 2 ^ 64"
  shows "clock_end (snd (cn_clock c)) = clock_end c" "unat (fst (cn_clock c)) \<le> clock_end c"
    "fst (cn_clock c) = cn_now (snd (cn_clock c))" "sum_list (cn_steps (snd (cn_clock c))) \<le> sum_list (cn_steps c)"
proof -
  have "clock_end (snd (cn_clock c)) = clock_end c \<and> unat (fst (cn_clock c)) \<le> clock_end c \<and>
      fst (cn_clock c) = cn_now (snd (cn_clock c)) \<and> sum_list (cn_steps (snd (cn_clock c))) \<le> sum_list (cn_steps c)"
  proof (cases "cn_steps c")
    case (Cons m ms)
    then have "unat (cn_now c) + m < 2 ^ 64" using assms by (simp add: clock_end_def)
    then have "unat (cn_now c + of_nat m) = unat (cn_now c) + m"
      by (subst unat_add_fits) (simp_all add: unat_of_nat take_bit_nat_eq_self)
    then show ?thesis using Cons by (simp add: cn_clock_def clock_end_def)
  qed (simp add: cn_clock_def clock_end_def)
  then show "clock_end (snd (cn_clock c)) = clock_end c" "unat (fst (cn_clock c)) \<le> clock_end c"
    "fst (cn_clock c) = cn_now (snd (cn_clock c))" "sum_list (cn_steps (snd (cn_clock c))) \<le> sum_list (cn_steps c)" by blast+
qed

lemma clock_before:
  assumes "clock_end c < unat (deadline :: u64)"
  shows "\<not> deadline \<le> fst (cn_clock c)" "clock_end (snd (cn_clock c)) = clock_end c"
    "sum_list (cn_steps (snd (cn_clock c))) \<le> sum_list (cn_steps c)"
proof -
  have "clock_end c < 2 ^ 64" using assms unat_u64 [of deadline] by simp
  from clock_reads [OF this] show "\<not> deadline \<le> fst (cn_clock c)" "clock_end (snd (cn_clock c)) = clock_end c"
    "sum_list (cn_steps (snd (cn_clock c))) \<le> sum_list (cn_steps c)"
    using assms by (simp_all add: word_le_nat_alt)
qed

definition goes_on :: "recv_result \<Rightarrow> bool" where
  "goes_on r \<longleftrightarrow> r \<noteq> RecvEnd \<and> r \<noteq> Received []"

definition takes_some :: "send_result \<Rightarrow> bool" where
  "takes_some r \<longleftrightarrow> r \<noteq> SendEnd \<and> r \<noteq> Sent 0"

lemma receive_split:
  assumes "exact_request (buffer @ concat (map data_of es))" "list_all goes_on es" "concat (map data_of es) \<noteq> []"
    and "cn_in c = es @ later" "clock_end c < unat deadline"
  shows "\<exists>c'. receive_request scripted_service fd deadline buffer (c, d) = Some (buffer @ concat (map data_of es), (c', d)) \<and>
    cn_takes c' = cn_takes c \<and> cn_out c' = cn_out c \<and> clock_end c' = clock_end c \<and> sum_list (cn_steps c') \<le> sum_list (cn_steps c)"
  using assms
proof (induction es arbitrary: buffer c)
  case Nil
  then show ?case by simp
next
  case (Cons x es)
  have room: "length buffer < kMaxSettingsBytes" "length (buffer @ concat (map data_of (x # es))) \<le> kMaxSettingsBytes"
  proof -
    show all: "length (buffer @ concat (map data_of (x # es))) \<le> kMaxSettingsBytes" using Cons.prems(1) by (simp add: exact_request_def)
    have "0 < length (concat (map data_of (x # es)))" using Cons.prems(3) by (simp only: length_greater_0_conv simp_thms)
    then show "length buffer < kMaxSettingsBytes" using all by (simp only: length_append)
  qed
  note now = clock_before [OF Cons.prems(5)]
  let ?c1 = "snd (cn_clock c)" and ?c2 = "(snd (cn_clock c))\<lparr>cn_in := es @ later\<rparr>"
  have c2: "clock_end ?c2 = clock_end c" "sum_list (cn_steps ?c2) \<le> sum_list (cn_steps c)" using now(2,3) by (simp_all add: clock_end_def)
  have next_call: "\<exists>c'. receive_request scripted_service fd deadline b (?c2, d) = Some (b @ concat (map data_of es), (c', d)) \<and>
      cn_takes c' = cn_takes c \<and> cn_out c' = cn_out c \<and> clock_end c' = clock_end c \<and> sum_list (cn_steps c') \<le> sum_list (cn_steps c)"
    if "exact_request (b @ concat (map data_of es))" "concat (map data_of es) \<noteq> []" for b
    using Cons.IH [OF that(1) _ that(2), of ?c2] Cons.prems(2,5) c2 by (auto intro: order_trans)
  show ?case
  proof (cases x)
    case (Received y)
    have y: "y \<noteq> []" "data_of x = y" using Cons.prems(2) Received by (auto simp: goes_on_def data_of_def)
    then have "cn_recv (kMaxSettingsBytes - length buffer) ?c1 = (Received y, ?c2)"
      using Cons.prems(4) Received room(2) by (simp add: cn_recv_def)
    then have step: "receive_request scripted_service fd deadline buffer (c, d) =
        (if request_complete (buffer @ y) then Some (buffer @ y, (?c2, d))
         else receive_request scripted_service fd deadline (buffer @ y) (?c2, d))"
      using room(1) y(1) now(1) by (subst receive_request.simps) (simp add: scripted_calls)
    show ?thesis
    proof (cases "concat (map data_of es) = []")
      case True
      have "exact_request (buffer @ y)" using Cons.prems(1) y(2) by (simp only: list.map concat.simps True append_Nil2)
      then have "request_complete (buffer @ y)" by (rule exact_request_complete)
      then show ?thesis using step True y(2) c2 by simp
    next
      case False
      have e: "exact_request ((buffer @ y) @ concat (map data_of es))" using Cons.prems(1) y(2) by simp
      have "\<not> request_complete (buffer @ y)" by (rule exact_request_not_before [OF e False])
      then show ?thesis using step y(2) next_call [OF e False] by simp
    qed
  next
    case RecvInterrupted
    then have "cn_recv (kMaxSettingsBytes - length buffer) ?c1 = (RecvInterrupted, ?c2)" "data_of x = []"
      using Cons.prems(4) by (simp_all add: cn_recv_def data_of_def)
    then show ?thesis
      using next_call [of buffer] Cons.prems(1,3) room(1) now(1)
      by (subst receive_request.simps) (simp add: scripted_calls)
  qed (use Cons.prems(2) in \<open>simp add: goes_on_def\<close>)
qed

lemma send_split:
  assumes "clock_end c < unat deadline" "list_all takes_some (cn_takes c)"
  shows "\<exists>c'. send_reply scripted_service fd deadline rest (c, d) = Some (c', d) \<and> cn_out c' = cn_out c @ rest"
  using assms
proof (induction "length (cn_takes c)" arbitrary: c rest)
  case 0
  let ?c1 = "snd (cn_clock c)"
  have "cn_takes ?c1 = []" using 0 by simp
  then have "cn_send rest ?c1 = (Sent (length rest), ?c1\<lparr>cn_out := cn_out c @ rest\<rparr>)" by (simp add: cn_send_def)
  then show ?case using clock_before(1) [OF 0(2)]
    by (subst send_reply.simps) (simp add: scripted_calls send_reply.simps [of _ _ _ "[]"])
next
  case (Suc n)
  note now = clock_before [OF Suc.prems(1)]
  let ?c1 = "snd (cn_clock c)"
  obtain x xs where c: "cn_takes c = x # xs" using Suc(2) by (cases "cn_takes c") auto
  have ih: "\<exists>c'. send_reply scripted_service fd deadline ys (?c1\<lparr>cn_takes := xs, cn_out := out\<rparr>, d) = Some (c', d) \<and>
      cn_out c' = out @ ys" for ys out
    using Suc(1) [of "?c1\<lparr>cn_takes := xs, cn_out := out\<rparr>" ys] Suc(2) Suc.prems c now(2) by (simp add: clock_end_def)
  show ?case
  proof (cases "rest = []")
    case True
    then show ?thesis by (subst send_reply.simps) simp
  next
    case False
    show ?thesis
    proof (cases x)
      case (Sent k)
      have k: "k \<noteq> 0" using Sent Suc.prems(2) c by (auto simp: takes_some_def)
      have "cn_send rest ?c1 = (Sent (min k (length rest)), ?c1\<lparr>cn_takes := xs, cn_out := cn_out c @ take k rest\<rparr>)"
        using c Sent by (simp add: cn_send_def)
      moreover have "drop (min k (length rest)) rest = drop k rest" by (simp add: min_def)
      moreover have "min k (length rest) \<noteq> 0" using k False by auto
      ultimately show ?thesis using False now(1) ih [of "drop k rest" "cn_out c @ take k rest"]
        by (subst send_reply.simps) (simp add: scripted_calls)
    next
      case SendInterrupted
      then have "cn_send rest ?c1 = (SendInterrupted, ?c1\<lparr>cn_takes := xs\<rparr>)" using c by (simp add: cn_send_def)
      moreover have "\<exists>c'. send_reply scripted_service fd deadline rest (?c1\<lparr>cn_takes := xs\<rparr>, d) = Some (c', d) \<and>
          cn_out c' = cn_out c @ rest"
        using Suc(1) [of "?c1\<lparr>cn_takes := xs\<rparr>" rest] Suc(2) Suc.prems c now(2) by (simp add: clock_end_def)
      ultimately show ?thesis using False now(1) by (subst send_reply.simps) (simp add: scripted_calls)
    qed (use Suc.prems(2) c in \<open>simp add: takes_some_def\<close>)
  qed
qed

subsection \<open>The whole exchange\<close>

lemma client_scripted:
  "client scripted_service px page fd store (c, d) =
     (case receive_request scripted_service fd (fst (cn_clock c) + 2000) [] (snd (cn_clock c), d) of
        None \<Rightarrow> None
      | Some (q, e2) \<Rightarrow>
          (case settings_http_response px q page store e2 of
             None \<Rightarrow> None
           | Some (reply, store1, (c2, d2)) \<Rightarrow>
               (case send_reply scripted_service fd (fst (cn_clock c2) + 2000) reply (snd (cn_clock c2), d2) of
                  None \<Rightarrow> None | Some e5 \<Rightarrow> Some (store1, e5))))"
  by (auto simp: client_def scripted_calls split: option.splits prod.splits)

text \<open>An exchange that has received \<open>q\<close>: the HTTP function is called on it and the answer sent.\<close>

definition served :: "(connection \<times> 'd) posix \<Rightarrow> string \<Rightarrow> int \<Rightarrow> settings_store \<Rightarrow> connection \<Rightarrow> 'd \<Rightarrow> string \<Rightarrow> bool" where
  "served px page fd store c d q \<longleftrightarrow>
     (\<exists>more c1. arriving c = q @ more \<and> length q \<le> kMaxSettingsBytes \<and> cn_out c1 = cn_out c \<and>
        (case settings_http_response px q page store (c1, d) of
           None \<Rightarrow> client scripted_service px page fd store (c, d) = None
         | Some (reply, store', (c2, d')) \<Rightarrow>
             \<exists>c' sent unsent. client scripted_service px page fd store (c, d) = Some (store', (c', d')) \<and>
               cn_out c' = cn_out c2 @ sent \<and> reply = sent @ unsent))"

lemma client_any: "\<exists>q. served px page fd store c d q"
proof -
  obtain q c2 more where r: "receive_request scripted_service fd (fst (cn_clock c) + 2000) [] (snd (cn_clock c), d) = Some (q, (c2, d))"
      "arriving c = q @ more" "length q \<le> kMaxSettingsBytes" "cn_out c2 = cn_out c"
    using receive_any [of "[]" fd "fst (cn_clock c) + 2000" "snd (cn_clock c)" d] by auto
  note run = client_scripted [of px page fd store c d, unfolded r(1) option.case prod.case]
  have "case settings_http_response px q page store (c2, d) of
         None \<Rightarrow> client scripted_service px page fd store (c, d) = None
       | Some (reply, store', (c3, d')) \<Rightarrow>
           \<exists>c' sent unsent. client scripted_service px page fd store (c, d) = Some (store', (c', d')) \<and>
             cn_out c' = cn_out c3 @ sent \<and> reply = sent @ unsent"
  proof (cases "settings_http_response px q page store (c2, d)")
    case (Some a)
    obtain rep st c3 d3 where a: "a = (rep, st, (c3, d3))" by (metis prod.collapse)
    show ?thesis using run Some a send_any [of fd "fst (cn_clock c3) + 2000" rep "snd (cn_clock c3)" d3] by auto
  qed (use run in simp)
  then show ?thesis using r(2-4) unfolding served_def by blast
qed

text \<open>What an exchange in time is: it ends before the deadline set at its first look at the clock.\<close>

definition in_time :: "connection \<Rightarrow> bool" where
  "in_time c \<longleftrightarrow> sum_list (cn_steps c) < 2000 \<and> unat (cn_now c) + 4000 < 2 ^ 64"

lemma deadline_ahead:
  assumes "in_time c" "clock_end u = clock_end c" "sum_list (cn_steps u) \<le> sum_list (cn_steps c)"
  shows "clock_end (snd (cn_clock u)) < unat (fst (cn_clock u) + 2000)"
proof -
  have e: "clock_end u < 2 ^ 64" using assms(1,2) by (simp add: clock_end_def in_time_def)
  note k = clock_reads [OF e]
  have "unat (fst (cn_clock u)) + 2000 < 2 ^ 64" using k(2) assms(1,2) by (simp add: clock_end_def in_time_def)
  then have "unat (fst (cn_clock u) + 2000) = unat (fst (cn_clock u)) + 2000" by (subst unat_add_fits) simp_all
  then show ?thesis using k(3,4) assms(1,3) by (simp add: clock_end_def in_time_def)
qed

lemma client_in_time:
  assumes "exact_request request" "cn_in c = es @ later" "concat (map data_of es) = request" "list_all goes_on es"
    and "list_all takes_some (cn_takes c)" "in_time c"
    and "\<And>c. settings_http_response px request page store (c, d) = Some (reply, store', (c, d'))"
  shows "\<exists>c'. client scripted_service px page fd store (c, d) = Some (store', (c', d')) \<and> cn_out c' = cn_out c @ reply"
proof -
  let ?c1 = "snd (cn_clock c)" and ?deadline = "fst (cn_clock c) + 2000"
  have "concat (map data_of es) \<noteq> []" using assms(1,3) by (auto simp: exact_request_def crlf_def split: option.splits)
  moreover have "clock_end c < 2 ^ 64" using assms(6) by (simp add: clock_end_def in_time_def)
  note k = clock_reads [OF this]
  ultimately obtain c3 where 3: "receive_request scripted_service fd ?deadline [] (?c1, d) = Some (request, (c3, d))"
      "cn_takes c3 = cn_takes c" "cn_out c3 = cn_out c" "clock_end c3 = clock_end c" "sum_list (cn_steps c3) \<le> sum_list (cn_steps ?c1)"
    using receive_split [of "[]" es ?c1 later ?deadline fd d] deadline_ahead [OF assms(6) refl] assms(1-4) by auto
  have "\<exists>c'. send_reply scripted_service fd (fst (cn_clock c3) + 2000) reply (snd (cn_clock c3), d') = Some (c', d') \<and>
      cn_out c' = cn_out (snd (cn_clock c3)) @ reply"
    using deadline_ahead [OF assms(6) 3(4)] 3(2,5) k(4) assms(5) by (intro send_split) simp_all
  then show ?thesis using client_scripted [of px page fd store c d] 3(1,3) assms(7) by auto
qed

section \<open>Properties\<close>

text \<open>
  (C11) Whatever arrives, whatever the peer takes and however the time passes, an exchange has the
  HTTP function called once, on a beginning of what arrived; when that returns, the exchange ends
  with the settings it leaves and a beginning of its answer sent.  And when nothing fails and the
  whole exchange takes less than the two seconds of each deadline, a request without NULs, within
  the size limit, that announces the length of its body is answered as a whole, however it is
  split on its way, with signals in between, and the whole answer is sent, however the peer takes
  it.
\<close>

theorem service_answers_any_split:
  "(\<exists>q. served px page fd store c d q) \<and>
   (exact_request request \<and> cn_in c = es @ later \<and> concat (map data_of es) = request \<and> list_all goes_on es \<and>
      list_all takes_some (cn_takes c) \<and> in_time c \<and>
      (\<forall>c. settings_http_response px request page store (c, d) = Some (reply, store', (c, d'))) \<longrightarrow>
    (\<exists>c'. client scripted_service px page fd store (c, d) = Some (store', (c', d')) \<and> cn_out c' = cn_out c @ reply))"
proof (intro conjI impI)
  show "\<exists>q. served px page fd store c d q" by (rule client_any)
next
  assume a: "exact_request request \<and> cn_in c = es @ later \<and> concat (map data_of es) = request \<and> list_all goes_on es \<and>
      list_all takes_some (cn_takes c) \<and> in_time c \<and>
      (\<forall>c. settings_http_response px request page store (c, d) = Some (reply, store', (c, d')))"
  show "\<exists>c'. client scripted_service px page fd store (c, d) = Some (store', (c', d')) \<and> cn_out c' = cn_out c @ reply"
    by (rule client_in_time [of request c es later]) (use a in blast)+
qed

text \<open>The page's question for the settings announces the length it has.\<close>

lemma get_exact: "exact_request get_text"
  by code_simp

theorem service_answers_any_split_witness:
  "\<forall>(px :: (connection \<times> unit) posix) store. \<exists>c'.
    client scripted_service px [] 7 store
      (\<lparr>cn_in = [Received (take 13 get_text), RecvInterrupted, Received (drop 13 get_text)], cn_takes = [Sent 5, SendInterrupted],
        cn_out = [], cn_now = 1000, cn_steps = [0, 400, 0, 900, 1]\<rparr>, ()) = Some (store, (c', ())) \<and> cn_out c' = ok_config (store_get store)"
proof (intro allI)
  fix px :: "(connection \<times> unit) posix" and store :: settings_store
  let ?es = "[Received (take 13 get_text), RecvInterrupted, Received (drop 13 get_text)]"
  let ?c = "\<lparr>cn_in = ?es, cn_takes = [Sent 5, SendInterrupted], cn_out = [], cn_now = 1000, cn_steps = [0, 400, 0, 900, 1]\<rparr> :: connection"
  have es: "concat (map data_of ?es) = get_text" by (simp add: data_of_def)
  have "take 13 get_text \<noteq> [] \<and> drop 13 get_text \<noteq> []" by code_simp
  then have go: "list_all goes_on ?es" by (simp add: goes_on_def)
  have rest: "list_all takes_some (cn_takes ?c)" "in_time ?c" "cn_in ?c = ?es @ []" by (simp_all add: takes_some_def in_time_def)
  from service_answers_any_split [of px "[]" 7 store ?c "()" get_text ?es "[]" "ok_config (store_get store)" store "()"]
  show "\<exists>c'. client scripted_service px [] 7 store (?c, ()) = Some (store, (c', ())) \<and> cn_out c' = ok_config (store_get store)"
    using get_exact es go rest get_answers [of px "[]" store] by simp
qed

end
