(* ===== verification/Startup.thy ===== *)
theory Startup
  imports Controller_Runs Media_Launcher Settings_Service
begin

text \<open>
  The start of the controller process (\<^verbatim>\<open>set_payload_identity\<close> and
  \<^verbatim>\<open>run_tracked_worker\<close> up to its loop, \<^verbatim>\<open>src/ps5/commonfps_ps5_main.cpp\<close>):
  logs, identity, settings, media launcher and settings service, and then the passes of the
  controller, or none when the launcher could not put the credentials back.  The texts of the
  records are left to \<open>su_say\<close>.
\<close>

section \<open>Definitions\<close>

record payload_identity =
  pi_process_name_rc :: int
  pi_process_name_errno :: int
  pi_thread_name_rc :: int
  pi_thread_name_errno :: int

datatype startup_record =
    WorkerReady process_lookup payload_identity
  | Fw1160Runtime
  | SamplerQuarantined
  | ListenerUnavailable

record 'e startup_api =
  su_log :: "'e log_api"
  su_set_process_name :: "string \<Rightarrow> 'e \<Rightarrow> (int \<times> int) \<times> 'e"
  su_set_thread_name :: "string \<Rightarrow> 'e \<Rightarrow> (int \<times> int) \<times> 'e"
  su_mkdir :: "string \<Rightarrow> 'e \<Rightarrow> 'e"
  su_posix :: "'e posix"
  su_launcher :: "'e launcher_api"
  su_service :: "'e service_api"
  su_controller :: "'e controller_api"
  su_say :: "startup_record \<Rightarrow> 'e \<Rightarrow> 'e"

definition kPayloadProcessName :: string where "kPayloadProcessName = ''CommonFPS.elf''"
definition kSettingsPath :: string where "kSettingsPath = ''/data/CommonFPS/config.ini''"

text \<open>Each call answers its result and the error number behind it.\<close>

definition set_payload_identity :: "'e startup_api \<Rightarrow> 'e \<Rightarrow> payload_identity \<times> 'e" where
  "set_payload_identity su e =
     (case su_set_process_name su kPayloadProcessName e of
        ((rc, err), e1) \<Rightarrow>
          (case su_set_thread_name su kPayloadProcessName e1 of
             ((rc2, err2), e2) \<Rightarrow>
               (\<lparr>pi_process_name_rc = rc, pi_process_name_errno = (if rc = 0 then 0 else err),
                 pi_thread_name_rc = rc2, pi_thread_name_errno = (if rc2 = 0 then 0 else err2)\<rparr>, e2)))"

definition announce_worker :: "'e startup_api \<Rightarrow> 'e \<Rightarrow> 'e" where
  "announce_worker su e =
     (case set_payload_identity su e of
        (identity, e1) \<Rightarrow>
          (case observe_shellui_once (ca_processes (su_controller su)) e1 of
             (observed, e2) \<Rightarrow>
               (case firmware_sdk_version (ca_platform (su_controller su)) (su_say su (WorkerReady observed identity) e2) of
                  (sdk, e3) \<Rightarrow> if firmware_is_fw1160 sdk then su_say su Fw1160Runtime e3 else e3)))"

text \<open>\<open>Quarantined\<close> is the endless sleep after a failed restoration, \<open>Sampling\<close> the first passes.\<close>

datatype worker_end = Quarantined | Sampling settings_store "pass list" controller

definition start_worker :: "'e startup_api \<Rightarrow> nat \<Rightarrow> 'e \<Rightarrow> (worker_end \<times> 'e) option" where
  "start_worker su passes e =
     (case open_store (su_posix su) kSettingsPath (su_mkdir su ''/data/CommonFPS'' (announce_worker su e)) of
        (settings, e1) \<Rightarrow>
          (case firmware_sdk_version (ca_platform (su_controller su)) e1 of
             (sdk, e2) \<Rightarrow>
               (case ensure_media_launcher (su_launcher su) sdk e2 of
                  None \<Rightarrow> None
                | Some (False, e3) \<Rightarrow> Some (Quarantined, su_say su SamplerQuarantined e3)
                | Some (True, e3) \<Rightarrow>
                    (case start_settings_service (su_service su) e3 of
                       (online, e4) \<Rightarrow>
                         (case controller_run (su_controller su) passes controller_init
                                 (if online then e4 else su_say su ListenerUnavailable e4) of
                            (ps, s, e5) \<Rightarrow> Some (Sampling settings ps s, e5))))))"

definition run_tracked_worker :: "'e startup_api \<Rightarrow> nat \<Rightarrow> 'e \<Rightarrow> (worker_end \<times> 'e) option" where
  "run_tracked_worker su passes e =
     (case reset_session_log (su_log su) kControllerLogPath e of
        None \<Rightarrow> None
      | Some e1 \<Rightarrow>
          (case reset_session_log (su_log su) kRendererLogPath e1 of
             None \<Rightarrow> None
           | Some e2 \<Rightarrow> start_worker su passes e2))"

section \<open>Starting\<close>

text \<open>The sampler never runs after a launcher that could not put the credentials back.\<close>

lemma sampling_after_launcher:
  assumes "run_tracked_worker su passes e = Some (Sampling settings ps s, e')"
  shows "\<exists>sdk e1 e2. ensure_media_launcher (su_launcher su) sdk e1 = Some (True, e2)"
  using assms
  by (auto simp: run_tracked_worker_def start_worker_def split: option.splits prod.splits bool.splits)

text \<open>The overlay's settings are in range from the start, whatever the file holds.\<close>

lemma opened_settings_ok: "open_store px path e = (settings, e') \<Longrightarrow> config_ok (st_config settings)"
  by (auto simp: open_store_def parse_config_text_def config_ok_sanitize default_config_ok split: option.splits prod.splits if_splits)

lemma sampling_settings_ok:
  assumes "run_tracked_worker su passes e = Some (Sampling settings ps s, e')"
  shows "config_ok (st_config settings)"
  using assms
  by (auto simp: run_tracked_worker_def start_worker_def split: option.splits prod.splits bool.splits dest: opened_settings_ok)

end
