(* ===== verification/Preflight.thy ===== *)
theory Preflight
  imports Process_List Hook_Protocol
begin

text \<open>
  The diagnostic preflight (\<^verbatim>\<open>src/ps5/fw1160_preflight_main.cpp\<close>): it observes the
  process list for two minutes on one firmware and does nothing else.  The log lines are left
  out; a snapshot answers the counts it logs at its end, \<open>None\<close> when it logs none.
\<close>

section \<open>Definitions\<close>

definition kMaxProcessBytes :: nat where "kMaxProcessBytes = 4 * 1024 * 1024"
definition kObserveSeconds :: nat where "kObserveSeconds = 120"

record snapshot_counts =
  sn_records :: u32
  sn_malformed :: u32
  sn_games :: u32
  sn_shells :: u32

definition counts_init :: snapshot_counts where
  "counts_init = \<lparr>sn_records = 0, sn_malformed = 0, sn_games = 0, sn_shells = 0\<rparr>"

definition count_view :: "process_view \<Rightarrow> snapshot_counts \<Rightarrow> snapshot_counts" where
  "count_view view s =
     s\<lparr>sn_records := sn_records s + 1,
       sn_games := (if 0 \<le> pv_game_name_offset view then sn_games s + 1 else sn_games s),
       sn_shells := (if 0 \<le> pv_shellui_name_offset view then sn_shells s + 1 else sn_shells s)\<rparr>"

lemma view_size: "preflight_process_view bs = Some view \<Longrightarrow> 80 \<le> pv_size view \<and> pv_size view \<le> length bs"
  by (auto simp: preflight_process_view_def Let_def split: if_splits)

function snapshot_walk :: "bytes \<Rightarrow> snapshot_counts \<Rightarrow> snapshot_counts" where
  "snapshot_walk rest s =
     (if rest = [] then s
      else case preflight_process_view rest of
             None \<Rightarrow> s\<lparr>sn_malformed := sn_malformed s + 1\<rparr>
           | Some view \<Rightarrow> snapshot_walk (drop (pv_size view) rest) (count_view view s))"
  by auto

termination snapshot_walk
  by (relation "measure (\<lambda>(rest, _). length rest)") (auto dest!: view_size)

declare snapshot_walk.simps [simp del]

definition snapshot :: "'e process_api \<Rightarrow> 'e \<Rightarrow> snapshot_counts option \<times> 'e" where
  "snapshot pa e =
     (case pa_size pa e of
        ((size_rc, required), e1) \<Rightarrow>
          if size_rc \<noteq> 0 \<or> required = 0 \<or> kMaxProcessBytes < required then (None, e1)
          else
            let capacity = min (required + required div 4 + 4096) kMaxProcessBytes
            in case pa_alloc pa capacity e1 of
                 (False, e2) \<Rightarrow> (None, e2)
               | (True, e2) \<Rightarrow>
                   (case pa_data pa capacity e2 of
                      ((data_rc, count, buffer), e3) \<Rightarrow>
                        (if data_rc = 0 \<and> count \<le> capacity then Some (snapshot_walk (take count buffer) counts_init) else None, e3)))"

fun observe_ticks :: "'e process_api \<Rightarrow> ('e \<Rightarrow> 'e) \<Rightarrow> nat \<Rightarrow> 'e \<Rightarrow> snapshot_counts option list \<times> 'e" where
  "observe_ticks pa pause 0 e = ([], e)"
| "observe_ticks pa pause (Suc n) e =
     (case snapshot pa e of (s, e1) \<Rightarrow> case observe_ticks pa pause n (pause e1) of (ss, e2) \<Rightarrow> (s # ss, e2))"

text \<open>The observation; the program then stays resident without doing anything.\<close>

definition preflight_main :: "'e process_api \<Rightarrow> ('e \<Rightarrow> 'e) \<Rightarrow> u32 \<Rightarrow> 'e \<Rightarrow> snapshot_counts option list \<times> 'e" where
  "preflight_main pa pause sdk e =
     (if and sdk 0xffff0000 \<noteq> 0x11600000 then ([], e) else observe_ticks pa pause kObserveSeconds e)"

section \<open>The counts\<close>

text \<open>The views of the records at the front of a buffer, up to the first that is malformed.\<close>

function views_of :: "bytes \<Rightarrow> process_view list" where
  "views_of rest =
     (if rest = [] then []
      else case preflight_process_view rest of None \<Rightarrow> [] | Some view \<Rightarrow> view # views_of (drop (pv_size view) rest))"
  by auto

termination views_of
  by (relation "measure length") (auto dest!: view_size)

declare views_of.simps [simp del]

lemma snapshot_walk_counts:
  "snapshot_walk rest s = (let vs = views_of rest in
     s\<lparr>sn_records := sn_records s + of_nat (length vs),
       sn_malformed := sn_malformed s + (if sum_list (map pv_size vs) = length rest then 0 else 1),
       sn_games := sn_games s + of_nat (length (filter (\<lambda>v. 0 \<le> pv_game_name_offset v) vs)),
       sn_shells := sn_shells s + of_nat (length (filter (\<lambda>v. 0 \<le> pv_shellui_name_offset v) vs))\<rparr>)"
proof (induction rest s rule: snapshot_walk.induct)
  case (1 rest s)
  show ?case
  proof (cases "rest = []")
    case True
    then show ?thesis by (simp add: snapshot_walk.simps views_of.simps)
  next
    case False
    show ?thesis
    proof (cases "preflight_process_view rest")
      case None
      then show ?thesis using False by (simp add: snapshot_walk.simps [of rest] views_of.simps [of rest])
    next
      case (Some view)
      have "pv_size view \<le> length rest" using view_size [OF Some] by simp
      then show ?thesis using 1 [OF False Some] Some False
        by (simp add: snapshot_walk.simps [of rest] views_of.simps [of rest] count_view_def Let_def)
    qed
  qed
qed

end
