(* ===== verification/Loader_Contract.thy ===== *)
theory Loader_Contract
  imports Prelude
begin

text \<open>
  The loader contract the renderer was first installed under
  (\<^verbatim>\<open>integration/loader/v1_loader_contract.cpp\<close>): wait, one session, payload
  arguments, load, continue.  The backend is a record of functions over an environment.
\<close>

section \<open>Definitions\<close>

record 'e loader_backend =
  lb_wait_for_shellui_scene :: "'e \<Rightarrow> bool \<times> 'e"
  lb_begin_loader_session :: "'e \<Rightarrow> bool \<times> 'e"
  lb_prepare_payload_args :: "'e \<Rightarrow> u64 \<times> 'e"
  lb_load_renderer :: "bytes \<Rightarrow> u64 \<Rightarrow> 'e \<Rightarrow> bool \<times> 'e"
  lb_continue_target :: "'e \<Rightarrow> bool \<times> 'e"
  lb_end_loader_session :: "'e \<Rightarrow> bool \<times> 'e"

definition end_failed_session :: "'e loader_backend \<Rightarrow> 'e \<Rightarrow> bool \<times> 'e" where
  "end_failed_session b e = (False, snd (lb_end_loader_session b e))"

definition install_renderer_v1_compatible :: "'e loader_backend \<Rightarrow> bytes \<Rightarrow> 'e \<Rightarrow> bool \<times> 'e" where
  "install_renderer_v1_compatible b elf e =
     (if elf = [] then (False, e)
      else case lb_wait_for_shellui_scene b e of
        (False, e1) \<Rightarrow> (False, e1)
      | (True, e1) \<Rightarrow>
          (case lb_begin_loader_session b e1 of
             (False, e2) \<Rightarrow> (False, e2)
           | (True, e2) \<Rightarrow>
               (case lb_prepare_payload_args b e2 of
                  (args, e3) \<Rightarrow>
                    if args = 0 then end_failed_session b e3
                    else case lb_load_renderer b elf args e3 of
                           (False, e4) \<Rightarrow> end_failed_session b e4
                         | (True, e4) \<Rightarrow>
                             (case lb_continue_target b e4 of
                                (False, e5) \<Rightarrow> end_failed_session b e5
                              | (True, e5) \<Rightarrow> lb_end_loader_session b e5))))"

section \<open>Sessions\<close>

text \<open>What a backend promises of its sessions: only beginning opens one and ending closes it.\<close>

locale loader_sessions =
  fixes b :: "'e loader_backend" and session :: "'e \<Rightarrow> bool"
  assumes wait_law: "\<And>e. session (snd (lb_wait_for_shellui_scene b e)) = session e"
    and begin_law: "\<And>e. session (snd (lb_begin_loader_session b e)) = (fst (lb_begin_loader_session b e) \<or> session e)"
    and args_law: "\<And>e. session (snd (lb_prepare_payload_args b e)) = session e"
    and load_law: "\<And>elf a e. session (snd (lb_load_renderer b elf a e)) = session e"
    and continue_law: "\<And>e. session (snd (lb_continue_target b e)) = session e"
    and end_law: "\<And>e. \<not> session (snd (lb_end_loader_session b e))"
begin

lemma no_session_left:
  assumes "\<not> session e" shows "\<not> session (snd (install_renderer_v1_compatible b elf e))"
proof -
  obtain w e1 where 1: "lb_wait_for_shellui_scene b e = (w, e1)" by (cases "lb_wait_for_shellui_scene b e")
  obtain s e2 where 2: "lb_begin_loader_session b e1 = (s, e2)" by (cases "lb_begin_loader_session b e1")
  have "\<not> session e1" "s \<or> \<not> session e2" using assms wait_law [of e] begin_law [of e1] 1 2 by auto
  then show ?thesis using assms 1 2
    by (auto simp: install_renderer_v1_compatible_def end_failed_session_def end_law split: prod.splits bool.splits)
qed

end

text \<open>A backend that records the calls, each of which may fail by script.\<close>

record loader_script =
  ls_fail :: "nat option"
  ls_calls :: nat
  ls_session :: bool

definition ls_step :: "loader_script \<Rightarrow> bool \<times> loader_script" where
  "ls_step s = (ls_fail s \<noteq> Some (ls_calls s), s\<lparr>ls_calls := ls_calls s + 1\<rparr>)"

definition scripted_backend :: "loader_script loader_backend" where
  "scripted_backend =
     \<lparr>lb_wait_for_shellui_scene = ls_step,
      lb_begin_loader_session = (\<lambda>s. case ls_step s of (ok, t) \<Rightarrow> (ok, t\<lparr>ls_session := ok \<or> ls_session t\<rparr>)),
      lb_prepare_payload_args = (\<lambda>s. case ls_step s of (ok, t) \<Rightarrow> (if ok then 1 else 0, t)),
      lb_load_renderer = \<lambda>elf a. ls_step, lb_continue_target = ls_step,
      lb_end_loader_session = (\<lambda>s. case ls_step s of (ok, t) \<Rightarrow> (ok, t\<lparr>ls_session := False\<rparr>))\<rparr>"

interpretation scripted: loader_sessions scripted_backend ls_session
  by unfold_locales (simp_all add: scripted_backend_def ls_step_def)

text \<open>
  Whichever of its calls fails, the installation leaves no loader session open, and it succeeds
  exactly when none of its six calls fails.
\<close>

theorem loader_session_closed:
  assumes "elf \<noteq> []"
  shows "case install_renderer_v1_compatible scripted_backend elf \<lparr>ls_fail = f, ls_calls = 0, ls_session = False\<rparr> of
    (ok, s) \<Rightarrow> \<not> ls_session s \<and> (ok \<longleftrightarrow> (\<forall>n. f = Some n \<longrightarrow> 6 \<le> n))"
proof -
  let ?s = "\<lparr>ls_fail = f, ls_calls = 0, ls_session = False\<rparr>"
  have "\<not> ls_session (snd (install_renderer_v1_compatible scripted_backend elf ?s))"
    by (rule scripted.no_session_left) simp
  moreover have "fst (install_renderer_v1_compatible scripted_backend elf ?s) \<longleftrightarrow> (\<forall>n. f = Some n \<longrightarrow> 6 \<le> n)"
  proof (cases f)
    case None
    then show ?thesis using assms
      by (simp add: install_renderer_v1_compatible_def scripted_backend_def ls_step_def)
  next
    case (Some n)
    consider "n = 0" | "n = 1" | "n = 2" | "n = 3" | "n = 4" | "n = 5" | "6 \<le> n" by linarith
    then show ?thesis using assms Some
      by cases (simp_all add: install_renderer_v1_compatible_def end_failed_session_def scripted_backend_def ls_step_def)
  qed
  ultimately show ?thesis by (simp add: case_prod_beta)
qed

end
