(* ===== verification/Spec2Isabelle.thy ===== *)
theory Spec2Isabelle
  imports Layout Display_Filter Dce_Counter Fps_Sampler Autoload_Guard Scene_Guard Lifecycle Wire
    Hook_Handshake Ps5_Platform Renderer_Entry Startup Preflight Loader_Contract
begin

text \<open>
  A verification library of Common FPS for PS5: a resident controller that measures the frame
  rate of the running game, an ELF image it injects into the console's shell to draw the number,
  and a settings page it serves on the loopback address.

  \<^bold>\<open>The program.\<close>  Once a second the controller (\<^verbatim>\<open>src/ps5/commonfps_ps5_main.cpp\<close>)
  looks for the shell and the game in the kernel's process list, asks two samplers for a rate,
  filters it for display and sends a 44-byte packet to the renderer.  The VideoOut sampler
  (\<^verbatim>\<open>src/core/fps_sampler.cpp\<close>) reads a counter in the game's memory; the DCE sampler
  (\<^verbatim>\<open>src/core/dce_counter_sampler.cpp\<close>, \<^verbatim>\<open>src/ps5/dce_fps_sampler.cpp\<close>)
  reads the display engine's status block.  The renderer
  (\<^verbatim>\<open>src/ps5/shellui_payload\<close>) is mapped into the shell by the injector
  (\<^verbatim>\<open>src/ps5/shellui_injector.cpp\<close> and the files it calls), asks the controller through
  two files to patch one method of the shell, and draws through the shell's Mono runtime.

  \<^bold>\<open>Conventions.\<close>  Words are kept at their width; floating point is exact rational
  arithmetic rounded once per operation (\<open>Floats\<close>, patterns in \<open>Float_Bits\<close>), text a
  list of characters, memory and files lists of bytes.  What is outside the sources (kernel,
  debugger, Mono, sockets, files, the pinned ELF loader) is a record of functions over an
  environment type \<open>'e\<close> that is threaded through every call; what a proof needs of it is a
  named hypothesis or a locale, with an instance on a concrete environment.  A failure of the code is
  \<open>None\<close> or \<open>False\<close> of the model, a thrown away result is thrown away.  Loops with a
  bound of the code are recursions over that bound; loops that may repeat an interrupted call
  without end are \<open>partial_function (option)\<close>, with \<open>None\<close> for a call that does not
  return; endless loops are observed through their first \<open>n\<close> turns or one turn.

  \<^bold>\<open>Shared theories.\<close>  \<open>Prelude\<close> (words, little-endian buffers, runs over a list of
  inputs, the contract \<open>rate_source\<close> of every source of rates), \<open>Codec\<close> (the contract of a
  packed structure), \<open>Floats\<close>, \<open>Float_Bits\<close>, \<open>Decimal\<close>, \<open>Text_Format\<close>
  (\<^verbatim>\<open>strtof\<close>, stream output, lines), \<open>Files\<close> (write beside, then rename),
  \<open>Platform\<close> (the samplers' view of a console), \<open>Readiness\<close> (the contract of the two
  guards).

  \<^bold>\<open>Measuring.\<close>  \<open>Fps_Sampler\<close> models \<^verbatim>\<open>FpsSampler\<close>: attachment, probe,
  discovery of a counter behind pointer chains, measurement.  Its lemmas show that discovery
  picks only plausible counters and the first best of them, and that a measured rate is the
  nearest integer to the true one.  \<open>Dce_Counter\<close> models the twelve words of the status block;
  no rounding of the doubles ever shows, and a reported word is explained by the history of polls:
  the known word, or one with similar rates in two searches that follow each other.
  \<open>Dce_Device\<close> adds the device, the shared sample file and the raised credentials: when they
  stay raised, the last attempt to put the old ones back was refused.  \<open>Page_Walk\<close> is the reader of another process's memory
  through its page tables, \<open>Process_List\<close> the look for processes, \<open>Ps5_Platform\<close> the
  console's platform with its module search.  \<open>Display_Filter\<close> is the filter between a rate
  and the overlay; its lemmas are over histories of polls: which samples stand behind a rise, and
  that a steady rate is shown in the end.

  \<^bold>\<open>Configuring.\<close>  \<open>Overlay_Config\<close>, \<open>Layout\<close>, \<open>Config_Text\<close> (the file),
  \<open>Settings_Form\<close>, \<open>Settings_Store\<close>, \<open>Settings_Http\<close> and \<open>Settings_Service\<close>
  (the page from the form to the socket), \<open>Media_Launcher\<close> (its title), \<open>Session_Log\<close>.
  The lemmas show round trips of the text, saving as a whole or not at all, that only a trusted
  request changes settings, that every exchange of the service ends and that a request inside the
  deadlines is answered as a whole however it is split, that logs stay bounded.

  \<^bold>\<open>Controlling.\<close>  \<open>Controller\<close> is one pass of the main loop and its runs,
  \<open>Controller_Runs\<close> follows runs with invariants: the gates in front of the renderer and the
  honesty of the frames.  \<open>Startup\<close> is what comes before the loop.  \<open>Lifecycle\<close>,
  \<open>Autoload_Guard\<close> and \<open>Scene_Guard\<close> are the portable core's state machines,
  \<open>Wire\<close> the packets and their sender, \<open>Loader_Contract\<close> and \<open>Preflight\<close> the two
  side programs.

  \<^bold>\<open>Entering the shell.\<close>  \<open>Elf_Loader\<close> checks, relocates and transfers the image;
  relocation is compared with a specification byte by byte (a write beside the mirror, which the
  code does not prevent, sets the flag \<open>ld_overrun\<close>), and the loader never writes to a running
  shell.  Its contract lets the remote calls work on a stopped shell only and lets each of them be
  refused, so the mapping of a failed load may stay.  \<open>Injection\<close> is the debugger session around it, \<open>Injector\<close> decides when
  to inject and waits for the renderer; runs of it show that a shell gets one image and that a
  failed renderer is given up for good.  \<open>Renderer_Entry\<close> is the other end: the stage file, the
  attempts to start, the marker.

  \<^bold>\<open>Inside the shell.\<close>  \<open>Managed\<close> is the renderer's state with its garbage collector
  handles, \<open>Renderer\<close> the widgets, the update of a frame and the receiver,
  \<open>Instruction_Decoder\<close> the length decoder, jump and trampoline of the hook, compared with
  a table of the processor's encodings,
  \<open>Hook_Install\<close> the requests and the start of the renderer.  No handle is leaked or freed
  twice, whatever Mono answers.

  \<^bold>\<open>Patching the shell.\<close>  \<open>Hook_Protocol\<close> defines the two files and the firmware
  policy, \<open>Code_Read\<close> and \<open>Debugger\<close> the transfers and their windows of credentials and
  protection, \<open>Hook_Controller\<close> the transaction, and \<open>Hook_Handshake\<close> runs renderer and
  controller together over a disk that may fail: what the renderer believes afterwards is true
  of the memory.

  \<^bold>\<open>Bounds.\<close>  Bounded loops have the code's own bounds: 3500 polls for the marker, 60
  attempts to start, 120 snapshots, 1024 processes of the walk.  No fuel is chosen.  Where a
  call may not return, its return is proved under the stated limit on interruptions
  (saving the settings), for every finite script of failures (the session log), or for every
  scripted arrival of a request and every course of the clock, as long as the HTTP function
  returns (the service).

  \<^bold>\<open>Not modelled.\<close>  The text of log records, and values that are only logged; the stages that the
  renderer records around the hook's request and its acknowledgement and in the set-up of the
  style, which feed only the log (those of its entry are modelled); the machine
  code of the two assembly stubs (the stager's \<^verbatim>\<open>int3\<close> and the trampoline's reserved
  bytes); the pinned loader, SDK and Mono themselves; the diagnostic builds 26 to 29 of the
  injector, whose probes are not in the repository; threads other than as turns that follow each
  other (the packet lock and the store's mutex make their operations single steps); the web page,
  scripts, workflows and tests.
\<close>

end
